(* ===== verification/Prelude.thy ===== *)
theory Prelude
  imports Main
begin

text \<open>
  Shared vocabulary of the development.

  \<^item> \<open>prog\<close>: a Go function with a receiver state.  It takes the state, and returns either
    an error (\<open>Inl\<close>) or a value (\<open>Inr\<close>), together with the state it leaves behind.  A Go
    statement \<open>x, err := f(); if err != nil { return nil, err }\<close> is \<open>bindE f (\<lambda>x. \<dots>)\<close>; an
    ignored error \<open>_ = f()\<close> is \<open>ignoreE f\<close>.
  \<^item> \<open>wp m Q R w\<close>: the weakest precondition of \<open>m\<close>, for a postcondition \<open>Q\<close> on values and \<open>R\<close>
    on errors.  Its equations are collected in \<open>wp_simps\<close>.
  \<^item> \<open>along R m\<close>: \<open>m\<close> moves the state along \<open>R\<close>, with introduction rules for any preorder (locale
    \<open>state_preorder\<close>).
  \<^item> 64-bit two's complement arithmetic (\<open>wrap64\<close>) for the durations.
\<close>

named_theorems prog_defs \<comment> \<open>definitions of the program combinators\<close>
named_theorems wp_simps \<comment> \<open>equations of the program logic\<close>

section \<open>Programs: state and error\<close>

type_synonym ('w, 'e, 'a) prog = "'w \<Rightarrow> ('e + 'a) \<times> 'w"

definition returnE :: "'a \<Rightarrow> ('w, 'e, 'a) prog" where
  "returnE x = (\<lambda>w. (Inr x, w))"

definition throwE :: "'e \<Rightarrow> ('w, 'e, 'a) prog" where
  "throwE e = (\<lambda>w. (Inl e, w))"

definition bindE :: "('w, 'e, 'a) prog \<Rightarrow> ('a \<Rightarrow> ('w, 'e, 'b) prog) \<Rightarrow> ('w, 'e, 'b) prog" where
  "bindE m f = (\<lambda>w. case m w of (Inl e, w') \<Rightarrow> (Inl e, w') | (Inr x, w') \<Rightarrow> f x w')"

definition tryE :: "('w, 'e, 'a) prog \<Rightarrow> ('w, 'e, 'e + 'a) prog" where
  "tryE m = (\<lambda>w. case m w of (r, w') \<Rightarrow> (Inr r, w'))"

definition ignoreE :: "('w, 'e, 'a) prog \<Rightarrow> ('w, 'e, unit) prog" where
  "ignoreE m = (\<lambda>w. case m w of (_, w') \<Rightarrow> (Inr (), w'))"

definition liftE :: "'e + 'a \<Rightarrow> ('w, 'e, 'a) prog" where
  "liftE r = (\<lambda>w. (r, w))"

lemmas [prog_defs] = returnE_def throwE_def bindE_def tryE_def ignoreE_def liftE_def

lemma bindE_return [simp]: "bindE (returnE x) f = f x"
  by (simp add: prog_defs)

lemma bindE_throw [simp]: "bindE (throwE e) f = throwE e"
  by (simp add: prog_defs)

lemma bindE_assoc: "bindE (bindE m f) g = bindE m (\<lambda>x. bindE (f x) g)"
  by (auto simp: prog_defs fun_eq_iff split: prod.splits sum.splits)

lemma bindE_InrE:
  assumes "bindE m f w = (Inr y, w'')"
  obtains x w' where "m w = (Inr x, w')" and "f x w' = (Inr y, w'')"
  using assms by (auto simp: bindE_def split: prod.splits sum.splits)

lemma bindE_Inl: "m w = (Inl e, w') \<Longrightarrow> bindE m f w = (Inl e, w')"
  by (simp add: bindE_def)

lemma bindE_Inr: "m w = (Inr x, w') \<Longrightarrow> bindE m f w = f x w'"
  by (simp add: bindE_def)

section \<open>Weakest preconditions\<close>

text \<open>
  \<open>wp m Q R w\<close>: run from \<open>w\<close>, the program ends with a value and a state satisfying \<open>Q\<close>, or with
  an error and a state satisfying \<open>R\<close>.  The equations of \<open>wp_simps\<close> push \<open>wp\<close> through the
  combinators; the laws of a repository give introduction rules for its operations.
\<close>

definition wp ::
  "('w, 'e, 'a) prog \<Rightarrow> ('a \<Rightarrow> 'w \<Rightarrow> bool) \<Rightarrow> ('e \<Rightarrow> 'w \<Rightarrow> bool) \<Rightarrow> 'w \<Rightarrow> bool" where
  "wp m Q R w \<longleftrightarrow> (case m w of (Inl e, w') \<Rightarrow> R e w' | (Inr x, w') \<Rightarrow> Q x w')"

lemma wp_return [wp_simps]: "wp (returnE x) Q R w \<longleftrightarrow> Q x w"
  by (simp add: wp_def prog_defs)

lemma wp_throw [wp_simps]: "wp (throwE e) Q R w \<longleftrightarrow> R e w"
  by (simp add: wp_def prog_defs)

lemma wp_bind [wp_simps]: "wp (bindE m f) Q R w \<longleftrightarrow> wp m (\<lambda>x. wp (f x) Q R) R w"
  by (simp add: wp_def bindE_def split: prod.split sum.split)

lemma wp_try [wp_simps]: "wp (tryE m) Q R w \<longleftrightarrow> wp m (\<lambda>x. Q (Inr x)) (\<lambda>e. Q (Inl e)) w"
  by (simp add: wp_def tryE_def split: prod.split sum.split)

lemma wp_ignore [wp_simps]: "wp (ignoreE m) Q R w \<longleftrightarrow> wp m (\<lambda>_. Q ()) (\<lambda>_. Q ()) w"
  by (simp add: wp_def ignoreE_def split: prod.split sum.split)

lemma wp_lift [wp_simps]:
  "wp (liftE r) Q R w \<longleftrightarrow> (case r of Inl e \<Rightarrow> R e w | Inr x \<Rightarrow> Q x w)"
  by (simp add: wp_def liftE_def)

lemma wp_weaken:
  assumes "wp m Q R w" and "\<And>x w. Q x w \<Longrightarrow> Q' x w" and "\<And>e w. R e w \<Longrightarrow> R' e w"
  shows "wp m Q' R' w"
  using assms by (auto simp: wp_def split: prod.splits sum.splits)

lemma wp_Inr: "wp m Q R w \<Longrightarrow> m w = (Inr x, w') \<Longrightarrow> Q x w'"
  by (simp add: wp_def)

lemma wp_Inl: "wp m Q R w \<Longrightarrow> m w = (Inl e, w') \<Longrightarrow> R e w'"
  by (simp add: wp_def)

lemma wp_state: "wp m (\<lambda>_. I) (\<lambda>_. I) w \<Longrightarrow> I (snd (m w))"
  by (auto simp: wp_def split: prod.splits sum.splits)

lemma wpI:
  assumes "\<And>x w'. m w = (Inr x, w') \<Longrightarrow> Q x w'" and "\<And>e w'. m w = (Inl e, w') \<Longrightarrow> R e w'"
  shows "wp m Q R w"
  using assms by (auto simp: wp_def split: prod.split sum.split)

section \<open>Programs along a relation\<close>

text \<open>
  \<open>along R m\<close>: wherever \<open>m\<close> runs, on a value and on an error, the state it leaves is related to the
  one it found.  For a preorder the relation passes through the combinators; a component adds the
  rules of its own operations to \<open>along_intros\<close>, for every relation its assumptions allow.
\<close>

named_theorems along_intros \<comment> \<open>introduction rules of \<open>along\<close>\<close>

definition along :: "('w \<Rightarrow> 'w \<Rightarrow> bool) \<Rightarrow> ('w, 'e, 'a) prog \<Rightarrow> bool" where
  "along R m \<longleftrightarrow> (\<forall>w. R w (snd (m w)))"

lemma alongI: "(\<And>w. R w (snd (m w))) \<Longrightarrow> along R m"
  by (simp add: along_def)

lemma alongD: "along R m \<Longrightarrow> R w (snd (m w))"
  by (simp add: along_def)

lemma along_result: "along R m \<Longrightarrow> m w = (r, w') \<Longrightarrow> R w w'"
  using alongD [of R m w] by simp

lemma along_case [along_intros]:
  "(b \<Longrightarrow> along R m) \<Longrightarrow> (\<not> b \<Longrightarrow> along R m') \<Longrightarrow> along R (if b then m else m')"
  "(\<And>x. along R (f x)) \<Longrightarrow> (\<And>y. along R (g y)) \<Longrightarrow> along R (case s of Inl x \<Rightarrow> f x | Inr y \<Rightarrow> g y)"
  "along R m \<Longrightarrow> (\<And>x. along R (h x)) \<Longrightarrow> along R (case opt of None \<Rightarrow> m | Some x \<Rightarrow> h x)"
  "(\<And>x y. along R (k x y)) \<Longrightarrow> along R (case pr of (x, y) \<Rightarrow> k x y)"
  by (simp_all split: sum.split option.split prod.split)

lemma along_wrap [along_intros]: "along R m \<Longrightarrow> along R (tryE m)" "along R m \<Longrightarrow> along R (ignoreE m)"
  by (simp_all add: along_def tryE_def ignoreE_def split_def)

locale state_preorder =
  fixes R :: "'w \<Rightarrow> 'w \<Rightarrow> bool"
  assumes refl: "R w w" and trans: "R w1 w2 \<Longrightarrow> R w2 w3 \<Longrightarrow> R w1 w3"
begin

lemma along_basic [along_intros]: "along R (returnE x)" "along R (throwE e)" "along R (liftE r)"
  by (simp_all add: along_def prog_defs refl)

lemma along_bind [along_intros]:
  assumes "along R m" and "\<And>x. along R (f x)"
  shows "along R (bindE m f)"
proof (rule alongI)
  fix w
  obtain r w1 where m: "m w = (r, w1)" by (cases "m w")
  show "R w (snd (bindE m f w))"
    using along_result [OF assms(1) m] assms(2) by (cases r) (auto simp: bindE_def m along_def intro: trans)
qed

end

section \<open>64-bit signed integers\<close>

definition wrap64 :: "int \<Rightarrow> int" where
  "wrap64 x = (x + 2 ^ 63) mod 2 ^ 64 - 2 ^ 63"

definition fits64 :: "int \<Rightarrow> bool" where
  "fits64 x \<longleftrightarrow> - (2 ^ 63) \<le> x \<and> x < 2 ^ 63"

lemma wrap64_id [simp]: "fits64 x \<Longrightarrow> wrap64 x = x"
  by (simp add: wrap64_def fits64_def)

lemma wrap64_fits [simp]: "fits64 (wrap64 x)"
  using pos_mod_bound [of "2 ^ 64" "x + 2 ^ 63"] pos_mod_sign [of "2 ^ 64" "x + 2 ^ 63"]
  by (simp add: wrap64_def fits64_def)

section \<open>Lists and maps\<close>

lemma find_Some_iff2: "find P xs = Some x \<Longrightarrow> x \<in> set xs \<and> P x"
  by (auto simp: find_Some_iff)

lemma sort_key_sorted_id:
  "sorted (map f xs) \<Longrightarrow> sort_key f xs = xs"
  by (simp add: sort_key_id_if_sorted)

lemma map_insort: "map g (insort_key (\<lambda>x. k (g x)) a xs) = insort_key k (g a) (map g xs)"
  by (induction xs) simp_all

lemma map_sort: "map g (sort_key (\<lambda>x. k (g x)) xs) = sort_key k (map g xs)"
  by (induction xs) (simp_all add: map_insort)

end
