(* ===== verification/GoLib.thy ===== *)
theory GoLib
  imports Prelude "HOL-Library.Char_ord" "HOL-Library.List_Lexorder"
begin

text \<open>
  The parts of Go's standard library that the program computes with: decimal and
  hexadecimal text (\<open>strconv\<close>, \<open>encoding/hex\<close>), UTF-8, \<open>strings.TrimSpace\<close>,
  \<open>time.Time\<close> in UTC with its RFC 3339 form, and \<open>json.Marshal\<close>.

  A Go string is a sequence of bytes; a HOL \<open>char\<close> is a byte, so \<open>string\<close> is a byte string
  and the lexicographic order of \<open>List_Lexorder\<close> over \<open>Char_ord\<close> is Go's \<open><\<close> on strings.
  A \<open>Time\<close> counts nanoseconds from Go's zero time (1 January of year 1, UTC), so the zero
  value of \<open>time.Time\<close> is 0.  Durations are nanoseconds too.
\<close>

type_synonym Time = int
type_synonym Duration = int
type_synonym StringMap = "(string \<times> string) list"

abbreviation byte :: "char \<Rightarrow> nat" where
  "byte \<equiv> of_char"

section \<open>Decimal and hexadecimal text\<close>

fun nat_dec :: "nat \<Rightarrow> string" where
  "nat_dec n = (if n < 10 then [char_of (48 + n)]
                else nat_dec (n div 10) @ [char_of (48 + n mod 10)])"

declare nat_dec.simps [simp del]

definition Itoa :: "int \<Rightarrow> string" where
  "Itoa i = (if i < 0 then CHR ''-'' # nat_dec (nat (- i)) else nat_dec (nat i))"

definition hex_digit :: "nat \<Rightarrow> char" where
  "hex_digit n = (if n < 10 then char_of (48 + n) else char_of (87 + n))"

definition hex_byte :: "nat \<Rightarrow> string" where
  "hex_byte b = [hex_digit (b div 16), hex_digit (b mod 16)]"

definition EncodeToString :: "nat list \<Rightarrow> string" where
  "EncodeToString bs = concat (map hex_byte bs)"

definition unhex :: "char \<Rightarrow> nat option" where
  "unhex c = (let n = byte c in
     if 48 \<le> n \<and> n \<le> 57 then Some (n - 48)
     else if 97 \<le> n \<and> n \<le> 102 then Some (n - 87)
     else if 65 \<le> n \<and> n \<le> 70 then Some (n - 55)
     else None)"

fun DecodeString :: "string \<Rightarrow> nat list option" where
  "DecodeString [] = Some []"
| "DecodeString [_] = None"
| "DecodeString (a # b # s) =
     (case (unhex a, unhex b) of
        (Some x, Some y) \<Rightarrow> map_option (\<lambda>r. (16 * x + y) # r) (DecodeString s)
      | _ \<Rightarrow> None)"

lemma unhex_hex_digit: "n < 16 \<Longrightarrow> unhex (hex_digit n) = Some n"
  by (auto simp: unhex_def hex_digit_def of_char_of take_bit_eq_mod Let_def)

lemma DecodeString_EncodeToString:
  "list_all (\<lambda>b. b < 256) bs \<Longrightarrow> DecodeString (EncodeToString bs) = Some bs"
proof (induction bs)
  case (Cons b bs)
  then have "b div 16 < 16" by (simp add: div_less_iff_less_mult)
  with Cons show ?case by (simp add: EncodeToString_def hex_byte_def unhex_hex_digit)
qed (simp add: EncodeToString_def)

lemma length_EncodeToString [simp]: "length (EncodeToString bs) = 2 * length bs"
  by (induction bs) (simp_all add: EncodeToString_def hex_byte_def)

section \<open>UTF-8\<close>

definition cont_byte :: "nat \<Rightarrow> bool" where
  "cont_byte b \<longleftrightarrow> 128 \<le> b \<and> b \<le> 191"

text \<open>
  The size of the multi-byte rune at the head of a string, with the ranges of
  \<open>utf8.DecodeRuneInString\<close>; 0 when the bytes are no valid encoding.
\<close>

definition two_bytes :: "nat \<Rightarrow> nat \<Rightarrow> bool" where
  "two_bytes b0 b1 \<longleftrightarrow> 194 \<le> b0 \<and> b0 \<le> 223 \<and> cont_byte b1"

definition three_bytes :: "nat \<Rightarrow> nat \<Rightarrow> nat \<Rightarrow> bool" where
  "three_bytes b0 b1 b2 \<longleftrightarrow> 224 \<le> b0 \<and> b0 \<le> 239 \<and> cont_byte b1 \<and> cont_byte b2 \<and>
     (b0 = 224 \<longrightarrow> 160 \<le> b1) \<and> (b0 = 237 \<longrightarrow> b1 \<le> 159)"

definition four_bytes :: "nat \<Rightarrow> nat \<Rightarrow> nat \<Rightarrow> nat \<Rightarrow> bool" where
  "four_bytes b0 b1 b2 b3 \<longleftrightarrow> 240 \<le> b0 \<and> b0 \<le> 244 \<and> cont_byte b1 \<and> cont_byte b2 \<and> cont_byte b3 \<and>
     (b0 = 240 \<longrightarrow> 144 \<le> b1) \<and> (b0 = 244 \<longrightarrow> b1 \<le> 143)"

fun rune_size :: "nat list \<Rightarrow> nat" where
  "rune_size (b0 # b1 # bs) =
     (if two_bytes b0 b1 then 2
      else case bs of [] \<Rightarrow> 0 | b2 # bs' \<Rightarrow>
        if three_bytes b0 b1 b2 then 3
        else case bs' of [] \<Rightarrow> 0 | b3 # _ \<Rightarrow> if four_bytes b0 b1 b2 b3 then 4 else 0)"
| "rune_size _ = 0"

lemma rune_size_prefix: "rune_size bs \<noteq> 0 \<Longrightarrow> rune_size (take (rune_size bs) bs @ t) = rune_size bs"
  by (cases bs rule: rune_size.cases) (auto split: list.splits if_splits)

lemma rune_bytes: "list_all (\<lambda>b. 128 \<le> b) (take (rune_size bs) bs)"
  by (cases bs rule: rune_size.cases)
    (auto simp: two_bytes_def three_bytes_def four_bytes_def cont_byte_def split: list.splits if_splits)

lemma rune_size_le: "rune_size bs \<le> length bs"
  by (induction bs rule: rune_size.induct) (auto split: list.splits)

section \<open>strings.TrimSpace\<close>

text \<open>The UTF-8 encodings of the runes for which \<open>unicode.IsSpace\<close> holds.\<close>

definition space_runes :: "string list" where
  "space_runes = map (map char_of)
     ([[9], [10], [11], [12], [13], [32], [194, 133], [194, 160], [225, 154, 128]] @
      map (\<lambda>b. [226, 128, b]) [128 ..< 139] @
      [[226, 128, 168], [226, 128, 169], [226, 128, 175], [226, 129, 159], [227, 128, 128 :: nat]])"

definition starts_with :: "string \<Rightarrow> string \<Rightarrow> bool" where
  "starts_with p s \<longleftrightarrow> take (length p) s = p"

function trim_left :: "string list \<Rightarrow> string \<Rightarrow> string" where
  "trim_left ps s =
     (case find (\<lambda>p. p \<noteq> [] \<and> starts_with p s) ps of
        None \<Rightarrow> s | Some p \<Rightarrow> trim_left ps (drop (length p) s))"
  by pat_completeness auto
termination
proof (relation "measure (\<lambda>(ps, s). length s)", simp)
  fix ps s p assume "find (\<lambda>p. p \<noteq> [] \<and> starts_with p s) ps = Some p"
  then have "p \<noteq> []" "take (length p) s = p" by (auto simp: find_Some_iff starts_with_def)
  then have "s \<noteq> []" "length p > 0" by auto
  then show "((ps, drop (length p) s), (ps, s)) \<in> measure (\<lambda>(ps, s). length s)" by simp
qed

declare trim_left.simps [simp del]

definition TrimSpace :: "string \<Rightarrow> string" where
  "TrimSpace s = rev (trim_left (map rev space_runes) (rev (trim_left space_runes s)))"

lemma length_trim_left: "length (trim_left ps s) \<le> length s"
proof (induction ps s rule: trim_left.induct)
  case (1 ps s)
  show ?case
    by (subst trim_left.simps) (use "1" in \<open>force split: option.split dest: le_trans\<close>)
qed

section \<open>Case folding\<close>

text \<open>
  \<open>strings.EqualFold(s, t)\<close> for an ASCII \<open>t\<close>: runes are compared under simple case folding, in which
  only two other runes fold to an ASCII letter, U+017F to \<open>s\<close> and U+212A to \<open>k\<close>.
\<close>

definition ascii_lower :: "char \<Rightarrow> char" where
  "ascii_lower c = (if 65 \<le> byte c \<and> byte c \<le> 90 then char_of (byte c + 32) else c)"

definition fold_rune :: "string \<Rightarrow> char \<Rightarrow> string option" where
  "fold_rune s c = (case s of [] \<Rightarrow> None
     | x # xs \<Rightarrow>
         if ascii_lower x = ascii_lower c then Some xs
         else if ascii_lower c = CHR ''s'' \<and> starts_with (map char_of [197 :: nat, 191]) s then Some (drop 2 s)
         else if ascii_lower c = CHR ''k'' \<and> starts_with (map char_of [226 :: nat, 132, 170]) s then Some (drop 3 s)
         else None)"

fun EqualFold :: "string \<Rightarrow> string \<Rightarrow> bool" where
  "EqualFold s [] = (s = [])"
| "EqualFold s (c # t) = (case fold_rune s c of None \<Rightarrow> False | Some rest \<Rightarrow> EqualFold rest t)"

text \<open>
  \<open>strings.ToUpper\<close> and \<open>strings.ToLower\<close>, up to runes that no text equal to an ASCII one contains: besides
  the ASCII letters, only U+0131 and U+017F have an ASCII upper case, U+0130 and U+212A an ASCII lower case.
\<close>

definition ascii_upper :: "char \<Rightarrow> char" where
  "ascii_upper c = (if 97 \<le> byte c \<and> byte c \<le> 122 then char_of (byte c - 32) else c)"

function ToUpper :: "string \<Rightarrow> string" where
  "ToUpper [] = []"
| "ToUpper (c # s) =
     (if starts_with (map char_of [196 :: nat, 177]) (c # s) then CHR ''I'' # ToUpper (drop 1 s)
      else if starts_with (map char_of [197 :: nat, 191]) (c # s) then CHR ''S'' # ToUpper (drop 1 s)
      else ascii_upper c # ToUpper s)"
  by pat_completeness auto
termination by (relation "measure length") auto

function ToLower :: "string \<Rightarrow> string" where
  "ToLower [] = []"
| "ToLower (c # s) =
     (if starts_with (map char_of [196 :: nat, 176]) (c # s) then CHR ''i'' # ToLower (drop 1 s)
      else if starts_with (map char_of [226 :: nat, 132, 170]) (c # s) then CHR ''k'' # ToLower (drop 2 s)
      else ascii_lower c # ToLower s)"
  by pat_completeness auto
termination by (relation "measure length") auto

section \<open>time.Time\<close>

definition nanosecond :: Duration where "nanosecond = 1"
definition second :: Duration where "second = 1000000000 * nanosecond"
definition minute :: Duration where "minute = 60 * second"
definition hour :: Duration where "hour = 60 * minute"

lemmas duration_defs = hour_def minute_def second_def nanosecond_def

definition Unix :: "Time \<Rightarrow> int" where
  "Unix t = t div second - 62135596800"

text \<open>The civil date of a day number (day 0 is 1 January of year 1).\<close>

definition civil :: "int \<Rightarrow> int \<times> int \<times> int" where
  "civil d = (let z = d + 306; era = z div 146097; doe = z mod 146097;
     yoe = (doe - doe div 1460 + doe div 36524 - doe div 146096) div 365;
     doy = doe - (365 * yoe + yoe div 4 - yoe div 100);
     mp = (5 * doy + 2) div 153;
     dd = doy - (153 * mp + 2) div 5 + 1;
     mm = (if mp < 10 then mp + 3 else mp - 9);
     yy = yoe + era * 400 + (if mm \<le> 2 then 1 else 0) in (yy, mm, dd))"

definition pad_dec :: "nat \<Rightarrow> int \<Rightarrow> string" where
  "pad_dec w i = (let s = nat_dec (nat i) in replicate (w - length s) CHR ''0'' @ s)"

definition format_fraction :: "int \<Rightarrow> string" where
  "format_fraction ns = (if ns = 0 then []
     else CHR ''.'' # rev (dropWhile (\<lambda>c. c = CHR ''0'') (rev (pad_dec 9 ns))))"

text \<open>\<open>Time.MarshalJSON\<close> in UTC, without the quotes: an error outside the years 0 to 9999.\<close>

definition format_rfc3339 :: "Time \<Rightarrow> string option" where
  "format_rfc3339 t = (let secs = t div second; ns = t mod second;
     (y, m, d) = civil (secs div 86400); sod = secs mod 86400 in
     if y < 0 \<or> 9999 < y then None
     else Some (pad_dec 4 y @ ''-'' @ pad_dec 2 m @ ''-'' @ pad_dec 2 d @ ''T'' @
       pad_dec 2 (sod div 3600) @ '':'' @ pad_dec 2 (sod mod 3600 div 60) @ '':'' @
       pad_dec 2 (sod mod 60) @ format_fraction ns @ ''Z''))"

section \<open>json.Marshal\<close>

text \<open>
  \<open>JObject\<close> is a struct (fields in their order), \<open>JMap\<close> a Go map (keys sorted by the encoder).
\<close>

datatype json =
    JNull
  | JBool bool
  | JInt int
  | JString string
  | JTime Time
  | JObject "(string \<times> json) list"
  | JMap "(string \<times> json) list"
  | JList "json list"

definition json_escape :: "char \<Rightarrow> string" where
  "json_escape c = (let b = byte c in
     if b = 34 \<or> b = 92 then [CHR 0x5C, c]
     else if b = 8 then CHR 0x5C # ''b'' else if b = 12 then CHR 0x5C # ''f''
     else if b = 10 then CHR 0x5C # ''n'' else if b = 13 then CHR 0x5C # ''r''
     else if b = 9 then CHR 0x5C # ''t''
     else if b < 32 \<or> b = 60 \<or> b = 62 \<or> b = 38 then CHR 0x5C # ''u00'' @ hex_byte b
     else [c])"

function json_chars :: "string \<Rightarrow> string" where
  "json_chars [] = []"
| "json_chars (c # s) =
     (if byte c < 128 then json_escape c @ json_chars s
      else let n = rune_size (map byte (c # s)) in
        if n = 0 then CHR 0x5C # ''ufffd'' @ json_chars s
        else if take 3 (map byte (c # s)) = [226, 128, 168] then CHR 0x5C # ''u2028'' @ json_chars (drop 2 s)
        else if take 3 (map byte (c # s)) = [226, 128, 169] then CHR 0x5C # ''u2029'' @ json_chars (drop 2 s)
        else take n (c # s) @ json_chars (drop (n - 1) s))"
  by pat_completeness auto
termination by (relation "measure length") auto

definition json_string :: "string \<Rightarrow> string" where
  "json_string s = CHR 0x22 # json_chars s @ [CHR 0x22]"

definition json_sep :: "string list \<Rightarrow> string" where
  "json_sep xs = (case xs of [] \<Rightarrow> [] | x # ys \<Rightarrow> x @ concat (map (\<lambda>y. CHR '','' # y) ys))"

definition json_braces :: "(string \<times> string) list \<Rightarrow> string" where
  "json_braces kvs = ''{'' @ json_sep (map (\<lambda>(k, v). json_string k @ '':'' @ v) kvs) @ ''}''"

fun those_snd :: "('k \<times> 'v option) list \<Rightarrow> ('k \<times> 'v) list option" where
  "those_snd [] = Some []"
| "those_snd ((k, v) # kvs) =
     (case v of None \<Rightarrow> None | Some x \<Rightarrow> map_option (\<lambda>r. (k, x) # r) (those_snd kvs))"

fun Marshal :: "json \<Rightarrow> string option" where
  "Marshal JNull = Some ''null''"
| "Marshal (JBool b) = Some (if b then ''true'' else ''false'')"
| "Marshal (JInt i) = Some (Itoa i)"
| "Marshal (JString s) = Some (json_string s)"
| "Marshal (JTime t) = map_option (\<lambda>s. CHR 0x22 # s @ [CHR 0x22]) (format_rfc3339 t)"
| "Marshal (JObject kvs) =
     map_option json_braces (those_snd (map (\<lambda>(k, v). (k, Marshal v)) kvs))"
| "Marshal (JMap kvs) =
     map_option json_braces (those_snd (sort_key fst (map (\<lambda>(k, v). (k, Marshal v)) kvs)))"
| "Marshal (JList vs) =
     map_option (\<lambda>xs. ''['' @ json_sep xs @ '']'') (those (map Marshal vs))"

definition json_string_map :: "StringMap option \<Rightarrow> json" where
  "json_string_map m = (case m of None \<Rightarrow> JNull | Some kvs \<Rightarrow> JMap (map (\<lambda>(k, v). (k, JString v)) kvs))"

lemma those_snd_Some: "list_all (\<lambda>kv. snd kv \<noteq> None) kvs \<Longrightarrow> those_snd kvs \<noteq> None"
  by (induction kvs rule: those_snd.induct) auto

lemma Marshal_string_map: "Marshal (json_string_map m) \<noteq> None"
proof (cases m)
  case (Some kvs)
  let ?ms = "map (\<lambda>(k, v). (k, Marshal v)) (map (\<lambda>(k, v). (k, JString v)) kvs)"
  have "list_all (\<lambda>kv. snd kv \<noteq> None) (sort_key fst ?ms)"
    by (auto simp: list_all_iff)
  then have "those_snd (sort_key fst ?ms) \<noteq> None" by (rule those_snd_Some)
  then show ?thesis using Some by (simp add: json_string_map_def)
qed (simp add: json_string_map_def)

end
