(* ===== verification/Float64.thy ===== *)
theory Float64
  imports Prelude Complex_Main "HOL-Library.Log_Nat"
begin

text \<open>
  Go's \<open>float64\<close>: a finite IEEE-754 binary64 value is the rational number it denotes, and an
  operation is the exact operation followed by \<open>rnd64\<close>, rounding to nearest with ties to
  even (53 significant bits, least exponent -1074).  Constants of the source are rounded
  like results.  Overflow to infinity and NaN are outside the model: every value the program
  computes is a rate in [0,1], a latency, or a sum of weighted rates.

  The lemmas: rounding is monotone, keeps the integers below 2^53 and 1/2, and on [0,1] errs
  by at most 2^-53.
\<close>

type_synonym float64 = rat

definition two_pow :: "int \<Rightarrow> rat" where
  "two_pow e = (if 0 \<le> e then 2 ^ nat e else 1 / 2 ^ nat (- e))"

text \<open>The binary exponent: \<open>two_pow (ilog2 x) \<le> x < two_pow (ilog2 x + 1)\<close> for positive \<open>x\<close>.\<close>

definition ilog2 :: "rat \<Rightarrow> int" where
  "ilog2 x = (let (a, b) = quotient_of x; e = bitlen a - bitlen b in
     if two_pow e \<le> x then e else e - 1)"

definition round_even :: "rat \<Rightarrow> int" where
  "round_even q = (let f = \<lfloor>q\<rfloor>; d = q - of_int f in
     if d < 1/2 then f else if d > 1/2 then f + 1 else if even f then f else f + 1)"

definition ulp_exp :: "rat \<Rightarrow> int" where
  "ulp_exp x = max (ilog2 x) (- 1022) - 52"

definition rnd_pos :: "rat \<Rightarrow> rat" where
  "rnd_pos x = of_int (round_even (x / two_pow (ulp_exp x))) * two_pow (ulp_exp x)"

definition rnd64 :: "rat \<Rightarrow> float64" where
  "rnd64 x = (if x = 0 then 0 else if 0 < x then rnd_pos x else - rnd_pos (- x))"

definition fadd :: "float64 \<Rightarrow> float64 \<Rightarrow> float64" where "fadd x y = rnd64 (x + y)"
definition fsub :: "float64 \<Rightarrow> float64 \<Rightarrow> float64" where "fsub x y = rnd64 (x - y)"
definition fmul :: "float64 \<Rightarrow> float64 \<Rightarrow> float64" where "fmul x y = rnd64 (x * y)"
definition fdiv :: "float64 \<Rightarrow> float64 \<Rightarrow> float64" where "fdiv x y = rnd64 (x / y)"
definition fint :: "int \<Rightarrow> float64" where "fint i = rnd64 (of_int i)"

lemmas float_defs = fadd_def fsub_def fmul_def fdiv_def fint_def

section \<open>Powers of two\<close>

lemma two_pow_pos [simp]: "0 < two_pow e"
  by (simp add: two_pow_def)

lemma two_pow_nz [simp]: "two_pow e \<noteq> 0"
  using two_pow_pos [of e] by linarith

lemma two_pow_power_int: "two_pow e = 2 powi e"
  by (auto simp: two_pow_def power_int_def field_simps)

lemma two_pow_add: "two_pow (a + b) = two_pow a * two_pow b"
  by (simp add: two_pow_power_int power_int_add)

lemma two_pow_diff: "two_pow (a - b) = two_pow a / two_pow b"
  by (simp add: two_pow_power_int power_int_diff)

lemma two_pow_Suc: "two_pow (e + 1) = 2 * two_pow e"
  by (simp add: two_pow_add) (simp add: two_pow_def)

lemma two_pow_mono: "a \<le> b \<Longrightarrow> two_pow a \<le> two_pow b"
  by (simp add: two_pow_power_int power_int_increasing)

lemma two_pow_ge_0 [simp]: "0 \<le> two_pow e"
  by (rule less_imp_le) simp

lemma two_pow_less_iff: "two_pow a < two_pow b \<longleftrightarrow> a < b"
proof
  assume "a < b"
  then have "two_pow (a + 1) \<le> two_pow b" by (intro two_pow_mono) simp
  then have "2 * two_pow a \<le> two_pow b" by (simp only: two_pow_Suc)
  then show "two_pow a < two_pow b" using two_pow_pos [of a] by linarith
next
  assume "two_pow a < two_pow b"
  then show "a < b" using two_pow_mono [of b a] by linarith
qed

lemma two_pow_nat: "two_pow (int n) = 2 ^ n"
  by (simp add: two_pow_def)

section \<open>The exponent\<close>

lemma bitlen_two_pow:
  assumes "0 < a"
  shows "two_pow (bitlen a - 1) \<le> of_int a" and "of_int a < two_pow (bitlen a)"
proof -
  have b: "2 ^ nat (bitlen a - 1) \<le> a \<and> a < 2 ^ nat (bitlen a)"
    using bitlen_bounds [OF assms] .
  have p: "0 < bitlen a" using assms 
    using bitlen_nonneg [of a] bitlen_eq_zero_iff [of a] by linarith
  have "(of_int (2 ^ nat (bitlen a - 1)) :: rat) \<le> of_int a"
    using b by (subst of_int_le_iff) simp
  then show "two_pow (bitlen a - 1) \<le> of_int a" using p by (simp add: two_pow_def)
  have "(of_int a :: rat) < of_int (2 ^ nat (bitlen a))"
    using b by (subst of_int_less_iff) simp
  then show "of_int a < two_pow (bitlen a)" using p by (simp add: two_pow_def)
qed

lemma ilog2_bounds:
  assumes "0 < x"
  shows "two_pow (ilog2 x) \<le> x" and "x < two_pow (ilog2 x + 1)"
proof -
  obtain a b where q: "quotient_of x = (a, b)" by fastforce
  have b: "0 < b" using q by (rule quotient_of_denom_pos)
  have x: "x = of_int a / of_int b" using q by (rule quotient_of_div)
  then have a: "0 < a" using assms b by (simp add: zero_less_divide_iff)
  let ?e = "bitlen a - bitlen b"
  have "two_pow (?e - 1) = two_pow (bitlen a - 1) / two_pow (bitlen b)"
    by (simp add: two_pow_diff)
  also have "\<dots> \<le> of_int a / of_int b"
    using bitlen_two_pow [OF a] bitlen_two_pow [OF b] b
    by (intro frac_le) (use a b in auto)
  finally have lo: "two_pow (?e - 1) \<le> x" by (simp add: x)
  have "of_int a / of_int b < two_pow (bitlen a) / two_pow (bitlen b - 1)"
    using bitlen_two_pow [OF a] bitlen_two_pow [OF b] a b
    by (intro frac_less) auto
  also have "\<dots> = two_pow (?e + 1)" by (simp add: two_pow_diff [symmetric] algebra_simps)
  finally have hi: "x < two_pow (?e + 1)" by (simp add: x)
  show "two_pow (ilog2 x) \<le> x" using lo by (auto simp: ilog2_def q Let_def)
  show "x < two_pow (ilog2 x + 1)" using hi by (auto simp: ilog2_def q not_le Let_def)
qed

lemma ilog2_mono:
  assumes "0 < x" and "x \<le> y"
  shows "ilog2 x \<le> ilog2 y"
proof -
  have "two_pow (ilog2 x) < two_pow (ilog2 y + 1)"
    using ilog2_bounds [of x] ilog2_bounds [of y] assms by linarith
  then show ?thesis by (simp add: two_pow_less_iff)
qed

lemma ilog2_eq:
  assumes "two_pow e \<le> x" and "x < two_pow (e + 1)"
  shows "ilog2 x = e"
proof -
  have x: "0 < x" using assms(1) two_pow_pos [of e] by linarith
  have "two_pow (ilog2 x) < two_pow (e + 1)" and "two_pow e < two_pow (ilog2 x + 1)"
    using ilog2_bounds [OF x] assms by linarith+
  then show ?thesis by (simp add: two_pow_less_iff)
qed

section \<open>Rounding to an integer\<close>

lemma round_even_error: "\<bar>of_int (round_even q) - q\<bar> \<le> 1/2"
proof -
  define d where "d = q - of_int \<lfloor>q\<rfloor>"
  have q: "q = of_int \<lfloor>q\<rfloor> + d" and d: "0 \<le> d" "d < 1" unfolding d_def by linarith+
  have "of_int (round_even q) - q = (if d < 1/2 then - d else if d > 1/2 then 1 - d
     else if even \<lfloor>q\<rfloor> then - d else 1 - d)"
    unfolding round_even_def Let_def d_def by simp
  then show ?thesis using d by (auto simp: abs_if)
qed

lemma round_even_int [simp]: "round_even (of_int i) = i"
  by (simp add: round_even_def)

lemma round_even_mono:
  assumes "p \<le> q"
  shows "round_even p \<le> round_even q"
proof (rule ccontr)
  assume "\<not> round_even p \<le> round_even q"
  then have gt: "round_even q + 1 \<le> round_even p" by simp
  have "of_int (round_even p) - p \<le> 1/2" "q - of_int (round_even q) \<le> 1/2"
    using round_even_error [of p] round_even_error [of q] by linarith+
  moreover have "of_int (round_even q) + 1 \<le> (of_int (round_even p) :: rat)"
    using gt by (metis of_int_1 of_int_add of_int_le_iff)
  ultimately have "p = q" using assms by linarith
  with gt show False by simp
qed

section \<open>Rounding to a float\<close>

lemma rnd_pos_error:
  "\<bar>rnd_pos x - x\<bar> \<le> two_pow (ulp_exp x) / 2"
proof -
  let ?u = "two_pow (ulp_exp x)"
  have "rnd_pos x - x = (of_int (round_even (x / ?u)) - x / ?u) * ?u"
    by (simp add: rnd_pos_def algebra_simps)
  also have "\<bar>\<dots>\<bar> \<le> 1/2 * ?u"
    unfolding abs_mult using round_even_error [of "x / ?u"] by (intro mult_mono) auto
  finally show ?thesis by simp
qed

lemma rnd_pos_grid: "rnd_pos (of_int k * two_pow (ulp_exp x)) = of_int k * two_pow (ulp_exp x)"
  if "ulp_exp (of_int k * two_pow (ulp_exp x)) = ulp_exp x"
  using that by (simp add: rnd_pos_def)

lemma round_even_scale_bounds:
  assumes "0 < x"
  shows "round_even (x / two_pow (ulp_exp x)) \<le> 2 ^ 53"
    and "- 1022 \<le> ilog2 x \<Longrightarrow> 2 ^ 52 \<le> round_even (x / two_pow (ulp_exp x))"
proof -
  have "x < two_pow (ulp_exp x + 53)"
  proof -
    have "x < two_pow (ilog2 x + 1)" using ilog2_bounds [OF assms] by simp
    also have "\<dots> \<le> two_pow (ulp_exp x + 53)" by (rule two_pow_mono) (simp add: ulp_exp_def)
    finally show ?thesis .
  qed
  then have "x / two_pow (ulp_exp x) \<le> of_int (2 ^ 53)"
    by (simp add: two_pow_add field_simps) (simp add: two_pow_def)
  from round_even_mono [OF this] show "round_even (x / two_pow (ulp_exp x)) \<le> 2 ^ 53"
    by (simp only: round_even_int)
  assume "- 1022 \<le> ilog2 x"
  then have u: "ulp_exp x + 52 = ilog2 x" by (simp add: ulp_exp_def)
  have "two_pow (ulp_exp x + 52) \<le> x" unfolding u using ilog2_bounds [OF assms] by simp
  then have "of_int (2 ^ 52) \<le> x / two_pow (ulp_exp x)"
    by (simp add: two_pow_add field_simps) (simp add: two_pow_def)
  from round_even_mono [OF this] show "2 ^ 52 \<le> round_even (x / two_pow (ulp_exp x))"
    by (simp only: round_even_int)
qed

lemma rnd_pos_mono:
  assumes "0 < x" and "x \<le> y"
  shows "rnd_pos x \<le> rnd_pos y"
proof (cases "ulp_exp x = ulp_exp y")
  case True
  have "round_even (x / two_pow (ulp_exp y)) \<le> round_even (y / two_pow (ulp_exp y))"
    using assms by (intro round_even_mono divide_right_mono) (auto intro: less_imp_le)
  then show ?thesis using True by (simp add: rnd_pos_def mult_right_mono)
next
  case False
  then have lt: "ulp_exp x + 1 \<le> ulp_exp y" and ly: "- 1022 \<le> ilog2 y"
    using ilog2_mono [OF assms] by (auto simp: ulp_exp_def)
  have y: "0 < y" using assms by simp
  have "(of_int (round_even (x / two_pow (ulp_exp x))) :: rat) \<le> of_int (2 ^ 53)"
    using round_even_scale_bounds(1) [OF assms(1)] by (subst of_int_le_iff)
  then have "rnd_pos x \<le> of_int (2 ^ 53) * two_pow (ulp_exp x)"
    unfolding rnd_pos_def by (intro mult_right_mono) (auto intro: less_imp_le)
  also have "\<dots> = 2 ^ 52 * two_pow (ulp_exp x + 1)" by (simp add: two_pow_Suc)
  also have "\<dots> \<le> 2 ^ 52 * two_pow (ulp_exp y)" using two_pow_mono [OF lt] by simp
  also have "\<dots> \<le> rnd_pos y"
  proof -
    have "(of_int (2 ^ 52) :: rat) \<le> of_int (round_even (y / two_pow (ulp_exp y)))"
      using round_even_scale_bounds(2) [OF y ly] by (subst of_int_le_iff)
    then have "(2 ^ 52 :: rat) \<le> of_int (round_even (y / two_pow (ulp_exp y)))" by simp
    then show ?thesis unfolding rnd_pos_def by (intro mult_right_mono) (auto intro: less_imp_le)
  qed
  finally show ?thesis .
qed

lemma rnd_pos_nonneg: "0 < x \<Longrightarrow> 0 \<le> rnd_pos x"
  using round_even_mono [of 0 "x / two_pow (ulp_exp x)"] round_even_int [of 0]
    divide_nonneg_pos [OF less_imp_le two_pow_pos, of x]
  by (simp add: rnd_pos_def)

lemma rnd64_mono: "x \<le> y \<Longrightarrow> rnd64 x \<le> rnd64 y"
  using rnd_pos_mono [of x y] rnd_pos_mono [of "- y" "- x"] rnd_pos_nonneg [of y]
    rnd_pos_nonneg [of "- x"]
  by (auto simp: rnd64_def)

lemma rnd64_0 [simp]: "rnd64 0 = 0"
  by (simp add: rnd64_def)

lemma rnd64_1 [simp]: "rnd64 1 = 1"
  by code_simp

lemma rnd64_half [simp]: "rnd64 (1/2) = 1/2"
  by code_simp

lemma rnd64_nonneg: "0 \<le> x \<Longrightarrow> 0 \<le> rnd64 x"
  using rnd64_mono [of 0 x] by simp

lemma rnd64_le_1: "x \<le> 1 \<Longrightarrow> rnd64 x \<le> 1"
  using rnd64_mono [of x 1] by simp

lemma rnd64_unit_error:
  assumes "0 \<le> x" and "x \<le> 1"
  shows "\<bar>rnd64 x - x\<bar> \<le> 1 / 2 ^ 53"
proof (cases "x = 0")
  case False
  then have x: "0 < x" using assms by simp
  have "ilog2 x \<le> ilog2 1" using x assms by (intro ilog2_mono)
  moreover have "ilog2 1 = 0" by (rule ilog2_eq) (simp_all add: two_pow_def)
  ultimately have "ulp_exp x \<le> - 52" by (simp add: ulp_exp_def)
  then have "two_pow (ulp_exp x) \<le> two_pow (- 52)" by (rule two_pow_mono)
  with rnd_pos_error [of x] x show ?thesis by (simp add: rnd64_def two_pow_def)
qed simp

lemma rnd_pos_of_int:
  assumes "0 < i" and "i < 2 ^ 53"
  shows "rnd_pos (of_int i) = of_int i"
proof -
  let ?x = "of_int i :: rat"
  have x: "0 < ?x" using assms by simp
  have "?x < two_pow 53"
  proof -
    have "(of_int i :: rat) < of_int (2 ^ 53)" using assms(2) by (simp only: of_int_less_iff)
    then show ?thesis by (simp add: two_pow_def)
  qed
  then have "two_pow (ilog2 ?x) < two_pow 53" using ilog2_bounds(1) [OF x] by linarith
  then have "ulp_exp ?x \<le> 0" by (simp add: two_pow_less_iff ulp_exp_def)
  then have u: "?x / two_pow (ulp_exp ?x) = of_int (i * 2 ^ nat (- ulp_exp ?x))"
    by (simp add: two_pow_def)
  have "rnd_pos ?x = of_int (i * 2 ^ nat (- ulp_exp ?x)) * two_pow (ulp_exp ?x)"
    unfolding rnd_pos_def u by (simp only: round_even_int)
  also have "\<dots> = ?x" unfolding u [symmetric] by simp
  finally show ?thesis .
qed

lemma rnd64_of_int: "\<bar>i\<bar> < 2 ^ 53 \<Longrightarrow> rnd64 (of_int i) = of_int i"
  using rnd_pos_of_int [of i] rnd_pos_of_int [of "- i"] by (auto simp: rnd64_def abs_if split: if_splits)

end
