(* ===== verification/Domain.thy ===== *)
theory Domain
  imports GoLib Float64
begin

text \<open>
  The domain model (\<open>internal/domain\<close>): payments, attempts, routing decisions, recovery and
  provider/merchant events, provider connections and health snapshots, and the error values
  that the packages compare with \<open>errors.Is\<close>.

  A Go struct is a record whose fields carry a short prefix of the struct's name, because
  the structs share field names.  A string-typed enumeration is a datatype; where foreign
  code supplies the string (environments, circuit states, provider outcomes) a constructor
  \<open>\<dots>Other\<close> stands for every value outside the declared constants.  A pointer to a value that
  is never shared is an \<open>option\<close>; a nil map is \<open>None\<close>.
\<close>

section \<open>Errors\<close>

datatype go_error =
    ErrNotFound | ErrIdempotencyConflict | ErrNoEligibleProvider | ErrInvalidTransition
  | ErrInvalidCredentials | ErrCredentialValidationUnavailable
  | ErrInvalidWebhookSignature | ErrUnsupportedWebhook
  | ErrUnauthorized | ErrInvalidCiphertext | ErrInvalidEndpoint
  | Errorf string            \<comment> \<open>\<open>fmt.Errorf\<close> without \<open>%w\<close>, and errors of the environment\<close>
  | Wrapf string go_error    \<comment> \<open>\<open>fmt.Errorf\<close> with \<open>%w\<close>\<close>

fun errors_Is :: "go_error \<Rightarrow> go_error \<Rightarrow> bool" where
  "errors_Is (Wrapf m e) t \<longleftrightarrow> Wrapf m e = t \<or> errors_Is e t"
| "errors_Is e t \<longleftrightarrow> e = t"

section \<open>Payments (payment.go)\<close>

datatype PaymentStatus =
    PaymentStatusCreated | PaymentStatusRouting | PaymentStatusReconciling
  | PaymentStatusAwaitingPayment | PaymentStatusPaid | PaymentStatusFailed
  | PaymentStatusExpired | PaymentStatusCancelled

fun payment_status_text :: "PaymentStatus \<Rightarrow> string" where
  "payment_status_text PaymentStatusCreated = ''created''"
| "payment_status_text PaymentStatusRouting = ''routing''"
| "payment_status_text PaymentStatusReconciling = ''reconciling''"
| "payment_status_text PaymentStatusAwaitingPayment = ''awaiting_payment''"
| "payment_status_text PaymentStatusPaid = ''paid''"
| "payment_status_text PaymentStatusFailed = ''failed''"
| "payment_status_text PaymentStatusExpired = ''expired''"
| "payment_status_text PaymentStatusCancelled = ''cancelled''"

record Pix =
  px_CopyPaste :: string
  px_ExpiresAt :: Time

record PaymentIntent =
  pi_ID :: string
  pi_WorkspaceID :: string
  pi_MerchantOrderID :: string
  pi_IdempotencyKey :: string
  pi_RequestFingerprint :: string
  pi_Amount :: int
  pi_Currency :: string
  pi_Metadata :: "StringMap option"
  pi_Status :: PaymentStatus
  pi_ActiveAttemptID :: string
  pi_PresentedAttemptID :: string
  pi_Pix :: "Pix option"
  pi_Recovered :: bool
  pi_RecoveredAmount :: int
  pi_FailureCode :: string
  pi_CreatedAt :: Time
  pi_UpdatedAt :: Time
  pi_PaidAt :: "Time option"

section \<open>Attempts (attempt.go)\<close>

datatype AttemptStatus =
    AttemptStatusCreated | AttemptStatusRequesting | AttemptStatusSucceeded
  | AttemptStatusFailedSafe | AttemptStatusFailedTerminal | AttemptStatusUnknown

record PaymentAttempt =
  pa_ID :: string
  pa_PaymentIntentID :: string
  pa_ProviderConnectionID :: string
  pa_Sequence :: int
  pa_Status :: AttemptStatus
  pa_ProviderPaymentID :: string
  pa_FailureCode :: string
  pa_ReconciliationStatus :: string
  pa_Pix :: "Pix option"
  pa_RequestStartedAt :: Time
  pa_ResponseReceivedAt :: "Time option"
  pa_CreatedAt :: Time
  pa_UpdatedAt :: Time

section \<open>Provider connections and their health (provider.go, health.go)\<close>

datatype Environment = EnvironmentTest | EnvironmentLive | EnvironmentOther string

fun environment_text :: "Environment \<Rightarrow> string" where
  "environment_text EnvironmentTest = ''test''"
| "environment_text EnvironmentLive = ''live''"
| "environment_text (EnvironmentOther s) = s"

datatype CircuitState = CircuitClosed | CircuitOpen | CircuitHalfOpen | CircuitOther string

record ProviderConnection =
  pc_ID :: string
  pc_WorkspaceID :: string
  pc_ProviderKey :: string
  pc_Environment :: Environment
  pc_Enabled :: bool
  pc_CredentialsValid :: bool
  pc_Circuit :: CircuitState
  pc_CircuitOpenedAt :: "Time option"
  pc_Priority :: int

definition RoutingScoreVersion :: string where
  "RoutingScoreVersion = ''health-v1''"

record ProviderHealthSnapshot =
  ph_ProviderConnectionID :: string
  ph_WindowStart :: Time
  ph_WindowEnd :: Time
  ph_SampleCount :: int
  ph_QRSuccessCount :: int
  ph_ErrorCount :: int
  ph_TimeoutCount :: int
  ph_QRSuccessRate :: float64
  ph_ErrorRate :: float64
  ph_TimeoutRate :: float64
  ph_LatencyP50MS :: float64
  ph_LatencyP95MS :: float64
  ph_HealthScore :: float64
  ph_ScoreVersion :: string
  ph_ObservedAt :: Time

type_synonym HealthMap = "(string \<times> ProviderHealthSnapshot) list"

section \<open>Routing evidence (routing.go)\<close>

record CandidateSnapshot =
  cs_ProviderConnectionID :: string
  cs_ProviderKey :: string
  cs_Priority :: int
  cs_Eligible :: bool
  cs_ExclusionReason :: string
  cs_Score :: float64
  cs_ScoreVersion :: string
  cs_SampleCount :: int
  cs_QRSuccessRate :: float64
  cs_ErrorRate :: float64
  cs_TimeoutRate :: float64
  cs_LatencyP95MS :: float64

record RoutingDecision =
  rd_ID :: string
  rd_PaymentIntentID :: string
  rd_AttemptID :: string
  rd_SelectedProviderConnectionID :: string
  rd_Candidates :: "CandidateSnapshot list"
  rd_ReasonCodes :: "string list"
  rd_ScoreVersion :: string
  rd_CreatedAt :: Time

section \<open>Events (recovery.go, events.go)\<close>

record RecoveryEvent =
  re_ID :: string
  re_PaymentIntentID :: string
  re_FailedAttemptID :: string
  re_SuccessfulAttemptID :: string
  re_FailureReason :: string
  re_Amount :: int
  re_CreatedAt :: Time

record ProviderEvent =
  pe_ID :: string
  pe_ProviderConnectionID :: string
  pe_ExternalEventID :: string
  pe_EventType :: string
  pe_ProviderPaymentID :: string
  pe_PayloadHash :: string
  pe_ReceivedAt :: Time
  pe_ProcessedAt :: "Time option"

record MerchantEvent =
  me_ID :: string
  me_WorkspaceID :: string
  me_EventKey :: string
  me_EventType :: string
  me_PaymentIntentID :: string
  me_Payload :: string
  me_CreatedAt :: Time

end
