(* ===== verification/Provider.thy ===== *)
theory Provider
  imports Domain
begin

text \<open>
  The provider boundary (\<open>internal/provider\<close>): normalized requests and outcomes, manifests
  and capabilities, and the registries.

  A connector is an interface value: the record \<open>Connector\<close> of its methods.  What a provider
  answers depends on the outside world at the moment of the call, so every method that talks
  to it takes the number of the interaction (a \<open>nat\<close>) besides its request; a connector that
  does not implement \<open>WebhookConnector\<close> has \<open>None\<close> as \<open>cn_ParseWebhook\<close>.
\<close>

section \<open>Requests and outcomes (adapter.go, webhook.go)\<close>

datatype CreateOutcomeKind =
  CreateSucceeded | CreateFailedSafe | CreateFailedTerminal | CreateUnknown | CreateOther string

record CreateRequest =
  cq_PaymentIntentID :: string
  cq_AttemptID :: string
  cq_Amount :: int
  cq_Currency :: string
  cq_MerchantOrderID :: string

record CreateOutcome =
  co_Kind :: CreateOutcomeKind
  co_ProviderPaymentID :: string
  co_Pix :: "Pix option"
  co_FailureCode :: string

datatype ReconcileOutcomeKind =
  ReconcileNotCreated | ReconcileCreated | ReconcileUnknown | ReconcileTerminal | ReconcileOther string

record ReconcileRequest =
  rq_PaymentIntentID :: string
  rq_AttemptID :: string
  rq_ProviderPaymentID :: string

record ReconcileOutcome =
  ro_Kind :: ReconcileOutcomeKind
  ro_ProviderPaymentID :: string
  ro_Pix :: "Pix option"
  ro_FailureCode :: string

record WebhookRequest =
  wr_Headers :: "(string \<times> string list) list"
  wr_Body :: string

record WebhookEvent =
  we_ExternalEventID :: string
  we_Type :: string
  we_ProviderPaymentID :: string

section \<open>Manifests (connector.go)\<close>

datatype Capability =
    CapabilityPaymentCreate | CapabilityPixCreate | CapabilityPaymentQuery
  | CapabilityCreateReconcile | CapabilityWebhook | CapabilityRefund | CapabilityCancel
  | CapabilityOther string

record Manifest =
  mf_Key :: string
  mf_DisplayName :: string
  mf_Version :: string
  mf_Capabilities :: "Capability list"
  mf_CredentialTypes :: "string list"

fun supports_loop :: "Capability list \<Rightarrow> Capability \<Rightarrow> bool" where
  "supports_loop [] _ = False"
| "supports_loop (item # items) capability = (if item = capability then True else supports_loop items capability)"

definition Supports :: "Manifest \<Rightarrow> Capability \<Rightarrow> bool" where
  "Supports m capability = supports_loop (mf_Capabilities m) capability"

lemma Supports_iff: "Supports m c \<longleftrightarrow> c \<in> set (mf_Capabilities m)"
proof -
  have "supports_loop cs c \<longleftrightarrow> c \<in> set cs" for cs
    by (induction cs) auto
  then show ?thesis by (simp add: Supports_def)
qed

section \<open>Connectors and registries (connector.go, registry.go)\<close>

record Connector =
  cn_Manifest :: Manifest
  cn_CreatePix :: "nat \<Rightarrow> CreateRequest \<Rightarrow> CreateOutcome"
  cn_Reconcile :: "nat \<Rightarrow> ReconcileRequest \<Rightarrow> ReconcileOutcome"
  cn_ParseWebhook :: "(nat \<Rightarrow> WebhookRequest \<Rightarrow> go_error + WebhookEvent) option"

text \<open>The interface \<open>provider.Registry\<close>, and the three registries of the package.\<close>

record Registry =
  rg_Resolve :: "nat \<Rightarrow> ProviderConnection \<Rightarrow> go_error + Connector"
  rg_Manifest :: "string \<Rightarrow> Manifest option"

definition MapRegistry_Resolve ::
  "(string \<rightharpoonup> Connector) \<Rightarrow> nat \<Rightarrow> ProviderConnection \<Rightarrow> go_error + Connector" where
  "MapRegistry_Resolve r n connection = (case r (pc_ProviderKey connection) of
     None \<Rightarrow> Inl (Errorf (''provider connector '' @ pc_ProviderKey connection @ '' not registered''))
   | Some connector \<Rightarrow> Inr connector)"

definition MapRegistry_Manifest :: "(string \<rightharpoonup> Connector) \<Rightarrow> string \<Rightarrow> Manifest option" where
  "MapRegistry_Manifest r providerKey =
     (case r providerKey of None \<Rightarrow> None | Some connector \<Rightarrow> Some (cn_Manifest connector))"

definition MapRegistry :: "(string \<rightharpoonup> Connector) \<Rightarrow> Registry" where
  "MapRegistry r = \<lparr>rg_Resolve = MapRegistry_Resolve r, rg_Manifest = MapRegistry_Manifest r\<rparr>"

type_synonym ConnectorFactory = "nat \<Rightarrow> ProviderConnection \<Rightarrow> go_error + Connector"

definition ConnectorFactoryRegistry_Resolve ::
  "(string \<rightharpoonup> ConnectorFactory) \<Rightarrow> nat \<Rightarrow> ProviderConnection \<Rightarrow> go_error + Connector" where
  "ConnectorFactoryRegistry_Resolve r n connection = (case r (pc_ProviderKey connection) of
     None \<Rightarrow> Inl (Errorf (''provider connector factory '' @ pc_ProviderKey connection @ '' not registered''))
   | Some factory \<Rightarrow> factory n connection)"

record ConnectorIntegration =
  ci_ConnectorFor :: "nat \<Rightarrow> ProviderConnection \<Rightarrow> go_error + Connector"
  ci_ValidateCredentials :: "nat \<Rightarrow> Environment \<Rightarrow> StringMap \<Rightarrow> go_error option"
  ci_Manifest :: Manifest

type_synonym ConnectorRegistry = "(string \<times> ConnectorIntegration) list"

definition ConnectorRegistry_Resolve ::
  "ConnectorRegistry \<Rightarrow> nat \<Rightarrow> ProviderConnection \<Rightarrow> go_error + Connector" where
  "ConnectorRegistry_Resolve r n connection = (case map_of r (pc_ProviderKey connection) of
     None \<Rightarrow> Inl (Errorf (''provider connector '' @ pc_ProviderKey connection @ '' not registered''))
   | Some integration \<Rightarrow> ci_ConnectorFor integration n connection)"

definition ConnectorRegistry_ValidateCredentials ::
  "ConnectorRegistry \<Rightarrow> nat \<Rightarrow> string \<Rightarrow> Environment \<Rightarrow> StringMap \<Rightarrow> go_error option" where
  "ConnectorRegistry_ValidateCredentials r n providerKey environment credentials =
     (case map_of r providerKey of
        None \<Rightarrow> Some (Errorf (''provider connector '' @ providerKey @ '' not registered''))
      | Some integration \<Rightarrow> ci_ValidateCredentials integration n environment credentials)"

definition ConnectorRegistry_Manifest :: "ConnectorRegistry \<Rightarrow> string \<Rightarrow> Manifest option" where
  "ConnectorRegistry_Manifest r providerKey =
     (case map_of r providerKey of None \<Rightarrow> None | Some integration \<Rightarrow> Some (ci_Manifest integration))"

definition ConnectorRegistry_Manifests :: "ConnectorRegistry \<Rightarrow> Manifest list" where
  "ConnectorRegistry_Manifests r = sort_key mf_Key (map (\<lambda>(_, i). ci_Manifest i) r)"

definition ConnectorRegistry_registry :: "ConnectorRegistry \<Rightarrow> Registry" where
  "ConnectorRegistry_registry r =
     \<lparr>rg_Resolve = ConnectorRegistry_Resolve r, rg_Manifest = ConnectorRegistry_Manifest r\<rparr>"

text \<open>A registry resolves only connections whose provider key it has a manifest for.\<close>

lemma MapRegistry_Resolve_known:
  "MapRegistry_Resolve r n c = Inr k \<Longrightarrow> MapRegistry_Manifest r (pc_ProviderKey c) = Some (cn_Manifest k)"
  by (auto simp: MapRegistry_Resolve_def MapRegistry_Manifest_def split: option.splits)

lemma ConnectorRegistry_Resolve_known:
  "ConnectorRegistry_Resolve r n c = Inr k \<Longrightarrow>
   ConnectorRegistry_Manifest r (pc_ProviderKey c) \<noteq> None"
  by (auto simp: ConnectorRegistry_Resolve_def ConnectorRegistry_Manifest_def split: option.splits)

end
