(* ===== verification/Router.thy ===== *)
theory Router
  imports Provider "HOL-Library.Product_Lexorder" "HOL-Library.Multiset"
begin

text \<open>
  The router (\<open>orchestration/router.go\<close>): eligibility of each connection, the candidate
  snapshots that become routing evidence, and the choice of the best eligible connection.

  \<open>Select\<close> is the Go method: a stable sort by priority and id, then one pass that keeps the
  best candidate so far.  \<open>better_key\<close> is the specification: the pass chooses the eligible
  connection with the least key (circuit rank, negated score, priority, id).
\<close>

record RouteResult =
  rr_Selected :: "ProviderConnection option"
  rr_Candidates :: "CandidateSnapshot list"
  rr_ReasonCodes :: "string list"
  rr_ScoreVersion :: string

section \<open>The code\<close>

fun circuitRank :: "CircuitState \<Rightarrow> int" where
  "circuitRank CircuitClosed = 0"
| "circuitRank CircuitHalfOpen = 1"
| "circuitRank _ = 2"

definition candidateScore :: "string \<Rightarrow> HealthMap \<Rightarrow> float64 \<times> bool" where
  "candidateScore connectionID health = (case map_of health connectionID of
     None \<Rightarrow> (1/2, False) | Some snapshot \<Rightarrow> (ph_HealthScore snapshot, True))"

definition betterCandidate :: "ProviderConnection \<Rightarrow> ProviderConnection \<Rightarrow> HealthMap \<Rightarrow> bool" where
  "betterCandidate candidate current health =
     (let candidateRank = circuitRank (pc_Circuit candidate);
          currentRank = circuitRank (pc_Circuit current);
          (candidateValue, candidateHasHealth) = candidateScore (pc_ID candidate) health;
          (currentValue, currentHasHealth) = candidateScore (pc_ID current) health in
      if candidateRank \<noteq> currentRank then candidateRank < currentRank
      else if (candidateHasHealth \<or> currentHasHealth) \<and> candidateValue \<noteq> currentValue
      then candidateValue > currentValue
      else if pc_Priority candidate \<noteq> pc_Priority current
      then pc_Priority candidate < pc_Priority current
      else pc_ID candidate < pc_ID current)"

text \<open>The catalog check, then the \<open>switch\<close>: \<open>None\<close> for eligible, else the exclusion reason.\<close>

definition exclusionReason ::
  "(string \<Rightarrow> Manifest option) option \<Rightarrow> Environment \<Rightarrow> (string \<Rightarrow> bool) \<Rightarrow> Capability \<Rightarrow>
   ProviderConnection \<Rightarrow> string option" where
  "exclusionReason catalog env excluded requiredCapability conn =
     (let catalogReason = (case catalog of None \<Rightarrow> None
        | Some manifestOf \<Rightarrow> (case manifestOf (pc_ProviderKey conn) of
            None \<Rightarrow> Some ''connector_not_registered''
          | Some manifest \<Rightarrow>
              if \<not> Supports manifest requiredCapability then Some ''capability_unsupported'' else None))
      in case catalogReason of Some r \<Rightarrow> Some r | None \<Rightarrow>
        if excluded (pc_ID conn) then Some ''already_attempted''
        else if \<not> pc_Enabled conn then Some ''disabled''
        else if pc_Environment conn \<noteq> env then Some ''wrong_environment''
        else if \<not> pc_CredentialsValid conn then Some ''invalid_credentials''
        else if pc_Circuit conn = CircuitOpen then Some ''circuit_open''
        else None)"

definition candidateSnapshot ::
  "HealthMap \<Rightarrow> string option \<Rightarrow> ProviderConnection \<Rightarrow> CandidateSnapshot" where
  "candidateSnapshot health reason conn =
     (let snapshot = \<lparr>cs_ProviderConnectionID = pc_ID conn, cs_ProviderKey = pc_ProviderKey conn,
        cs_Priority = pc_Priority conn, cs_Eligible = (reason = None),
        cs_ExclusionReason = (case reason of None \<Rightarrow> [] | Some r \<Rightarrow> r),
        cs_Score = 1/2, cs_ScoreVersion = ''cold-start-v1'', cs_SampleCount = 0,
        cs_QRSuccessRate = 0, cs_ErrorRate = 0, cs_TimeoutRate = 0, cs_LatencyP95MS = 0\<rparr>
      in case map_of health (pc_ID conn) of
           None \<Rightarrow> snapshot
         | Some h \<Rightarrow> snapshot\<lparr>cs_Score := ph_HealthScore h, cs_ScoreVersion := ph_ScoreVersion h,
             cs_SampleCount := ph_SampleCount h, cs_QRSuccessRate := ph_QRSuccessRate h,
             cs_ErrorRate := ph_ErrorRate h, cs_TimeoutRate := ph_TimeoutRate h,
             cs_LatencyP95MS := ph_LatencyP95MS h\<rparr>)"

fun selectLoop ::
  "(ProviderConnection \<Rightarrow> string option) \<Rightarrow> HealthMap \<Rightarrow> ProviderConnection list \<Rightarrow>
   CandidateSnapshot list \<Rightarrow> ProviderConnection option \<Rightarrow>
   CandidateSnapshot list \<times> ProviderConnection option" where
  "selectLoop reason health [] candidates best = (candidates, best)"
| "selectLoop reason health (conn # ordered) candidates best =
     (let snapshot = candidateSnapshot health (reason conn) conn;
          best' = (if cs_Eligible snapshot \<and>
                      (case best of None \<Rightarrow> True | Some b \<Rightarrow> betterCandidate conn b health)
                   then Some conn else best)
      in selectLoop reason health ordered (candidates @ [snapshot]) best')"

definition Select ::
  "(string \<Rightarrow> Manifest option) option \<Rightarrow> ProviderConnection list \<Rightarrow> Environment \<Rightarrow> (string \<Rightarrow> bool) \<Rightarrow>
   Capability \<Rightarrow> HealthMap \<Rightarrow> RouteResult" where
  "Select catalog connections env excluded requiredCapability health =
     (let ordered = sort_key (\<lambda>c. (pc_Priority c, pc_ID c)) connections;
          (candidates, best) = selectLoop (exclusionReason catalog env excluded requiredCapability)
             health ordered [] None
      in \<lparr>rr_Selected = best, rr_Candidates = candidates,
          rr_ReasonCodes = (if health \<noteq> [] then [''automatic_health_score''] else [''priority_cold_start'']),
          rr_ScoreVersion = (if health \<noteq> [] then RoutingScoreVersion else ''priority-v1'')\<rparr>)"

section \<open>The order behind \<open>betterCandidate\<close>\<close>

definition better_key :: "HealthMap \<Rightarrow> ProviderConnection \<Rightarrow> int \<times> rat \<times> int \<times> string" where
  "better_key health c =
     (circuitRank (pc_Circuit c), - fst (candidateScore (pc_ID c) health), pc_Priority c, pc_ID c)"

lemma candidateScore_no_health: "\<not> snd (candidateScore i h) \<Longrightarrow> fst (candidateScore i h) = 1/2"
  by (auto simp: candidateScore_def split: option.splits)

lemma betterCandidate_key: "betterCandidate c d h \<longleftrightarrow> better_key h c < better_key h d"
proof (cases "candidateScore (pc_ID c) h"; cases "candidateScore (pc_ID d) h")
  fix cv ch dv dh
  assume s: "candidateScore (pc_ID c) h = (cv, ch)" "candidateScore (pc_ID d) h = (dv, dh)"
  have "\<not> ch \<Longrightarrow> \<not> dh \<Longrightarrow> cv = dv"
    using candidateScore_no_health [of "pc_ID c" h] candidateScore_no_health [of "pc_ID d" h] s by simp
  then show ?thesis
    by (auto simp: betterCandidate_def better_key_def s less_prod_simp Let_def)
qed

lemma candidateSnapshot_eligible [simp]: "cs_Eligible (candidateSnapshot h r c) \<longleftrightarrow> r = None"
  by (auto simp: candidateSnapshot_def Let_def split: option.splits)

lemma candidateSnapshot_id [simp]: "cs_ProviderConnectionID (candidateSnapshot h r c) = pc_ID c"
  by (auto simp: candidateSnapshot_def Let_def split: option.splits)

lemma candidateSnapshot_reason:
  "cs_ExclusionReason (candidateSnapshot h r c) = (case r of None \<Rightarrow> [] | Some s \<Rightarrow> s)"
  by (auto simp: candidateSnapshot_def Let_def split: option.splits)

section \<open>The pass computes a minimum\<close>

definition key_le :: "HealthMap \<Rightarrow> ProviderConnection option \<Rightarrow> ProviderConnection \<Rightarrow> bool" where
  "key_le h b c \<longleftrightarrow> (case b of None \<Rightarrow> False | Some d \<Rightarrow> better_key h d \<le> better_key h c)"

lemma selectLoop_candidates:
  "fst (selectLoop reason h cs acc b) = acc @ map (\<lambda>c. candidateSnapshot h (reason c) c) cs"
  by (induction cs arbitrary: acc b) (auto simp: Let_def)

lemma selectLoop_best_from:
  "snd (selectLoop reason h cs acc b) = Some c \<Longrightarrow>
   b = Some c \<or> (c \<in> set cs \<and> reason c = None)"
  by (induction cs arbitrary: acc b) (fastforce simp: Let_def split: if_splits)+

lemma key_le_step:
  assumes "key_le h b c \<or> (c = d \<and> r = None)"
  shows "key_le h (if r = None \<and> (case b of None \<Rightarrow> True | Some e \<Rightarrow> betterCandidate d e h)
                   then Some d else b) c"
  using assms by (cases b) (auto simp: betterCandidate_key key_le_def)

lemma selectLoop_Cons:
  "selectLoop reason h (d # cs) acc b =
     selectLoop reason h cs (acc @ [candidateSnapshot h (reason d) d])
       (if reason d = None \<and> (case b of None \<Rightarrow> True | Some e \<Rightarrow> betterCandidate d e h)
        then Some d else b)"
  by (simp add: Let_def)

lemma selectLoop_best_keeps:
  "key_le h b c \<Longrightarrow> key_le h (snd (selectLoop reason h cs acc b)) c"
proof (induction cs arbitrary: acc b)
  case (Cons d cs)
  show ?case unfolding selectLoop_Cons by (intro Cons.IH key_le_step disjI1 Cons.prems)
qed simp

lemma selectLoop_best_le:
  "c \<in> set cs \<Longrightarrow> reason c = None \<Longrightarrow> key_le h (snd (selectLoop reason h cs acc b)) c"
proof (induction cs arbitrary: acc b)
  case (Cons d cs)
  show ?case
  proof (cases "c = d")
    case True
    with Cons.prems show ?thesis
      unfolding selectLoop_Cons by (intro selectLoop_best_keeps key_le_step disjI2) simp
  next
    case False
    with Cons.prems have "c \<in> set cs" by simp
    then show ?thesis unfolding selectLoop_Cons by (rule Cons.IH [OF _ Cons.prems(2)])
  qed
qed simp

lemma Select_unfold:
  "rr_Selected (Select cat cs env ex cap h) =
     snd (selectLoop (exclusionReason cat env ex cap) h (sort_key (\<lambda>c. (pc_Priority c, pc_ID c)) cs) [] None)"
  "rr_Candidates (Select cat cs env ex cap h) =
     map (\<lambda>c. candidateSnapshot h (exclusionReason cat env ex cap c) c) (sort_key (\<lambda>c. (pc_Priority c, pc_ID c)) cs)"
  using selectLoop_candidates [of "exclusionReason cat env ex cap" h
      "sort_key (\<lambda>c. (pc_Priority c, pc_ID c)) cs" "[]" None]
  by (auto simp: Select_def Let_def split: prod.split)

lemma exclusionReason_None:
  "exclusionReason cat env ex cap c = None \<longleftrightarrow>
     (case cat of None \<Rightarrow> True
      | Some m \<Rightarrow> (case m (pc_ProviderKey c) of None \<Rightarrow> False | Some mf \<Rightarrow> Supports mf cap)) \<and>
     \<not> ex (pc_ID c) \<and> pc_Enabled c \<and> pc_Environment c = env \<and> pc_CredentialsValid c \<and>
     pc_Circuit c \<noteq> CircuitOpen"
  by (auto simp: exclusionReason_def Let_def split: option.splits)

lemma Select_Some:
  assumes "rr_Selected (Select cat cs env ex cap h) = Some c"
  shows "c \<in> set cs" and "exclusionReason cat env ex cap c = None"
    and "d \<in> set cs \<Longrightarrow> exclusionReason cat env ex cap d = None \<Longrightarrow> better_key h c \<le> better_key h d"
proof -
  let ?r = "exclusionReason cat env ex cap"
  let ?o = "sort_key (\<lambda>c. (pc_Priority c, pc_ID c)) cs"
  have sel: "snd (selectLoop ?r h ?o [] None) = Some c"
    using assms by (simp add: Select_unfold)
  from selectLoop_best_from [OF sel] show "c \<in> set cs" and "?r c = None" by auto
  assume "d \<in> set cs" and "?r d = None"
  then show "better_key h c \<le> better_key h d"
    using selectLoop_best_le [of d ?o ?r h "[]" None] sel by (simp add: key_le_def)
qed

lemma Select_None:
  "rr_Selected (Select cat cs env ex cap h) = None \<longleftrightarrow>
   (\<forall>c\<in>set cs. exclusionReason cat env ex cap c \<noteq> None)"
proof
  assume none: "rr_Selected (Select cat cs env ex cap h) = None"
  show "\<forall>c\<in>set cs. exclusionReason cat env ex cap c \<noteq> None"
    using selectLoop_best_le [of _ "sort_key (\<lambda>c. (pc_Priority c, pc_ID c)) cs"
        "exclusionReason cat env ex cap" h "[]" None] none
    by (auto simp: Select_unfold key_le_def)
next
  assume "\<forall>c\<in>set cs. exclusionReason cat env ex cap c \<noteq> None"
  then show "rr_Selected (Select cat cs env ex cap h) = None"
    using Select_Some(1,2) [of cat cs env ex cap h] by (cases "rr_Selected (Select cat cs env ex cap h)") auto
qed

lemma sort_key_perm:
  assumes "mset xs = mset ys" and "inj_on f (set xs)"
  shows "sort_key f xs = sort_key f ys"
proof (rule properties_for_sort_key)
  show "mset (sort_key f ys) = mset xs" using assms(1) by simp
next
  fix k assume k: "k \<in> set (sort_key f ys)"
  have eq: "filter (\<lambda>x. f k = f x) zs = replicate (count (mset zs) k) k" if "set zs = set xs" for zs
  proof -
    have sub: "set zs \<subseteq> set xs" and kx: "k \<in> set xs"
      using that k mset_eq_setD [OF assms(1)] by auto
    have "filter (\<lambda>x. f k = f x) zs = filter (\<lambda>x. x = k) zs"
      by (rule filter_cong) (use sub kx inj_onD [OF assms(2), of k] in auto)
    also have "\<dots> = replicate (count (mset zs) k) k"
      by (induction zs) auto
    finally show ?thesis .
  qed
  show "filter (\<lambda>x. f k = f x) (sort_key f ys) = filter (\<lambda>x. f k = f x) xs"
    using eq [of "sort_key f ys"] eq [of xs] mset_eq_setD [OF assms(1)] assms(1) by simp
qed simp

section \<open>Properties\<close>

text \<open>
  C25.  The router selects a connection of the list that passes every eligibility rule of the
  spec (registered connector with the capability, not excluded, enabled, right environment,
  valid credentials, circuit not open), and no other eligible connection is better; it
  selects nothing exactly when every connection is excluded.
\<close>

theorem Select_optimal:
  "case rr_Selected (Select catalog cs env excluded cap health) of
     None \<Rightarrow> filter (\<lambda>c. exclusionReason catalog env excluded cap c = None) cs = []
   | Some c \<Rightarrow> c \<in> set cs \<and> pc_Enabled c \<and> pc_Environment c = env \<and> pc_CredentialsValid c \<and>
       pc_Circuit c \<noteq> CircuitOpen \<and> \<not> excluded (pc_ID c) \<and>
       (case catalog of None \<Rightarrow> True
        | Some m \<Rightarrow> (case m (pc_ProviderKey c) of None \<Rightarrow> False | Some mf \<Rightarrow> Supports mf cap)) \<and>
       filter (\<lambda>d. exclusionReason catalog env excluded cap d = None \<and> betterCandidate d c health) cs = []"
proof (cases "rr_Selected (Select catalog cs env excluded cap health)")
  case None
  with Select_None [THEN iffD1, OF None] show ?thesis by (simp add: filter_empty_conv)
next
  case (Some c)
  note sel = Select_Some [OF Some]
  show ?thesis
    using sel(1,2) sel(3) exclusionReason_None [of catalog env excluded cap c]
    by (auto simp: Some filter_empty_conv betterCandidate_key not_less)
qed

text \<open>
  Tie-breaking is deterministic: with distinct connection ids, the selected connection and
  the recorded candidates do not depend on the order in which the store lists the connections.
\<close>

lemma Select_order_independent:
  assumes "mset cs = mset ds" and "distinct (map pc_ID cs)"
  shows "Select catalog cs env excluded cap health = Select catalog ds env excluded cap health"
proof -
  have "inj_on (\<lambda>c. (pc_Priority c, pc_ID c)) (set cs)"
    using assms(2) by (auto simp: distinct_map inj_on_def)
  from sort_key_perm [OF assms(1) this] show ?thesis by (simp add: Select_def)
qed

definition demo_connection :: "string \<Rightarrow> int \<Rightarrow> CircuitState \<Rightarrow> ProviderConnection" where
  "demo_connection cid priority circuit = \<lparr>pc_ID = cid, pc_WorkspaceID = ''ws'', pc_ProviderKey = ''woovi'',
     pc_Environment = EnvironmentTest, pc_Enabled = True, pc_CredentialsValid = True,
     pc_Circuit = circuit, pc_CircuitOpenedAt = None, pc_Priority = priority\<rparr>"

text \<open>
  Routing evidence is complete: every connection offered to the router appears exactly once
  among the candidates, in priority order, flagged eligible exactly when no exclusion rule
  applies and carrying the reason otherwise.
\<close>

lemma Select_evidence:
  "map (\<lambda>s. (cs_ProviderConnectionID s, cs_Eligible s, cs_ExclusionReason s))
     (rr_Candidates (Select catalog cs env excluded cap health)) =
   map (\<lambda>c. (pc_ID c, exclusionReason catalog env excluded cap c = None,
              (case exclusionReason catalog env excluded cap c of None \<Rightarrow> [] | Some r \<Rightarrow> r)))
     (sort_key (\<lambda>c. (pc_Priority c, pc_ID c)) cs)"
  by (simp add: Select_unfold candidateSnapshot_reason)

end
