(* ===== verification/Repository.thy ===== *)
theory Repository
  imports Domain
begin

text \<open>
  The interface \<open>orchestration.Repository\<close> (repository.go): a record of operations over the
  state \<open>'s\<close> of a store, and the contract the service relies on, as the locale
  \<open>repository\<close>.

  The contract is an abstract specification: it speaks about a \<open>view\<close> of the store, in which a
  payment and an attempt are the fields that orchestration decides on (\<open>APay\<close>, \<open>AAtt\<close>).  An
  operation that returns a value changes the view as stated; one that returns an error
  leaves it as it was (each operation is a critical section, a statement or a transaction of
  the store).  Any operation may fail.  \<open>nx\<close> is what the store keeps of a Pix (the identity
  for the in-memory store) and \<open>ikey\<close> how it combines workspace and idempotency key.
\<close>

record 's Repository =
  GetOrCreatePayment :: "PaymentIntent \<Rightarrow> ('s, go_error, PaymentIntent \<times> bool) prog"
  GetPayment :: "string \<Rightarrow> ('s, go_error, PaymentIntent) prog"
  GetPaymentEnvironment :: "string \<Rightarrow> ('s, go_error, Environment) prog"
  SavePayment :: "PaymentIntent \<Rightarrow> ('s, go_error, unit) prog"
  ListProviderConnections :: "string \<Rightarrow> ('s, go_error, ProviderConnection list) prog"
  GetProviderConnection :: "string \<Rightarrow> ('s, go_error, ProviderConnection) prog"
  AddAttemptWithRoutingDecision ::
    "PaymentAttempt \<Rightarrow> RoutingDecision \<Rightarrow> ('s, go_error, unit) prog"
  SaveAttempt :: "PaymentAttempt \<Rightarrow> ('s, go_error, unit) prog"
  GetAttempt :: "string \<Rightarrow> ('s, go_error, PaymentAttempt) prog"
  GetAttemptByProviderPaymentID :: "string \<Rightarrow> string \<Rightarrow> ('s, go_error, PaymentAttempt) prog"
  ListAttempts :: "string \<Rightarrow> ('s, go_error, PaymentAttempt list) prog"
  ListRoutingDecisions :: "string \<Rightarrow> ('s, go_error, RoutingDecision list) prog"
  CreateRecoveryIfAbsent :: "RecoveryEvent \<Rightarrow> ('s, go_error, bool) prog"
  ListRecoveryEvents :: "string \<Rightarrow> ('s, go_error, RecoveryEvent list) prog"
  RecordProviderEvent :: "ProviderEvent \<Rightarrow> ('s, go_error, bool) prog"
  MarkProviderEventProcessed :: "string \<Rightarrow> string \<Rightarrow> Time \<Rightarrow> ('s, go_error, unit) prog"
  MarkPaymentPaidWithEvents ::
    "PaymentIntent \<Rightarrow> RecoveryEvent option \<Rightarrow> MerchantEvent list \<Rightarrow> ('s, go_error, unit) prog"
  ListMerchantEvents :: "string \<Rightarrow> ('s, go_error, MerchantEvent list) prog"

section \<open>Abstract payments, attempts and events\<close>

record APay =
  ap_ID :: string
  ap_Workspace :: string
  ap_Key :: string
  ap_Fingerprint :: string
  ap_Amount :: int
  ap_Status :: PaymentStatus
  ap_Active :: string
  ap_Presented :: string
  ap_Pix :: "Pix option"
  ap_Recovered :: bool
  ap_RecoveredAmount :: int
  ap_HasPaidAt :: bool

record AAtt =
  aa_ID :: string
  aa_Payment :: string
  aa_Connection :: string
  aa_Sequence :: int
  aa_Status :: AttemptStatus
  aa_ProviderPaymentID :: string
  aa_FailureCode :: string
  aa_Pix :: "Pix option"

record ADec =
  ad_AttemptID :: string
  ad_Selected :: string
  ad_Candidates :: "CandidateSnapshot list"
  ad_Reasons :: "string list"

record ARec =
  ar_Failed :: string
  ar_Successful :: string
  ar_Reason :: string
  ar_Amount :: int

record AEvt =
  ae_Key :: string
  ae_Type :: string
  ae_Payment :: string

definition abs_pay :: "(Pix option \<Rightarrow> Pix option) \<Rightarrow> PaymentIntent \<Rightarrow> APay" where
  "abs_pay nx p = \<lparr>ap_ID = pi_ID p, ap_Workspace = pi_WorkspaceID p, ap_Key = pi_IdempotencyKey p,
     ap_Fingerprint = pi_RequestFingerprint p, ap_Amount = pi_Amount p, ap_Status = pi_Status p,
     ap_Active = pi_ActiveAttemptID p, ap_Presented = pi_PresentedAttemptID p, ap_Pix = nx (pi_Pix p),
     ap_Recovered = pi_Recovered p, ap_RecoveredAmount = pi_RecoveredAmount p,
     ap_HasPaidAt = (pi_PaidAt p \<noteq> None)\<rparr>"

definition abs_att :: "(Pix option \<Rightarrow> Pix option) \<Rightarrow> PaymentAttempt \<Rightarrow> AAtt" where
  "abs_att nx a = \<lparr>aa_ID = pa_ID a, aa_Payment = pa_PaymentIntentID a,
     aa_Connection = pa_ProviderConnectionID a, aa_Sequence = pa_Sequence a, aa_Status = pa_Status a,
     aa_ProviderPaymentID = pa_ProviderPaymentID a, aa_FailureCode = pa_FailureCode a,
     aa_Pix = nx (pa_Pix a)\<rparr>"

definition abs_dec :: "RoutingDecision \<Rightarrow> ADec" where
  "abs_dec d = \<lparr>ad_AttemptID = rd_AttemptID d, ad_Selected = rd_SelectedProviderConnectionID d,
     ad_Candidates = rd_Candidates d, ad_Reasons = rd_ReasonCodes d\<rparr>"

definition abs_rec :: "RecoveryEvent \<Rightarrow> ARec" where
  "abs_rec r = \<lparr>ar_Failed = re_FailedAttemptID r, ar_Successful = re_SuccessfulAttemptID r,
     ar_Reason = re_FailureReason r, ar_Amount = re_Amount r\<rparr>"

definition abs_evt :: "MerchantEvent \<Rightarrow> AEvt" where
  "abs_evt e = \<lparr>ae_Key = me_EventKey e, ae_Type = me_EventType e, ae_Payment = me_PaymentIntentID e\<rparr>"

lemmas abs_defs = abs_pay_def abs_att_def abs_dec_def abs_rec_def abs_evt_def

section \<open>The view of a store and its updates\<close>

record 'k view =
  v_pay :: "string \<Rightarrow> APay option"
  v_idem :: "'k \<Rightarrow> (string \<times> string) option"   \<comment> \<open>payment id and request fingerprint\<close>
  v_att :: "string \<Rightarrow> AAtt option"
  v_attIDs :: "string \<Rightarrow> string list"   \<comment> \<open>attempts of a payment in their order\<close>
  v_dec :: "string \<Rightarrow> ADec list"
  v_rec :: "string \<Rightarrow> ARec list"
  v_mev :: "string \<Rightarrow> AEvt list"        \<comment> \<open>the outbox of a workspace\<close>
  v_mevKeys :: "string \<Rightarrow> bool"

definition atts :: "'k view \<Rightarrow> string \<Rightarrow> AAtt list" where
  "atts v pid = map (\<lambda>i. the (v_att v i)) (v_attIDs v pid)"

definition listed :: "'k view \<Rightarrow> string \<Rightarrow> bool" where
  "listed v pid \<longleftrightarrow> (\<forall>i\<in>set (v_attIDs v pid). \<exists>a. v_att v i = Some a \<and> aa_Payment a = pid) \<and>
     distinct (v_attIDs v pid) \<and> sorted (map aa_Sequence (atts v pid))"

definition put_pay :: "APay \<Rightarrow> 'k view \<Rightarrow> 'k view" where
  "put_pay p v = v\<lparr>v_pay := (v_pay v)(ap_ID p \<mapsto> p)\<rparr>"

definition add_pay :: "'k \<Rightarrow> APay \<Rightarrow> 'k view \<Rightarrow> 'k view" where
  "add_pay k p v = v\<lparr>v_pay := (v_pay v)(ap_ID p \<mapsto> p), v_idem := (v_idem v)(k \<mapsto> (ap_ID p, ap_Fingerprint p))\<rparr>"

definition put_att :: "AAtt \<Rightarrow> 'k view \<Rightarrow> 'k view" where
  "put_att a v = v\<lparr>v_att := (v_att v)(aa_ID a \<mapsto> a)\<rparr>"

definition add_att :: "AAtt \<Rightarrow> ADec \<Rightarrow> 'k view \<Rightarrow> 'k view" where
  "add_att a d v = v\<lparr>v_att := (v_att v)(aa_ID a \<mapsto> a),
     v_attIDs := (v_attIDs v)(aa_Payment a := v_attIDs v (aa_Payment a) @ [aa_ID a]),
     v_dec := (v_dec v)(aa_Payment a := v_dec v (aa_Payment a) @ [d])\<rparr>"

definition put_rec :: "string \<Rightarrow> ARec \<Rightarrow> 'k view \<Rightarrow> 'k view" where
  "put_rec pid r v = (if v_rec v pid = [] then v\<lparr>v_rec := (v_rec v)(pid := [r])\<rparr> else v)"

definition put_event :: "string \<Rightarrow> AEvt \<Rightarrow> 'k view \<Rightarrow> 'k view" where
  "put_event ws e v = (if v_mevKeys v (ae_Key e) then v
     else v\<lparr>v_mevKeys := (v_mevKeys v)(ae_Key e := True), v_mev := (v_mev v)(ws := v_mev v ws @ [e])\<rparr>)"

definition put_events :: "MerchantEvent list \<Rightarrow> 'k view \<Rightarrow> 'k view" where
  "put_events es v = fold (\<lambda>e. put_event (me_WorkspaceID e) (abs_evt e)) es v"

definition put_paid :: "APay \<Rightarrow> RecoveryEvent option \<Rightarrow> MerchantEvent list \<Rightarrow> 'k view \<Rightarrow> 'k view" where
  "put_paid p r es v = put_events es (case r of None \<Rightarrow> put_pay p v
     | Some r' \<Rightarrow> put_rec (re_PaymentIntentID r') (abs_rec r') (put_pay p v))"

text \<open>Writers never change who a payment or an attempt is.\<close>

definition same_payment :: "APay \<Rightarrow> APay \<Rightarrow> bool" where
  "same_payment p q \<longleftrightarrow> ap_ID p = ap_ID q \<and> ap_Workspace p = ap_Workspace q \<and> ap_Key p = ap_Key q \<and>
     ap_Fingerprint p = ap_Fingerprint q \<and> ap_Amount p = ap_Amount q"

definition same_attempt :: "AAtt \<Rightarrow> AAtt \<Rightarrow> bool" where
  "same_attempt a b \<longleftrightarrow> aa_ID a = aa_ID b \<and> aa_Payment a = aa_Payment b \<and>
     aa_Connection a = aa_Connection b \<and> aa_Sequence a = aa_Sequence b"

section \<open>The contract\<close>

locale repository =
  fixes repo :: "'s Repository"
    and view :: "'s \<Rightarrow> 'k view"
    and ikey :: "string \<Rightarrow> string \<Rightarrow> 'k"
    and nx :: "Pix option \<Rightarrow> Pix option"
  assumes GetOrCreate_new: "GetOrCreatePayment repo p s = (Inr (q, created), s') \<Longrightarrow>
      v_pay (view s) (pi_ID p) = None \<Longrightarrow>
      v_idem (view s) (ikey (pi_WorkspaceID p) (pi_IdempotencyKey p)) = None \<Longrightarrow>
      created \<and> abs_pay nx q = abs_pay nx p \<and>
      view s' = add_pay (ikey (pi_WorkspaceID p) (pi_IdempotencyKey p)) (abs_pay nx p) (view s)"
    and GetOrCreate_old: "GetOrCreatePayment repo p s = (Inr (q, created), s') \<Longrightarrow>
      v_idem (view s) (ikey (pi_WorkspaceID p) (pi_IdempotencyKey p)) = Some (pid, fp) \<Longrightarrow>
      v_pay (view s) pid = Some p0 \<Longrightarrow>
      ikey (ap_Workspace p0) (ap_Key p0) = ikey (pi_WorkspaceID p) (pi_IdempotencyKey p) \<Longrightarrow>
      \<not> created \<and> fp = pi_RequestFingerprint p \<and> v_pay (view s) pid = Some (abs_pay nx q) \<and> view s' = view s"
    and GetOrCreate_error: "GetOrCreatePayment repo p s = (Inl e, s') \<Longrightarrow> view s' = view s"
    and GetPayment_value: "GetPayment repo i s = (Inr p, s') \<Longrightarrow> v_pay (view s) i = Some (abs_pay nx p)"
    and GetPayment_state: "view (snd (GetPayment repo i s)) = view s"
    and GetPaymentEnvironment_state: "view (snd (GetPaymentEnvironment repo i s)) = view s"
    and SavePayment_value: "SavePayment repo p s = (Inr u, s') \<Longrightarrow> v_pay (view s) (pi_ID p) = Some p0 \<Longrightarrow>
      same_payment (abs_pay nx p) p0 \<Longrightarrow> view s' = put_pay (abs_pay nx p) (view s)"
    and SavePayment_error: "SavePayment repo p s = (Inl e, s') \<Longrightarrow> view s' = view s"
    and ListProviderConnections_state: "view (snd (ListProviderConnections repo ws s)) = view s"
    and GetProviderConnection_state: "view (snd (GetProviderConnection repo i s)) = view s"
    and AddAttempt_value: "AddAttemptWithRoutingDecision repo a d s = (Inr u, s') \<Longrightarrow>
      v_att (view s) (pa_ID a) = None \<Longrightarrow> rd_PaymentIntentID d = pa_PaymentIntentID a \<Longrightarrow>
      listed (view s) (pa_PaymentIntentID a) \<Longrightarrow>
      (\<And>b. b \<in> set (atts (view s) (pa_PaymentIntentID a)) \<Longrightarrow> aa_Sequence b < pa_Sequence a) \<Longrightarrow>
      view s' = add_att (abs_att nx a) (abs_dec d) (view s)"
    and AddAttempt_error: "AddAttemptWithRoutingDecision repo a d s = (Inl e, s') \<Longrightarrow> view s' = view s"
    and SaveAttempt_value: "SaveAttempt repo a s = (Inr u, s') \<Longrightarrow> v_att (view s) (pa_ID a) = Some b \<Longrightarrow>
      same_attempt (abs_att nx a) b \<Longrightarrow> view s' = put_att (abs_att nx a) (view s)"
    and SaveAttempt_error: "SaveAttempt repo a s = (Inl e, s') \<Longrightarrow> view s' = view s"
    and GetAttempt_value: "GetAttempt repo i s = (Inr a, s') \<Longrightarrow> v_att (view s) i = Some (abs_att nx a)"
    and GetAttempt_state: "view (snd (GetAttempt repo i s)) = view s"
    and ByProviderPaymentID_value: "GetAttemptByProviderPaymentID repo c i s = (Inr a, s') \<Longrightarrow>
      (\<And>j b. v_att (view s) j = Some b \<Longrightarrow> aa_ID b = j) \<Longrightarrow> (\<And>pid. listed (view s) pid) \<Longrightarrow>
      v_att (view s) (pa_ID a) = Some (abs_att nx a) \<and> pa_ProviderConnectionID a = c \<and> pa_ProviderPaymentID a = i"
    and ByProviderPaymentID_state: "view (snd (GetAttemptByProviderPaymentID repo c i s)) = view s"
    and ListAttempts_value: "ListAttempts repo i s = (Inr xs, s') \<Longrightarrow> listed (view s) i \<Longrightarrow>
      map (abs_att nx) xs = atts (view s) i"
    and ListAttempts_state: "view (snd (ListAttempts repo i s)) = view s"
    and RecordProviderEvent_state: "view (snd (RecordProviderEvent repo ev s)) = view s"
    and MarkProviderEventProcessed_state: "view (snd (MarkProviderEventProcessed repo c i t s)) = view s"
    and MarkPaid_value: "MarkPaymentPaidWithEvents repo p r es s = (Inr u, s') \<Longrightarrow>
      v_pay (view s) (pi_ID p) = Some p0 \<Longrightarrow> same_payment (abs_pay nx p) p0 \<Longrightarrow>
      view s' = put_paid (abs_pay nx p) r es (view s)"
    and MarkPaid_error: "MarkPaymentPaidWithEvents repo p r es s = (Inl e, s') \<Longrightarrow> view s' = view s"
begin

end

end
