(* ===== verification/Sha256.thy ===== *)
theory Sha256
  imports Prelude "HOL-Library.Word"
begin

unbundle bit_operations_syntax

text \<open>
  SHA-256 (\<open>crypto/sha256\<close>, FIPS 180-4) and HMAC-SHA-256 (\<open>crypto/hmac\<close>, RFC 2104) on lists
  of bytes.  The program uses \<open>Sum256\<close> for the request fingerprint, the payload hash of a
  provider event, the API key hash and the retry jitter, and the HMAC for the signature of a
  merchant webhook.
\<close>

text \<open>
  The constants are the first 32 bits of the fractional parts of the cube roots of the first 64
  primes, and of the square roots of the first eight for the initial state: bits 31 to 0 of the
  integer root of the prime scaled by \<open>2 ^ 96\<close> or \<open>2 ^ 64\<close>.
\<close>

fun int_root :: "nat \<Rightarrow> nat \<Rightarrow> nat \<Rightarrow> nat \<Rightarrow> nat" where
  "int_root e t 0 r = r"
| "int_root e t (Suc b) r = int_root e t b (if (r + 2 ^ b) ^ e \<le> t then r + 2 ^ b else r)"

definition sha_primes :: "nat list" where
  "sha_primes = filter (\<lambda>p. list_all (\<lambda>d. p mod d \<noteq> 0) [2..<p]) [2..<312]"

definition root_word :: "nat \<Rightarrow> nat \<Rightarrow> 32 word" where
  "root_word e p = word_of_nat (int_root e (p * 2 ^ (32 * e)) 40 0)"

definition sha_K :: "32 word list" where
  "sha_K = map (root_word 3) sha_primes"

type_synonym sha_state =
  "32 word \<times> 32 word \<times> 32 word \<times> 32 word \<times> 32 word \<times> 32 word \<times> 32 word \<times> 32 word"

definition sha_init :: sha_state where
  "sha_init = (root_word 2 2, root_word 2 3, root_word 2 5, root_word 2 7,
     root_word 2 11, root_word 2 13, root_word 2 17, root_word 2 19)"

definition rotr :: "nat \<Rightarrow> 32 word \<Rightarrow> 32 word" where
  "rotr n x = (drop_bit n x) OR (push_bit (32 - n) x)"

definition sha_ch :: "32 word \<Rightarrow> 32 word \<Rightarrow> 32 word \<Rightarrow> 32 word" where
  "sha_ch x y z = (x AND y) XOR (NOT x AND z)"

definition sha_maj :: "32 word \<Rightarrow> 32 word \<Rightarrow> 32 word \<Rightarrow> 32 word" where
  "sha_maj x y z = (x AND y) XOR (x AND z) XOR (y AND z)"

definition big_sigma0 :: "32 word \<Rightarrow> 32 word" where
  "big_sigma0 x = rotr 2 x XOR rotr 13 x XOR rotr 22 x"

definition big_sigma1 :: "32 word \<Rightarrow> 32 word" where
  "big_sigma1 x = rotr 6 x XOR rotr 11 x XOR rotr 25 x"

definition small_sigma0 :: "32 word \<Rightarrow> 32 word" where
  "small_sigma0 x = rotr 7 x XOR rotr 18 x XOR drop_bit 3 x"

definition small_sigma1 :: "32 word \<Rightarrow> 32 word" where
  "small_sigma1 x = rotr 17 x XOR rotr 19 x XOR drop_bit 10 x"

text \<open>The schedule is kept newest word first.\<close>

fun sha_extend :: "nat \<Rightarrow> 32 word list \<Rightarrow> 32 word list" where
  "sha_extend 0 ws = ws"
| "sha_extend (Suc n) ws =
     sha_extend n ((small_sigma1 (ws ! 1) + ws ! 6 + small_sigma0 (ws ! 14) + ws ! 15) # ws)"

fun sha_rounds :: "32 word list \<Rightarrow> 32 word list \<Rightarrow> sha_state \<Rightarrow> sha_state" where
  "sha_rounds (k # ks) (w # ws) (a, b, c, d, e, f, g, h) =
     (let t1 = h + big_sigma1 e + sha_ch e f g + k + w; t2 = big_sigma0 a + sha_maj a b c in
      sha_rounds ks ws (t1 + t2, a, b, c, d + t1, e, f, g))"
| "sha_rounds _ _ st = st"

fun sha_add :: "sha_state \<Rightarrow> sha_state \<Rightarrow> sha_state" where
  "sha_add (a, b, c, d, e, f, g, h) (a', b', c', d', e', f', g', h') =
     (a + a', b + b', c + c', d + d', e + e', f + f', g + g', h + h')"

definition sha_block :: "sha_state \<Rightarrow> 32 word list \<Rightarrow> sha_state" where
  "sha_block st m = sha_add (sha_rounds sha_K (rev (sha_extend 48 (rev m))) st) st"

fun be_bytes :: "nat \<Rightarrow> int \<Rightarrow> nat list" where
  "be_bytes 0 _ = []"
| "be_bytes (Suc n) v = be_bytes n (v div 256) @ [nat (v mod 256)]"

definition sha_pad :: "nat list \<Rightarrow> nat list" where
  "sha_pad bs = (let n = length bs in
     bs @ [128] @ replicate ((119 - n mod 64) mod 64) 0 @ be_bytes 8 (8 * int n mod 2 ^ 64))"

fun be_words :: "nat list \<Rightarrow> 32 word list" where
  "be_words (a # b # c # d # bs) =
     word_of_int (((int a * 256 + int b) * 256 + int c) * 256 + int d) # be_words bs"
| "be_words _ = []"

function sha_fold :: "sha_state \<Rightarrow> 32 word list \<Rightarrow> sha_state" where
  "sha_fold st ws =
     (if ws = [] then st else sha_fold (sha_block st (take 16 ws)) (drop 16 ws))"
  by pat_completeness auto
termination by (relation "measure (\<lambda>(_, ws). length ws)") auto

declare sha_fold.simps [simp del]

fun sha_digest :: "sha_state \<Rightarrow> nat list" where
  "sha_digest (a, b, c, d, e, f, g, h) =
     concat (map (\<lambda>w. be_bytes 4 (uint w)) [a, b, c, d, e, f, g, h])"

definition Sum256 :: "nat list \<Rightarrow> nat list" where
  "Sum256 bs = sha_digest (sha_fold sha_init (be_words (sha_pad bs)))"

definition hmac_key :: "nat list \<Rightarrow> nat list" where
  "hmac_key k = (let k' = (if length k > 64 then Sum256 k else k) in k' @ replicate (64 - length k') 0)"

definition xor_bytes :: "nat \<Rightarrow> nat list \<Rightarrow> nat list" where
  "xor_bytes p bs = map (\<lambda>b. b XOR p) bs"

definition hmac_sha256 :: "nat list \<Rightarrow> nat list \<Rightarrow> nat list" where
  "hmac_sha256 k m =
     Sum256 (xor_bytes 92 (hmac_key k) @ Sum256 (xor_bytes 54 (hmac_key k) @ m))"

section \<open>Digest length and range\<close>

lemma length_be_bytes [simp]: "length (be_bytes n v) = n"
  by (induction n arbitrary: v) auto

lemma be_bytes_range: "b \<in> set (be_bytes n v) \<Longrightarrow> b < 256"
  by (induction n arbitrary: v) (auto simp: nat_less_iff)

lemma length_sha_digest [simp]: "length (sha_digest st) = 32"
  by (induction st rule: sha_digest.induct) simp

lemma length_Sum256 [simp]: "length (Sum256 bs) = 32"
  by (simp add: Sum256_def)

lemma sha_digest_range: "b \<in> set (sha_digest st) \<Longrightarrow> b < 256"
  by (induction st rule: sha_digest.induct) (auto dest: be_bytes_range)

lemma Sum256_range: "b \<in> set (Sum256 bs) \<Longrightarrow> b < 256"
  by (auto simp: Sum256_def dest: sha_digest_range)

lemma length_hmac [simp]: "length (hmac_sha256 k m) = 32"
  by (simp add: hmac_sha256_def)

lemma hmac_range: "b \<in> set (hmac_sha256 k m) \<Longrightarrow> b < 256"
  by (auto simp: hmac_sha256_def dest: Sum256_range)

end
