(* ===== verification/Orchestration.thy ===== *)
theory Orchestration
  imports Router Repository Sha256
begin

text \<open>
  The orchestration service (\<open>orchestration/service.go\<close>, \<open>paid_events.go\<close>, \<open>webhooks.go\<close>,
  \<open>queries.go\<close>) over any repository.

  A \<open>world\<close> is the state of the store, a tick that counts interactions with the environment
  (reading the clock, drawing an id, talking to a provider: the environment's answers are
  functions of the tick) and the log of the provider calls made so far, newest first.  A Go
  function that returns \<open>(value, error)\<close> is a \<open>prog\<close>; one that can return both a payment and an
  error returns the pair \<open>(payment, error option)\<close> as its value.  The fallback loop is
  \<open>routeLoop\<close>, one iteration is \<open>routeStep\<close>.
\<close>

section \<open>The service\<close>

datatype ProviderCall =
    CallCreate ProviderConnection CreateRequest CreateOutcome
  | CallReconcile ProviderConnection ReconcileRequest ReconcileOutcome

record 's world =
  w_store :: 's
  w_tick :: nat
  w_calls :: "ProviderCall list"

type_synonym ('s, 'a) orch = "('s world, go_error, 'a) prog"

type_synonym 's refresh =
  "ProviderConnection list \<Rightarrow> Environment \<Rightarrow> Time \<Rightarrow> ('s, go_error, HealthMap) prog"

record 's Service =
  sv_repo :: "'s Repository"
  sv_providers :: Registry
  sv_telemetry :: "'s refresh option"
  sv_clock :: "nat \<Rightarrow> Time"
  sv_ids :: "nat \<Rightarrow> string \<Rightarrow> string"
  sv_maxAttempts :: int

record 's Options =
  op_Repository :: "'s Repository"
  op_Providers :: Registry
  op_RoutingTelemetry :: "'s refresh option"
  op_Clock :: "(nat \<Rightarrow> Time) option"
  op_IDs :: "(nat \<Rightarrow> string \<Rightarrow> string) option"
  op_MaxAttempts :: int

text \<open>\<open>crypto/rand\<close> gives the twelve bytes of an id; \<open>random n\<close> are those of the \<open>n\<close>-th interaction.\<close>

definition randomIDGenerator_New :: "(nat \<Rightarrow> nat list) \<Rightarrow> nat \<Rightarrow> string \<Rightarrow> string" where
  "randomIDGenerator_New random n prefix = prefix @ ''_'' @ EncodeToString (random n)"

definition NewService :: "(nat \<Rightarrow> Time) \<Rightarrow> (nat \<Rightarrow> nat list) \<Rightarrow> 's Options \<Rightarrow> 's Service" where
  "NewService realClock random opts = \<lparr>
     sv_repo = op_Repository opts,
     sv_providers = op_Providers opts,
     sv_telemetry = op_RoutingTelemetry opts,
     sv_clock = (case op_Clock opts of None \<Rightarrow> realClock | Some c \<Rightarrow> c),
     sv_ids = (case op_IDs opts of None \<Rightarrow> randomIDGenerator_New random | Some i \<Rightarrow> i),
     sv_maxAttempts = (if op_MaxAttempts opts \<le> 0 then 3 else op_MaxAttempts opts)\<rparr>"

definition run_store :: "('s, go_error, 'a) prog \<Rightarrow> ('s, 'a) orch" where
  "run_store m w = (case m (w_store w) of (r, s') \<Rightarrow> (r, w\<lparr>w_store := s'\<rparr>))"

definition step_tick :: "'s world \<Rightarrow> 's world" where
  "step_tick w = w\<lparr>w_tick := Suc (w_tick w)\<rparr>"

definition Now :: "'s Service \<Rightarrow> ('s, Time) orch" where
  "Now sv w = (Inr (sv_clock sv (w_tick w)), step_tick w)"

definition NewID :: "'s Service \<Rightarrow> string \<Rightarrow> ('s, string) orch" where
  "NewID sv prefix w = (Inr (sv_ids sv (w_tick w) prefix), step_tick w)"

definition Resolve :: "'s Service \<Rightarrow> ProviderConnection \<Rightarrow> ('s, Connector) orch" where
  "Resolve sv conn w = (rg_Resolve (sv_providers sv) (w_tick w) conn, step_tick w)"

definition callCreatePix ::
  "ProviderConnection \<Rightarrow> Connector \<Rightarrow> CreateRequest \<Rightarrow> ('s, CreateOutcome) orch" where
  "callCreatePix conn adapter req w = (let out = cn_CreatePix adapter (w_tick w) req in
     (Inr out, (step_tick w)\<lparr>w_calls := CallCreate conn req out # w_calls w\<rparr>))"

definition callReconcile ::
  "ProviderConnection \<Rightarrow> Connector \<Rightarrow> ReconcileRequest \<Rightarrow> ('s, ReconcileOutcome) orch" where
  "callReconcile conn adapter req w = (let out = cn_Reconcile adapter (w_tick w) req in
     (Inr out, (step_tick w)\<lparr>w_calls := CallReconcile conn req out # w_calls w\<rparr>))"

section \<open>Creating a payment\<close>

record CreatePaymentRequest =
  cr_WorkspaceID :: string
  cr_IdempotencyKey :: string
  cr_MerchantOrderID :: string
  cr_Amount :: int
  cr_Currency :: string
  cr_Metadata :: "StringMap option"
  cr_Environment :: Environment

definition requestFingerprint :: "CreatePaymentRequest \<Rightarrow> go_error + string" where
  "requestFingerprint req = (case Marshal (JObject
      [(''workspace_id'', JString (cr_WorkspaceID req)),
       (''merchant_order_id'', JString (cr_MerchantOrderID req)),
       (''amount'', JInt (cr_Amount req)),
       (''currency'', JString (cr_Currency req)),
       (''metadata'', json_string_map (cr_Metadata req)),
       (''environment'', JString (environment_text (cr_Environment req)))]) of
     None \<Rightarrow> Inl (Errorf ''json: unsupported value'')
   | Some payload \<Rightarrow> Inr (EncodeToString (Sum256 (map byte payload))))"

definition cloneMetadata :: "StringMap option \<Rightarrow> StringMap option" where
  "cloneMetadata metadata = (case metadata of None \<Rightarrow> None | Some m \<Rightarrow> Some (map (\<lambda>(k, v). (k, v)) m))"

lemma cloneMetadata_id [simp]: "cloneMetadata m = m"
  by (cases m) (simp_all add: cloneMetadata_def split_def)

definition newIntent :: "CreatePaymentRequest \<Rightarrow> string \<Rightarrow> Time \<Rightarrow> string \<Rightarrow> PaymentIntent" where
  "newIntent req fingerprint now i = \<lparr>pi_ID = i, pi_WorkspaceID = cr_WorkspaceID req,
     pi_MerchantOrderID = cr_MerchantOrderID req, pi_IdempotencyKey = cr_IdempotencyKey req,
     pi_RequestFingerprint = fingerprint, pi_Amount = cr_Amount req, pi_Currency = cr_Currency req,
     pi_Metadata = cloneMetadata (cr_Metadata req), pi_Status = PaymentStatusCreated, pi_ActiveAttemptID = [],
     pi_PresentedAttemptID = [], pi_Pix = None, pi_Recovered = False, pi_RecoveredAmount = 0,
     pi_FailureCode = [], pi_CreatedAt = now, pi_UpdatedAt = now, pi_PaidAt = None\<rparr>"

section \<open>One round of routing\<close>

datatype round_result =
    RoundReturn PaymentIntent "go_error option"     \<comment> \<open>\<open>return intent, err\<close>\<close>
  | RoundContinue PaymentIntent PaymentAttempt "string \<Rightarrow> bool"  \<comment> \<open>\<open>continue\<close>: intent, appended attempt, excluded\<close>

definition savePayment :: "'s Service \<Rightarrow> PaymentIntent \<Rightarrow> ('s, unit) orch" where
  "savePayment sv p = run_store (SavePayment (sv_repo sv) p)"

definition saveAttempt :: "'s Service \<Rightarrow> PaymentAttempt \<Rightarrow> ('s, unit) orch" where
  "saveAttempt sv a = run_store (SaveAttempt (sv_repo sv) a)"

definition newAttempt :: "string \<Rightarrow> string \<Rightarrow> string \<Rightarrow> int \<Rightarrow> Time \<Rightarrow> PaymentAttempt" where
  "newAttempt i pid conn sequence now = \<lparr>pa_ID = i, pa_PaymentIntentID = pid,
     pa_ProviderConnectionID = conn, pa_Sequence = sequence, pa_Status = AttemptStatusCreated,
     pa_ProviderPaymentID = [], pa_FailureCode = [], pa_ReconciliationStatus = [], pa_Pix = None,
     pa_RequestStartedAt = 0, pa_ResponseReceivedAt = None, pa_CreatedAt = now, pa_UpdatedAt = now\<rparr>"

definition newDecision :: "string \<Rightarrow> string \<Rightarrow> string \<Rightarrow> ProviderConnection \<Rightarrow> RouteResult \<Rightarrow> Time \<Rightarrow> RoutingDecision" where
  "newDecision i pid aid selected route now = \<lparr>rd_ID = i, rd_PaymentIntentID = pid, rd_AttemptID = aid,
     rd_SelectedProviderConnectionID = pc_ID selected, rd_Candidates = rr_Candidates route,
     rd_ReasonCodes = rr_ReasonCodes route, rd_ScoreVersion = rr_ScoreVersion route, rd_CreatedAt = now\<rparr>"

text \<open>\<open>clonePix\<close> copies a value.\<close>

definition clonePix :: "Pix option \<Rightarrow> Pix option" where
  "clonePix pix = (case pix of None \<Rightarrow> None | Some p \<Rightarrow> Some p)"

lemma clonePix_id [simp]: "clonePix pix = pix"
  by (cases pix) (simp_all add: clonePix_def)

text \<open>The \<open>switch outcome.Kind\<close> after the provider has answered.\<close>

definition applyCreateOutcome ::
  "'s Service \<Rightarrow> PaymentIntent \<Rightarrow> PaymentAttempt \<Rightarrow> CreateOutcome \<Rightarrow> Time \<Rightarrow> string \<Rightarrow> (string \<Rightarrow> bool) \<Rightarrow>
   ('s, round_result) orch" where
  "applyCreateOutcome sv intent attempt outcome respondedAt selectedID excluded =
     (case co_Kind outcome of
        CreateSucceeded \<Rightarrow>
          (let attempt = attempt\<lparr>pa_Status := AttemptStatusSucceeded, pa_Pix := clonePix (co_Pix outcome)\<rparr> in
           bindE (saveAttempt sv attempt) (\<lambda>_.
           let intent = intent\<lparr>pi_Status := PaymentStatusAwaitingPayment, pi_PresentedAttemptID := pa_ID attempt,
             pi_Pix := clonePix (co_Pix outcome), pi_FailureCode := [], pi_UpdatedAt := respondedAt\<rparr> in
           bindE (savePayment sv intent) (\<lambda>_. returnE (RoundReturn intent None))))
      | CreateFailedSafe \<Rightarrow>
          (let attempt = attempt\<lparr>pa_Status := AttemptStatusFailedSafe\<rparr> in
           bindE (saveAttempt sv attempt) (\<lambda>_.
           returnE (RoundContinue intent attempt (excluded(selectedID := True)))))
      | CreateUnknown \<Rightarrow>
          (let attempt = attempt\<lparr>pa_Status := AttemptStatusUnknown, pa_ReconciliationStatus := ''required''\<rparr> in
           bindE (saveAttempt sv attempt) (\<lambda>_.
           let intent = intent\<lparr>pi_Status := PaymentStatusReconciling, pi_FailureCode := co_FailureCode outcome,
             pi_UpdatedAt := respondedAt\<rparr> in
           bindE (savePayment sv intent) (\<lambda>_. returnE (RoundReturn intent None))))
      | _ \<Rightarrow>
          (let attempt = attempt\<lparr>pa_Status := AttemptStatusFailedTerminal\<rparr> in
           bindE (saveAttempt sv attempt) (\<lambda>_.
           let intent = intent\<lparr>pi_Status := PaymentStatusFailed, pi_FailureCode := co_FailureCode outcome,
             pi_UpdatedAt := respondedAt\<rparr> in
           bindE (savePayment sv intent) (\<lambda>_. returnE (RoundReturn intent None)))))"

text \<open>The branch \<open>resolveErr != nil\<close>: both saves ignore their errors.\<close>

definition resolveFailed ::
  "'s Service \<Rightarrow> PaymentIntent \<Rightarrow> PaymentAttempt \<Rightarrow> go_error \<Rightarrow> ('s, round_result) orch" where
  "resolveFailed sv intent attempt resolveErr =
     bindE (Now sv) (\<lambda>t1.
     let attempt = attempt\<lparr>pa_Status := AttemptStatusFailedTerminal,
       pa_FailureCode := ''adapter_not_registered'', pa_UpdatedAt := t1\<rparr> in
     bindE (ignoreE (saveAttempt sv attempt)) (\<lambda>_.
     bindE (Now sv) (\<lambda>t2.
     let intent = intent\<lparr>pi_Status := PaymentStatusFailed, pi_FailureCode := pa_FailureCode attempt,
       pi_UpdatedAt := t2\<rparr> in
     bindE (ignoreE (savePayment sv intent)) (\<lambda>_.
     returnE (RoundReturn intent (Some resolveErr))))))"

definition noEligibleProvider :: "'s Service \<Rightarrow> PaymentIntent \<Rightarrow> ('s, round_result) orch" where
  "noEligibleProvider sv intent =
     bindE (Now sv) (\<lambda>t.
     let intent = intent\<lparr>pi_Status := PaymentStatusFailed, pi_FailureCode := ''no_eligible_provider'',
       pi_UpdatedAt := t\<rparr> in
     bindE (savePayment sv intent) (\<lambda>_.
     returnE (RoundReturn intent (Some ErrNoEligibleProvider))))"

text \<open>From the resolved adapter to the outcome: mark the attempt requesting, call, record.\<close>

definition dispatchAttempt ::
  "'s Service \<Rightarrow> PaymentIntent \<Rightarrow> PaymentAttempt \<Rightarrow> ProviderConnection \<Rightarrow> Connector \<Rightarrow> (string \<Rightarrow> bool) \<Rightarrow>
   ('s, round_result) orch" where
  "dispatchAttempt sv intent attempt selected adapter excluded =
     bindE (Now sv) (\<lambda>started.
     let attempt = attempt\<lparr>pa_Status := AttemptStatusRequesting, pa_RequestStartedAt := started,
       pa_UpdatedAt := started\<rparr> in
     bindE (saveAttempt sv attempt) (\<lambda>_.
     bindE (callCreatePix selected adapter \<lparr>cq_PaymentIntentID = pi_ID intent, cq_AttemptID = pa_ID attempt,
       cq_Amount = pi_Amount intent, cq_Currency = pi_Currency intent,
       cq_MerchantOrderID = pi_MerchantOrderID intent\<rparr>) (\<lambda>outcome.
     bindE (Now sv) (\<lambda>respondedAt.
     let attempt = attempt\<lparr>pa_ResponseReceivedAt := Some respondedAt, pa_UpdatedAt := respondedAt,
       pa_ProviderPaymentID := co_ProviderPaymentID outcome, pa_FailureCode := co_FailureCode outcome\<rparr> in
     applyCreateOutcome sv intent attempt outcome respondedAt (pc_ID selected) excluded))))"

definition routeStep ::
  "'s Service \<Rightarrow> Environment \<Rightarrow> ProviderConnection list \<Rightarrow> HealthMap \<Rightarrow> PaymentIntent \<Rightarrow> nat \<Rightarrow> (string \<Rightarrow> bool) \<Rightarrow>
   ('s, round_result) orch" where
  "routeStep sv env connections health intent tried excluded =
     (let route = Select (Some (rg_Manifest (sv_providers sv))) connections env excluded CapabilityPixCreate health in
      case rr_Selected route of
        None \<Rightarrow> noEligibleProvider sv intent
      | Some selected \<Rightarrow>
          bindE (Now sv) (\<lambda>now.
          bindE (NewID sv ''pa'') (\<lambda>aid.
          bindE (NewID sv ''rd'') (\<lambda>did.
          let attempt = newAttempt aid (pi_ID intent) (pc_ID selected) (int tried + 1) now;
              decision = newDecision did (pi_ID intent) aid selected route now in
          bindE (run_store (AddAttemptWithRoutingDecision (sv_repo sv) attempt decision)) (\<lambda>_.
          let intent = intent\<lparr>pi_ActiveAttemptID := aid, pi_UpdatedAt := now\<rparr> in
          bindE (savePayment sv intent) (\<lambda>_.
          bindE (tryE (Resolve sv selected)) (\<lambda>resolved.
          case resolved of
            Inl resolveErr \<Rightarrow> resolveFailed sv intent attempt resolveErr
          | Inr adapter \<Rightarrow> dispatchAttempt sv intent attempt selected adapter excluded)))))))"

section \<open>The fallback loop\<close>

definition budgetExhausted :: "'s Service \<Rightarrow> PaymentIntent \<Rightarrow> ('s, PaymentIntent \<times> go_error option) orch" where
  "budgetExhausted sv intent =
     bindE (Now sv) (\<lambda>t.
     let intent = intent\<lparr>pi_Status := PaymentStatusFailed, pi_FailureCode := ''fallback_budget_exhausted'',
       pi_UpdatedAt := t\<rparr> in
     bindE (savePayment sv intent) (\<lambda>_. returnE (intent, None)))"

function routeLoop ::
  "'s Service \<Rightarrow> Environment \<Rightarrow> ProviderConnection list \<Rightarrow> HealthMap \<Rightarrow> PaymentIntent \<Rightarrow>
   PaymentAttempt list \<Rightarrow> (string \<Rightarrow> bool) \<Rightarrow> ('s, PaymentIntent \<times> go_error option) orch" where
  "routeLoop sv env connections health intent attempts excluded w =
     (if int (length attempts) < sv_maxAttempts sv
      then (case routeStep sv env connections health intent (length attempts) excluded w of
          (Inl e, w') \<Rightarrow> (Inl e, w')
        | (Inr (RoundReturn intent' err), w') \<Rightarrow> (Inr (intent', err), w')
        | (Inr (RoundContinue intent' attempt excluded'), w') \<Rightarrow>
            routeLoop sv env connections health intent' (attempts @ [attempt]) excluded' w')
      else budgetExhausted sv intent w)"
  by pat_completeness auto
termination
  by (relation "measure (\<lambda>(sv, _, _, _, _, attempts, _, _). nat (sv_maxAttempts sv - int (length attempts)))") auto

declare routeLoop.simps [simp del]

definition refreshHealth ::
  "'s Service \<Rightarrow> PaymentIntent \<Rightarrow> Environment \<Rightarrow> ProviderConnection list \<Rightarrow>
   ('s, ProviderConnection list \<times> HealthMap) orch" where
  "refreshHealth sv intent env connections = (case sv_telemetry sv of
     None \<Rightarrow> returnE (connections, [])
   | Some refresh \<Rightarrow>
       bindE (Now sv) (\<lambda>now.
       bindE (run_store (refresh connections env now)) (\<lambda>health.
       bindE (run_store (ListProviderConnections (sv_repo sv) (pi_WorkspaceID intent))) (\<lambda>connections.
       returnE (connections, health)))))"

definition attempted :: "PaymentAttempt list \<Rightarrow> string \<Rightarrow> bool" where
  "attempted attempts = fold (\<lambda>attempt excluded. excluded(pa_ProviderConnectionID attempt := True)) attempts (\<lambda>_. False)"

definition executeRouting ::
  "'s Service \<Rightarrow> PaymentIntent \<Rightarrow> Environment \<Rightarrow> ('s, PaymentIntent \<times> go_error option) orch" where
  "executeRouting sv intent env =
     bindE (run_store (ListProviderConnections (sv_repo sv) (pi_WorkspaceID intent))) (\<lambda>connections.
     bindE (refreshHealth sv intent env connections) (\<lambda>(connections, health).
     bindE (run_store (ListAttempts (sv_repo sv) (pi_ID intent))) (\<lambda>attempts.
     routeLoop sv env connections health intent attempts (attempted attempts))))"

text \<open>\<open>createOrReplay\<close> and \<open>routeNew\<close> are the two halves of \<open>CreatePayment\<close> after the intent is built.\<close>

definition routeNew ::
  "'s Service \<Rightarrow> Environment \<Rightarrow> PaymentIntent \<Rightarrow> ('s, PaymentIntent \<times> go_error option) orch" where
  "routeNew sv env stored =
     bindE (Now sv) (\<lambda>t.
     let stored = stored\<lparr>pi_Status := PaymentStatusRouting, pi_UpdatedAt := t\<rparr> in
     bindE (savePayment sv stored) (\<lambda>_. executeRouting sv stored env))"

definition createOrReplay ::
  "'s Service \<Rightarrow> Environment \<Rightarrow> PaymentIntent \<Rightarrow> ('s, PaymentIntent \<times> go_error option) orch" where
  "createOrReplay sv env intent =
     bindE (run_store (GetOrCreatePayment (sv_repo sv) intent)) (\<lambda>(stored, created).
     if \<not> created then returnE (stored, None) else routeNew sv env stored)"

definition CreatePayment ::
  "'s Service \<Rightarrow> CreatePaymentRequest \<Rightarrow> ('s, PaymentIntent \<times> go_error option) orch" where
  "CreatePayment sv req =
     bindE (liftE (requestFingerprint req)) (\<lambda>fingerprint.
     bindE (Now sv) (\<lambda>now.
     bindE (NewID sv ''pi'') (\<lambda>i.
     createOrReplay sv (cr_Environment req) (newIntent req fingerprint now i))))"

section \<open>Reconciling an unknown attempt\<close>

definition applyReconcileOutcome ::
  "'s Service \<Rightarrow> PaymentIntent \<Rightarrow> PaymentAttempt \<Rightarrow> ReconcileOutcome \<Rightarrow> Time \<Rightarrow> Environment \<Rightarrow>
   ('s, PaymentIntent \<times> go_error option) orch" where
  "applyReconcileOutcome sv intent attempt outcome now env =
     (case ro_Kind outcome of
        ReconcileNotCreated \<Rightarrow>
          (let attempt = attempt\<lparr>pa_Status := AttemptStatusFailedSafe, pa_ReconciliationStatus := ''not_created'',
             pa_FailureCode := ro_FailureCode outcome, pa_UpdatedAt := now\<rparr> in
           bindE (saveAttempt sv attempt) (\<lambda>_.
           let intent = intent\<lparr>pi_Status := PaymentStatusRouting, pi_FailureCode := [], pi_UpdatedAt := now\<rparr> in
           bindE (savePayment sv intent) (\<lambda>_. executeRouting sv intent env)))
      | ReconcileCreated \<Rightarrow>
          (let attempt = attempt\<lparr>pa_Status := AttemptStatusSucceeded, pa_ReconciliationStatus := ''created'',
             pa_ProviderPaymentID := ro_ProviderPaymentID outcome, pa_Pix := clonePix (ro_Pix outcome),
             pa_FailureCode := [], pa_UpdatedAt := now\<rparr> in
           bindE (saveAttempt sv attempt) (\<lambda>_.
           let intent = intent\<lparr>pi_Status := PaymentStatusAwaitingPayment, pi_PresentedAttemptID := pa_ID attempt,
             pi_Pix := clonePix (ro_Pix outcome), pi_FailureCode := [], pi_UpdatedAt := now\<rparr> in
           bindE (savePayment sv intent) (\<lambda>_. returnE (intent, None))))
      | ReconcileTerminal \<Rightarrow>
          (let attempt = attempt\<lparr>pa_Status := AttemptStatusFailedTerminal, pa_ReconciliationStatus := ''terminal'',
             pa_FailureCode := ro_FailureCode outcome, pa_UpdatedAt := now\<rparr> in
           bindE (saveAttempt sv attempt) (\<lambda>_.
           let intent = intent\<lparr>pi_Status := PaymentStatusFailed, pi_FailureCode := ro_FailureCode outcome,
             pi_UpdatedAt := now\<rparr> in
           bindE (savePayment sv intent) (\<lambda>_. returnE (intent, None))))
      | _ \<Rightarrow>
          (let attempt = attempt\<lparr>pa_ReconciliationStatus := ''still_unknown'', pa_UpdatedAt := now\<rparr> in
           bindE (saveAttempt sv attempt) (\<lambda>_. returnE (intent, None))))"

definition ReconcilePayment ::
  "'s Service \<Rightarrow> string \<Rightarrow> Environment \<Rightarrow> ('s, PaymentIntent \<times> go_error option) orch" where
  "ReconcilePayment sv paymentID env =
     bindE (run_store (GetPayment (sv_repo sv) paymentID)) (\<lambda>intent.
     if pi_Status intent \<noteq> PaymentStatusReconciling then throwE ErrInvalidTransition
     else bindE (run_store (GetAttempt (sv_repo sv) (pi_ActiveAttemptID intent))) (\<lambda>attempt.
     if pa_Status attempt \<noteq> AttemptStatusUnknown then throwE ErrInvalidTransition
     else bindE (run_store (ListProviderConnections (sv_repo sv) (pi_WorkspaceID intent))) (\<lambda>connections.
     case find (\<lambda>c. pc_ID c = pa_ProviderConnectionID attempt) connections of
       None \<Rightarrow> throwE ErrNotFound
     | Some conn \<Rightarrow>
         bindE (Resolve sv conn) (\<lambda>adapter.
         bindE (callReconcile conn adapter \<lparr>rq_PaymentIntentID = pi_ID intent, rq_AttemptID = pa_ID attempt,
           rq_ProviderPaymentID = pa_ProviderPaymentID attempt\<rparr>) (\<lambda>outcome.
         bindE (Now sv) (\<lambda>now.
         applyReconcileOutcome sv intent attempt outcome now env))))))"

section \<open>Marking a payment paid\<close>

text \<open>The first attempt before the paid one that failed safely.\<close>

definition failedBefore :: "PaymentAttempt \<Rightarrow> PaymentAttempt list \<Rightarrow> PaymentAttempt option" where
  "failedBefore attempt attempts =
     find (\<lambda>a. pa_Sequence a < pa_Sequence attempt \<and> pa_Status a = AttemptStatusFailedSafe) attempts"

definition newRecovery :: "string \<Rightarrow> PaymentIntent \<Rightarrow> PaymentAttempt \<Rightarrow> PaymentAttempt \<Rightarrow> Time \<Rightarrow> RecoveryEvent" where
  "newRecovery i intent failed attempt now = \<lparr>re_ID = i, re_PaymentIntentID = pi_ID intent,
     re_FailedAttemptID = pa_ID failed, re_SuccessfulAttemptID = pa_ID attempt,
     re_FailureReason = pa_FailureCode failed, re_Amount = pi_Amount intent, re_CreatedAt = now\<rparr>"

definition MarkPaid :: "'s Service \<Rightarrow> string \<Rightarrow> string \<Rightarrow> ('s, PaymentIntent) orch" where
  "MarkPaid sv paymentID attemptID =
     bindE (run_store (GetPayment (sv_repo sv) paymentID)) (\<lambda>intent.
     if pi_Status intent = PaymentStatusPaid then returnE intent
     else if pi_Status intent \<noteq> PaymentStatusAwaitingPayment \<or> pi_PresentedAttemptID intent \<noteq> attemptID
     then throwE ErrInvalidTransition
     else bindE (run_store (GetAttempt (sv_repo sv) attemptID)) (\<lambda>attempt.
     if pa_Status attempt \<noteq> AttemptStatusSucceeded then throwE ErrInvalidTransition
     else bindE (Now sv) (\<lambda>now.
     let intent = intent\<lparr>pi_Status := PaymentStatusPaid, pi_PaidAt := Some now, pi_UpdatedAt := now\<rparr> in
     bindE (run_store (ListAttempts (sv_repo sv) (pi_ID intent))) (\<lambda>attempts.
     bindE (case failedBefore attempt attempts of
         None \<Rightarrow> returnE intent
       | Some failed \<Rightarrow>
           bindE (NewID sv ''re'') (\<lambda>rid.
           bindE (run_store (CreateRecoveryIfAbsent (sv_repo sv) (newRecovery rid intent failed attempt now))) (\<lambda>created.
           returnE (if created then intent\<lparr>pi_Recovered := True, pi_RecoveredAmount := pi_Amount intent\<rparr>
                    else intent)))) (\<lambda>intent.
     bindE (savePayment sv intent) (\<lambda>_. returnE intent))))))"

definition newMerchantEvent ::
  "'s Service \<Rightarrow> PaymentIntent \<Rightarrow> string \<Rightarrow> string \<Rightarrow> Time \<Rightarrow> ('s, MerchantEvent) orch" where
  "newMerchantEvent sv intent eventType eventKey createdAt =
     bindE (NewID sv ''evt'') (\<lambda>eventID.
     case Marshal (JMap
       [(''id'', JString eventID), (''type'', JString eventType), (''created_at'', JTime createdAt),
        (''data'', JMap
          [(''payment_id'', JString (pi_ID intent)),
           (''merchant_order_id'', JString (pi_MerchantOrderID intent)),
           (''amount'', JInt (pi_Amount intent)),
           (''currency'', JString (pi_Currency intent)),
           (''status'', JString (payment_status_text (pi_Status intent))),
           (''recovered'', JBool (pi_Recovered intent)),
           (''recovered_amount'', JInt (pi_RecoveredAmount intent))])]) of
       None \<Rightarrow> throwE (Errorf ''json: error calling MarshalJSON for type time.Time'')
     | Some payload \<Rightarrow> returnE \<lparr>me_ID = eventID, me_WorkspaceID = pi_WorkspaceID intent,
         me_EventKey = eventKey, me_EventType = eventType, me_PaymentIntentID = pi_ID intent,
         me_Payload = payload, me_CreatedAt = createdAt\<rparr>)"

definition paymentMerchantEvents ::
  "'s Service \<Rightarrow> PaymentIntent \<Rightarrow> Time \<Rightarrow> ('s, MerchantEvent list) orch" where
  "paymentMerchantEvents sv intent createdAt =
     bindE (newMerchantEvent sv intent ''payment.paid'' (''payment.paid:'' @ pi_ID intent) createdAt) (\<lambda>paid.
     if pi_Recovered intent
     then bindE (newMerchantEvent sv intent ''payment.recovered'' (''payment.recovered:'' @ pi_ID intent) createdAt)
            (\<lambda>recovered. returnE [paid, recovered])
     else returnE [paid])"

definition MarkPaidWithOutbox :: "'s Service \<Rightarrow> string \<Rightarrow> string \<Rightarrow> ('s, PaymentIntent) orch" where
  "MarkPaidWithOutbox sv paymentID attemptID =
     bindE (run_store (GetPayment (sv_repo sv) paymentID)) (\<lambda>intent.
     if pi_Status intent = PaymentStatusPaid then returnE intent
     else if pi_Status intent \<noteq> PaymentStatusAwaitingPayment \<or> pi_PresentedAttemptID intent \<noteq> attemptID
     then throwE ErrInvalidTransition
     else bindE (run_store (GetAttempt (sv_repo sv) attemptID)) (\<lambda>attempt.
     if pa_Status attempt \<noteq> AttemptStatusSucceeded then throwE ErrInvalidTransition
     else bindE (Now sv) (\<lambda>now.
     let intent = intent\<lparr>pi_Status := PaymentStatusPaid, pi_PaidAt := Some now, pi_UpdatedAt := now\<rparr> in
     bindE (run_store (ListAttempts (sv_repo sv) (pi_ID intent))) (\<lambda>attempts.
     bindE (case failedBefore attempt attempts of
         None \<Rightarrow> returnE (intent, None)
       | Some failed \<Rightarrow>
           bindE (NewID sv ''re'') (\<lambda>rid.
           returnE (intent\<lparr>pi_Recovered := True, pi_RecoveredAmount := pi_Amount intent\<rparr>,
                    Some (newRecovery rid intent failed attempt now)))) (\<lambda>(intent, recovery).
     bindE (paymentMerchantEvents sv intent now) (\<lambda>events.
     bindE (run_store (MarkPaymentPaidWithEvents (sv_repo sv) intent recovery events)) (\<lambda>_.
     returnE intent)))))))"

section \<open>Provider webhooks\<close>

text \<open>\<open>settleWebhook\<close> is the body of \<open>ProcessProviderWebhook\<close> from the recording of the event on.\<close>

definition callParseWebhook ::
  "(nat \<Rightarrow> WebhookRequest \<Rightarrow> go_error + WebhookEvent) \<Rightarrow> WebhookRequest \<Rightarrow> ('s, WebhookEvent) orch" where
  "callParseWebhook parse request w = (parse (w_tick w) request, step_tick w)"

definition settleWebhook ::
  "'s Service \<Rightarrow> string \<Rightarrow> WebhookRequest \<Rightarrow> WebhookEvent \<Rightarrow> ('s, PaymentIntent) orch" where
  "settleWebhook sv providerConnectionID request event =
     bindE (Now sv) (\<lambda>now.
     bindE (NewID sv ''pev'') (\<lambda>pevID.
     bindE (run_store (RecordProviderEvent (sv_repo sv)
         \<lparr>pe_ID = pevID, pe_ProviderConnectionID = providerConnectionID,
          pe_ExternalEventID = we_ExternalEventID event, pe_EventType = we_Type event,
          pe_ProviderPaymentID = we_ProviderPaymentID event,
          pe_PayloadHash = EncodeToString (Sum256 (map byte (wr_Body request))),
          pe_ReceivedAt = now, pe_ProcessedAt = None\<rparr>)) (\<lambda>_.
     bindE (run_store (GetAttemptByProviderPaymentID (sv_repo sv) providerConnectionID
         (we_ProviderPaymentID event))) (\<lambda>attempt.
     bindE (MarkPaidWithOutbox sv (pa_PaymentIntentID attempt) (pa_ID attempt)) (\<lambda>intent.
     bindE (Now sv) (\<lambda>t.
     bindE (run_store (MarkProviderEventProcessed (sv_repo sv) providerConnectionID
         (we_ExternalEventID event) t)) (\<lambda>_.
     returnE intent)))))))"

definition ProcessProviderWebhook ::
  "'s Service \<Rightarrow> string \<Rightarrow> WebhookRequest \<Rightarrow> ('s, PaymentIntent) orch" where
  "ProcessProviderWebhook sv providerConnectionID request =
     bindE (run_store (GetProviderConnection (sv_repo sv) providerConnectionID)) (\<lambda>connection.
     bindE (Resolve sv connection) (\<lambda>adapter.
     case cn_ParseWebhook adapter of
       None \<Rightarrow> throwE ErrUnsupportedWebhook
     | Some parse \<Rightarrow>
         bindE (callParseWebhook parse request) (\<lambda>event.
         if we_ExternalEventID event = [] \<or> we_ProviderPaymentID event = [] \<or> we_Type event = []
         then throwE ErrUnsupportedWebhook
         else if we_Type event \<noteq> ''payment.paid'' then throwE ErrUnsupportedWebhook
         else settleWebhook sv providerConnectionID request event)))"

section \<open>Queries\<close>

definition queryPayment ::
  "'s Service \<Rightarrow> string \<Rightarrow> Environment \<Rightarrow> string \<Rightarrow> ('s, PaymentIntent) orch" where
  "queryPayment sv workspaceID environment paymentID =
     bindE (run_store (GetPayment (sv_repo sv) paymentID)) (\<lambda>intent.
     if pi_WorkspaceID intent \<noteq> workspaceID then throwE ErrNotFound
     else bindE (run_store (GetPaymentEnvironment (sv_repo sv) paymentID)) (\<lambda>paymentEnvironment.
     if paymentEnvironment \<noteq> environment then throwE ErrNotFound
     else returnE intent))"

definition ListPaymentAttempts ::
  "'s Service \<Rightarrow> string \<Rightarrow> Environment \<Rightarrow> string \<Rightarrow> ('s, PaymentAttempt list) orch" where
  "ListPaymentAttempts sv workspaceID environment paymentID =
     bindE (queryPayment sv workspaceID environment paymentID) (\<lambda>_.
     run_store (ListAttempts (sv_repo sv) paymentID))"

end
