(* ===== verification/Runs.thy ===== *)
theory Runs
  imports Orchestration
begin

text \<open>
  The operations of the orchestration service along a relation of worlds.

  \<open>run_relation\<close> is a preorder of worlds that the clock, the ids and the resolution of connectors
  respect; \<open>service_relation\<close> adds a service whose provider calls and repository operations respect it.
  Then every operation of the service does, on every path through it, errors included.  The locales carry
  what is said later about the tick (theory Service), the log of the provider calls (theory Charging), the
  database (theory Program) and the statements of concurrent calls (theory Concurrent).
\<close>

locale run_relation = state_preorder R for R :: "'s world \<Rightarrow> 's world \<Rightarrow> bool" +
  assumes tick: "R w (step_tick w)"
begin

lemma along_environment [along_intros]:
  "along R (Now sv)" "along R (NewID sv p)" "along R (Resolve sv c)" "along R (callParseWebhook g wr)"
  by (simp_all add: along_def Now_def NewID_def Resolve_def callParseWebhook_def tick)

end

locale service_relation = run_relation R for R :: "'s world \<Rightarrow> 's world \<Rightarrow> bool" +
  fixes sv :: "'s Service"
  assumes create: "rg_Resolve (sv_providers sv) n c = Inr k \<Longrightarrow> along R (callCreatePix c k cq)"
    and reconcile: "rg_Resolve (sv_providers sv) n c = Inr k \<Longrightarrow> along R (callReconcile c k rq)"
    and telemetry: "sv_telemetry sv = Some refresh \<Longrightarrow> along R (run_store (refresh cs env t))"
    and repository [along_intros]:
      "along R (run_store (GetOrCreatePayment (sv_repo sv) p))" "along R (run_store (GetPayment (sv_repo sv) i))"
      "along R (run_store (GetPaymentEnvironment (sv_repo sv) i))" "along R (run_store (SavePayment (sv_repo sv) p))"
      "along R (run_store (ListProviderConnections (sv_repo sv) ws))" "along R (run_store (GetProviderConnection (sv_repo sv) i))"
      "along R (run_store (AddAttemptWithRoutingDecision (sv_repo sv) a d))" "along R (run_store (SaveAttempt (sv_repo sv) a))"
      "along R (run_store (GetAttempt (sv_repo sv) i))" "along R (run_store (GetAttemptByProviderPaymentID (sv_repo sv) ws i))"
      "along R (run_store (ListAttempts (sv_repo sv) i))" "along R (run_store (RecordProviderEvent (sv_repo sv) pe))"
      "along R (run_store (MarkProviderEventProcessed (sv_repo sv) ws i t))"
      "along R (run_store (MarkPaymentPaidWithEvents (sv_repo sv) p r es))"
begin

lemma along_saves [along_intros]: "along R (savePayment sv p)" "along R (saveAttempt sv a)"
  unfolding savePayment_def saveAttempt_def by (rule repository)+

text \<open>A connector that was resolved.\<close>

lemma along_resolve:
  assumes "\<And>e. along R (f (Inl e))" and "\<And>n k. rg_Resolve (sv_providers sv) n c = Inr k \<Longrightarrow> along R (f (Inr k))"
  shows "along R (bindE (tryE (Resolve sv c)) f)"
proof (rule alongI)
  fix w show "R w (snd (bindE (tryE (Resolve sv c)) f w))"
    using assms by (cases "rg_Resolve (sv_providers sv) (w_tick w) c")
      (auto simp: bindE_def tryE_def Resolve_def along_def intro: trans [OF tick])
qed

lemma along_resolved:
  assumes "\<And>n k. rg_Resolve (sv_providers sv) n c = Inr k \<Longrightarrow> along R (f k)"
  shows "along R (bindE (Resolve sv c) f)"
proof (rule alongI)
  fix w show "R w (snd (bindE (Resolve sv c) f w))"
    using assms by (cases "rg_Resolve (sv_providers sv) (w_tick w) c")
      (auto simp: bindE_def Resolve_def along_def intro: trans [OF tick] tick)
qed

lemma along_applyCreate [along_intros]: "along R (applyCreateOutcome sv i a out t s ex)"
  by (cases "co_Kind out") (simp_all add: applyCreateOutcome_def Let_def along_intros)

lemma along_steps [along_intros]:
  "along R (resolveFailed sv i a e)" "along R (noEligibleProvider sv i)" "along R (budgetExhausted sv i)"
  unfolding resolveFailed_def noEligibleProvider_def budgetExhausted_def Let_def by (intro along_intros)+

lemma along_refreshHealth [along_intros]: "along R (refreshHealth sv i env cs)"
  by (cases "sv_telemetry sv") (simp_all add: refreshHealth_def along_intros telemetry)

lemma along_dispatch:
  "rg_Resolve (sv_providers sv) n c = Inr k \<Longrightarrow> along R (dispatchAttempt sv i a c k ex)"
  unfolding dispatchAttempt_def Let_def by (intro along_intros create)

lemma along_dispatched [along_intros]:
  "along R (bindE (tryE (Resolve sv c)) (\<lambda>resolved. case resolved of
     Inl e \<Rightarrow> resolveFailed sv i a e | Inr k \<Rightarrow> dispatchAttempt sv i a c k ex))"
  by (rule along_resolve) (simp_all add: along_steps along_dispatch)

lemma along_routeStep [along_intros]: "along R (routeStep sv env cs h i n ex)"
  unfolding routeStep_def Let_def by (rule along_dispatched along_intros)+

lemma along_routeLoop [along_intros]: "along R (routeLoop sv env cs h i as ex)"
proof (rule alongI)
  fix w
  have "sv' = sv \<Longrightarrow> R w (snd (routeLoop sv' env cs h i as ex w))" for sv'
  proof (induction sv' env cs h i as ex w rule: routeLoop.induct)
    case (1 sv' env cs h i as ex w)
    have s: "R w (snd (routeStep sv' env cs h i (length as) ex w))" "R w (snd (budgetExhausted sv' i w))"
      unfolding 1(2) by (rule alongD, rule along_routeStep, rule alongD, rule along_steps)
    show ?case
      using s 1 by (subst routeLoop.simps) (auto split: prod.split sum.split round_result.split intro: trans)
  qed
  then show "R w (snd (routeLoop sv env cs h i as ex w))" by simp
qed

lemma along_executeRouting [along_intros]: "along R (executeRouting sv i env)"
  unfolding executeRouting_def by (intro along_intros)

lemma along_routeNew [along_intros]: "along R (routeNew sv env p)"
  unfolding routeNew_def Let_def by (intro along_intros)

lemma along_createOrReplay [along_intros]: "along R (createOrReplay sv env p)"
  unfolding createOrReplay_def by (intro along_intros)

lemma along_CreatePayment [along_intros]: "along R (CreatePayment sv cr)"
  unfolding CreatePayment_def by (intro along_intros)

lemma along_applyReconcile [along_intros]: "along R (applyReconcileOutcome sv i a out t env)"
  by (cases "ro_Kind out") (simp_all add: applyReconcileOutcome_def Let_def along_intros)

lemma along_ReconcilePayment [along_intros]: "along R (ReconcilePayment sv pid env)"
  unfolding ReconcilePayment_def by (rule along_resolved reconcile along_intros | assumption)+

lemma along_MarkPaidWithOutbox [along_intros]: "along R (MarkPaidWithOutbox sv pid aid)"
  unfolding MarkPaidWithOutbox_def paymentMerchantEvents_def newMerchantEvent_def Let_def by (intro along_intros)

lemma along_ProcessProviderWebhook [along_intros]: "along R (ProcessProviderWebhook sv conn request)"
  unfolding ProcessProviderWebhook_def settleWebhook_def by (intro along_intros)

lemma along_queries [along_intros]: "along R (queryPayment sv ws env pid)" "along R (ListPaymentAttempts sv ws env pid)"
  unfolding ListPaymentAttempts_def queryPayment_def by (intro along_intros)+

lemmas along_operations = along_CreatePayment along_ProcessProviderWebhook along_queries

end

end
