(* ===== verification/Invariant.thy ===== *)
theory Invariant
  imports Orchestration
begin

text \<open>
  The invariant of the orchestration service, over the view of any repository and the log of
  provider calls, and one preservation lemma per update of the view or of the log.

  \<^item> \<open>ids_ok\<close>: payments and attempts are stored under their ids, which the generator issued;
  \<^item> \<open>list_ok\<close>: the attempts of a payment are numbered 1, 2, \<dots>, go to pairwise different
    connections, all but the last failed safely, and each has one routing decision whose
    candidates contain the selected connection as eligible;
  \<^item> \<open>status_ok\<close>: what the payment's status says about its last attempt;
  \<^item> \<open>rec_ok\<close>: recovery is recorded exactly for paid payments with a failed attempt before;
  \<^item> \<open>idem_ok\<close>: workspace and idempotency key determine the payment;
  \<^item> \<open>evt_ok\<close>: the outbox holds exactly the events of the paid payments, once each;
  \<^item> \<open>trace_ok\<close>: no charge is requested while an earlier one of the payment may exist.
\<close>

section \<open>Definitions\<close>

definition minted :: "(nat \<Rightarrow> string \<Rightarrow> string) \<Rightarrow> nat \<Rightarrow> string \<Rightarrow> bool" where
  "minted ids n i \<longleftrightarrow> (\<exists>k<n. \<exists>prefix. i = ids k prefix)"

definition unique_ids :: "(nat \<Rightarrow> string \<Rightarrow> string) \<Rightarrow> nat \<Rightarrow> bool" where
  "unique_ids ids n \<longleftrightarrow> (\<forall>k<n. \<forall>l<n. \<forall>p q. ids k p = ids l q \<longrightarrow> k = l)"

definition ids_ok :: "(nat \<Rightarrow> string \<Rightarrow> string) \<Rightarrow> nat \<Rightarrow> 'k view \<Rightarrow> bool" where
  "ids_ok ids n v \<longleftrightarrow>
     (\<forall>i p. v_pay v i = Some p \<longrightarrow> ap_ID p = i \<and> minted ids n i) \<and>
     (\<forall>i a. v_att v i = Some a \<longrightarrow> aa_ID a = i \<and> minted ids n i \<and> i \<in> set (v_attIDs v (aa_Payment a)))"

definition dec_ok :: "ADec \<Rightarrow> bool" where
  "dec_ok d \<longleftrightarrow> list_ex (\<lambda>c. cs_ProviderConnectionID c = ad_Selected d \<and> cs_Eligible c) (ad_Candidates d)"

definition list_ok :: "'k view \<Rightarrow> string \<Rightarrow> bool" where
  "list_ok v pid \<longleftrightarrow>
     (\<forall>i\<in>set (v_attIDs v pid). \<exists>a. v_att v i = Some a \<and> aa_Payment a = pid) \<and>
     distinct (v_attIDs v pid) \<and>
     map aa_Sequence (atts v pid) = map int [1..<Suc (length (atts v pid))] \<and>
     distinct (map aa_Connection (atts v pid)) \<and>
     (\<forall>a\<in>set (butlast (atts v pid)). aa_Status a = AttemptStatusFailedSafe) \<and>
     (v_attIDs v pid \<noteq> [] \<longrightarrow> v_pay v pid \<noteq> None) \<and>
     map ad_AttemptID (v_dec v pid) = v_attIDs v pid \<and>
     map ad_Selected (v_dec v pid) = map aa_Connection (atts v pid) \<and>
     (\<forall>d\<in>set (v_dec v pid). dec_ok d)"

definition settled :: "AAtt list \<Rightarrow> APay \<Rightarrow> bool" where
  "settled as p \<longleftrightarrow> as \<noteq> [] \<and> ap_Presented p = aa_ID (last as) \<and>
     aa_Status (last as) = AttemptStatusSucceeded \<and> ap_Pix p = aa_Pix (last as)"

definition status_ok :: "AAtt list \<Rightarrow> APay \<Rightarrow> bool" where
  "status_ok as p \<longleftrightarrow> (case ap_Status p of
       PaymentStatusCreated \<Rightarrow> as = []
     | PaymentStatusRouting \<Rightarrow> True
     | PaymentStatusReconciling \<Rightarrow> as \<noteq> [] \<and> ap_Active p = aa_ID (last as) \<and>
         aa_Status (last as) \<noteq> AttemptStatusCreated \<and> aa_Status (last as) \<noteq> AttemptStatusRequesting
     | PaymentStatusAwaitingPayment \<Rightarrow> settled as p
     | PaymentStatusPaid \<Rightarrow> settled as p
     | PaymentStatusFailed \<Rightarrow> as = [] \<or>
         aa_Status (last as) \<in> {AttemptStatusCreated, AttemptStatusFailedSafe, AttemptStatusFailedTerminal}
     | _ \<Rightarrow> False)"

definition recovery_for :: "AAtt list \<Rightarrow> APay \<Rightarrow> ARec list" where
  "recovery_for as p = (case as of
     f # _ # _ \<Rightarrow> [\<lparr>ar_Failed = aa_ID f, ar_Successful = ap_Presented p, ar_Reason = aa_FailureCode f,
       ar_Amount = ap_Amount p\<rparr>]
   | _ \<Rightarrow> [])"

definition rec_ok :: "AAtt list \<Rightarrow> ARec list \<Rightarrow> APay \<Rightarrow> bool" where
  "rec_ok as rs p \<longleftrightarrow>
     (ap_HasPaidAt p \<longleftrightarrow> ap_Status p = PaymentStatusPaid) \<and>
     rs = (if ap_Status p = PaymentStatusPaid then recovery_for as p else []) \<and>
     (ap_Recovered p \<longleftrightarrow> rs \<noteq> []) \<and>
     ap_RecoveredAmount p = (if rs \<noteq> [] then ap_Amount p else 0)"

definition idem_ok :: "(string \<Rightarrow> string \<Rightarrow> 'k) \<Rightarrow> 'k view \<Rightarrow> bool" where
  "idem_ok ikey v \<longleftrightarrow>
     (\<forall>k pid fp. v_idem v k = Some (pid, fp) \<longrightarrow>
        (\<exists>p. v_pay v pid = Some p \<and> ikey (ap_Workspace p) (ap_Key p) = k \<and> fp = ap_Fingerprint p)) \<and>
     (\<forall>pid p. v_pay v pid = Some p \<longrightarrow>
        v_idem v (ikey (ap_Workspace p) (ap_Key p)) = Some (pid, ap_Fingerprint p))"

definition paid_event :: "string \<Rightarrow> AEvt" where
  "paid_event pid = \<lparr>ae_Key = ''payment.paid:'' @ pid, ae_Type = ''payment.paid'', ae_Payment = pid\<rparr>"

definition recovered_event :: "string \<Rightarrow> AEvt" where
  "recovered_event pid =
     \<lparr>ae_Key = ''payment.recovered:'' @ pid, ae_Type = ''payment.recovered'', ae_Payment = pid\<rparr>"

definition events_of :: "APay \<Rightarrow> AEvt list" where
  "events_of p = (if ap_Status p = PaymentStatusPaid
     then paid_event (ap_ID p) # (if ap_Recovered p then [recovered_event (ap_ID p)] else []) else [])"

definition evt_ok :: "'k view \<Rightarrow> bool" where
  "evt_ok v \<longleftrightarrow>
     (\<forall>key. v_mevKeys v key \<longrightarrow> (\<exists>pid p. v_pay v pid = Some p \<and> key \<in> ae_Key ` set (events_of p))) \<and>
     (\<forall>pid p. v_pay v pid = Some p \<longrightarrow>
        filter (\<lambda>e. ae_Payment e = pid) (v_mev v (ap_Workspace p)) = events_of p) \<and>
     (\<forall>ws. \<forall>e\<in>set (v_mev v ws). \<exists>p. v_pay v (ae_Payment e) = Some p \<and> ap_Workspace p = ws)"

text \<open>
  The call log, newest first.  An attempt is cleared when a provider has answered that no charge
  exists for it: a safe failure of the create call, or a reconciliation that finds nothing.
  The log is safe when every create call was preceded by the clearance of every earlier create
  call of the same payment.
\<close>

fun clears :: "string \<Rightarrow> ProviderCall \<Rightarrow> bool" where
  "clears aid (CallCreate _ req out) \<longleftrightarrow> cq_AttemptID req = aid \<and> co_Kind out = CreateFailedSafe"
| "clears aid (CallReconcile _ req out) \<longleftrightarrow> rq_AttemptID req = aid \<and> ro_Kind out = ReconcileNotCreated"

definition cleared :: "ProviderCall list \<Rightarrow> string \<Rightarrow> bool" where
  "cleared calls aid \<longleftrightarrow> list_ex (clears aid) calls"

fun creates_for :: "string \<Rightarrow> ProviderCall list \<Rightarrow> string list" where
  "creates_for pid [] = []"
| "creates_for pid (CallCreate _ req _ # calls) =
     (if cq_PaymentIntentID req = pid then [cq_AttemptID req] else []) @ creates_for pid calls"
| "creates_for pid (_ # calls) = creates_for pid calls"

fun safe_trace :: "ProviderCall list \<Rightarrow> bool" where
  "safe_trace [] \<longleftrightarrow> True"
| "safe_trace (CallCreate _ req _ # calls) \<longleftrightarrow>
     list_all (\<lambda>aid. aid \<noteq> cq_AttemptID req \<and> cleared calls aid) (creates_for (cq_PaymentIntentID req) calls) \<and>
     safe_trace calls"
| "safe_trace (_ # calls) \<longleftrightarrow> safe_trace calls"

definition call_ok :: "'k view \<Rightarrow> ProviderCall \<Rightarrow> bool" where
  "call_ok v call \<longleftrightarrow> (case call of
     CallCreate conn req _ \<Rightarrow> (\<exists>a p. v_att v (cq_AttemptID req) = Some a \<and> aa_Payment a = cq_PaymentIntentID req \<and>
       aa_Connection a = pc_ID conn \<and> aa_Status a \<noteq> AttemptStatusCreated \<and>
       v_pay v (cq_PaymentIntentID req) = Some p \<and> ap_Amount p = cq_Amount req)
   | CallReconcile conn req _ \<Rightarrow> (\<exists>a. v_att v (rq_AttemptID req) = Some a \<and> aa_Payment a = rq_PaymentIntentID req \<and>
       aa_Connection a = pc_ID conn))"

definition trace_ok :: "'k view \<Rightarrow> ProviderCall list \<Rightarrow> bool" where
  "trace_ok v calls \<longleftrightarrow> safe_trace calls \<and> (\<forall>call\<in>set calls. call_ok v call) \<and>
     (\<forall>aid a. v_att v aid = Some a \<longrightarrow> aa_Status a = AttemptStatusFailedSafe \<longrightarrow> cleared calls aid)"

definition inv :: "int \<Rightarrow> (nat \<Rightarrow> string \<Rightarrow> string) \<Rightarrow> (string \<Rightarrow> string \<Rightarrow> 'k) \<Rightarrow> nat \<Rightarrow> 'k view \<Rightarrow>
    ProviderCall list \<Rightarrow> bool" where
  "inv mx ids ikey n v calls \<longleftrightarrow>
     ids_ok ids n v \<and> (\<forall>pid. list_ok v pid) \<and> (\<forall>pid. int (length (v_attIDs v pid)) \<le> max 0 mx) \<and>
     (\<forall>pid p. v_pay v pid = Some p \<longrightarrow> status_ok (atts v pid) p \<and> rec_ok (atts v pid) (v_rec v pid) p) \<and>
     (\<forall>pid. v_pay v pid = None \<longrightarrow> v_rec v pid = []) \<and>
     idem_ok ikey v \<and> evt_ok v \<and> trace_ok v calls"

lemma invI:
  assumes "ids_ok ids n v" and "\<And>pid. list_ok v pid" and "\<And>pid. int (length (v_attIDs v pid)) \<le> max 0 mx"
    and "\<And>pid p. v_pay v pid = Some p \<Longrightarrow> status_ok (atts v pid) p"
    and "\<And>pid p. v_pay v pid = Some p \<Longrightarrow> rec_ok (atts v pid) (v_rec v pid) p"
    and "\<And>pid. v_pay v pid = None \<Longrightarrow> v_rec v pid = []"
    and "idem_ok ikey v" and "evt_ok v" and "trace_ok v calls"
  shows "inv mx ids ikey n v calls"
  using assms by (simp add: inv_def)

lemma invD:
  assumes "inv mx ids ikey n v calls"
  shows "ids_ok ids n v" and "list_ok v pid"
    and "int (length (v_attIDs v pid)) \<le> max 0 mx"
    and "v_pay v pid = Some p \<Longrightarrow> status_ok (atts v pid) p"
    and "v_pay v pid = Some p \<Longrightarrow> rec_ok (atts v pid) (v_rec v pid) p"
    and "v_pay v pid = None \<Longrightarrow> v_rec v pid = []"
    and "idem_ok ikey v" and "evt_ok v" and "trace_ok v calls"
  using assms by (auto simp: inv_def)

section \<open>Basic consequences\<close>

lemma list_ok_att: "list_ok v pid \<Longrightarrow> i \<in> set (v_attIDs v pid) \<Longrightarrow>
  \<exists>a. v_att v i = Some a \<and> aa_Payment a = pid"
  by (simp add: list_ok_def)

lemma list_ok_mem:
  "inv mx ids ikey n v calls \<Longrightarrow> i \<in> set (v_attIDs v pid) \<longleftrightarrow> (\<exists>a. v_att v i = Some a \<and> aa_Payment a = pid)"
  using invD(1) [of mx ids ikey n v calls] invD(2) [of mx ids ikey n v calls pid]
  by (auto simp: ids_ok_def list_ok_def)

lemma length_atts [simp]: "length (atts v pid) = length (v_attIDs v pid)"
  by (simp add: atts_def)

lemma atts_empty [simp]: "atts v pid = [] \<longleftrightarrow> v_attIDs v pid = []"
  by (simp add: atts_def)

lemma atts_ids:
  assumes "inv mx ids ikey n v calls"
  shows "map aa_ID (atts v pid) = v_attIDs v pid"
proof -
  have "aa_ID (the (v_att v i)) = i" if "i \<in> set (v_attIDs v pid)" for i
    using that list_ok_mem [OF assms, of i pid] invD(1) [OF assms] by (auto simp: ids_ok_def)
  then show ?thesis by (simp add: atts_def map_idI)
qed

lemma last_atts:
  "v_attIDs v pid \<noteq> [] \<Longrightarrow> last (atts v pid) = the (v_att v (last (v_attIDs v pid)))"
  by (simp add: atts_def last_map)

lemma list_ok_listed: "list_ok v pid \<Longrightarrow> listed v pid"
  by (auto simp: list_ok_def listed_def simp del: upt_Suc intro!: sorted_map_mono [unfolded mono_on_def] )

lemma list_ok_sequence:
  assumes "list_ok v pid" and "a \<in> set (atts v pid)"
  shows "1 \<le> aa_Sequence a" and "aa_Sequence a \<le> int (length (v_attIDs v pid))"
proof -
  have "aa_Sequence a \<in> set (map aa_Sequence (atts v pid))" using assms(2) by simp
  also have "\<dots> = set (map int [1..<Suc (length (atts v pid))])" using assms(1) by (simp only: list_ok_def)
  finally show "1 \<le> aa_Sequence a" "aa_Sequence a \<le> int (length (v_attIDs v pid))" by auto
qed

lemma minted_mono: "minted ids n i \<Longrightarrow> n \<le> m \<Longrightarrow> minted ids m i"
  unfolding minted_def by (blast intro: less_le_trans)

lemma unique_ids_mono: "unique_ids ids n \<Longrightarrow> m \<le> n \<Longrightarrow> unique_ids ids m"
  unfolding unique_ids_def by (meson less_le_trans)

lemma not_minted: "unique_ids ids (Suc k) \<Longrightarrow> n \<le> k \<Longrightarrow> \<not> minted ids n (ids k p)"
  unfolding minted_def unique_ids_def by (metis less_SucI less_le_not_le less_le_trans lessI)

lemma inv_tick: "inv mx ids ikey n v calls \<Longrightarrow> n \<le> m \<Longrightarrow> inv mx ids ikey m v calls"
  unfolding inv_def ids_ok_def by (blast intro: minted_mono)

lemma fresh_pay: "inv mx ids ikey n v calls \<Longrightarrow> unique_ids ids (Suc k) \<Longrightarrow> n \<le> k \<Longrightarrow> v_pay v (ids k p) = None"
  using not_minted [of ids k n p] by (cases "v_pay v (ids k p)") (auto simp: inv_def ids_ok_def)

lemma fresh_att: "inv mx ids ikey n v calls \<Longrightarrow> unique_ids ids (Suc k) \<Longrightarrow> n \<le> k \<Longrightarrow> v_att v (ids k p) = None"
  using not_minted [of ids k n p] by (cases "v_att v (ids k p)") (auto simp: inv_def ids_ok_def)

section \<open>Preservation: writing a payment\<close>

lemma atts_put_pay [simp]: "atts (put_pay p v) = atts v"
  by (rule ext) (simp add: atts_def put_pay_def)

lemma put_pay_simps [simp]:
  "v_pay (put_pay p v) = (v_pay v)(ap_ID p \<mapsto> p)" "v_idem (put_pay p v) = v_idem v"
  "v_att (put_pay p v) = v_att v" "v_attIDs (put_pay p v) = v_attIDs v" "v_dec (put_pay p v) = v_dec v"
  "v_rec (put_pay p v) = v_rec v" "v_mev (put_pay p v) = v_mev v" "v_mevKeys (put_pay p v) = v_mevKeys v"
  by (simp_all add: put_pay_def)

lemma events_of_nonpaid: "ap_Status p \<noteq> PaymentStatusPaid \<Longrightarrow> events_of p = []"
  by (simp add: events_of_def)

lemma ids_ok_put_pay: "ids_ok ids n v \<Longrightarrow> v_pay v (ap_ID p) \<noteq> None \<Longrightarrow> ids_ok ids n (put_pay p v)"
  by (auto simp: ids_ok_def)

lemma list_ok_put_pay: "list_ok v pid \<Longrightarrow> list_ok (put_pay p v) pid"
  by (auto simp: list_ok_def)

lemma idem_okD:
  assumes "idem_ok ikey v"
  shows "v_idem v k = Some (pid, fp) \<Longrightarrow>
      \<exists>p. v_pay v pid = Some p \<and> ikey (ap_Workspace p) (ap_Key p) = k \<and> fp = ap_Fingerprint p"
    and "v_pay v pid = Some p \<Longrightarrow> v_idem v (ikey (ap_Workspace p) (ap_Key p)) = Some (pid, ap_Fingerprint p)"
  using assms unfolding idem_ok_def by blast+

lemma idem_okI:
  assumes "\<And>k pid fp. v_idem v k = Some (pid, fp) \<Longrightarrow>
      \<exists>p. v_pay v pid = Some p \<and> ikey (ap_Workspace p) (ap_Key p) = k \<and> fp = ap_Fingerprint p"
    and "\<And>pid p. v_pay v pid = Some p \<Longrightarrow> v_idem v (ikey (ap_Workspace p) (ap_Key p)) = Some (pid, ap_Fingerprint p)"
  shows "idem_ok ikey v"
  using assms unfolding idem_ok_def by blast

lemma evt_okD:
  assumes "evt_ok v"
  shows "v_mevKeys v key \<Longrightarrow> \<exists>pid p. v_pay v pid = Some p \<and> key \<in> ae_Key ` set (events_of p)"
    and "v_pay v pid = Some p \<Longrightarrow> filter (\<lambda>e. ae_Payment e = pid) (v_mev v (ap_Workspace p)) = events_of p"
    and "e \<in> set (v_mev v ws) \<Longrightarrow> \<exists>p. v_pay v (ae_Payment e) = Some p \<and> ap_Workspace p = ws"
  using assms unfolding evt_ok_def by blast+

lemma evt_okI:
  assumes "\<And>key. v_mevKeys v key \<Longrightarrow> \<exists>pid p. v_pay v pid = Some p \<and> key \<in> ae_Key ` set (events_of p)"
    and "\<And>pid p. v_pay v pid = Some p \<Longrightarrow> filter (\<lambda>e. ae_Payment e = pid) (v_mev v (ap_Workspace p)) = events_of p"
    and "\<And>ws e. e \<in> set (v_mev v ws) \<Longrightarrow> \<exists>p. v_pay v (ae_Payment e) = Some p \<and> ap_Workspace p = ws"
  shows "evt_ok v"
  using assms unfolding evt_ok_def by blast

lemma idem_ok_put_pay:
  assumes "idem_ok ikey v" and "v_pay v (ap_ID p) = Some p0" and "same_payment p p0"
  shows "idem_ok ikey (put_pay p v)"
proof (rule idem_okI)
  fix k pid fp assume "v_idem (put_pay p v) k = Some (pid, fp)"
  then show "\<exists>q. v_pay (put_pay p v) pid = Some q \<and> ikey (ap_Workspace q) (ap_Key q) = k \<and> fp = ap_Fingerprint q"
    using idem_okD(1) [OF assms(1), of k pid fp] assms(2,3) by (auto simp: same_payment_def)
next
  fix pid q assume "v_pay (put_pay p v) pid = Some q"
  then show "v_idem (put_pay p v) (ikey (ap_Workspace q) (ap_Key q)) = Some (pid, ap_Fingerprint q)"
    using idem_okD(2) [OF assms(1)] assms(2,3) by (auto simp: same_payment_def split: if_splits)
qed

lemma evt_ok_put_pay:
  assumes E: "evt_ok v" and "v_pay v (ap_ID p) = Some p0" and "same_payment p p0"
    and "events_of p = events_of p0"
  shows "evt_ok (put_pay p v)"
proof (rule evt_okI)
  fix key assume "v_mevKeys (put_pay p v) key"
  then obtain pid q where q: "v_pay v pid = Some q" "key \<in> ae_Key ` set (events_of q)"
    using evt_okD(1) [OF E, of key] by auto
  show "\<exists>pid q. v_pay (put_pay p v) pid = Some q \<and> key \<in> ae_Key ` set (events_of q)"
  proof (cases "pid = ap_ID p")
    case True
    then show ?thesis using q assms by (intro exI [of _ pid] exI [of _ p]) simp
  next
    case False
    then show ?thesis using q by (intro exI [of _ pid] exI [of _ q]) simp
  qed
next
  fix pid q assume "v_pay (put_pay p v) pid = Some q"
  then show "filter (\<lambda>e. ae_Payment e = pid) (v_mev (put_pay p v) (ap_Workspace q)) = events_of q"
    using evt_okD(2) [OF E] assms(2-) by (auto simp: same_payment_def split: if_splits)
next
  fix ws e assume "e \<in> set (v_mev (put_pay p v) ws)"
  then show "\<exists>q. v_pay (put_pay p v) (ae_Payment e) = Some q \<and> ap_Workspace q = ws"
    using evt_okD(3) [OF E, of e ws] assms(2-) by (auto simp: same_payment_def)
qed

lemma call_ok_put_pay:
  "call_ok v c \<Longrightarrow> v_pay v (ap_ID p) = Some p0 \<Longrightarrow> same_payment p p0 \<Longrightarrow> call_ok (put_pay p v) c"
  by (auto simp: call_ok_def same_payment_def split: ProviderCall.splits)

lemma trace_ok_put_pay:
  "trace_ok v calls \<Longrightarrow> v_pay v (ap_ID p) = Some p0 \<Longrightarrow> same_payment p p0 \<Longrightarrow> trace_ok (put_pay p v) calls"
  unfolding trace_ok_def by (auto intro: call_ok_put_pay)

lemma inv_put_pay:
  assumes I: "inv mx ids ikey n v calls" and p0: "v_pay v (ap_ID p) = Some p0" and same: "same_payment p p0"
    and st: "status_ok (atts v (ap_ID p)) p" and re: "rec_ok (atts v (ap_ID p)) (v_rec v (ap_ID p)) p"
    and ev: "events_of p = events_of p0"
  shows "inv mx ids ikey n (put_pay p v) calls"
proof (rule invI)
  fix pid q assume q: "v_pay (put_pay p v) pid = Some q"
  show "status_ok (atts (put_pay p v) pid) q" using q st invD(4) [OF I] by (auto split: if_splits)
  show "rec_ok (atts (put_pay p v) pid) (v_rec (put_pay p v) pid) q"
    using q re invD(5) [OF I] by (auto split: if_splits)
next
  fix pid assume "v_pay (put_pay p v) pid = None"
  then show "v_rec (put_pay p v) pid = []" using invD(6) [OF I] by (auto split: if_splits)
qed (use invD(1,2,3,7,8,9) [OF I] p0 same ev in \<open>auto intro: ids_ok_put_pay list_ok_put_pay idem_ok_put_pay
       evt_ok_put_pay trace_ok_put_pay\<close>)

section \<open>Preservation: a new payment\<close>

lemma atts_add_pay [simp]: "atts (add_pay k p v) = atts v"
  by (rule ext) (simp add: atts_def add_pay_def)

lemma add_pay_simps [simp]:
  "v_pay (add_pay k p v) = (v_pay v)(ap_ID p \<mapsto> p)"
  "v_idem (add_pay k p v) = (v_idem v)(k \<mapsto> (ap_ID p, ap_Fingerprint p))"
  "v_att (add_pay k p v) = v_att v" "v_attIDs (add_pay k p v) = v_attIDs v" "v_dec (add_pay k p v) = v_dec v"
  "v_rec (add_pay k p v) = v_rec v" "v_mev (add_pay k p v) = v_mev v" "v_mevKeys (add_pay k p v) = v_mevKeys v"
  by (simp_all add: add_pay_def)

lemma evt_ok_add_pay:
  assumes E: "evt_ok v" and new: "v_pay v (ap_ID p) = None" and st: "ap_Status p \<noteq> PaymentStatusPaid"
  shows "evt_ok (add_pay k p v)"
proof (rule evt_okI)
  fix key assume "v_mevKeys (add_pay k p v) key"
  then obtain pid q where q: "v_pay v pid = Some q" "key \<in> ae_Key ` set (events_of q)"
    using evt_okD(1) [OF E, of key] by auto
  then show "\<exists>pid q. v_pay (add_pay k p v) pid = Some q \<and> key \<in> ae_Key ` set (events_of q)"
    using new by (intro exI [of _ pid] exI [of _ q]) auto
next
  fix pid q assume q: "v_pay (add_pay k p v) pid = Some q"
  have none: "filter (\<lambda>e. ae_Payment e = ap_ID p) (v_mev v (ap_Workspace p)) = []"
    using evt_okD(3) [OF E] new by (fastforce simp: filter_empty_conv)
  show "filter (\<lambda>e. ae_Payment e = pid) (v_mev (add_pay k p v) (ap_Workspace q)) = events_of q"
    using q none st evt_okD(2) [OF E] by (auto simp: events_of_nonpaid split: if_splits)
next
  fix ws e assume "e \<in> set (v_mev (add_pay k p v) ws)"
  then show "\<exists>q. v_pay (add_pay k p v) (ae_Payment e) = Some q \<and> ap_Workspace q = ws"
    using evt_okD(3) [OF E] new by fastforce
qed

lemma idem_ok_add_pay:
  assumes I: "idem_ok ikey v" and new: "v_pay v (ap_ID p) = None"
    and k: "k = ikey (ap_Workspace p) (ap_Key p)" and kn: "v_idem v k = None"
  shows "idem_ok ikey (add_pay k p v)"
proof (rule idem_okI)
  fix k' pid fp assume "v_idem (add_pay k p v) k' = Some (pid, fp)"
  then show "\<exists>q. v_pay (add_pay k p v) pid = Some q \<and> ikey (ap_Workspace q) (ap_Key q) = k' \<and> fp = ap_Fingerprint q"
    using idem_okD(1) [OF I, of k' pid fp] new k by (auto split: if_splits)
next
  fix pid q assume q: "v_pay (add_pay k p v) pid = Some q"
  show "v_idem (add_pay k p v) (ikey (ap_Workspace q) (ap_Key q)) = Some (pid, ap_Fingerprint q)"
  proof (cases "pid = ap_ID p")
    case True
    then show ?thesis using q k by simp
  next
    case False
    then have "v_idem v (ikey (ap_Workspace q) (ap_Key q)) = Some (pid, ap_Fingerprint q)"
      using q idem_okD(2) [OF I] by simp
    then show ?thesis using kn by auto
  qed
qed

lemma list_ok_no_pay: "list_ok v pid \<Longrightarrow> v_pay v pid = None \<Longrightarrow> v_attIDs v pid = []"
  by (auto simp: list_ok_def)

lemma trace_ok_add_pay:
  assumes "trace_ok v calls" and "v_pay v (ap_ID p) = None"
  shows "trace_ok (add_pay k p v) calls"
proof -
  have "call_ok (add_pay k p v) c" if "call_ok v c" for c
    using assms(2) that by (auto simp: call_ok_def split: ProviderCall.splits)
  then show ?thesis using assms by (simp add: trace_ok_def)
qed

lemma inv_add_pay:
  assumes I: "inv mx ids ikey n v calls" and new: "v_pay v (ap_ID p) = None" and m: "minted ids n (ap_ID p)"
    and k: "k = ikey (ap_Workspace p) (ap_Key p)" "v_idem v k = None"
    and p: "ap_Status p = PaymentStatusCreated" "\<not> ap_Recovered p" "ap_RecoveredAmount p = 0" "\<not> ap_HasPaidAt p"
  shows "inv mx ids ikey n (add_pay k p v) calls"
proof -
  have none: "v_attIDs v (ap_ID p) = []" "v_rec v (ap_ID p) = []"
    using list_ok_no_pay [OF invD(2) [OF I] new] invD(6) [OF I new] by auto
  have st: "status_ok (atts v (ap_ID p)) p" using none p by (simp add: status_ok_def)
  have re: "rec_ok (atts v (ap_ID p)) (v_rec v (ap_ID p)) p" using none p by (simp add: rec_ok_def)
  show ?thesis
  proof (rule invI)
    show "ids_ok ids n (add_pay k p v)" using invD(1) [OF I] m by (auto simp: ids_ok_def)
    show "list_ok (add_pay k p v) pid" for pid using invD(2) [OF I, of pid] by (auto simp: list_ok_def)
    show "int (length (v_attIDs (add_pay k p v) pid)) \<le> max 0 mx" for pid using invD(3) [OF I] by simp
    show "status_ok (atts (add_pay k p v) pid) q" if "v_pay (add_pay k p v) pid = Some q" for pid q
      using that st invD(4) [OF I, of pid q] by (cases "pid = ap_ID p") auto
    show "rec_ok (atts (add_pay k p v) pid) (v_rec (add_pay k p v) pid) q"
      if "v_pay (add_pay k p v) pid = Some q" for pid q
      using that re invD(5) [OF I, of pid q] by (cases "pid = ap_ID p") auto
    show "v_rec (add_pay k p v) pid = []" if "v_pay (add_pay k p v) pid = None" for pid
      using that invD(6) [OF I] by (auto split: if_splits)
    show "idem_ok ikey (add_pay k p v)" by (rule idem_ok_add_pay [OF invD(7) [OF I] new k])
    show "evt_ok (add_pay k p v)" using evt_ok_add_pay [OF invD(8) [OF I] new] p(1) by simp
    show "trace_ok (add_pay k p v) calls" by (rule trace_ok_add_pay [OF invD(9) [OF I] new])
  qed
qed

section \<open>Preservation: writing the last attempt\<close>

lemma put_att_simps [simp]:
  "v_pay (put_att a v) = v_pay v" "v_idem (put_att a v) = v_idem v"
  "v_att (put_att a v) = (v_att v)(aa_ID a \<mapsto> a)" "v_attIDs (put_att a v) = v_attIDs v"
  "v_dec (put_att a v) = v_dec v" "v_rec (put_att a v) = v_rec v" "v_mev (put_att a v) = v_mev v"
  "v_mevKeys (put_att a v) = v_mevKeys v"
  by (simp_all add: put_att_def)

lemma atts_put_att_other: "aa_ID a \<notin> set (v_attIDs v pid) \<Longrightarrow> atts (put_att a v) pid = atts v pid"
  by (auto simp: atts_def)

lemma atts_put_att_last:
  assumes "distinct (v_attIDs v pid)" and "v_attIDs v pid \<noteq> []" and "last (v_attIDs v pid) = aa_ID a"
  shows "atts (put_att a v) pid = butlast (atts v pid) @ [a]"
proof -
  obtain ys where ys: "v_attIDs v pid = ys @ [aa_ID a]"
    using assms(2,3) append_butlast_last_id by metis
  then have "aa_ID a \<notin> set ys" using assms(1) by simp
  then show ?thesis using ys by (auto simp: atts_def butlast_append)
qed

lemma map_replace_last:
  "xs \<noteq> [] \<Longrightarrow> f x = f (last xs) \<Longrightarrow> map f (butlast xs @ [x]) = map f xs"
  by (metis append_butlast_last_id list.simps(8,9) map_append)

lemma cases_last_att:
  assumes I: "inv mx ids ikey n v calls" and ne: "v_attIDs v (aa_Payment a) \<noteq> []"
    and la: "last (v_attIDs v (aa_Payment a)) = aa_ID a"
  shows "atts (put_att a v) pid = (if pid = aa_Payment a then butlast (atts v pid) @ [a] else atts v pid)"
proof (cases "pid = aa_Payment a")
  case True
  then show ?thesis using atts_put_att_last [of v pid a] invD(2) [OF I, of pid] ne la by (simp add: list_ok_def)
next
  case False
  have "aa_ID a \<in> set (v_attIDs v (aa_Payment a))" using ne la by (metis last_in_set)
  then obtain b where "v_att v (aa_ID a) = Some b" "aa_Payment b = aa_Payment a"
    using list_ok_att [OF invD(2) [OF I]] by blast
  then have "aa_ID a \<notin> set (v_attIDs v pid)" using False list_ok_mem [OF I] by auto
  then show ?thesis using False by (simp add: atts_put_att_other)
qed

lemma list_ok_put_att:
  assumes I: "inv mx ids ikey n v calls" and ne: "v_attIDs v (aa_Payment a) \<noteq> []"
    and la: "last (v_attIDs v (aa_Payment a)) = aa_ID a"
    and b: "v_att v (aa_ID a) = Some b" and same: "same_attempt a b"
  shows "list_ok (put_att a v) pid"
proof (cases "pid = aa_Payment a")
  case False
  then show ?thesis
    using invD(2) [OF I, of pid] cases_last_att [OF I ne la, of pid] b same
    by (auto simp: list_ok_def same_attempt_def)
next
  case True
  have at: "atts (put_att a v) pid = butlast (atts v pid) @ [a]"
    using True cases_last_att [OF I ne la, of pid] by simp
  have lb: "last (atts v pid) = b" using last_atts [of v pid] True ne la b by simp
  have ne': "atts v pid \<noteq> []" using True ne by simp
  have m1: "map aa_Sequence (butlast (atts v pid) @ [a]) = map aa_Sequence (atts v pid)"
    and m2: "map aa_Connection (butlast (atts v pid) @ [a]) = map aa_Connection (atts v pid)"
    by (rule map_replace_last [OF ne'], use lb same in \<open>simp add: same_attempt_def\<close>)+
  have len: "length (butlast (atts v pid) @ [a]) = length (atts v pid)" using ne' by simp
  have L: "list_ok v pid" by (rule invD(2) [OF I])
  have mem: "\<exists>x. v_att (put_att a v) i = Some x \<and> aa_Payment x = pid" if "i \<in> set (v_attIDs v pid)" for i
    using list_ok_att [OF L that] True by auto
  show ?thesis
    unfolding list_ok_def at len m1 m2 using L mem
    by (simp add: list_ok_def del: map_append)
qed

lemma trace_ok_put_att:
  assumes T: "trace_ok v calls" and b: "v_att v (aa_ID a) = Some b" and same: "same_attempt a b"
    and nc: "aa_Status a \<noteq> AttemptStatusCreated"
    and fs: "aa_Status a = AttemptStatusFailedSafe \<Longrightarrow> cleared calls (aa_ID a)"
  shows "trace_ok (put_att a v) calls"
proof -
  have "call_ok (put_att a v) c" if "call_ok v c" for c
    using b same nc that by (auto simp: call_ok_def same_attempt_def split: ProviderCall.splits)
  then show ?thesis using T fs by (auto simp: trace_ok_def)
qed

lemma inv_put_att:
  assumes I: "inv mx ids ikey n v calls" and ne: "v_attIDs v (aa_Payment a) \<noteq> []"
    and la: "last (v_attIDs v (aa_Payment a)) = aa_ID a"
    and b: "v_att v (aa_ID a) = Some b" and same: "same_attempt a b"
    and nc: "aa_Status a \<noteq> AttemptStatusCreated"
    and fs: "aa_Status a = AttemptStatusFailedSafe \<Longrightarrow> cleared calls (aa_ID a)"
    and p: "v_pay v (aa_Payment a) = Some p" "ap_Status p \<noteq> PaymentStatusPaid"
    and st: "status_ok (butlast (atts v (aa_Payment a)) @ [a]) p"
  shows "inv mx ids ikey n (put_att a v) calls"
proof (rule invI)
  have pay: "aa_Payment b = aa_Payment a" using same by (simp add: same_attempt_def)
  show "ids_ok ids n (put_att a v)" using invD(1) [OF I] b pay by (fastforce simp: ids_ok_def)
  show "list_ok (put_att a v) pid" for pid by (rule list_ok_put_att [OF I ne la b same])
  show "int (length (v_attIDs (put_att a v) pid)) \<le> max 0 mx" for pid using invD(3) [OF I] by simp
  show "status_ok (atts (put_att a v) pid) q" if "v_pay (put_att a v) pid = Some q" for pid q
    using that st p invD(4) [OF I, of pid q] cases_last_att [OF I ne la, of pid] by (auto split: if_splits)
  show "rec_ok (atts (put_att a v) pid) (v_rec (put_att a v) pid) q" if "v_pay (put_att a v) pid = Some q" for pid q
    using that p invD(5) [OF I, of pid q] cases_last_att [OF I ne la, of pid] 
    by (cases "pid = aa_Payment a") (simp_all add: rec_ok_def)
  show "v_rec (put_att a v) pid = []" if "v_pay (put_att a v) pid = None" for pid
    using that invD(6) [OF I] by simp
  show "idem_ok ikey (put_att a v)" using invD(7) [OF I] by (simp add: idem_ok_def)
  show "evt_ok (put_att a v)" using invD(8) [OF I] by (simp add: evt_ok_def)
  show "trace_ok (put_att a v) calls" by (rule trace_ok_put_att [OF invD(9) [OF I] b same nc fs])
qed

section \<open>Preservation: a new attempt\<close>

lemma add_att_simps [simp]:
  "v_pay (add_att a d v) = v_pay v" "v_idem (add_att a d v) = v_idem v"
  "v_att (add_att a d v) = (v_att v)(aa_ID a \<mapsto> a)"
  "v_attIDs (add_att a d v) = (v_attIDs v)(aa_Payment a := v_attIDs v (aa_Payment a) @ [aa_ID a])"
  "v_dec (add_att a d v) = (v_dec v)(aa_Payment a := v_dec v (aa_Payment a) @ [d])"
  "v_rec (add_att a d v) = v_rec v" "v_mev (add_att a d v) = v_mev v"
  "v_mevKeys (add_att a d v) = v_mevKeys v"
  by (simp_all add: add_att_def)

lemma atts_add_att:
  assumes "list_ok v pid" and "v_att v (aa_ID a) = None"
  shows "atts (add_att a d v) pid = (if pid = aa_Payment a then atts v pid @ [a] else atts v pid)"
proof -
  have "aa_ID a \<notin> set (v_attIDs v pid)" using assms list_ok_att by fastforce
  then show ?thesis by (auto simp: atts_def)
qed

lemma list_ok_add_att:
  assumes L: "list_ok v pid" and new: "v_att v (aa_ID a) = None"
    and seq: "aa_Sequence a = int (length (v_attIDs v (aa_Payment a))) + 1"
    and safe: "pid = aa_Payment a \<Longrightarrow> \<forall>b\<in>set (atts v pid). aa_Status b = AttemptStatusFailedSafe"
    and conn: "pid = aa_Payment a \<Longrightarrow> aa_Connection a \<notin> set (map aa_Connection (atts v pid))"
    and pay: "v_pay v (aa_Payment a) \<noteq> None"
    and d: "ad_AttemptID d = aa_ID a" "ad_Selected d = aa_Connection a" "dec_ok d"
  shows "list_ok (add_att a d v) pid"
proof (cases "pid = aa_Payment a")
  case False
  then show ?thesis using L atts_add_att [OF L new, of d] new by (auto simp: list_ok_def)
next
  case True
  have notin: "aa_ID a \<notin> set (v_attIDs v pid)" using L new list_ok_att by fastforce
  have s: "map aa_Sequence (atts v pid @ [a]) = map int [1..<Suc (length (atts v pid @ [a]))]"
    using L seq True by (simp add: list_ok_def)
  have mem: "\<exists>x. v_att (add_att a d v) i = Some x \<and> aa_Payment x = pid"
    if "i \<in> set (v_attIDs (add_att a d v) pid)" for i
    using that True list_ok_att [OF L, of i] by auto
  have at: "atts (add_att a d v) pid = atts v pid @ [a]" using atts_add_att [OF L new] True by simp
  show ?thesis
    unfolding list_ok_def at s using L True safe conn pay d notin mem
    by (simp add: list_ok_def del: upt_Suc)
qed

lemma trace_ok_add_att:
  assumes T: "trace_ok v calls" and new: "v_att v (aa_ID a) = None" and st: "aa_Status a = AttemptStatusCreated"
  shows "trace_ok (add_att a d v) calls"
proof -
  have "call_ok (add_att a d v) c" if "call_ok v c" for c
    using new that by (auto simp: call_ok_def split: ProviderCall.splits)
  then show ?thesis using T st by (auto simp: trace_ok_def)
qed

lemma inv_add_att:
  assumes I: "inv mx ids ikey n v calls" and new: "v_att v (aa_ID a) = None" and m: "minted ids n (aa_ID a)"
    and seq: "aa_Sequence a = int (length (v_attIDs v (aa_Payment a))) + 1"
    and bound: "int (length (v_attIDs v (aa_Payment a))) < mx"
    and safe: "\<forall>b\<in>set (atts v (aa_Payment a)). aa_Status b = AttemptStatusFailedSafe"
    and conn: "aa_Connection a \<notin> set (map aa_Connection (atts v (aa_Payment a)))"
    and p: "v_pay v (aa_Payment a) = Some p" "ap_Status p = PaymentStatusRouting"
    and d: "ad_AttemptID d = aa_ID a" "ad_Selected d = aa_Connection a" "dec_ok d"
    and st: "aa_Status a = AttemptStatusCreated"
  shows "inv mx ids ikey n (add_att a d v) calls"
proof (rule invI)
  have at: "atts (add_att a d v) pid = (if pid = aa_Payment a then atts v pid @ [a] else atts v pid)" for pid
    by (rule atts_add_att [OF invD(2) [OF I] new])
  show "ids_ok ids n (add_att a d v)" using invD(1) [OF I] m by (fastforce simp: ids_ok_def)
  show "list_ok (add_att a d v) pid" for pid
    using list_ok_add_att [OF invD(2) [OF I] new seq] safe conn p d by simp
  show "int (length (v_attIDs (add_att a d v) pid)) \<le> max 0 mx" for pid
    using invD(3) [OF I, of pid] bound by auto
  show "status_ok (atts (add_att a d v) pid) q" if "v_pay (add_att a d v) pid = Some q" for pid q
    using that p invD(4) [OF I, of pid q] at [of pid] by (cases "pid = aa_Payment a") (auto simp: status_ok_def)
  show "rec_ok (atts (add_att a d v) pid) (v_rec (add_att a d v) pid) q"
    if "v_pay (add_att a d v) pid = Some q" for pid q
    using that p invD(5) [OF I, of pid q] at [of pid] by (cases "pid = aa_Payment a") (auto simp: rec_ok_def)
  show "v_rec (add_att a d v) pid = []" if "v_pay (add_att a d v) pid = None" for pid
    using that invD(6) [OF I] by simp
  show "idem_ok ikey (add_att a d v)" using invD(7) [OF I] by (simp add: idem_ok_def)
  show "evt_ok (add_att a d v)" using invD(8) [OF I] by (simp add: evt_ok_def)
  show "trace_ok (add_att a d v) calls" by (rule trace_ok_add_att [OF invD(9) [OF I] new st])
qed

section \<open>Preservation: provider calls\<close>

lemma creates_for_mem: "aid \<in> set (creates_for pid calls) \<Longrightarrow>
    \<exists>conn req out. CallCreate conn req out \<in> set calls \<and> cq_PaymentIntentID req = pid \<and> cq_AttemptID req = aid"
  by (induction pid calls rule: creates_for.induct) (auto split: if_splits)

lemma cleared_Cons: "cleared calls aid \<Longrightarrow> cleared (c # calls) aid"
  by (simp add: cleared_def)

lemma created_not_called:
  "inv mx ids ikey n v calls \<Longrightarrow> v_att v aid = Some a \<Longrightarrow> aa_Status a = AttemptStatusCreated \<Longrightarrow>
    aid \<notin> set (creates_for pid calls)"
  using creates_for_mem [of aid pid calls] invD(9) [of mx ids ikey n v calls]
  by (fastforce simp: trace_ok_def call_ok_def)

lemma inv_call_create:
  assumes I: "inv mx ids ikey n v calls"
    and a: "v_att v (cq_AttemptID req) = Some a" "aa_Payment a = cq_PaymentIntentID req"
      "aa_Connection a = pc_ID conn" "aa_Status a = AttemptStatusRequesting"
    and p: "v_pay v (cq_PaymentIntentID req) = Some p" "ap_Amount p = cq_Amount req"
    and new: "cq_AttemptID req \<notin> set (creates_for (cq_PaymentIntentID req) calls)"
    and la: "last (v_attIDs v (cq_PaymentIntentID req)) = cq_AttemptID req"
  shows "inv mx ids ikey n v (CallCreate conn req out # calls)"
proof -
  let ?pid = "cq_PaymentIntentID req"
  note T = invD(9) [OF I, unfolded trace_ok_def]
  have "cleared calls aid" if aid: "aid \<in> set (creates_for ?pid calls)" for aid
  proof -
    obtain cn rq out' where "CallCreate cn rq out' \<in> set calls" "cq_PaymentIntentID rq = ?pid" "cq_AttemptID rq = aid"
      using creates_for_mem [OF aid] by blast
    then obtain b where b: "v_att v aid = Some b" "aa_Payment b = ?pid"
      using T by (fastforce simp: call_ok_def)
    then have mem: "aid \<in> set (v_attIDs v ?pid)" using list_ok_mem [OF I] by blast
    then have "aid \<in> set (butlast (v_attIDs v ?pid))"
      using aid new la by (metis append_butlast_last_id empty_iff list.set(1) rotate1.simps(2) set_ConsD set_rotate1)
    then have "b \<in> set (butlast (atts v ?pid))" using b by (force simp: atts_def map_butlast [symmetric])
    then have "aa_Status b = AttemptStatusFailedSafe" using invD(2) [OF I, of ?pid] by (simp add: list_ok_def)
    then show ?thesis using T b by blast
  qed
  then have "safe_trace (CallCreate conn req out # calls)" using T new by (auto simp: list_all_iff)
  then have "trace_ok v (CallCreate conn req out # calls)"
    using T a p by (auto simp: trace_ok_def call_ok_def intro: cleared_Cons)
  then show ?thesis using I by (simp add: inv_def)
qed

lemma inv_call_reconcile:
  assumes I: "inv mx ids ikey n v calls"
    and a: "v_att v (rq_AttemptID req) = Some a" "aa_Payment a = rq_PaymentIntentID req" "aa_Connection a = pc_ID conn"
  shows "inv mx ids ikey n v (CallReconcile conn req out # calls)"
proof -
  have "trace_ok v (CallReconcile conn req out # calls)"
    using invD(9) [OF I] a by (auto simp: trace_ok_def call_ok_def intro: cleared_Cons)
  then show ?thesis using I by (simp add: inv_def)
qed

section \<open>Preservation: the payment is paid\<close>

lemma put_events_fresh:
  assumes "list_all (\<lambda>e. me_WorkspaceID e = ws \<and> \<not> v_mevKeys v (me_EventKey e)) es" and "distinct (map me_EventKey es)"
  shows "put_events es v = v\<lparr>v_mevKeys := (\<lambda>k. v_mevKeys v k \<or> k \<in> me_EventKey ` set es),
    v_mev := (v_mev v)(ws := v_mev v ws @ map abs_evt es)\<rparr>"
  using assms
proof (induction es arbitrary: v)
  case Nil
  then show ?case by (simp add: put_events_def)
next
  case (Cons e es)
  let ?v = "put_event ws (abs_evt e) v"
  have v: "?v = v\<lparr>v_mevKeys := (v_mevKeys v)(me_EventKey e := True), v_mev := (v_mev v)(ws := v_mev v ws @ [abs_evt e])\<rparr>"
    using Cons.prems by (simp add: put_event_def abs_evt_def)
  have "list_all (\<lambda>e. me_WorkspaceID e = ws \<and> \<not> v_mevKeys ?v (me_EventKey e)) es"
    using Cons.prems by (auto simp: v list_all_iff) (metis imageI)
  from Cons.IH [OF this] have "put_events es ?v = ?v\<lparr>v_mevKeys := (\<lambda>k. v_mevKeys ?v k \<or> k \<in> me_EventKey ` set es),
      v_mev := (v_mev ?v)(ws := v_mev ?v ws @ map abs_evt es)\<rparr>"
    using Cons.prems by (simp del: fun_upd_apply)
  moreover have "put_events (e # es) v = put_events es ?v" using Cons.prems by (simp add: put_events_def)
  moreover have "(\<lambda>k. v_mevKeys ?v k \<or> k \<in> me_EventKey ` set es) = (\<lambda>k. v_mevKeys v k \<or> k \<in> me_EventKey ` set (e # es))"
    by (auto simp: v fun_eq_iff)
  moreover have "(v_mev ?v)(ws := v_mev ?v ws @ map abs_evt es) = (v_mev v)(ws := v_mev v ws @ map abs_evt (e # es))"
    by (auto simp: v fun_eq_iff)
  ultimately show ?case by (simp add: v fun_upd_def)
qed

lemma event_key_inj:
  assumes "key \<in> ae_Key ` set (events_of p)" and "key \<in> ae_Key ` set (events_of q)"
  shows "ap_ID p = ap_ID q"
  using assms by (auto simp: events_of_def paid_event_def recovered_event_def split: if_splits)

lemma evt_ok_put_paid:
  assumes E: "evt_ok v" and ids: "\<And>i q. v_pay v i = Some q \<Longrightarrow> ap_ID q = i"
    and p0: "v_pay v (ap_ID p) = Some p0" "ap_Status p0 \<noteq> PaymentStatusPaid" and same: "same_payment p p0"
    and es: "map abs_evt es = events_of p" "list_all (\<lambda>e. me_WorkspaceID e = ap_Workspace p) es"
    and v': "v_pay v' = (v_pay v)(ap_ID p \<mapsto> p)"
      "v_mev v' = v_mev (put_events es v)" "v_mevKeys v' = v_mevKeys (put_events es v)"
  shows "evt_ok v'"
proof -
  have keys: "me_EventKey ` set es = ae_Key ` set (events_of p)"
  proof -
    have "me_EventKey ` set es = ae_Key ` set (map abs_evt es)" by (force simp: abs_evt_def)
    then show ?thesis by (simp only: es)
  qed
  have new: "\<not> v_mevKeys v key" if "key \<in> ae_Key ` set (events_of p)" for key
  proof
    assume "v_mevKeys v key"
    then obtain pid q where q: "v_pay v pid = Some q" "key \<in> ae_Key ` set (events_of q)"
      using evt_okD(1) [OF E, of key] by auto
    then have "pid = ap_ID p" using event_key_inj [OF that] ids by metis
    then show False using q p0 by (simp add: events_of_nonpaid)
  qed
  have "map me_EventKey es = map ae_Key (map abs_evt es)" by (simp add: abs_evt_def)
  also have "distinct \<dots>" by (simp only: es) (simp add: events_of_def paid_event_def recovered_event_def)
  finally have dist: "distinct (map me_EventKey es)" .
  have fresh: "list_all (\<lambda>e. me_WorkspaceID e = ap_Workspace p \<and> \<not> v_mevKeys v (me_EventKey e)) es"
    using es(2) new keys unfolding list_all_iff by blast
  have mev: "v_mev v' = (v_mev v)(ap_Workspace p := v_mev v (ap_Workspace p) @ events_of p)"
    and mk: "v_mevKeys v' = (\<lambda>k. v_mevKeys v k \<or> k \<in> ae_Key ` set (events_of p))"
    using put_events_fresh [OF fresh dist] v' keys es by simp_all
  have tag: "ae_Payment e = ap_ID p" if "e \<in> set (events_of p)" for e
    using that by (auto simp: events_of_def paid_event_def recovered_event_def split: if_splits)
  have none: "filter (\<lambda>e. ae_Payment e = ap_ID p) (v_mev v (ap_Workspace p)) = []"
    using evt_okD(2) [OF E p0(1)] p0 same by (simp add: events_of_nonpaid same_payment_def)
  show ?thesis
  proof (rule evt_okI)
    fix key assume key: "v_mevKeys v' key"
    show "\<exists>pid q. v_pay v' pid = Some q \<and> key \<in> ae_Key ` set (events_of q)"
    proof (cases "v_mevKeys v key")
      case True
      then obtain pid q where q: "v_pay v pid = Some q" "key \<in> ae_Key ` set (events_of q)"
        using evt_okD(1) [OF E, of key] by auto
      moreover have "pid \<noteq> ap_ID p" using q p0 by (auto simp: events_of_nonpaid)
      ultimately show ?thesis using v'(1) by (intro exI [of _ pid] exI [of _ q]) simp
    next
      case False
      then show ?thesis using key mk v'(1) by (intro exI [of _ "ap_ID p"] exI [of _ p]) simp
    qed
  next
    fix pid q assume q: "v_pay v' pid = Some q"
    show "filter (\<lambda>e. ae_Payment e = pid) (v_mev v' (ap_Workspace q)) = events_of q"
    proof (cases "pid = ap_ID p")
      case True
      then have "q = p" using q v'(1) by simp
      then show ?thesis unfolding mev using True none tag by (simp add: filter_id_conv)
    next
      case False
      then have "filter (\<lambda>e. ae_Payment e = pid) (events_of p) = []" using tag by (auto simp: filter_empty_conv)
      then show ?thesis using False q v'(1) mev evt_okD(2) [OF E, of pid q] by auto
    qed
  next
    fix ws e assume "e \<in> set (v_mev v' ws)"
    then consider "e \<in> set (v_mev v ws)" | "ws = ap_Workspace p" "e \<in> set (events_of p)"
      using mev by (auto split: if_splits)
    then show "\<exists>q. v_pay v' (ae_Payment e) = Some q \<and> ap_Workspace q = ws"
    proof cases
      case 1
      then show ?thesis
        using evt_okD(3) [OF E, of e ws] p0 same v'(1) by (auto simp: same_payment_def)
    next
      case 2
      then show ?thesis using tag v'(1) by simp
    qed
  qed
qed

lemma put_events_simps [simp]:
  "v_pay (put_events es v) = v_pay v" "v_idem (put_events es v) = v_idem v"
  "v_att (put_events es v) = v_att v" "v_attIDs (put_events es v) = v_attIDs v"
  "v_dec (put_events es v) = v_dec v" "v_rec (put_events es v) = v_rec v"
  by (induction es arbitrary: v) (simp_all add: put_events_def put_event_def)

lemma put_events_cong:
  "v_mev v = v_mev u \<Longrightarrow> v_mevKeys v = v_mevKeys u \<Longrightarrow>
    v_mev (put_events es v) = v_mev (put_events es u) \<and> v_mevKeys (put_events es v) = v_mevKeys (put_events es u)"
  by (induction es arbitrary: v u) (simp_all add: put_events_def put_event_def)

lemma inv_put_paid:
  assumes I: "inv mx ids ikey n v calls"
    and p0: "v_pay v (ap_ID p) = Some p0" "ap_Status p0 \<noteq> PaymentStatusPaid" and same: "same_payment p p0"
    and st: "ap_Status p = PaymentStatusPaid" "settled (atts v (ap_ID p)) p" "ap_HasPaidAt p"
    and re: "(case r of None \<Rightarrow> [] | Some r' \<Rightarrow> [abs_rec r']) = recovery_for (atts v (ap_ID p)) p"
      "\<And>r'. r = Some r' \<Longrightarrow> re_PaymentIntentID r' = ap_ID p"
      "ap_Recovered p \<longleftrightarrow> r \<noteq> None" "ap_RecoveredAmount p = (if r \<noteq> None then ap_Amount p else 0)"
    and es: "map abs_evt es = events_of p" "list_all (\<lambda>e. me_WorkspaceID e = ap_Workspace p) es"
  shows "inv mx ids ikey n (put_paid p r es v) calls"
proof -
  let ?v = "put_paid p r es v"
  note R0 = invD(5) [OF I p0(1)]
  have rec0: "v_rec v (ap_ID p) = []" using R0 p0(2) by (simp add: rec_ok_def)
  have pay: "v_pay ?v = (v_pay v)(ap_ID p \<mapsto> p)" and att: "v_att ?v = v_att v" "v_attIDs ?v = v_attIDs v"
      "v_dec ?v = v_dec v" "v_idem ?v = v_idem v"
    by (auto simp: put_paid_def put_rec_def split: option.split)
  have rec: "v_rec ?v = (v_rec v)(ap_ID p := recovery_for (atts v (ap_ID p)) p)"
    using re(1,2) rec0 by (cases r) (auto simp: put_paid_def put_rec_def)
  have ats: "atts ?v = atts v" by (rule ext) (simp add: atts_def att)
  have ids: "ids_ok ids n ?v" using invD(1) [OF I] p0(1) by (auto simp: ids_ok_def pay att)
  show ?thesis
  proof (rule invI)
    show "ids_ok ids n ?v" by (rule ids)
    show "list_ok ?v pid" for pid using invD(2) [OF I, of pid] by (auto simp: list_ok_def ats att pay)
    show "int (length (v_attIDs ?v pid)) \<le> max 0 mx" for pid using invD(3) [OF I] att by simp
    show "status_ok (atts ?v pid) q" if "v_pay ?v pid = Some q" for pid q
      using that st(1,2) invD(4) [OF I, of pid q] unfolding ats
      by (cases "pid = ap_ID p") (auto simp: pay status_ok_def)
    show "rec_ok (atts ?v pid) (v_rec ?v pid) q" if "v_pay ?v pid = Some q" for pid q
    proof (cases "pid = ap_ID p")
      case True
      then have "q = p" using that by (simp add: pay)
      then show ?thesis
        unfolding ats rec using True st(1,3) re(1,3,4) by (cases r) (auto simp: rec_ok_def)
    qed (use that invD(5) [OF I, of pid q] in \<open>simp add: pay ats rec\<close>)
    show "v_rec ?v pid = []" if "v_pay ?v pid = None" for pid
      using that invD(6) [OF I, of pid] by (auto simp: pay rec split: if_splits)
    have "idem_ok ikey (put_pay p v)" by (rule idem_ok_put_pay [OF invD(7) [OF I] p0(1) same])
    then show "idem_ok ikey ?v" by (simp add: idem_ok_def pay att)
    show "evt_ok ?v"
    proof (rule evt_ok_put_paid [OF invD(8) [OF I] _ p0 same es pay])
      show "ap_ID q = i" if "v_pay v i = Some q" for i q using that invD(1) [OF I] by (simp add: ids_ok_def)
      have "v_mev ?v = v_mev (put_events es v) \<and> v_mevKeys ?v = v_mevKeys (put_events es v)"
        unfolding put_paid_def by (rule put_events_cong) (auto simp: put_rec_def split: option.split)
      then show "v_mev ?v = v_mev (put_events es v)" "v_mevKeys ?v = v_mevKeys (put_events es v)" by auto
    qed
    have "trace_ok (put_pay p v) calls" by (rule trace_ok_put_pay [OF invD(9) [OF I] p0(1) same])
    moreover have "call_ok ?v c = call_ok (put_pay p v) c" for c
      by (auto simp: call_ok_def pay att split: ProviderCall.splits)
    ultimately show "trace_ok ?v calls" by (simp add: trace_ok_def att)
  qed
qed

end
