(* ===== verification/MemoryStore.thy ===== *)
theory MemoryStore
  imports Repository "HOL-Library.AList"
begin

text \<open>
  The in-memory store (\<open>store/memory\<close>).  Every method holds the mutex from its first to its
  last line, so a method is one transition of the state.  Maps that the code ranges over
  (providers, attempts) are association lists, and \<open>perm\<close> is the unspecified iteration order
  of a Go map: a rearrangement of the keys.  The other maps are functions; an absent slice
  reads as the empty list.  The clones of the code make copies of structs that are values
  here, so they are the identity.

  A lookup whose nil result the code would dereference returns the error \<open>nil_panic\<close>; it
  happens only when an index names a payment or an attempt that is not stored, which no
  operation of the store produces.  The last section interprets the repository contract on
  this store.
\<close>

record idempotencyRecord =
  ir_paymentID :: string
  ir_fingerprint :: string

record MemStore =
  ms_payments :: "string \<Rightarrow> PaymentIntent option"
  ms_idempotency :: "string \<Rightarrow> idempotencyRecord option"
  ms_providers :: "(string \<times> ProviderConnection list) list"
  ms_attempts :: "(string \<times> PaymentAttempt) list"
  ms_attemptsByPay :: "string \<Rightarrow> string list"
  ms_decisionsByPay :: "string \<Rightarrow> RoutingDecision list"
  ms_recoveriesByPay :: "string \<Rightarrow> RecoveryEvent list"
  ms_providerEvents :: "string \<Rightarrow> ProviderEvent option"
  ms_merchantEvents :: "string \<Rightarrow> MerchantEvent list"
  ms_merchantEventKeys :: "string \<Rightarrow> bool"

type_synonym 'a mem = "(MemStore, go_error, 'a) prog"

definition nil_panic :: go_error where
  "nil_panic = Errorf ''runtime error: invalid memory address or nil pointer dereference''"

definition New :: MemStore where
  "New = \<lparr>ms_payments = (\<lambda>_. None), ms_idempotency = (\<lambda>_. None), ms_providers = [],
     ms_attempts = [], ms_attemptsByPay = (\<lambda>_. []), ms_decisionsByPay = (\<lambda>_. []),
     ms_recoveriesByPay = (\<lambda>_. []), ms_providerEvents = (\<lambda>_. None),
     ms_merchantEvents = (\<lambda>_. []), ms_merchantEventKeys = (\<lambda>_. False)\<rparr>"

section \<open>The methods\<close>

definition join_key :: "string \<Rightarrow> string \<Rightarrow> string" where
  "join_key a b = a @ [CHR 0x00] @ b"

definition providers_of :: "MemStore \<Rightarrow> string \<Rightarrow> ProviderConnection list" where
  "providers_of s ws = (case map_of (ms_providers s) ws of None \<Rightarrow> [] | Some cs \<Rightarrow> cs)"

definition AddProviderConnection :: "ProviderConnection \<Rightarrow> MemStore \<Rightarrow> MemStore" where
  "AddProviderConnection conn s =
     s\<lparr>ms_providers := AList.update (pc_WorkspaceID conn) (providers_of s (pc_WorkspaceID conn) @ [conn]) (ms_providers s)\<rparr>"

definition clonePayment :: "PaymentIntent \<Rightarrow> PaymentIntent" where
  "clonePayment p = p\<lparr>
     pi_Pix := (case pi_Pix p of None \<Rightarrow> None | Some pix \<Rightarrow> Some pix),
     pi_Metadata := (case pi_Metadata p of None \<Rightarrow> None | Some m \<Rightarrow> Some (map (\<lambda>(k, v). (k, v)) m)),
     pi_PaidAt := (case pi_PaidAt p of None \<Rightarrow> None | Some t \<Rightarrow> Some t)\<rparr>"

definition cloneAttempt :: "PaymentAttempt \<Rightarrow> PaymentAttempt" where
  "cloneAttempt a = a\<lparr>
     pa_Pix := (case pa_Pix a of None \<Rightarrow> None | Some pix \<Rightarrow> Some pix),
     pa_ResponseReceivedAt := (case pa_ResponseReceivedAt a of None \<Rightarrow> None | Some t \<Rightarrow> Some t)\<rparr>"

definition mem_GetOrCreatePayment :: "PaymentIntent \<Rightarrow> (PaymentIntent \<times> bool) mem" where
  "mem_GetOrCreatePayment intent s =
     (let key = join_key (pi_WorkspaceID intent) (pi_IdempotencyKey intent) in
      case ms_idempotency s key of
        Some rec \<Rightarrow>
          if ir_fingerprint rec \<noteq> pi_RequestFingerprint intent then (Inl ErrIdempotencyConflict, s)
          else (case ms_payments s (ir_paymentID rec) of
                  None \<Rightarrow> (Inl nil_panic, s)
                | Some p \<Rightarrow> (Inr (clonePayment p, False), s))
      | None \<Rightarrow>
          (Inr (clonePayment intent, True),
           s\<lparr>ms_payments := (ms_payments s)(pi_ID intent \<mapsto> clonePayment intent),
             ms_idempotency := (ms_idempotency s)(key \<mapsto>
               \<lparr>ir_paymentID = pi_ID intent, ir_fingerprint = pi_RequestFingerprint intent\<rparr>)\<rparr>))"

definition mem_GetPayment :: "string \<Rightarrow> PaymentIntent mem" where
  "mem_GetPayment i s = (case ms_payments s i of
     None \<Rightarrow> (Inl ErrNotFound, s) | Some p \<Rightarrow> (Inr (clonePayment p), s))"

definition mem_SavePayment :: "PaymentIntent \<Rightarrow> unit mem" where
  "mem_SavePayment intent s = (case ms_payments s (pi_ID intent) of
     None \<Rightarrow> (Inl ErrNotFound, s)
   | Some _ \<Rightarrow> (Inr (), s\<lparr>ms_payments := (ms_payments s)(pi_ID intent \<mapsto> clonePayment intent)\<rparr>))"

definition mem_ListProviderConnections :: "string \<Rightarrow> ProviderConnection list mem" where
  "mem_ListProviderConnections ws s = (Inr (providers_of s ws), s)"

definition mem_GetProviderConnection ::
  "(string list \<Rightarrow> string list) \<Rightarrow> string \<Rightarrow> ProviderConnection mem" where
  "mem_GetProviderConnection perm i s =
     (case find (\<lambda>c. pc_ID c = i) (concat (map (providers_of s) (perm (map fst (ms_providers s))))) of
        None \<Rightarrow> (Inl ErrNotFound, s) | Some conn \<Rightarrow> (Inr conn, s))"

definition mem_AddAttemptWithRoutingDecision :: "PaymentAttempt \<Rightarrow> RoutingDecision \<Rightarrow> unit mem" where
  "mem_AddAttemptWithRoutingDecision attempt decision s =
     (if map_of (ms_attempts s) (pa_ID attempt) \<noteq> None then (Inl ErrInvalidTransition, s)
      else (Inr (), s\<lparr>
        ms_attempts := AList.update (pa_ID attempt) (cloneAttempt attempt) (ms_attempts s),
        ms_attemptsByPay := (ms_attemptsByPay s)(pa_PaymentIntentID attempt :=
          ms_attemptsByPay s (pa_PaymentIntentID attempt) @ [pa_ID attempt]),
        ms_decisionsByPay := (ms_decisionsByPay s)(rd_PaymentIntentID decision :=
          ms_decisionsByPay s (rd_PaymentIntentID decision) @ [decision])\<rparr>))"

definition mem_SaveAttempt :: "PaymentAttempt \<Rightarrow> unit mem" where
  "mem_SaveAttempt attempt s = (case map_of (ms_attempts s) (pa_ID attempt) of
     None \<Rightarrow> (Inl ErrNotFound, s)
   | Some _ \<Rightarrow> (Inr (), s\<lparr>ms_attempts := AList.update (pa_ID attempt) (cloneAttempt attempt) (ms_attempts s)\<rparr>))"

definition mem_GetAttempt :: "string \<Rightarrow> PaymentAttempt mem" where
  "mem_GetAttempt i s = (case map_of (ms_attempts s) i of
     None \<Rightarrow> (Inl ErrNotFound, s) | Some a \<Rightarrow> (Inr (cloneAttempt a), s))"

definition mem_GetAttemptByProviderPaymentID ::
  "(string list \<Rightarrow> string list) \<Rightarrow> string \<Rightarrow> string \<Rightarrow> PaymentAttempt mem" where
  "mem_GetAttemptByProviderPaymentID perm providerConnectionID providerPaymentID s =
     (case find (\<lambda>a. pa_ProviderConnectionID a = providerConnectionID \<and> pa_ProviderPaymentID a = providerPaymentID)
             (List.map_filter (map_of (ms_attempts s)) (perm (map fst (ms_attempts s)))) of
        None \<Rightarrow> (Inl ErrNotFound, s) | Some a \<Rightarrow> (Inr (cloneAttempt a), s))"

fun load_all :: "(string \<Rightarrow> 'a option) \<Rightarrow> string list \<Rightarrow> 'a list option" where
  "load_all m [] = Some []"
| "load_all m (i # is) = (case m i of None \<Rightarrow> None | Some a \<Rightarrow> map_option (\<lambda>as. a # as) (load_all m is))"

definition mem_ListAttempts :: "string \<Rightarrow> PaymentAttempt list mem" where
  "mem_ListAttempts paymentID s =
     (case load_all (map_of (ms_attempts s)) (ms_attemptsByPay s paymentID) of
        None \<Rightarrow> (Inl nil_panic, s)
      | Some out \<Rightarrow> (Inr (sort_key pa_Sequence (map cloneAttempt out)), s))"

definition mem_ListRoutingDecisions :: "string \<Rightarrow> RoutingDecision list mem" where
  "mem_ListRoutingDecisions paymentID s = (Inr (ms_decisionsByPay s paymentID), s)"

definition mem_CreateRecoveryIfAbsent :: "RecoveryEvent \<Rightarrow> bool mem" where
  "mem_CreateRecoveryIfAbsent event s =
     (if ms_recoveriesByPay s (re_PaymentIntentID event) \<noteq> [] then (Inr False, s)
      else (Inr True, s\<lparr>ms_recoveriesByPay := (ms_recoveriesByPay s)(re_PaymentIntentID event := [event])\<rparr>))"

definition mem_ListRecoveryEvents :: "string \<Rightarrow> RecoveryEvent list mem" where
  "mem_ListRecoveryEvents paymentID s = (Inr (ms_recoveriesByPay s paymentID), s)"

definition mem_RecordProviderEvent :: "ProviderEvent \<Rightarrow> bool mem" where
  "mem_RecordProviderEvent event s =
     (let key = join_key (pe_ProviderConnectionID event) (pe_ExternalEventID event) in
      if ms_providerEvents s key \<noteq> None then (Inr False, s)
      else (Inr True, s\<lparr>ms_providerEvents := (ms_providerEvents s)(key \<mapsto> event)\<rparr>))"

definition mem_MarkProviderEventProcessed :: "string \<Rightarrow> string \<Rightarrow> Time \<Rightarrow> unit mem" where
  "mem_MarkProviderEventProcessed providerConnectionID externalEventID processedAt s =
     (let key = join_key providerConnectionID externalEventID in
      case ms_providerEvents s key of
        None \<Rightarrow> (Inl ErrNotFound, s)
      | Some event \<Rightarrow> (Inr (), s\<lparr>ms_providerEvents :=
          (ms_providerEvents s)(key \<mapsto> event\<lparr>pe_ProcessedAt := Some processedAt\<rparr>)\<rparr>))"

fun mem_insert_events :: "MerchantEvent list \<Rightarrow> MemStore \<Rightarrow> MemStore" where
  "mem_insert_events [] s = s"
| "mem_insert_events (event # events) s =
     (if ms_merchantEventKeys s (me_EventKey event) then mem_insert_events events s
      else mem_insert_events events
        (s\<lparr>ms_merchantEventKeys := (ms_merchantEventKeys s)(me_EventKey event := True),
           ms_merchantEvents := (ms_merchantEvents s)(me_WorkspaceID event :=
             ms_merchantEvents s (me_WorkspaceID event) @ [event])\<rparr>))"

definition mem_MarkPaymentPaidWithEvents ::
  "PaymentIntent \<Rightarrow> RecoveryEvent option \<Rightarrow> MerchantEvent list \<Rightarrow> unit mem" where
  "mem_MarkPaymentPaidWithEvents intent recovery events s =
     (case ms_payments s (pi_ID intent) of
        None \<Rightarrow> (Inl ErrNotFound, s)
      | Some _ \<Rightarrow>
          (let s1 = s\<lparr>ms_payments := (ms_payments s)(pi_ID intent \<mapsto> clonePayment intent)\<rparr>;
               s2 = (case recovery of None \<Rightarrow> s1 | Some r \<Rightarrow>
                 if ms_recoveriesByPay s1 (re_PaymentIntentID r) = []
                 then s1\<lparr>ms_recoveriesByPay := (ms_recoveriesByPay s1)(re_PaymentIntentID r := [r])\<rparr> else s1)
           in (Inr (), mem_insert_events events s2)))"

definition mem_ListMerchantEvents :: "string \<Rightarrow> MerchantEvent list mem" where
  "mem_ListMerchantEvents workspaceID s = (Inr (ms_merchantEvents s workspaceID), s)"

definition mem_GetPaymentEnvironment ::
  "(string list \<Rightarrow> string list) \<Rightarrow> string \<Rightarrow> Environment mem" where
  "mem_GetPaymentEnvironment perm paymentID s =
     (case ms_attemptsByPay s paymentID of
        [] \<Rightarrow> (Inl ErrNotFound, s)
      | attemptID # _ \<Rightarrow>
          (case map_of (ms_attempts s) attemptID of
             None \<Rightarrow> (Inl ErrNotFound, s)
           | Some attempt \<Rightarrow>
               (case find (\<lambda>c. pc_ID c = pa_ProviderConnectionID attempt)
                        (concat (map (providers_of s) (perm (map fst (ms_providers s))))) of
                  None \<Rightarrow> (Inl ErrNotFound, s) | Some c \<Rightarrow> (Inr (pc_Environment c), s))))"

definition mem_repository :: "(string list \<Rightarrow> string list) \<Rightarrow> MemStore Repository" where
  "mem_repository perm = \<lparr>
     GetOrCreatePayment = mem_GetOrCreatePayment,
     GetPayment = mem_GetPayment,
     GetPaymentEnvironment = mem_GetPaymentEnvironment perm,
     SavePayment = mem_SavePayment,
     ListProviderConnections = mem_ListProviderConnections,
     GetProviderConnection = mem_GetProviderConnection perm,
     AddAttemptWithRoutingDecision = mem_AddAttemptWithRoutingDecision,
     SaveAttempt = mem_SaveAttempt,
     GetAttempt = mem_GetAttempt,
     GetAttemptByProviderPaymentID = mem_GetAttemptByProviderPaymentID perm,
     ListAttempts = mem_ListAttempts,
     ListRoutingDecisions = mem_ListRoutingDecisions,
     CreateRecoveryIfAbsent = mem_CreateRecoveryIfAbsent,
     ListRecoveryEvents = mem_ListRecoveryEvents,
     RecordProviderEvent = mem_RecordProviderEvent,
     MarkProviderEventProcessed = mem_MarkProviderEventProcessed,
     MarkPaymentPaidWithEvents = mem_MarkPaymentPaidWithEvents,
     ListMerchantEvents = mem_ListMerchantEvents\<rparr>"

lemmas mem_defs = mem_GetOrCreatePayment_def mem_GetPayment_def mem_SavePayment_def
  mem_ListProviderConnections_def mem_GetProviderConnection_def mem_AddAttemptWithRoutingDecision_def
  mem_SaveAttempt_def mem_GetAttempt_def mem_GetAttemptByProviderPaymentID_def mem_ListAttempts_def
  mem_ListRoutingDecisions_def mem_CreateRecoveryIfAbsent_def mem_ListRecoveryEvents_def
  mem_RecordProviderEvent_def mem_MarkProviderEventProcessed_def mem_MarkPaymentPaidWithEvents_def
  mem_ListMerchantEvents_def mem_GetPaymentEnvironment_def

section \<open>The view of the in-memory store\<close>

lemma clone_id [simp]: "clonePayment p = p" "cloneAttempt a = a"
  by (cases p; auto simp: clonePayment_def split: option.split)
    (cases a; auto simp: cloneAttempt_def split: option.split)

definition mem_view :: "MemStore \<Rightarrow> string view" where
  "mem_view s = \<lparr>
     v_pay = (\<lambda>i. map_option (abs_pay id) (ms_payments s i)),
     v_idem = (\<lambda>k. map_option (\<lambda>r. (ir_paymentID r, ir_fingerprint r)) (ms_idempotency s k)),
     v_att = (\<lambda>i. map_option (abs_att id) (map_of (ms_attempts s) i)),
     v_attIDs = ms_attemptsByPay s,
     v_dec = (\<lambda>i. map abs_dec (ms_decisionsByPay s i)),
     v_rec = (\<lambda>i. map abs_rec (ms_recoveriesByPay s i)),
     v_mev = (\<lambda>w. map abs_evt (ms_merchantEvents s w)),
     v_mevKeys = ms_merchantEventKeys s\<rparr>"

lemma load_all_Some:
  "load_all m is = Some xs \<Longrightarrow> map m is = map Some xs"
  by (induction m "is" arbitrary: xs rule: load_all.induct) (auto split: option.splits)

lemma abs_ids [simp]:
  "ap_ID (abs_pay nx p) = pi_ID p" "aa_ID (abs_att nx a) = pa_ID a"
  "aa_Payment (abs_att nx a) = pa_PaymentIntentID a" "aa_Sequence (abs_att nx a) = pa_Sequence a"
  "ap_Fingerprint (abs_pay nx p) = pi_RequestFingerprint p"
  by (simp_all add: abs_defs)

lemma mem_view_insert_events:
  "mem_view (mem_insert_events es s) = put_events es (mem_view s)"
proof (induction es arbitrary: s)
  case (Cons e es)
  have "put_event (me_WorkspaceID e) (abs_evt e) (mem_view s) = mem_view
    (if ms_merchantEventKeys s (me_EventKey e) then s
     else s\<lparr>ms_merchantEventKeys := (ms_merchantEventKeys s)(me_EventKey e := True),
            ms_merchantEvents := (ms_merchantEvents s)(me_WorkspaceID e :=
              ms_merchantEvents s (me_WorkspaceID e) @ [e])\<rparr>)"
    by (auto simp: put_event_def mem_view_def abs_evt_def fun_eq_iff)
  with Cons show ?case by (auto simp: put_events_def)
qed (simp add: put_events_def)

lemma mem_ListAttempts_view:
  assumes "mem_ListAttempts i s = (Inr xs, s')" and "listed (mem_view s) i"
  shows "map (abs_att id) xs = atts (mem_view s) i"
proof -
  from assms(1) obtain out where out: "load_all (map_of (ms_attempts s)) (ms_attemptsByPay s i) = Some out"
    and "xs = sort_key pa_Sequence (map cloneAttempt out)"
    by (auto simp: mem_ListAttempts_def split: option.splits)
  then have xs: "xs = sort_key pa_Sequence out" by (simp add: map_idI)
  from load_all_Some [OF out] have eq: "map (map_of (ms_attempts s)) (ms_attemptsByPay s i) = map Some out" .
  have "atts (mem_view s) i = map (\<lambda>j. the (map_option (abs_att id) j)) (map (map_of (ms_attempts s)) (ms_attemptsByPay s i))"
    by (simp add: atts_def mem_view_def)
  also have "\<dots> = map (abs_att id) out" unfolding eq by simp
  finally have a: "atts (mem_view s) i = map (abs_att id) out" .
  then have "sorted (map pa_Sequence out)"
    using assms(2) by (simp add: listed_def comp_def)
  then show ?thesis by (simp add: a xs sort_key_sorted_id)
qed

lemma mem_by_provider:
  assumes "mem_GetAttemptByProviderPaymentID perm c i s = (Inr a, s')"
    and keyed: "\<And>j b. v_att (mem_view s) j = Some b \<Longrightarrow> aa_ID b = j"
  shows "v_att (mem_view s) (pa_ID a) = Some (abs_att id a) \<and> pa_ProviderConnectionID a = c \<and>
    pa_ProviderPaymentID a = i"
proof -
  let ?xs = "List.map_filter (map_of (ms_attempts s)) (perm (map fst (ms_attempts s)))"
  obtain b where "find (\<lambda>a. pa_ProviderConnectionID a = c \<and> pa_ProviderPaymentID a = i) ?xs = Some b"
    and ab: "a = b"
    using assms(1) by (auto simp: mem_GetAttemptByProviderPaymentID_def split: option.splits)
  then have "a \<in> set ?xs" and match: "pa_ProviderConnectionID a = c" "pa_ProviderPaymentID a = i"
    by (auto dest: find_Some_iff2)
  then obtain j where j: "map_of (ms_attempts s) j = Some a"
    by (auto simp: map_filter_def)
  then have "v_att (mem_view s) j = Some (abs_att id a)" by (simp add: mem_view_def)
  with keyed [OF this] match show ?thesis by simp
qed

lemma mem_reads [simp]:
  "snd (mem_GetPayment i s) = s" "snd (mem_GetPaymentEnvironment perm i s) = s"
  "snd (mem_ListProviderConnections ws s) = s" "snd (mem_GetProviderConnection perm i s) = s"
  "snd (mem_GetAttempt i s) = s" "snd (mem_GetAttemptByProviderPaymentID perm c i s) = s"
  "snd (mem_ListAttempts i s) = s"
  by (auto simp: mem_defs split: option.split list.split)

lemma mem_view_events [simp]:
  "mem_view (snd (mem_RecordProviderEvent ev s)) = mem_view s"
  "mem_view (snd (mem_MarkProviderEventProcessed c i t s)) = mem_view s"
  by (auto simp: mem_defs mem_view_def Let_def split: option.split)

lemma mem_view_put_pay:
  "mem_view (s\<lparr>ms_payments := (ms_payments s)(pi_ID p \<mapsto> p)\<rparr>) = put_pay (abs_pay id p) (mem_view s)"
  by (auto simp: mem_view_def put_pay_def fun_eq_iff)

lemma mem_view_put_att:
  "mem_view (s\<lparr>ms_attempts := AList.update (pa_ID a) a (ms_attempts s)\<rparr>) = put_att (abs_att id a) (mem_view s)"
  by (auto simp: mem_view_def put_att_def fun_eq_iff update_conv')

lemma mem_view_put_rec:
  "mem_view (if ms_recoveriesByPay s (re_PaymentIntentID r) = []
     then s\<lparr>ms_recoveriesByPay := (ms_recoveriesByPay s)(re_PaymentIntentID r := [r])\<rparr> else s) =
   put_rec (re_PaymentIntentID r) (abs_rec r) (mem_view s)"
  by (auto simp: mem_view_def put_rec_def fun_eq_iff)

lemma mem_view_mark_paid:
  assumes "mem_MarkPaymentPaidWithEvents p r es s = (Inr u, s')"
  shows "mem_view s' = put_paid (abs_pay id p) r es (mem_view s)"
proof -
  let ?s1 = "s\<lparr>ms_payments := (ms_payments s)(pi_ID p \<mapsto> p)\<rparr>"
  have s': "s' = mem_insert_events es (case r of None \<Rightarrow> ?s1 | Some r' \<Rightarrow>
      if ms_recoveriesByPay ?s1 (re_PaymentIntentID r') = []
      then ?s1\<lparr>ms_recoveriesByPay := (ms_recoveriesByPay ?s1)(re_PaymentIntentID r' := [r'])\<rparr> else ?s1)"
    using assms by (auto simp: mem_MarkPaymentPaidWithEvents_def Let_def split: option.splits)
  show ?thesis unfolding s' mem_view_insert_events put_paid_def
    by (cases r) (simp_all only: option.case mem_view_put_rec mem_view_put_pay)
qed

lemma mem_view_add_att:
  "mem_AddAttemptWithRoutingDecision a d s = (Inr u, s') \<Longrightarrow> rd_PaymentIntentID d = pa_PaymentIntentID a \<Longrightarrow>
   mem_view s' = add_att (abs_att id a) (abs_dec d) (mem_view s)"
  by (auto simp: mem_AddAttemptWithRoutingDecision_def mem_view_def add_att_def fun_eq_iff update_conv'
      split: if_splits)

lemma mem_view_create:
  "mem_GetOrCreatePayment p s = (Inr (q, created), s') \<Longrightarrow>
   v_idem (mem_view s) (join_key (pi_WorkspaceID p) (pi_IdempotencyKey p)) = None \<Longrightarrow>
   created \<and> q = p \<and> mem_view s' = add_pay (join_key (pi_WorkspaceID p) (pi_IdempotencyKey p)) (abs_pay id p) (mem_view s)"
  by (auto simp: mem_GetOrCreatePayment_def Let_def mem_view_def add_pay_def fun_eq_iff)

lemma mem_view_existing:
  "mem_GetOrCreatePayment p s = (Inr (q, created), s') \<Longrightarrow>
   v_idem (mem_view s) (join_key (pi_WorkspaceID p) (pi_IdempotencyKey p)) = Some (pid, fp) \<Longrightarrow>
   \<not> created \<and> fp = pi_RequestFingerprint p \<and> v_pay (mem_view s) pid = Some (abs_pay id q) \<and> s' = s"
  by (auto simp: mem_GetOrCreatePayment_def Let_def mem_view_def split: option.splits if_splits)

lemma mem_errors:
  "mem_GetOrCreatePayment p s = (Inl e, s') \<Longrightarrow> s' = s"
  "mem_SavePayment p s = (Inl e, s') \<Longrightarrow> s' = s"
  "mem_AddAttemptWithRoutingDecision a d s = (Inl e, s') \<Longrightarrow> s' = s"
  "mem_SaveAttempt a s = (Inl e, s') \<Longrightarrow> s' = s"
  "mem_MarkPaymentPaidWithEvents p r es s = (Inl e, s') \<Longrightarrow> s' = s"
  by (auto simp: mem_defs Let_def split: option.splits if_splits)

lemma mem_values:
  "mem_GetPayment i s = (Inr p, s') \<Longrightarrow> v_pay (mem_view s) i = Some (abs_pay id p)"
  "mem_GetAttempt i s = (Inr a, s') \<Longrightarrow> v_att (mem_view s) i = Some (abs_att id a)"
  "mem_SavePayment p s = (Inr u, s') \<Longrightarrow> mem_view s' = put_pay (abs_pay id p) (mem_view s)"
  "mem_SaveAttempt a s = (Inr u, s') \<Longrightarrow> mem_view s' = put_att (abs_att id a) (mem_view s)"
  by (auto simp: mem_GetPayment_def mem_GetAttempt_def mem_view_def split: option.splits)
    (auto simp: mem_SavePayment_def mem_SaveAttempt_def mem_view_put_pay mem_view_put_att
      mem_view_def [symmetric] split: option.splits)

lemma mem_repository_simps [simp]:
  "GetOrCreatePayment (mem_repository perm) = mem_GetOrCreatePayment"
  "GetPayment (mem_repository perm) = mem_GetPayment"
  "GetPaymentEnvironment (mem_repository perm) = mem_GetPaymentEnvironment perm"
  "SavePayment (mem_repository perm) = mem_SavePayment"
  "ListProviderConnections (mem_repository perm) = mem_ListProviderConnections"
  "GetProviderConnection (mem_repository perm) = mem_GetProviderConnection perm"
  "AddAttemptWithRoutingDecision (mem_repository perm) = mem_AddAttemptWithRoutingDecision"
  "SaveAttempt (mem_repository perm) = mem_SaveAttempt"
  "GetAttempt (mem_repository perm) = mem_GetAttempt"
  "GetAttemptByProviderPaymentID (mem_repository perm) = mem_GetAttemptByProviderPaymentID perm"
  "ListAttempts (mem_repository perm) = mem_ListAttempts"
  "CreateRecoveryIfAbsent (mem_repository perm) = mem_CreateRecoveryIfAbsent"
  "RecordProviderEvent (mem_repository perm) = mem_RecordProviderEvent"
  "MarkProviderEventProcessed (mem_repository perm) = mem_MarkProviderEventProcessed"
  "MarkPaymentPaidWithEvents (mem_repository perm) = mem_MarkPaymentPaidWithEvents"
  by (simp_all add: mem_repository_def)

text \<open>
  The in-memory store fulfils the contract of the repository interface, whatever the iteration
  order \<open>perm\<close> of its maps.
\<close>

interpretation mem: repository "mem_repository perm" mem_view join_key id
  by unfold_locales
    (auto dest: mem_view_create mem_view_existing mem_errors mem_values mem_view_add_att
      mem_by_provider mem_ListAttempts_view mem_view_mark_paid)

end
