(* ===== verification/Service.thy ===== *)
theory Service
  imports Runs Invariant MemoryStore
begin

text \<open>
  The create path of the service over any repository: execution rules for the clock, the ids,
  the provider calls and the repository operations (each rule turns a call into the update of
  the view it makes), and for each function of service.go, from the single round up to
  \<open>CreatePayment\<close>, that it keeps the invariant on every branch, errors included, and that the
  payment it returns is the stored one.
\<close>

section \<open>The service over a repository\<close>

definition world_inv :: "('s \<Rightarrow> 'k view) \<Rightarrow> (string \<Rightarrow> string \<Rightarrow> 'k) \<Rightarrow> 's Service \<Rightarrow> 's world \<Rightarrow> bool" where
  "world_inv view ikey sv w \<longleftrightarrow>
     inv (sv_maxAttempts sv) (sv_ids sv) ikey (w_tick w) (view (w_store w)) (w_calls w)"

definition service_ok :: "'s Repository \<Rightarrow> ('s \<Rightarrow> 'k view) \<Rightarrow> 's Service \<Rightarrow> bool" where
  "service_ok repo view sv \<longleftrightarrow> sv_repo sv = repo \<and>
     (case sv_telemetry sv of None \<Rightarrow> True
      | Some refresh \<Rightarrow> \<forall>cs env t s. view (snd (refresh cs env t s)) = view s)"

definition unpaid :: "PaymentIntent \<Rightarrow> bool" where
  "unpaid p \<longleftrightarrow> pi_Status p \<noteq> PaymentStatusPaid \<and> \<not> pi_Recovered p \<and> pi_RecoveredAmount p = 0 \<and> pi_PaidAt p = None"

lemma wp_run_store:
  assumes "\<And>x s'. m (w_store w) = (Inr x, s') \<Longrightarrow> Q x (w\<lparr>w_store := s'\<rparr>)"
    and "\<And>e s'. m (w_store w) = (Inl e, s') \<Longrightarrow> R e (w\<lparr>w_store := s'\<rparr>)"
  shows "wp (run_store m) Q R w"
  using assms by (auto simp: wp_def run_store_def split: prod.split sum.split)

lemma wp_Now: "wp (Now sv) Q R w \<longleftrightarrow> Q (sv_clock sv (w_tick w)) (step_tick w)"
  by (simp add: wp_def Now_def)

lemma wp_NewID: "wp (NewID sv prefix) Q R w \<longleftrightarrow> Q (sv_ids sv (w_tick w) prefix) (step_tick w)"
  by (simp add: wp_def NewID_def)

lemma wp_Resolve: "wp (Resolve sv conn) Q R w \<longleftrightarrow>
    (case rg_Resolve (sv_providers sv) (w_tick w) conn of Inl e \<Rightarrow> R e (step_tick w) | Inr a \<Rightarrow> Q a (step_tick w))"
  by (simp add: wp_def Resolve_def)

lemma wp_callCreatePix: "wp (callCreatePix conn adapter req) Q R w \<longleftrightarrow>
    Q (cn_CreatePix adapter (w_tick w) req)
      ((step_tick w)\<lparr>w_calls := CallCreate conn req (cn_CreatePix adapter (w_tick w) req) # w_calls w\<rparr>)"
  by (simp add: wp_def callCreatePix_def Let_def)

lemma wp_callReconcile: "wp (callReconcile conn adapter req) Q R w \<longleftrightarrow>
    Q (cn_Reconcile adapter (w_tick w) req)
      ((step_tick w)\<lparr>w_calls := CallReconcile conn req (cn_Reconcile adapter (w_tick w) req) # w_calls w\<rparr>)"
  by (simp add: wp_def callReconcile_def Let_def)

lemma step_tick_simps [simp]:
  "w_store (step_tick w) = w_store w" "w_tick (step_tick w) = Suc (w_tick w)" "w_calls (step_tick w) = w_calls w"
  by (simp_all add: step_tick_def)

lemmas wp_env = wp_Now wp_NewID wp_Resolve wp_callCreatePix wp_callReconcile

lemma world_inv_tick [simp]: "world_inv view ikey sv w \<Longrightarrow> world_inv view ikey sv (step_tick w)"
  unfolding world_inv_def by (simp add: inv_tick)

section \<open>Collisions of ids\<close>

text \<open>
  The ids drawn up to a world are pairwise different.  The tick only grows, so from a world with
  a collision no later world is free of one: what is claimed for collision-free worlds holds
  vacuously there.
\<close>

definition no_collision :: "'s Service \<Rightarrow> 's world \<Rightarrow> bool" where
  "no_collision sv w \<longleftrightarrow> unique_ids (sv_ids sv) (w_tick w)"

abbreviation tick_mono :: "('s, 'a) orch \<Rightarrow> bool" where
  "tick_mono \<equiv> along (\<lambda>w w'. w_tick w \<le> w_tick w')"

interpretation ticks: service_relation "\<lambda>w w'. w_tick w \<le> w_tick w'" sv for sv
  by unfold_locales
    (auto simp: along_def run_store_def step_tick_def callCreatePix_def callReconcile_def Let_def split: prod.split)

lemma wp_collision:
  assumes "tick_mono m" and "\<not> no_collision sv w"
    and "\<And>x w'. \<not> no_collision sv w' \<Longrightarrow> Q x w'" and "\<And>e w'. \<not> no_collision sv w' \<Longrightarrow> R e w'"
  shows "wp m Q R w"
proof -
  have "\<not> no_collision sv (snd (m w))"
    using alongD [OF assms(1), of w] assms(2) unique_ids_mono unfolding no_collision_def by blast
  then show ?thesis using assms(3,4) by (auto simp: wp_def split: prod.split sum.split)
qed

lemma abs_pay_simps [simp]:
  "ap_ID (abs_pay nx p) = pi_ID p" "ap_Workspace (abs_pay nx p) = pi_WorkspaceID p"
  "ap_Key (abs_pay nx p) = pi_IdempotencyKey p" "ap_Fingerprint (abs_pay nx p) = pi_RequestFingerprint p"
  "ap_Amount (abs_pay nx p) = pi_Amount p" "ap_Status (abs_pay nx p) = pi_Status p"
  "ap_Active (abs_pay nx p) = pi_ActiveAttemptID p" "ap_Presented (abs_pay nx p) = pi_PresentedAttemptID p"
  "ap_Pix (abs_pay nx p) = nx (pi_Pix p)" "ap_Recovered (abs_pay nx p) = pi_Recovered p"
  "ap_RecoveredAmount (abs_pay nx p) = pi_RecoveredAmount p" "ap_HasPaidAt (abs_pay nx p) = (pi_PaidAt p \<noteq> None)"
  by (simp_all add: abs_pay_def)

lemma abs_att_simps [simp]:
  "aa_ID (abs_att nx a) = pa_ID a" "aa_Payment (abs_att nx a) = pa_PaymentIntentID a"
  "aa_Connection (abs_att nx a) = pa_ProviderConnectionID a" "aa_Sequence (abs_att nx a) = pa_Sequence a"
  "aa_Status (abs_att nx a) = pa_Status a" "aa_ProviderPaymentID (abs_att nx a) = pa_ProviderPaymentID a"
  "aa_FailureCode (abs_att nx a) = pa_FailureCode a" "aa_Pix (abs_att nx a) = nx (pa_Pix a)"
  by (simp_all add: abs_att_def)

lemma abs_dec_simps [simp]:
  "ad_AttemptID (abs_dec d) = rd_AttemptID d" "ad_Selected (abs_dec d) = rd_SelectedProviderConnectionID d"
  "ad_Candidates (abs_dec d) = rd_Candidates d" "ad_Reasons (abs_dec d) = rd_ReasonCodes d"
  by (simp_all add: abs_dec_def)

lemma inv_unpaid_rec:
  "inv mx ids ikey n v calls \<Longrightarrow> v_pay v pid = Some p \<Longrightarrow> ap_Status p \<noteq> PaymentStatusPaid \<Longrightarrow> v_rec v pid = []"
  using invD(5) [of mx ids ikey n v calls pid p] by (simp add: rec_ok_def)

text \<open>\<open>working v p as intent\<close>: the service holds \<open>intent\<close> in memory, the store holds the unpaid
  payment \<open>p\<close> with the attempts \<open>as\<close>.\<close>

definition working :: "(Pix option \<Rightarrow> Pix option) \<Rightarrow> 'k view \<Rightarrow> APay \<Rightarrow> AAtt list \<Rightarrow> PaymentIntent \<Rightarrow> bool" where
  "working nx v p as intent \<longleftrightarrow> v_pay v (pi_ID intent) = Some p \<and> same_payment (abs_pay nx intent) p \<and>
     ap_Status p \<noteq> PaymentStatusPaid \<and> unpaid intent \<and> atts v (pi_ID intent) = as"

context repository
begin

abbreviation V :: "'s world \<Rightarrow> 'k view" where
  "V w \<equiv> view (w_store w)"

abbreviation INV :: "'s Service \<Rightarrow> 's world \<Rightarrow> bool" where
  "INV sv w \<equiv> world_inv view ikey sv w"

lemma wp_read:
  assumes "\<And>x s'. m (w_store w) = (Inr x, s') \<Longrightarrow> view s' = V w \<Longrightarrow> Q x (w\<lparr>w_store := s'\<rparr>)"
    and "\<And>e s'. m (w_store w) = (Inl e, s') \<Longrightarrow> view s' = V w \<Longrightarrow> R e (w\<lparr>w_store := s'\<rparr>)"
    and "view (snd (m (w_store w))) = V w"
  shows "wp (run_store m) Q R w"
  using assms by (intro wp_run_store) auto

lemma INV_view: "INV sv w \<Longrightarrow> view s' = V w \<Longrightarrow> INV sv (w\<lparr>w_store := s'\<rparr>)"
  by (simp add: world_inv_def)

lemma wp_savePayment:
  assumes sv: "sv_repo sv = repo" and I: "INV sv w" and W: "working nx (V w) p as intent"
    and q: "same_payment (abs_pay nx q) (abs_pay nx intent)" "unpaid q" "status_ok as (abs_pay nx q)"
    and Q: "\<And>w'. INV sv w' \<Longrightarrow> V w' = put_pay (abs_pay nx q) (V w) \<Longrightarrow> w_calls w' = w_calls w \<Longrightarrow>
      w_tick w' = w_tick w \<Longrightarrow> working nx (V w') (abs_pay nx q) as q \<Longrightarrow> Q () w'"
    and R: "\<And>e w'. INV sv w' \<Longrightarrow> V w' = V w \<Longrightarrow> w_calls w' = w_calls w \<Longrightarrow> w_tick w' = w_tick w \<Longrightarrow> R e w'"
  shows "wp (savePayment sv q) Q R w"
  unfolding savePayment_def
proof (rule wp_run_store)
  have id: "pi_ID q = pi_ID intent" using q(1) by (simp add: same_payment_def)
  have p: "v_pay (V w) (pi_ID q) = Some p" and np: "ap_Status p \<noteq> PaymentStatusPaid"
    and same: "same_payment (abs_pay nx q) p" and as: "atts (V w) (pi_ID q) = as"
    using W id q(1) by (auto simp: working_def same_payment_def)
  fix x s' assume *: "SavePayment (sv_repo sv) q (w_store w) = (Inr x, s')"
  have v': "view s' = put_pay (abs_pay nx q) (V w)"
    by (rule SavePayment_value [OF *[unfolded sv] p same])
  have i: "inv (sv_maxAttempts sv) (sv_ids sv) ikey (w_tick w) (put_pay (abs_pay nx q) (V w)) (w_calls w)"
  proof (rule inv_put_pay)
    show "inv (sv_maxAttempts sv) (sv_ids sv) ikey (w_tick w) (V w) (w_calls w)" using I by (simp add: world_inv_def)
    then have "v_rec (V w) (pi_ID q) = []" by (rule inv_unpaid_rec [OF _ p np])
    then show "rec_ok (atts (V w) (ap_ID (abs_pay nx q))) (v_rec (V w) (ap_ID (abs_pay nx q))) (abs_pay nx q)"
      using q(2) by (simp add: rec_ok_def unpaid_def)
    show "events_of (abs_pay nx q) = events_of p" using q(2) np by (simp add: events_of_nonpaid unpaid_def)
  qed (use p same q(3) as in auto)
  show "Q x (w\<lparr>w_store := s'\<rparr>)"
    using Q [of "w\<lparr>w_store := s'\<rparr>"] i v' q(2) as
    by (simp add: world_inv_def working_def same_payment_def unpaid_def)
next
  fix e s' assume "SavePayment (sv_repo sv) q (w_store w) = (Inl e, s')"
  then have "view s' = V w" using SavePayment_error sv by simp
  then show "R e (w\<lparr>w_store := s'\<rparr>)" using R INV_view [OF I] by simp
qed

lemma wp_saveAttempt:
  assumes sv: "sv_repo sv = repo" and I: "INV sv w" and W: "working nx (V w) p (as @ [b]) intent"
    and a: "same_attempt (abs_att nx a) b" "pa_PaymentIntentID a = pi_ID intent" "pa_Status a \<noteq> AttemptStatusCreated"
      "pa_Status a = AttemptStatusFailedSafe \<Longrightarrow> cleared (w_calls w) (pa_ID a)" "status_ok (as @ [abs_att nx a]) p"
    and Q: "\<And>w'. INV sv w' \<Longrightarrow> V w' = put_att (abs_att nx a) (V w) \<Longrightarrow> w_calls w' = w_calls w \<Longrightarrow>
      w_tick w' = w_tick w \<Longrightarrow> working nx (V w') p (as @ [abs_att nx a]) intent \<Longrightarrow> Q () w'"
    and R: "\<And>e w'. INV sv w' \<Longrightarrow> V w' = V w \<Longrightarrow> w_calls w' = w_calls w \<Longrightarrow> w_tick w' = w_tick w \<Longrightarrow> R e w'"
  shows "wp (saveAttempt sv a) Q R w"
  unfolding saveAttempt_def
proof (rule wp_run_store)
  let ?pid = "pi_ID intent"
  have I': "inv (sv_maxAttempts sv) (sv_ids sv) ikey (w_tick w) (V w) (w_calls w)" using I by (simp add: world_inv_def)
  have at: "atts (V w) ?pid = as @ [b]" using W by (simp add: working_def)
  have idsl: "v_attIDs (V w) ?pid = map aa_ID (as @ [b])" using atts_ids [OF I', of ?pid] at by simp
  have la: "v_attIDs (V w) ?pid \<noteq> []" "last (v_attIDs (V w) ?pid) = pa_ID a"
    using idsl a(1) by (auto simp: same_attempt_def)
  have b: "v_att (V w) (pa_ID a) = Some b"
  proof -
    have "pa_ID a \<in> set (v_attIDs (V w) ?pid)" using la by (metis last_in_set)
    then obtain c where c: "v_att (V w) (pa_ID a) = Some c" using list_ok_att [OF invD(2) [OF I']] by blast
    then show ?thesis using last_atts [OF la(1)] la(2) at by simp
  qed
  fix x s' assume *: "SaveAttempt (sv_repo sv) a (w_store w) = (Inr x, s')"
  have v': "view s' = put_att (abs_att nx a) (V w)" by (rule SaveAttempt_value [OF *[unfolded sv] b a(1)])
  have i: "inv (sv_maxAttempts sv) (sv_ids sv) ikey (w_tick w) (put_att (abs_att nx a) (V w)) (w_calls w)"
    by (rule inv_put_att [OF I', of _ b p])
      (use la b a W at in \<open>simp_all add: working_def\<close>)
  have "atts (put_att (abs_att nx a) (V w)) ?pid = as @ [abs_att nx a]"
    using cases_last_att [OF I', of "abs_att nx a" ?pid] la a(2) at by simp
  then show "Q x (w\<lparr>w_store := s'\<rparr>)"
    using Q [of "w\<lparr>w_store := s'\<rparr>"] i v' W by (simp add: world_inv_def working_def)
next
  fix e s' assume "SaveAttempt (sv_repo sv) a (w_store w) = (Inl e, s')"
  then have "view s' = V w" using SaveAttempt_error sv by simp
  then show "R e (w\<lparr>w_store := s'\<rparr>)" using R INV_view [OF I] by simp
qed

end

definition failed_safe :: "AAtt list \<Rightarrow> bool" where
  "failed_safe as \<longleftrightarrow> (\<forall>a\<in>set as. aa_Status a = AttemptStatusFailedSafe)"

definition routing :: "(Pix option \<Rightarrow> Pix option) \<Rightarrow> 'k view \<Rightarrow> APay \<Rightarrow> AAtt list \<Rightarrow> PaymentIntent \<Rightarrow> bool" where
  "routing nx v p as intent \<longleftrightarrow> working nx v p as intent \<and> ap_Status p = PaymentStatusRouting \<and>
     pi_Status intent = PaymentStatusRouting"

lemma status_ok_routing: "ap_Status p = PaymentStatusRouting \<Longrightarrow> status_ok as p"
  by (simp add: status_ok_def)

context repository
begin

definition stored :: "PaymentIntent \<Rightarrow> 's world \<Rightarrow> bool" where
  "stored q w \<longleftrightarrow> v_pay (V w) (pi_ID q) = Some (abs_pay nx q)"

definition returned :: "'s Service \<Rightarrow> string \<Rightarrow> PaymentIntent \<Rightarrow> go_error option \<Rightarrow> 's world \<Rightarrow> bool" where
  "returned sv pid q err w \<longleftrightarrow> INV sv w \<and> pi_ID q = pid \<and> (err = None \<longrightarrow> stored q w)"

definition round_post ::
  "'s Service \<Rightarrow> string \<Rightarrow> AAtt list \<Rightarrow> (string \<Rightarrow> bool) \<Rightarrow> round_result \<Rightarrow> 's world \<Rightarrow> bool" where
  "round_post sv pid as excluded r w \<longleftrightarrow> (case r of
     RoundReturn q err \<Rightarrow> returned sv pid q err w
   | RoundContinue q a excluded' \<Rightarrow> INV sv w \<and> pi_ID q = pid \<and>
       (\<exists>p. routing nx (V w) p (as @ [abs_att nx a]) q) \<and> pa_Status a = AttemptStatusFailedSafe \<and>
       excluded' = excluded(pa_ProviderConnectionID a := True))"

lemma wp_settle:
  assumes sv: "sv_repo sv = repo" and I: "INV sv w" and W: "working nx (V w) p (as @ [b]) intent"
    and a: "same_attempt (abs_att nx a) b" "pa_PaymentIntentID a = pi_ID intent" "pa_Status a \<noteq> AttemptStatusCreated"
      "pa_Status a = AttemptStatusFailedSafe \<Longrightarrow> cleared (w_calls w) (pa_ID a)" "status_ok (as @ [abs_att nx a]) p"
    and q: "same_payment (abs_pay nx q) (abs_pay nx intent)" "unpaid q" "status_ok (as @ [abs_att nx a]) (abs_pay nx q)"
    and Q: "\<And>w'. INV sv w' \<Longrightarrow> working nx (V w') (abs_pay nx q) (as @ [abs_att nx a]) q \<Longrightarrow> Q x w'"
    and R: "\<And>e w'. INV sv w' \<Longrightarrow> R e w'"
  shows "wp (bindE (saveAttempt sv a) (\<lambda>_. bindE (savePayment sv q) (\<lambda>_. returnE x))) Q R w"
  unfolding wp_bind
proof (rule wp_saveAttempt [OF sv I W a])
  fix w' assume *: "INV sv w'" "working nx (V w') p (as @ [abs_att nx a]) intent"
  show "wp (savePayment sv q) (\<lambda>y. wp (returnE x) Q R) R w'"
    by (rule wp_savePayment [OF sv * q]) (auto simp: wp_return intro: Q R)
qed (simp_all add: R)

lemma working_stored: "working nx (V w) (abs_pay nx q) as q \<Longrightarrow> stored q w"
  by (simp add: working_def stored_def)

lemma wp_applyCreateOutcome:
  assumes sv: "sv_repo sv = repo" and I: "INV sv w"
    and W: "routing nx (V w) p (as @ [b]) intent"
    and a: "same_attempt (abs_att nx attempt) b" "pa_PaymentIntentID attempt = pi_ID intent"
      "pi_ActiveAttemptID intent = pa_ID attempt"
    and cl: "co_Kind outcome = CreateFailedSafe \<Longrightarrow> cleared (w_calls w) (pa_ID attempt)"
  shows "wp (applyCreateOutcome sv intent attempt outcome t (pa_ProviderConnectionID attempt) excluded)
    (round_post sv (pi_ID intent) as excluded) (\<lambda>_. INV sv) w"
proof -
  have W': "working nx (V w) p (as @ [b]) intent" and rt: "ap_Status p = PaymentStatusRouting"
    and up: "unpaid intent" and ri: "pi_Status intent = PaymentStatusRouting"
    using W by (auto simp: routing_def working_def)
  have ret: "round_post sv (pi_ID intent) as excluded (RoundReturn q None) w'"
    if "INV sv w'" "working nx (V w') (abs_pay nx q) as' q" "pi_ID q = pi_ID intent" for q as' w'
    using that by (auto simp: round_post_def returned_def dest: working_stored)
  note settle = wp_settle [OF sv I W']
  note facts = a same_attempt_def same_payment_def status_ok_routing rt
  have failed: "wp (bindE (saveAttempt sv (attempt\<lparr>pa_Status := AttemptStatusFailedTerminal\<rparr>)) (\<lambda>_.
      bindE (savePayment sv (intent\<lparr>pi_Status := PaymentStatusFailed, pi_FailureCode := fc, pi_UpdatedAt := t\<rparr>)) (\<lambda>_.
      returnE (RoundReturn (intent\<lparr>pi_Status := PaymentStatusFailed, pi_FailureCode := fc, pi_UpdatedAt := t\<rparr>) None))))
    (round_post sv (pi_ID intent) as excluded) (\<lambda>_. INV sv) w" for fc
    by (rule settle; (rule ret, assumption, assumption, simp)?) (use a up in \<open>auto simp: rt same_attempt_def same_payment_def unpaid_def status_ok_def\<close>)
  show ?thesis
  proof (cases "co_Kind outcome")
    case CreateSucceeded
    show ?thesis unfolding applyCreateOutcome_def CreateSucceeded Let_def CreateOutcomeKind.case
      by (rule settle; (rule ret, assumption, assumption, simp)?) (use a up in \<open>auto simp: rt same_attempt_def same_payment_def unpaid_def status_ok_def
            settled_def\<close>)
  next
    case CreateUnknown
    show ?thesis unfolding applyCreateOutcome_def CreateUnknown Let_def CreateOutcomeKind.case
      by (rule settle; (rule ret, assumption, assumption, simp)?) (use a up in \<open>auto simp: rt same_attempt_def same_payment_def unpaid_def status_ok_def\<close>)
  next
    case CreateFailedSafe
    show ?thesis unfolding applyCreateOutcome_def CreateFailedSafe Let_def CreateOutcomeKind.case
      by (simp only: wp_bind, rule wp_saveAttempt [OF sv I W'])
        (use a cl CreateFailedSafe rt ri in \<open>auto simp: same_attempt_def status_ok_def round_post_def routing_def wp_return\<close>)
  qed (use failed in \<open>simp_all add: applyCreateOutcome_def Let_def\<close>)
qed

lemma wp_resolveFailed:
  assumes sv: "sv_repo sv = repo" and I: "INV sv w" and W: "routing nx (V w) p (as @ [abs_att nx attempt]) intent"
    and a: "pa_PaymentIntentID attempt = pi_ID intent" "pa_Status attempt = AttemptStatusCreated"
  shows "wp (resolveFailed sv intent attempt err) (round_post sv (pi_ID intent) as excluded) (\<lambda>_. INV sv) w"
proof -
  define a' where "a' = attempt\<lparr>pa_Status := AttemptStatusFailedTerminal, pa_FailureCode := ''adapter_not_registered'',
    pa_UpdatedAt := sv_clock sv (w_tick w)\<rparr>"
  define q where "q t = intent\<lparr>pi_Status := PaymentStatusFailed, pi_FailureCode := pa_FailureCode a', pi_UpdatedAt := t\<rparr>" for t
  have fin: "wp (bindE (Now sv) (\<lambda>t2. bindE (ignoreE (savePayment sv (q t2))) (\<lambda>_. returnE (RoundReturn (q t2) (Some err)))))
      (round_post sv (pi_ID intent) as excluded) (\<lambda>_. INV sv) w'"
    if i: "INV sv w'" and wk: "working nx (V w') p (as @ [c]) intent"
      and c: "aa_Status c \<in> {AttemptStatusCreated, AttemptStatusFailedTerminal}" for w' c
  proof (simp only: wp_bind wp_ignore wp_env wp_return,
      rule wp_savePayment [OF sv world_inv_tick [OF i]])
    show "working nx (V (step_tick w')) p (as @ [c]) intent" using wk by simp
  qed (use wk c in \<open>auto simp: q_def working_def same_payment_def unpaid_def status_ok_def round_post_def
      returned_def wp_return\<close>)
  have W': "working nx (V (step_tick w)) p (as @ [abs_att nx attempt]) intent" and rt: "ap_Status p = PaymentStatusRouting"
    using W by (auto simp: routing_def)
  have "resolveFailed sv intent attempt err = bindE (Now sv) (\<lambda>t1. bindE (ignoreE (saveAttempt sv (attempt\<lparr>pa_Status := AttemptStatusFailedTerminal,
       pa_FailureCode := ''adapter_not_registered'', pa_UpdatedAt := t1\<rparr>))) (\<lambda>_. bindE (Now sv) (\<lambda>t2. bindE (ignoreE (savePayment sv (q t2)))
         (\<lambda>_. returnE (RoundReturn (q t2) (Some err))))))"
    by (simp add: resolveFailed_def q_def a'_def Let_def)
  moreover have "wp (saveAttempt sv a') (\<lambda>_. wp (bindE (Now sv) (\<lambda>t2. bindE (ignoreE (savePayment sv (q t2)))
         (\<lambda>_. returnE (RoundReturn (q t2) (Some err))))) (round_post sv (pi_ID intent) as excluded) (\<lambda>_. INV sv))
      (\<lambda>_. wp (bindE (Now sv) (\<lambda>t2. bindE (ignoreE (savePayment sv (q t2)))
         (\<lambda>_. returnE (RoundReturn (q t2) (Some err))))) (round_post sv (pi_ID intent) as excluded) (\<lambda>_. INV sv)) (step_tick w)"
    by (rule wp_saveAttempt [OF sv world_inv_tick [OF I] W'])
      (use a rt W' in \<open>auto simp: a'_def same_attempt_def status_ok_routing intro!: fin\<close>)
  ultimately show ?thesis by (simp only: wp_bind wp_ignore wp_Now a'_def)
qed

lemma wp_noEligible:
  assumes sv: "sv_repo sv = repo" and I: "INV sv w" and W: "routing nx (V w) p as intent" and fs: "failed_safe as"
  shows "wp (noEligibleProvider sv intent) (round_post sv (pi_ID intent) as excluded) (\<lambda>_. INV sv) w"
proof -
  have W': "working nx (V (step_tick w)) p as intent" using W by (simp add: routing_def)
  have st: "as = [] \<or> aa_Status (last as) = AttemptStatusFailedSafe" using fs last_in_set by (auto simp: failed_safe_def)
  show ?thesis
    unfolding noEligibleProvider_def Let_def wp_bind wp_Now wp_return
    by (rule wp_savePayment [OF sv world_inv_tick [OF I] W'])
      (use W st in \<open>auto simp: routing_def working_def same_payment_def unpaid_def status_ok_def round_post_def returned_def wp_return\<close>)
qed

lemma wp_dispatchAttempt:
  assumes sv: "sv_repo sv = repo" and I: "INV sv w"
    and W: "routing nx (V w) p (as @ [abs_att nx attempt]) intent" and fs: "failed_safe as"
    and a: "pa_PaymentIntentID attempt = pi_ID intent" "pi_ActiveAttemptID intent = pa_ID attempt"
      "pa_Status attempt = AttemptStatusCreated" "pa_ProviderConnectionID attempt = pc_ID selected"
  shows "wp (dispatchAttempt sv intent attempt selected adapter excluded)
    (round_post sv (pi_ID intent) as excluded) (\<lambda>_. INV sv) w"
proof -
  let ?pid = "pi_ID intent"
  let ?a = "\<lambda>t. attempt\<lparr>pa_Status := AttemptStatusRequesting, pa_RequestStartedAt := t, pa_UpdatedAt := t\<rparr>"
  let ?t = "sv_clock sv (w_tick w)"
  have W': "working nx (V (step_tick w)) p (as @ [abs_att nx attempt]) intent" and rt: "ap_Status p = PaymentStatusRouting"
    and ri: "pi_Status intent = PaymentStatusRouting"
    using W by (auto simp: routing_def)
  have I0: "inv (sv_maxAttempts sv) (sv_ids sv) ikey (w_tick w) (V w) (w_calls w)" using I by (simp add: world_inv_def)
  have idsl: "v_attIDs (V w) ?pid = map aa_ID (as @ [abs_att nx attempt])"
    using atts_ids [OF I0, of ?pid] W by (simp add: routing_def working_def)
  have at0: "v_att (V w) (pa_ID attempt) = Some (abs_att nx attempt)"
  proof -
    have "pa_ID attempt \<in> set (v_attIDs (V w) ?pid)" using idsl by simp
    then obtain c where c: "v_att (V w) (pa_ID attempt) = Some c" using list_ok_att [OF invD(2) [OF I0]] by blast
    then show ?thesis using last_atts [of "V w" ?pid] idsl W by (simp add: routing_def working_def)
  qed
  have fresh: "pa_ID attempt \<notin> set (creates_for ?pid (w_calls w))"
    by (rule created_not_called [OF I0 at0]) (simp add: a)
  show ?thesis
    unfolding dispatchAttempt_def Let_def wp_bind wp_env
  proof (rule wp_saveAttempt [OF sv world_inv_tick [OF I] W'])
    fix w' assume i: "INV sv w'" and v': "V w' = put_att (abs_att nx (?a ?t)) (V (step_tick w))"
      and c: "w_calls w' = w_calls (step_tick w)" and k: "w_tick w' = w_tick (step_tick w)"
      and wk: "working nx (V w') p (as @ [abs_att nx (?a ?t)]) intent"
    define req where "req = \<lparr>cq_PaymentIntentID = pi_ID intent, cq_AttemptID = pa_ID (?a ?t), cq_Amount = pi_Amount intent,
      cq_Currency = pi_Currency intent, cq_MerchantOrderID = pi_MerchantOrderID intent\<rparr>"
    define out where "out = cn_CreatePix adapter (w_tick w') req"
    let ?w = "step_tick ((step_tick w')\<lparr>w_calls := CallCreate selected req out # w_calls w'\<rparr>)"
    have i': "inv (sv_maxAttempts sv) (sv_ids sv) ikey (w_tick w') (V w') (w_calls w')" using i by (simp add: world_inv_def)
    have "inv (sv_maxAttempts sv) (sv_ids sv) ikey (w_tick w') (V w') (CallCreate selected req out # w_calls w')"
      by (rule inv_call_create [OF i', of _ "abs_att nx (?a ?t)" _ p])
        (use a fresh c v' wk idsl in \<open>auto simp: req_def working_def same_payment_def\<close>)
    then have I': "INV sv ?w" by (simp add: world_inv_def inv_tick)
    have "wp (applyCreateOutcome sv intent (?a ?t \<lparr>pa_ResponseReceivedAt := Some (sv_clock sv (Suc (w_tick w'))),
        pa_UpdatedAt := sv_clock sv (Suc (w_tick w')), pa_ProviderPaymentID := co_ProviderPaymentID out,
        pa_FailureCode := co_FailureCode out\<rparr>) out (sv_clock sv (Suc (w_tick w')))
        (pa_ProviderConnectionID (?a ?t \<lparr>pa_ResponseReceivedAt := Some (sv_clock sv (Suc (w_tick w'))),
        pa_UpdatedAt := sv_clock sv (Suc (w_tick w')), pa_ProviderPaymentID := co_ProviderPaymentID out,
        pa_FailureCode := co_FailureCode out\<rparr>)) excluded) (round_post sv (pi_ID intent) as excluded) (\<lambda>_. INV sv) ?w"
      by (rule wp_applyCreateOutcome [OF sv I', of p as "abs_att nx (?a ?t)"])
        (use a wk rt ri in \<open>simp_all add: routing_def same_attempt_def cleared_def req_def\<close>)
    then show "wp (applyCreateOutcome sv intent (?a ?t \<lparr>pa_ResponseReceivedAt := Some (sv_clock sv (w_tick
        ((step_tick w')\<lparr>w_calls := CallCreate selected req out # w_calls w'\<rparr>))), pa_UpdatedAt := sv_clock sv (w_tick
        ((step_tick w')\<lparr>w_calls := CallCreate selected req out # w_calls w'\<rparr>)), pa_ProviderPaymentID := co_ProviderPaymentID out,
        pa_FailureCode := co_FailureCode out\<rparr>) out (sv_clock sv (w_tick
        ((step_tick w')\<lparr>w_calls := CallCreate selected req out # w_calls w'\<rparr>))) (pc_ID selected) excluded)
       (round_post sv (pi_ID intent) as excluded) (\<lambda>_. INV sv) ?w"
      by (simp add: a)
  qed (use a rt in \<open>auto simp: same_attempt_def status_ok_routing\<close>)
qed

lemma dec_ok_Select:
  assumes "rr_Selected (Select cat cs env ex cap h) = Some c"
  shows "dec_ok (abs_dec (newDecision did pid aid c (Select cat cs env ex cap h) t))"
  using Select_Some(1,2) [OF assms]
  by (auto simp: dec_ok_def newDecision_def list_ex_iff Select_unfold intro!: bexI [of _ c])

lemma wp_AddAttempt:
  assumes sv: "sv_repo sv = repo" and I: "INV sv w" and W: "routing nx (V w) p as intent" and fs: "failed_safe as"
    and a: "pa_PaymentIntentID a = pi_ID intent" "pa_Status a = AttemptStatusCreated"
      "pa_Sequence a = int (length as) + 1" "int (length as) < sv_maxAttempts sv"
      "pa_ProviderConnectionID a \<notin> set (map aa_Connection as)"
    and new: "v_att (V w) (pa_ID a) = None" "minted (sv_ids sv) (w_tick w) (pa_ID a)"
    and d: "rd_PaymentIntentID d = pi_ID intent" "rd_AttemptID d = pa_ID a"
      "rd_SelectedProviderConnectionID d = pa_ProviderConnectionID a" "dec_ok (abs_dec d)"
    and Q: "\<And>w'. INV sv w' \<Longrightarrow> routing nx (V w') p (as @ [abs_att nx a]) intent \<Longrightarrow> w_tick w' = w_tick w \<Longrightarrow> Q () w'"
    and R: "\<And>e w'. INV sv w' \<Longrightarrow> R e w'"
  shows "wp (run_store (AddAttemptWithRoutingDecision (sv_repo sv) a d)) Q R w"
proof (rule wp_run_store)
  let ?pid = "pi_ID intent"
  have I': "inv (sv_maxAttempts sv) (sv_ids sv) ikey (w_tick w) (V w) (w_calls w)" using I by (simp add: world_inv_def)
  have at: "atts (V w) ?pid = as" and p: "v_pay (V w) ?pid = Some p" "ap_Status p = PaymentStatusRouting"
    using W by (auto simp: routing_def working_def)
  have len: "length (v_attIDs (V w) ?pid) = length as" using at length_atts by metis
  fix x s' assume *: "AddAttemptWithRoutingDecision (sv_repo sv) a d (w_store w) = (Inr x, s')"
  have v': "view s' = add_att (abs_att nx a) (abs_dec d) (V w)"
  proof (rule AddAttempt_value [OF *[unfolded sv] new(1)])
    show "listed (V w) (pa_PaymentIntentID a)" by (rule list_ok_listed [OF invD(2) [OF I']])
    show "aa_Sequence b < pa_Sequence a" if "b \<in> set (atts (V w) (pa_PaymentIntentID a))" for b
      using list_ok_sequence(2) [OF invD(2) [OF I'] that] a(1,3) len by simp
  qed (use a d in simp_all)
  have i: "inv (sv_maxAttempts sv) (sv_ids sv) ikey (w_tick w) (add_att (abs_att nx a) (abs_dec d) (V w)) (w_calls w)"
    by (rule inv_add_att [OF I', of _ p]) (use a new d p at len fs in \<open>simp_all add: failed_safe_def\<close>)
  have "atts (add_att (abs_att nx a) (abs_dec d) (V w)) ?pid = as @ [abs_att nx a]"
    using atts_add_att [OF invD(2) [OF I'], of "abs_att nx a"] new(1) a(1) at by simp
  then show "Q x (w\<lparr>w_store := s'\<rparr>)"
    using Q [of "w\<lparr>w_store := s'\<rparr>"] i v' W by (simp add: world_inv_def routing_def working_def)
next
  fix e s' assume "AddAttemptWithRoutingDecision (sv_repo sv) a d (w_store w) = (Inl e, s')"
  then have "view s' = V w" using AddAttempt_error sv by simp
  then show "R e (w\<lparr>w_store := s'\<rparr>)" using R INV_view [OF I] by simp
qed

lemma wp_Resolve_INV:
  assumes "INV sv w" and "\<And>r w'. INV sv w' \<Longrightarrow> V w' = V w \<Longrightarrow> w_calls w' = w_calls w \<Longrightarrow> Q r w'"
  shows "wp (tryE (Resolve sv conn)) Q R w"
  using assms(1) assms(2) [of "step_tick w"] by (simp add: wp_simps wp_env split: sum.split)

lemma wp_routeStep:
  assumes ok: "service_ok repo view sv" and I: "INV sv w" and W: "routing nx (V w) p as intent" and fs: "failed_safe as"
    and budget: "int (length as) < sv_maxAttempts sv" and ex: "\<And>a. a \<in> set as \<Longrightarrow> excluded (aa_Connection a)"
  shows "wp (routeStep sv env connections health intent (length as) excluded)
    (\<lambda>r w'. no_collision sv w' \<longrightarrow> round_post sv (pi_ID intent) as excluded r w')
    (\<lambda>_ w'. no_collision sv w' \<longrightarrow> INV sv w') w"
proof -
  have sv: "sv_repo sv = repo" using ok by (simp add: service_ok_def)
  let ?route = "Select (Some (rg_Manifest (sv_providers sv))) connections env excluded CapabilityPixCreate health"
  show ?thesis
  proof (cases "rr_Selected ?route")
    case None
    then show ?thesis
      unfolding routeStep_def Let_def by (simp add: wp_weaken [OF wp_noEligible [OF sv I W fs, of excluded]])
  next
    case (Some selected)
    define now aid did where "now = sv_clock sv (w_tick w)" and "aid = sv_ids sv (Suc (w_tick w)) ''pa''"
      and "did = sv_ids sv (Suc (Suc (w_tick w))) ''rd''"
    define a where "a = newAttempt aid (pi_ID intent) (pc_ID selected) (int (length as) + 1) now"
    define d where "d = newDecision did (pi_ID intent) aid selected ?route now"
    define q where "q = intent\<lparr>pi_ActiveAttemptID := aid, pi_UpdatedAt := now\<rparr>"
    let ?w = "step_tick (step_tick (step_tick w))"
    have nex: "\<not> excluded (pc_ID selected)"
      using Select_Some(2) [OF Some] by (simp add: exclusionReason_None)
    have I3: "INV sv ?w" and W3: "routing nx (V ?w) p as intent" using I W by simp_all
    have I0: "inv (sv_maxAttempts sv) (sv_ids sv) ikey (w_tick w) (V w) (w_calls w)" using I by (simp add: world_inv_def)
    have adef: "pa_ID a = aid" "pa_PaymentIntentID a = pi_ID intent" "pa_Status a = AttemptStatusCreated"
        "pa_Sequence a = int (length as) + 1" "pa_ProviderConnectionID a = pc_ID selected"
      by (simp_all add: a_def newAttempt_def)
    have rest: "wp (savePayment sv q) (\<lambda>_. wp (bindE (tryE (Resolve sv selected)) (\<lambda>resolved. case resolved of
          Inl e \<Rightarrow> resolveFailed sv q a e | Inr adapter \<Rightarrow> dispatchAttempt sv q a selected adapter excluded))
        (round_post sv (pi_ID intent) as excluded) (\<lambda>_. INV sv)) (\<lambda>_. INV sv) w1"
      if i1: "INV sv w1" and r1: "routing nx (V w1) p (as @ [abs_att nx a]) intent" for w1
    proof (rule wp_savePayment [OF sv i1, of p "as @ [abs_att nx a]" intent])
      show "working nx (V w1) p (as @ [abs_att nx a]) intent" using r1 by (simp add: routing_def)
      fix w2 assume i2: "INV sv w2" and wk: "working nx (V w2) (abs_pay nx q) (as @ [abs_att nx a]) q"
      have r2: "routing nx (V w2) (abs_pay nx q) (as @ [abs_att nx a]) q"
        using wk r1 by (simp add: routing_def q_def)
      have id: "pi_ID q = pi_ID intent" by (simp add: q_def)
      show "wp (bindE (tryE (Resolve sv selected)) (\<lambda>resolved. case resolved of
          Inl e \<Rightarrow> resolveFailed sv q a e | Inr adapter \<Rightarrow> dispatchAttempt sv q a selected adapter excluded))
        (round_post sv (pi_ID intent) as excluded) (\<lambda>_. INV sv) w2"
        unfolding wp_bind
      proof (rule wp_Resolve_INV [OF i2])
        fix r w3 assume i3: "INV sv w3" and "V w3 = V w2"
        then have r3: "routing nx (V w3) (abs_pay nx q) (as @ [abs_att nx a]) q" using r2 by simp
        show "wp (case r of Inl e \<Rightarrow> resolveFailed sv q a e | Inr adapter \<Rightarrow> dispatchAttempt sv q a selected adapter excluded)
          (round_post sv (pi_ID intent) as excluded) (\<lambda>_. INV sv) w3"
        proof (cases r)
          case (Inl e)
          then show ?thesis using wp_resolveFailed [OF sv i3 r3] adef id by simp
        next
          case (Inr adapter)
          then show ?thesis using wp_dispatchAttempt [OF sv i3 r3 fs] adef id by (simp add: q_def)
        qed
      qed
    qed (use r1 in \<open>auto simp: q_def routing_def working_def same_payment_def unpaid_def status_ok_def\<close>)
    let ?m = "bindE (run_store (AddAttemptWithRoutingDecision (sv_repo sv) a d)) (\<lambda>_. bindE (savePayment sv q) (\<lambda>_.
        bindE (tryE (Resolve sv selected)) (\<lambda>resolved. case resolved of Inl e \<Rightarrow> resolveFailed sv q a e
          | Inr adapter \<Rightarrow> dispatchAttempt sv q a selected adapter excluded)))"
    have safe: "wp ?m (round_post sv (pi_ID intent) as excluded) (\<lambda>_. INV sv) ?w" if uniq: "no_collision sv ?w"
      unfolding wp_bind [of "run_store (AddAttemptWithRoutingDecision (sv_repo sv) a d)"]
    proof (rule wp_AddAttempt [OF sv I3 W3 fs])
      show "pa_ProviderConnectionID a \<notin> set (map aa_Connection as)" using ex nex adef by auto
      show "v_att (V ?w) (pa_ID a) = None" using fresh_att [OF I0, of "Suc (w_tick w)"] uniq
        unique_ids_mono [of "sv_ids sv" "w_tick ?w" "Suc (Suc (w_tick w))"] by (simp add: adef aid_def no_collision_def)
      show "minted (sv_ids sv) (w_tick ?w) (pa_ID a)"
        unfolding minted_def adef aid_def by (intro exI [of _ "Suc (w_tick w)"]) auto
      show "dec_ok (abs_dec d)" unfolding d_def by (rule dec_ok_Select [OF Some])
    qed (use budget adef rest in \<open>simp_all add: d_def newDecision_def wp_bind\<close>)
    have mono: "tick_mono ?m" by (intro along_intros)
    have "wp ?m (\<lambda>r w'. no_collision sv w' \<longrightarrow> round_post sv (pi_ID intent) as excluded r w')
        (\<lambda>_ w'. no_collision sv w' \<longrightarrow> INV sv w') ?w"
    proof (cases "no_collision sv ?w")
      case True
      then show ?thesis by (intro wp_weaken [OF safe]) auto
    next
      case False
      then show ?thesis by (intro wp_collision [OF mono]) auto
    qed
    then show ?thesis
      by (simp add: routeStep_def Let_def Some wp_bind [of "Now sv"] wp_bind [of "NewID sv c" for c] wp_env a_def [symmetric] d_def [symmetric]
          q_def [symmetric] now_def [symmetric] aid_def [symmetric] did_def [symmetric])
  qed
qed

lemma wp_budgetExhausted:
  assumes sv: "sv_repo sv = repo" and I: "INV sv w" and W: "routing nx (V w) p as intent" and fs: "failed_safe as"
  shows "wp (budgetExhausted sv intent) (\<lambda>(q, err). returned sv (pi_ID intent) q err) (\<lambda>_. INV sv) w"
proof -
  have W': "working nx (V (step_tick w)) p as intent" using W by (simp add: routing_def)
  have st: "as = [] \<or> aa_Status (last as) = AttemptStatusFailedSafe" using fs last_in_set by (auto simp: failed_safe_def)
  show ?thesis
    unfolding budgetExhausted_def Let_def wp_bind wp_Now wp_return
    by (rule wp_savePayment [OF sv world_inv_tick [OF I] W'])
      (use W st in \<open>auto simp: routing_def working_def same_payment_def unpaid_def status_ok_def returned_def stored_def\<close>)
qed

lemma wp_routeLoop:
  assumes ok: "service_ok repo view sv" and "INV sv w"
    and "routing nx (V w) p (map (abs_att nx) attempts) intent" and "failed_safe (map (abs_att nx) attempts)"
    and "\<And>a. a \<in> set attempts \<Longrightarrow> excluded (pa_ProviderConnectionID a)"
  shows "wp (routeLoop sv env connections health intent attempts excluded)
    (\<lambda>(q, err) w'. no_collision sv w' \<longrightarrow> returned sv (pi_ID intent) q err w')
    (\<lambda>_ w'. no_collision sv w' \<longrightarrow> INV sv w') w"
  using assms
proof (induction sv env connections health intent attempts excluded w arbitrary: p rule: routeLoop.induct)
  case (1 sv env connections health intent attempts excluded w)
  have sv: "sv_repo sv = repo" using "1.prems"(1) by (simp add: service_ok_def)
  let ?as = "map (abs_att nx) attempts"
  show ?case
  proof (cases "int (length attempts) < sv_maxAttempts sv")
    case False
    then show ?thesis
      using wp_budgetExhausted [OF sv "1.prems"(2,3,4)]
      by (auto simp: wp_def routeLoop.simps split: prod.splits sum.splits)
  next
    case True
    have step: "wp (routeStep sv env connections health intent (length attempts) excluded)
        (\<lambda>r w'. no_collision sv w' \<longrightarrow> round_post sv (pi_ID intent) ?as excluded r w')
        (\<lambda>_ w'. no_collision sv w' \<longrightarrow> INV sv w') w"
    proof -
      have "\<And>a. a \<in> set ?as \<Longrightarrow> excluded (aa_Connection a)" using "1.prems"(5) by auto
      from wp_routeStep [where excluded = excluded, OF "1.prems"(1-4) _ this] True show ?thesis by simp
    qed
    show ?thesis
    proof (cases "routeStep sv env connections health intent (length attempts) excluded w")
      case (Pair r w')
      show ?thesis
      proof (cases r)
        case (Inl e)
        then show ?thesis using step Pair True by (simp add: wp_def routeLoop.simps)
      next
        case (Inr res)
        then have post: "no_collision sv w' \<Longrightarrow> round_post sv (pi_ID intent) ?as excluded res w'"
          using step Pair by (simp add: wp_def)
        show ?thesis
        proof (cases res)
          case (RoundReturn q err)
          then show ?thesis using post Inr Pair True by (simp add: wp_def routeLoop.simps round_post_def)
        next
          case (RoundContinue q a excluded')
          have "wp (routeLoop sv env connections health q (attempts @ [a]) excluded')
              (\<lambda>(q', err) w'. no_collision sv w' \<longrightarrow> returned sv (pi_ID intent) q' err w')
              (\<lambda>_ w'. no_collision sv w' \<longrightarrow> INV sv w') w'"
          proof (cases "no_collision sv w'")
            case False
            then show ?thesis
              by (intro wp_collision [OF ticks.along_routeLoop]) auto
          next
            case uniq: True
            obtain p' where i: "INV sv w'" and id: "pi_ID q = pi_ID intent"
              and r: "routing nx (V w') p' (?as @ [abs_att nx a]) q" and fa: "pa_Status a = AttemptStatusFailedSafe"
              and ex: "excluded' = excluded(pa_ProviderConnectionID a := True)"
              using post [OF uniq] RoundContinue by (auto simp: round_post_def)
            show ?thesis
              unfolding id [symmetric]
              by (rule "1.IH" [OF True Pair [symmetric] Inr RoundContinue _ i])
                (use "1.prems" r fa ex in \<open>auto simp: failed_safe_def\<close>)
          qed
          then show ?thesis using Inr Pair RoundContinue True by (simp add: wp_def routeLoop.simps)
        qed
      qed
    qed
  qed
qed

lemma wp_view_keep:
  assumes "\<And>s. view (snd (m s)) = view s" and "INV sv w"
    and "\<And>x w'. INV sv w' \<Longrightarrow> V w' = V w \<Longrightarrow> w_calls w' = w_calls w \<Longrightarrow> w_tick w' = w_tick w \<Longrightarrow> Q x w'"
    and "\<And>e w'. INV sv w' \<Longrightarrow> V w' = V w \<Longrightarrow> w_calls w' = w_calls w \<Longrightarrow> R e w'"
  shows "wp (run_store m) Q R w"
  by (rule wp_read) (use assms INV_view [OF assms(2)] in \<open>simp_all\<close>)

lemma wp_refreshHealth:
  assumes ok: "service_ok repo view sv" and I: "INV sv w"
    and Q: "\<And>x w'. INV sv w' \<Longrightarrow> V w' = V w \<Longrightarrow> Q x w'" and R: "\<And>e w'. INV sv w' \<Longrightarrow> R e w'"
  shows "wp (refreshHealth sv intent env connections) Q R w"
proof (cases "sv_telemetry sv")
  case None
  then show ?thesis using Q I by (simp add: refreshHealth_def wp_simps)
next
  case (Some refresh)
  have sv: "sv_repo sv = repo" and keep: "view (snd (refresh cs env t s)) = view s" for cs env t s
    using ok Some by (auto simp: service_ok_def)
  show ?thesis
    unfolding refreshHealth_def Some option.case wp_bind wp_Now
  proof (rule wp_view_keep [OF keep world_inv_tick [OF I]])
    fix health w1 assume i1: "INV sv w1" and v1: "V w1 = V (step_tick w)"
    show "wp (run_store (ListProviderConnections (sv_repo sv) (pi_WorkspaceID intent)))
        (\<lambda>c. wp (returnE (c, health)) Q R) R w1"
      unfolding sv wp_return
      by (rule wp_view_keep [OF ListProviderConnections_state i1]) (use v1 in \<open>auto intro: Q R\<close>)
  qed (rule R)
qed

lemma attempted_iff: "attempted attempts c \<longleftrightarrow> c \<in> pa_ProviderConnectionID ` set attempts"
proof -
  have "fold (\<lambda>attempt excluded. excluded(pa_ProviderConnectionID attempt := True)) attempts ex c \<longleftrightarrow>
      ex c \<or> c \<in> pa_ProviderConnectionID ` set attempts" for ex
    by (induction attempts arbitrary: ex) auto
  then show ?thesis by (simp add: attempted_def)
qed

lemma wp_executeRouting:
  assumes ok: "service_ok repo view sv" and I: "INV sv w" and W: "routing nx (V w) p as intent" and fs: "failed_safe as"
  shows "wp (executeRouting sv intent env) (\<lambda>(q, err) w'. no_collision sv w' \<longrightarrow> returned sv (pi_ID intent) q err w')
      (\<lambda>_ w'. no_collision sv w' \<longrightarrow> INV sv w') w"
proof -
  have sv: "sv_repo sv = repo" using ok by (simp add: service_ok_def)
  show ?thesis
    unfolding executeRouting_def wp_bind sv
  proof (rule wp_view_keep [OF ListProviderConnections_state I])
    fix cs w1 assume i1: "INV sv w1" and v1: "V w1 = V w"
    show "wp (refreshHealth sv intent env cs)
         (\<lambda>x. wp (case x of (connections, health) \<Rightarrow> bindE (run_store (ListAttempts repo (pi_ID intent)))
               (\<lambda>attempts. routeLoop sv env connections health intent attempts (attempted attempts)))
               (\<lambda>(q, err) w'. no_collision sv w' \<longrightarrow> returned sv (pi_ID intent) q err w')
      (\<lambda>_ w'. no_collision sv w' \<longrightarrow> INV sv w')) (\<lambda>_ w'. no_collision sv w' \<longrightarrow> INV sv w') w1"
    proof (rule wp_refreshHealth [OF ok i1])
      fix x :: "ProviderConnection list \<times> HealthMap" and w2
      assume i2: "INV sv w2" and v2: "V w2 = V w1"
      obtain connections health where x: "x = (connections, health)" by (cases x)
      show "wp (case x of (connections, health) \<Rightarrow> bindE (run_store (ListAttempts repo (pi_ID intent)))
               (\<lambda>attempts. routeLoop sv env connections health intent attempts (attempted attempts)))
               (\<lambda>(q, err) w'. no_collision sv w' \<longrightarrow> returned sv (pi_ID intent) q err w')
      (\<lambda>_ w'. no_collision sv w' \<longrightarrow> INV sv w') w2"
        unfolding x prod.case wp_bind
      proof (rule wp_read)
        fix attempts s' assume *: "ListAttempts repo (pi_ID intent) (w_store w2) = (Inr attempts, s')"
          and v3: "view s' = V w2"
        let ?w = "w2\<lparr>w_store := s'\<rparr>"
        have "listed (V w2) (pi_ID intent)"
          using i2 by (intro list_ok_listed invD(2)) (simp add: world_inv_def)
        then have as: "map (abs_att nx) attempts = as"
          using ListAttempts_value [OF *] W v1 v2 by (simp add: routing_def working_def)
        show "wp (routeLoop sv env connections health intent attempts (attempted attempts))
            (\<lambda>(q, err) w'. no_collision sv w' \<longrightarrow> returned sv (pi_ID intent) q err w')
      (\<lambda>_ w'. no_collision sv w' \<longrightarrow> INV sv w') ?w"
          by (rule wp_routeLoop [OF ok, of _ p])
            (use INV_view [OF i2 v3] W v1 v2 v3 fs as in \<open>auto simp: attempted_iff\<close>)
      qed (use INV_view [OF i2] ListAttempts_state in \<open>auto\<close>)
    qed simp
  qed simp
qed

lemma wp_routeNew:
  assumes ok: "service_ok repo view sv" and I: "INV sv w" and W: "working nx (V w) (abs_pay nx q) [] q"
  shows "wp (routeNew sv env q)
    (\<lambda>(q, err) w'. no_collision sv w' \<longrightarrow> INV sv w' \<and> (err = None \<longrightarrow> stored q w'))
    (\<lambda>_ w'. no_collision sv w' \<longrightarrow> INV sv w') w"
proof -
  have sv: "sv_repo sv = repo" using ok by (simp add: service_ok_def)
  have W': "working nx (V (step_tick w)) (abs_pay nx q) [] q" using W by simp
  let ?q = "q\<lparr>pi_Status := PaymentStatusRouting, pi_UpdatedAt := sv_clock sv (w_tick w)\<rparr>"
  show ?thesis
    unfolding routeNew_def Let_def wp_bind wp_Now
  proof (rule wp_savePayment [OF sv world_inv_tick [OF I] W'])
    fix w2 assume i2: "INV sv w2" and wk2: "working nx (V w2) (abs_pay nx ?q) [] ?q"
    have "routing nx (V w2) (abs_pay nx ?q) [] ?q" using wk2 by (simp add: routing_def)
    from wp_executeRouting [OF ok i2 this]
    show "wp (executeRouting sv ?q env)
        (\<lambda>(q, err) w'. no_collision sv w' \<longrightarrow> INV sv w' \<and> (err = None \<longrightarrow> stored q w'))
        (\<lambda>_ w'. no_collision sv w' \<longrightarrow> INV sv w') w2"
      by (rule wp_weaken) (auto simp: returned_def failed_safe_def)
  qed (use W in \<open>auto simp: working_def same_payment_def unpaid_def status_ok_def\<close>)
qed

lemma wp_createOrReplay:
  assumes ok: "service_ok repo view sv" and I: "INV sv w" and new: "v_pay (V w) (pi_ID p) = None"
    and m: "minted (sv_ids sv) (w_tick w) (pi_ID p)"
    and p: "pi_Status p = PaymentStatusCreated" "\<not> pi_Recovered p" "pi_RecoveredAmount p = 0" "pi_PaidAt p = None"
  shows "wp (createOrReplay sv env p)
    (\<lambda>(q, err) w'. no_collision sv w' \<longrightarrow> INV sv w' \<and> (err = None \<longrightarrow> stored q w'))
    (\<lambda>_ w'. no_collision sv w' \<longrightarrow> INV sv w') w"
proof -
  have sv: "sv_repo sv = repo" using ok by (simp add: service_ok_def)
  have I0: "inv (sv_maxAttempts sv) (sv_ids sv) ikey (w_tick w) (V w) (w_calls w)" using I by (simp add: world_inv_def)
  let ?k = "ikey (pi_WorkspaceID p) (pi_IdempotencyKey p)"
  show ?thesis
    unfolding createOrReplay_def wp_bind sv
  proof (rule wp_run_store)
    fix r s' assume *: "GetOrCreatePayment repo p (w_store w) = (Inr r, s')"
    obtain q created where r: "r = (q, created)" by (cases r)
    let ?w' = "w\<lparr>w_store := s'\<rparr>"
    show "wp (case r of (st, created) \<Rightarrow> if \<not> created then returnE (st, None) else routeNew sv env st)
        (\<lambda>(q, err) w'. no_collision sv w' \<longrightarrow> INV sv w' \<and> (err = None \<longrightarrow> stored q w'))
        (\<lambda>_ w'. no_collision sv w' \<longrightarrow> INV sv w') ?w'"
    proof (cases "v_idem (V w) ?k")
      case (Some x)
      obtain pid fp where x: "x = (pid, fp)" by (cases x)
      obtain p0 where "v_pay (V w) pid = Some p0" "ikey (ap_Workspace p0) (ap_Key p0) = ?k"
        using invD(7) [OF I0] Some [unfolded x] by (fastforce simp: idem_ok_def)
      then have old: "\<not> created" "v_pay (V w) pid = Some (abs_pay nx q)" "view s' = V w"
        using GetOrCreate_old [OF *[unfolded r] Some [unfolded x]] by auto
      have "pid = pi_ID q" using invD(1) [OF I0] old(2) by (fastforce simp: ids_ok_def)
      then show ?thesis using old INV_view [OF I, of s'] by (simp add: r wp_return stored_def)
    next
      case None
      have c: created and q: "abs_pay nx q = abs_pay nx p" and v': "view s' = add_pay ?k (abs_pay nx p) (V w)"
        using GetOrCreate_new [OF *[unfolded r] new None] by auto
      have "inv (sv_maxAttempts sv) (sv_ids sv) ikey (w_tick w) (view s') (w_calls w)"
        unfolding v' by (rule inv_add_pay [OF I0]) (use new m None p in simp_all)
      then have i: "INV sv ?w'" by (simp add: world_inv_def)
      have qp: "pi_ID q = pi_ID p" "pi_Status q = PaymentStatusCreated" "\<not> pi_Recovered q" "pi_RecoveredAmount q = 0"
          "pi_PaidAt q = None"
        using q p abs_pay_simps(1,6,10,11,12) [of nx q] abs_pay_simps(1,6,10,11,12) [of nx p] by simp_all
      have none: "atts (V w) (pi_ID p) = []" using list_ok_no_pay [OF invD(2) [OF I0] new] by simp
      have wk: "working nx (V ?w') (abs_pay nx q) [] q"
        using qp none by (simp add: working_def v' q [symmetric] same_payment_def unpaid_def)
      show ?thesis using wp_routeNew [OF ok i wk] c by (simp add: r)
    qed
  next
    fix e s' assume "GetOrCreatePayment repo p (w_store w) = (Inl e, s')"
    then have "view s' = V w" by (rule GetOrCreate_error)
    then show "no_collision sv (w\<lparr>w_store := s'\<rparr>) \<longrightarrow> INV sv (w\<lparr>w_store := s'\<rparr>)" using INV_view [OF I] by simp
  qed
qed

lemma wp_CreatePayment:
  assumes ok: "service_ok repo view sv" and I: "INV sv w"
  shows "wp (CreatePayment sv req)
    (\<lambda>(q, err) w'. no_collision sv w' \<longrightarrow> INV sv w' \<and> (err = None \<longrightarrow> stored q w'))
    (\<lambda>_ w'. no_collision sv w' \<longrightarrow> INV sv w') w"
proof (cases "requestFingerprint req")
  case (Inl e)
  then show ?thesis using I by (simp add: CreatePayment_def wp_simps)
next
  case (Inr fp)
  define p where "p = newIntent req fp (sv_clock sv (w_tick w)) (sv_ids sv (Suc (w_tick w)) ''pi'')"
  let ?w = "step_tick (step_tick w)"
  have I0: "inv (sv_maxAttempts sv) (sv_ids sv) ikey (w_tick w) (V w) (w_calls w)" using I by (simp add: world_inv_def)
  have "wp (createOrReplay sv (cr_Environment req) p)
    (\<lambda>(q, err) w'. no_collision sv w' \<longrightarrow> INV sv w' \<and> (err = None \<longrightarrow> stored q w'))
    (\<lambda>_ w'. no_collision sv w' \<longrightarrow> INV sv w') ?w"
  proof (cases "no_collision sv ?w")
    case False
    then show ?thesis by (intro wp_collision [OF ticks.along_createOrReplay]) auto
  next
    case True
    show ?thesis
    proof (rule wp_createOrReplay [OF ok])
      show "v_pay (V ?w) (pi_ID p) = None"
        using fresh_pay [OF I0, of "Suc (w_tick w)"] True by (simp add: p_def newIntent_def no_collision_def)
      show "minted (sv_ids sv) (w_tick ?w) (pi_ID p)"
        unfolding minted_def by (intro exI [of _ "Suc (w_tick w)"]) (auto simp: p_def newIntent_def)
    qed (use I in \<open>simp_all add: p_def newIntent_def\<close>)
  qed
  then show ?thesis by (simp add: CreatePayment_def wp_bind wp_lift Inr wp_env p_def)
qed

end

end
