(* ===== verification/Settlement.thy ===== *)
theory Settlement
  imports Service
begin

text \<open>
  The invariant for the rest of the service: reconciling an unknown attempt
  (\<open>ReconcilePayment\<close>), marking a payment paid (\<open>MarkPaidWithOutbox\<close>) and provider webhooks
  (\<open>ProcessProviderWebhook\<close>), over any repository.
\<close>

lemma failedBefore_eq:
  assumes seq: "map pa_Sequence xs = map int [1..<Suc (length xs)]" and ne: "xs \<noteq> []"
    and a: "pa_Sequence a = int (length xs)"
    and fs: "\<forall>b\<in>set (butlast xs). pa_Status b = AttemptStatusFailedSafe"
  shows "failedBefore a xs = (case xs of f # _ # _ \<Rightarrow> Some f | _ \<Rightarrow> None)"
proof (cases xs)
  case (Cons f ys)
  have s1: "pa_Sequence f = 1" using seq Cons by (simp add: upt_conv_Cons del: upt_Suc)
  show ?thesis
  proof (cases ys)
    case Nil
    then show ?thesis using Cons s1 a by (simp add: failedBefore_def)
  next
    case (Cons g zs)
    then show ?thesis using \<open>xs = f # ys\<close> s1 a fs by (simp add: failedBefore_def)
  qed
qed (use ne in simp)

context repository
begin

lemma INV_D: "INV sv w \<Longrightarrow> inv (sv_maxAttempts sv) (sv_ids sv) ikey (w_tick w) (V w) (w_calls w)"
  by (simp add: world_inv_def)

lemma INV_pay_id: "INV sv w \<Longrightarrow> v_pay (V w) i = Some p \<Longrightarrow> ap_ID p = i"
  using invD(1) [OF INV_D] by (fastforce simp: ids_ok_def)

lemma INV_att_id: "INV sv w \<Longrightarrow> v_att (V w) i = Some a \<Longrightarrow> aa_ID a = i"
  using invD(1) [OF INV_D] by (fastforce simp: ids_ok_def)

lemma last_att_stored:
  assumes I: "INV sv w" and ne: "atts (V w) pid \<noteq> []"
  shows "v_att (V w) (aa_ID (last (atts (V w) pid))) = Some (last (atts (V w) pid))"
    and "aa_Payment (last (atts (V w) pid)) = pid"
proof -
  have ids: "v_attIDs (V w) pid \<noteq> []" using ne by simp
  then have "last (v_attIDs (V w) pid) \<in> set (v_attIDs (V w) pid)" by simp
  then obtain a where a: "v_att (V w) (last (v_attIDs (V w) pid)) = Some a" "aa_Payment a = pid"
    using list_ok_att [OF invD(2) [OF INV_D [OF I]]] by blast
  then have "last (atts (V w) pid) = a" using last_atts [OF ids] by simp
  then show "v_att (V w) (aa_ID (last (atts (V w) pid))) = Some (last (atts (V w) pid))"
    "aa_Payment (last (atts (V w) pid)) = pid" using a INV_att_id [OF I a(1)] by auto
qed

lemma stored_unpaid:
  assumes "INV sv w" and "v_pay (V w) i = Some (abs_pay nx q)" and "pi_Status q \<noteq> PaymentStatusPaid"
  shows "unpaid q"
  using invD(5) [OF INV_D [OF assms(1)] assms(2)] assms(3) by (auto simp: rec_ok_def unpaid_def)

lemma wp_get:
  assumes "\<And>s. view (snd (m s)) = view s" and "INV sv w"
    and "\<And>x s'. m (w_store w) = (Inr x, s') \<Longrightarrow> INV sv (w\<lparr>w_store := s'\<rparr>) \<Longrightarrow> view s' = V w \<Longrightarrow> Q x (w\<lparr>w_store := s'\<rparr>)"
    and "\<And>e s'. INV sv (w\<lparr>w_store := s'\<rparr>) \<Longrightarrow> view s' = V w \<Longrightarrow> R e (w\<lparr>w_store := s'\<rparr>)"
  shows "wp (run_store m) Q R w"
  by (rule wp_read) (use assms INV_view [OF assms(2)] in simp_all)

lemma wp_applyReconcileOutcome:
  assumes ok: "service_ok repo view sv" and I: "INV sv w" and W: "working nx (V w) (abs_pay nx intent) (as @ [abs_att nx attempt]) intent"
    and st: "pi_Status intent = PaymentStatusReconciling" "pi_ActiveAttemptID intent = pa_ID attempt"
      "pa_Status attempt = AttemptStatusUnknown" "pa_PaymentIntentID attempt = pi_ID intent"
    and cl: "ro_Kind outcome = ReconcileNotCreated \<Longrightarrow> cleared (w_calls w) (pa_ID attempt)"
  shows "wp (applyReconcileOutcome sv intent attempt outcome now env)
    (\<lambda>(q, err) w'. no_collision sv w' \<longrightarrow> returned sv (pi_ID intent) q err w')
    (\<lambda>_ w'. no_collision sv w' \<longrightarrow> INV sv w') w"
proof -
  have sv: "sv_repo sv = repo" using ok by (simp add: service_ok_def)
  have up: "unpaid intent" using W by (simp add: working_def)
  have fs: "failed_safe as"
    using invD(2) [OF INV_D [OF I], of "pi_ID intent"] W by (simp add: list_ok_def working_def failed_safe_def)
  note settle = wp_settle [OF sv I W]
  have unknown: "wp (bindE (saveAttempt sv (attempt\<lparr>pa_ReconciliationStatus := ''still_unknown'', pa_UpdatedAt := now\<rparr>))
      (\<lambda>_. returnE (intent, None))) (\<lambda>(q, err) w'. no_collision sv w' \<longrightarrow> returned sv (pi_ID intent) q err w')
    (\<lambda>_ w'. no_collision sv w' \<longrightarrow> INV sv w') w"
    unfolding wp_bind
  proof (rule wp_saveAttempt [OF sv I W])
    fix w' assume "INV sv w'"
      "working nx (V w') (abs_pay nx intent) (as @ [abs_att nx (attempt\<lparr>pa_ReconciliationStatus := ''still_unknown'',
         pa_UpdatedAt := now\<rparr>)]) intent"
    then show "wp (returnE (intent, None)) (\<lambda>(q, err) w'. no_collision sv w' \<longrightarrow> returned sv (pi_ID intent) q err w')
    (\<lambda>_ w'. no_collision sv w' \<longrightarrow> INV sv w') w'"
      by (auto simp: wp_return returned_def dest: working_stored)
  qed (use st in \<open>simp_all add: same_attempt_def status_ok_def\<close>)
  show ?thesis
  proof (cases "ro_Kind outcome")
    case ReconcileNotCreated
    let ?a = "attempt\<lparr>pa_Status := AttemptStatusFailedSafe, pa_ReconciliationStatus := ''not_created'',
             pa_FailureCode := ro_FailureCode outcome, pa_UpdatedAt := now\<rparr>"
    let ?q = "intent\<lparr>pi_Status := PaymentStatusRouting, pi_FailureCode := [], pi_UpdatedAt := now\<rparr>"
    show ?thesis
      unfolding applyReconcileOutcome_def ReconcileNotCreated Let_def ReconcileOutcomeKind.case wp_bind
    proof (rule wp_saveAttempt [OF sv I W])
      fix w1 assume i1: "INV sv w1" and wk1: "working nx (V w1) (abs_pay nx intent) (as @ [abs_att nx ?a]) intent"
      show "wp (savePayment sv ?q) (\<lambda>x. wp (executeRouting sv ?q env)
          (\<lambda>(q, err) w'. no_collision sv w' \<longrightarrow> returned sv (pi_ID intent) q err w')
    (\<lambda>_ w'. no_collision sv w' \<longrightarrow> INV sv w')) (\<lambda>_ w'. no_collision sv w' \<longrightarrow> INV sv w') w1"
      proof (rule wp_savePayment [OF sv i1 wk1])
        fix w2 assume i2: "INV sv w2" and "working nx (V w2) (abs_pay nx ?q) (as @ [abs_att nx ?a]) ?q"
        then have r2: "routing nx (V w2) (abs_pay nx ?q) (as @ [abs_att nx ?a]) ?q" by (simp add: routing_def)
        have "failed_safe (as @ [abs_att nx ?a])" using fs by (auto simp: failed_safe_def)
        from wp_executeRouting [OF ok i2 r2 this]
        show "wp (executeRouting sv ?q env) (\<lambda>(q, err) w'. no_collision sv w' \<longrightarrow> returned sv (pi_ID intent) q err w')
    (\<lambda>_ w'. no_collision sv w' \<longrightarrow> INV sv w') w2" by simp
      qed (use up in \<open>auto simp: same_payment_def unpaid_def status_ok_def\<close>)
    qed (use st cl ReconcileNotCreated in \<open>simp_all add: same_attempt_def status_ok_def\<close>)
  next
    case ReconcileCreated
    show ?thesis unfolding applyReconcileOutcome_def ReconcileCreated Let_def ReconcileOutcomeKind.case
      by (rule settle)
        (use st up in \<open>auto simp: same_attempt_def same_payment_def unpaid_def status_ok_def settled_def returned_def
          dest: working_stored\<close>)
  next
    case ReconcileTerminal
    show ?thesis unfolding applyReconcileOutcome_def ReconcileTerminal Let_def ReconcileOutcomeKind.case
      by (rule settle)
        (use st up in \<open>auto simp: same_attempt_def same_payment_def unpaid_def status_ok_def returned_def
          dest: working_stored\<close>)
  qed (use unknown in \<open>simp_all add: applyReconcileOutcome_def Let_def\<close>)
qed

lemma wp_reconcileWith:
  assumes ok: "service_ok repo view sv" and i1: "INV sv w1" and p: "v_pay (V w1) pid = Some (abs_pay nx intent)" "pi_Status intent = PaymentStatusReconciling"
      and a: "v_att (V w1) (pi_ActiveAttemptID intent) = Some (abs_att nx attempt)" "pa_Status attempt = AttemptStatusUnknown"
      and c: "pc_ID conn = pa_ProviderConnectionID attempt"
  shows "wp (bindE (Resolve sv conn) (\<lambda>adapter. bindE (callReconcile conn adapter \<lparr>rq_PaymentIntentID = pi_ID intent,
        rq_AttemptID = pa_ID attempt, rq_ProviderPaymentID = pa_ProviderPaymentID attempt\<rparr>) (\<lambda>outcome.
        bindE (Now sv) (\<lambda>now. applyReconcileOutcome sv intent attempt outcome now env)))) (\<lambda>(q, err) w'. no_collision sv w' \<longrightarrow> INV sv w' \<and> (err = None \<longrightarrow> stored q w')) (\<lambda>_ w'. no_collision sv w' \<longrightarrow> INV sv w') w1"
proof -
  let ?Q = "\<lambda>(q, err) w'. no_collision sv w' \<longrightarrow> INV sv w' \<and> (err = None \<longrightarrow> stored q w')"
  have id: "pi_ID intent = pid" using INV_pay_id [OF i1 p(1)] by simp
  let ?as = "atts (V w1) pid"
  have ne: "?as \<noteq> []" and act: "pi_ActiveAttemptID intent = aa_ID (last ?as)"
    using invD(4) [OF INV_D [OF i1] p(1)] p(2) by (auto simp: status_ok_def)
  have la: "last ?as = abs_att nx attempt" using last_att_stored(1) [OF i1 ne] a(1) act by simp
  have pay: "pa_PaymentIntentID attempt = pid" using last_att_stored(2) [OF i1 ne] la by simp
  have split: "?as = butlast ?as @ [abs_att nx attempt]" using append_butlast_last_id [OF ne] la by simp
  have actID: "pi_ActiveAttemptID intent = pa_ID attempt" using act la by simp
  have up: "unpaid intent" by (rule stored_unpaid [OF i1 p(1)]) (simp add: p)
  have wk: "working nx (V w1) (abs_pay nx intent) (butlast ?as @ [abs_att nx attempt]) intent"
    using p id up split by (simp add: working_def same_payment_def)
  show ?thesis
  proof (cases "rg_Resolve (sv_providers sv) (w_tick w1) conn")
    case (Inl e)
    then show ?thesis using i1 by (simp add: wp_bind wp_env)
  next
    case (Inr adapter)
    define req where "req = \<lparr>rq_PaymentIntentID = pi_ID intent, rq_AttemptID = pa_ID attempt,
      rq_ProviderPaymentID = pa_ProviderPaymentID attempt\<rparr>"
    define out where "out = cn_Reconcile adapter (Suc (w_tick w1)) req"
    let ?w = "step_tick ((step_tick (step_tick w1))\<lparr>w_calls := CallReconcile conn req out # w_calls w1\<rparr>)"
    have "inv (sv_maxAttempts sv) (sv_ids sv) ikey (w_tick w1) (V w1) (CallReconcile conn req out # w_calls w1)"
      by (rule inv_call_reconcile [OF INV_D [OF i1], of _ "abs_att nx attempt"])
        (use a c pay id actID in \<open>simp_all add: req_def\<close>)
    then have i2: "INV sv ?w" by (simp add: world_inv_def inv_tick)
    have "wp (applyReconcileOutcome sv intent attempt out t env)
        (\<lambda>(q, err) w'. no_collision sv w' \<longrightarrow> returned sv (pi_ID intent) q err w')
    (\<lambda>_ w'. no_collision sv w' \<longrightarrow> INV sv w') ?w" for t
      by (rule wp_applyReconcileOutcome [OF ok i2, of _ "butlast ?as"])
        (use wk p a pay id actID in \<open>simp_all add: cleared_def req_def\<close>)
    then have "wp (applyReconcileOutcome sv intent attempt out t env) ?Q (\<lambda>_ w'. no_collision sv w' \<longrightarrow> INV sv w') ?w" for t
      by (rule wp_weaken) (auto simp: returned_def)
    then show ?thesis by (simp add: wp_bind wp_env Inr req_def [symmetric] out_def [symmetric])
  qed
qed

lemma wp_ReconcilePayment:
  assumes ok: "service_ok repo view sv" and I: "INV sv w"
  shows "wp (ReconcilePayment sv pid env) (\<lambda>(q, err) w'. no_collision sv w' \<longrightarrow> INV sv w' \<and> (err = None \<longrightarrow> stored q w')) (\<lambda>_ w'. no_collision sv w' \<longrightarrow> INV sv w') w"
proof -
  have sv: "sv_repo sv = repo" using ok by (simp add: service_ok_def)
  let ?Q = "\<lambda>(q, err) w'. no_collision sv w' \<longrightarrow> INV sv w' \<and> (err = None \<longrightarrow> stored q w')"
  show ?thesis
    unfolding ReconcilePayment_def wp_bind sv
  proof (rule wp_get [OF GetPayment_state I])
    fix intent s1
    let ?w1 = "w\<lparr>w_store := s1\<rparr>"
    assume g: "GetPayment repo pid (w_store w) = (Inr intent, s1)" and i1: "INV sv ?w1" and v1: "view s1 = V w"
    have p: "v_pay (V ?w1) pid = Some (abs_pay nx intent)" using GetPayment_value [OF g] v1 by simp
    show "wp (if pi_Status intent \<noteq> PaymentStatusReconciling then throwE ErrInvalidTransition
       else bindE (run_store (GetAttempt repo (pi_ActiveAttemptID intent))) (\<lambda>attempt.
        if pa_Status attempt \<noteq> AttemptStatusUnknown then throwE ErrInvalidTransition
        else bindE (run_store (ListProviderConnections repo (pi_WorkspaceID intent))) (\<lambda>connections.
        case find (\<lambda>c. pc_ID c = pa_ProviderConnectionID attempt) connections of
          None \<Rightarrow> throwE ErrNotFound
        | Some conn \<Rightarrow> bindE (Resolve sv conn) (\<lambda>adapter.
         bindE (callReconcile conn adapter \<lparr>rq_PaymentIntentID = pi_ID intent, rq_AttemptID = pa_ID attempt,
           rq_ProviderPaymentID = pa_ProviderPaymentID attempt\<rparr>) (\<lambda>outcome.
         bindE (Now sv) (\<lambda>now. applyReconcileOutcome sv intent attempt outcome now env)))))) ?Q (\<lambda>_ w'. no_collision sv w' \<longrightarrow> INV sv w') ?w1"
    proof (cases "pi_Status intent = PaymentStatusReconciling")
      case False
      then show ?thesis using i1 by (simp add: wp_throw)
    next
      case True
      show ?thesis
        unfolding True wp_bind simp_thms if_False
      proof (rule wp_get [OF GetAttempt_state i1])
        fix attempt s2
        let ?w2 = "?w1\<lparr>w_store := s2\<rparr>"
        assume g2: "GetAttempt repo (pi_ActiveAttemptID intent) (w_store ?w1) = (Inr attempt, s2)"
          and i2: "INV sv ?w2" and v2: "view s2 = V ?w1"
        have a: "v_att (V ?w1) (pi_ActiveAttemptID intent) = Some (abs_att nx attempt)" by (rule GetAttempt_value [OF g2])
        show "wp (if pa_Status attempt \<noteq> AttemptStatusUnknown then throwE ErrInvalidTransition
        else bindE (run_store (ListProviderConnections repo (pi_WorkspaceID intent))) (\<lambda>connections.
        case find (\<lambda>c. pc_ID c = pa_ProviderConnectionID attempt) connections of
          None \<Rightarrow> throwE ErrNotFound
        | Some conn \<Rightarrow> bindE (Resolve sv conn) (\<lambda>adapter.
         bindE (callReconcile conn adapter \<lparr>rq_PaymentIntentID = pi_ID intent, rq_AttemptID = pa_ID attempt,
           rq_ProviderPaymentID = pa_ProviderPaymentID attempt\<rparr>) (\<lambda>outcome.
         bindE (Now sv) (\<lambda>now. applyReconcileOutcome sv intent attempt outcome now env))))) ?Q (\<lambda>_ w'. no_collision sv w' \<longrightarrow> INV sv w') ?w2"
        proof (cases "pa_Status attempt = AttemptStatusUnknown")
          case False
          then show ?thesis using i2 by (simp add: wp_throw)
        next
          case unk: True
          show ?thesis
            unfolding unk wp_bind [of "run_store (ListProviderConnections repo (pi_WorkspaceID intent))"] simp_thms if_False
          proof (rule wp_view_keep [OF ListProviderConnections_state i2])
            fix cs w3 assume i3: "INV sv w3" and v3: "V w3 = V ?w2"
            show "wp (case find (\<lambda>c. pc_ID c = pa_ProviderConnectionID attempt) cs of
                None \<Rightarrow> throwE ErrNotFound
              | Some conn \<Rightarrow> bindE (Resolve sv conn) (\<lambda>adapter.
               bindE (callReconcile conn adapter \<lparr>rq_PaymentIntentID = pi_ID intent, rq_AttemptID = pa_ID attempt,
                 rq_ProviderPaymentID = pa_ProviderPaymentID attempt\<rparr>) (\<lambda>outcome.
               bindE (Now sv) (\<lambda>now. applyReconcileOutcome sv intent attempt outcome now env)))) ?Q (\<lambda>_ w'. no_collision sv w' \<longrightarrow> INV sv w') w3"
            proof (cases "find (\<lambda>c. pc_ID c = pa_ProviderConnectionID attempt) cs")
              case None
              then show ?thesis using i3 by (simp add: wp_throw)
            next
              case (Some conn)
              then have "pc_ID conn = pa_ProviderConnectionID attempt" by (auto dest: find_Some_iff2)
              then show ?thesis
                unfolding Some option.case using wp_reconcileWith [OF ok i3, of pid intent attempt conn] p a True unk v1 v2 v3 by simp
            qed
          qed simp
        qed
      qed simp
    qed
  qed simp
qed

lemma wp_newMerchantEvent:
  assumes I: "INV sv w"
    and Q: "\<And>e w'. INV sv w' \<Longrightarrow> V w' = V w \<Longrightarrow> abs_evt e = \<lparr>ae_Key = key, ae_Type = ty, ae_Payment = pi_ID q\<rparr> \<Longrightarrow>
      me_WorkspaceID e = pi_WorkspaceID q \<Longrightarrow> Q e w'"
    and R: "\<And>e w'. INV sv w' \<Longrightarrow> V w' = V w \<Longrightarrow> R e w'"
  shows "wp (newMerchantEvent sv q ty key t) Q R w"
  unfolding newMerchantEvent_def wp_bind wp_NewID
  using Q [of "step_tick w"] R [of "step_tick w"] I
  by (auto simp: wp_return wp_throw abs_evt_def split: option.split)

lemma wp_paymentMerchantEvents:
  assumes I: "INV sv w" and paid: "pi_Status q = PaymentStatusPaid"
    and Q: "\<And>es w'. INV sv w' \<Longrightarrow> V w' = V w \<Longrightarrow> map abs_evt es = events_of (abs_pay nx q) \<Longrightarrow>
      list_all (\<lambda>e. me_WorkspaceID e = pi_WorkspaceID q) es \<Longrightarrow> Q es w'"
    and R: "\<And>e w'. INV sv w' \<Longrightarrow> R e w'"
  shows "wp (paymentMerchantEvents sv q t) Q R w"
  unfolding paymentMerchantEvents_def wp_bind
proof (rule wp_newMerchantEvent [OF I])
  fix e1 w1 assume i1: "INV sv w1" and v1: "V w1 = V w"
    and e1: "abs_evt e1 = \<lparr>ae_Key = ''payment.paid:'' @ pi_ID q, ae_Type = ''payment.paid'', ae_Payment = pi_ID q\<rparr>"
      "me_WorkspaceID e1 = pi_WorkspaceID q"
  show "wp (if pi_Recovered q then bindE (newMerchantEvent sv q ''payment.recovered'' (''payment.recovered:'' @ pi_ID q) t)
      (\<lambda>recovered. returnE [e1, recovered]) else returnE [e1]) Q R w1"
  proof (cases "pi_Recovered q")
    case False
    then show ?thesis using Q [OF i1 v1, of "[e1]"] e1 paid by (simp add: wp_return events_of_def paid_event_def)
  next
    case True
    show ?thesis
    proof (simp only: True if_True wp_bind, rule wp_newMerchantEvent [OF i1])
      fix e2 w2 assume "INV sv w2" "V w2 = V w1"
        "abs_evt e2 = \<lparr>ae_Key = ''payment.recovered:'' @ pi_ID q, ae_Type = ''payment.recovered'', ae_Payment = pi_ID q\<rparr>"
        "me_WorkspaceID e2 = pi_WorkspaceID q"
      then show "wp (returnE [e1, e2]) Q R w2"
        using Q [of w2 "[e1, e2]"] e1 paid True v1
        by (simp add: wp_return events_of_def paid_event_def recovered_event_def)
    qed (rule R)
  qed
qed (rule R)

lemma failedBefore_stored:
  assumes I: "INV sv w" and xs: "map (abs_att nx) xs = atts (V w) pid" and ne: "xs \<noteq> []"
    and a: "abs_att nx a = last (atts (V w) pid)"
  shows "failedBefore a xs = (case xs of f # _ # _ \<Rightarrow> Some f | _ \<Rightarrow> None)"
proof (rule failedBefore_eq [OF _ ne])
  note L = invD(2) [OF INV_D [OF I], of pid]
  have "map aa_Sequence (map (abs_att nx) xs) = map int [1..<Suc (length (map (abs_att nx) xs))]"
    unfolding xs using L by (simp only: list_ok_def)
  then show s: "map pa_Sequence xs = map int [1..<Suc (length xs)]" by (simp add: comp_def del: upt_Suc)
  have "aa_Sequence (last (map (abs_att nx) xs)) = pa_Sequence (last xs)" using ne by (simp add: last_map)
  then have "pa_Sequence a = pa_Sequence (last xs)" using a xs by (metis abs_att_simps(4))
  also have "\<dots> = last (map pa_Sequence xs)" using ne by (simp add: last_map)
  also have "\<dots> = int (length xs)" unfolding s using ne by (simp add: last_map Suc_le_eq)
  finally show "pa_Sequence a = int (length xs)" .
  have "\<forall>b\<in>set (butlast (map (abs_att nx) xs)). aa_Status b = AttemptStatusFailedSafe"
    unfolding xs using L by (simp add: list_ok_def)
  then show "\<forall>b\<in>set (butlast xs). pa_Status b = AttemptStatusFailedSafe" by (simp add: map_butlast [symmetric])
qed

lemma wp_MarkPaid_finish:
  assumes ok: "service_ok repo view sv" and I: "INV sv w"
    and p: "v_pay (V w) (pi_ID intent) = Some (abs_pay nx intent)" "pi_Status intent = PaymentStatusAwaitingPayment"
    and q: "same_payment (abs_pay nx q) (abs_pay nx intent)" "pi_Status q = PaymentStatusPaid" "pi_PaidAt q \<noteq> None"
      "pi_PresentedAttemptID q = pi_PresentedAttemptID intent" "pi_Pix q = pi_Pix intent"
    and r: "(case r of None \<Rightarrow> [] | Some r' \<Rightarrow> [abs_rec r']) = recovery_for (atts (V w) (pi_ID intent)) (abs_pay nx q)"
      "\<And>r'. r = Some r' \<Longrightarrow> re_PaymentIntentID r' = pi_ID intent" "pi_Recovered q \<longleftrightarrow> r \<noteq> None"
      "pi_RecoveredAmount q = (if r \<noteq> None then pi_Amount q else 0)"
  shows "wp (bindE (paymentMerchantEvents sv q t) (\<lambda>events.
      bindE (run_store (MarkPaymentPaidWithEvents repo q r events)) (\<lambda>_. returnE q)))
    (\<lambda>x w'. INV sv w' \<and> stored x w' \<and> pi_Status x = PaymentStatusPaid) (\<lambda>_. INV sv) w"
  unfolding wp_bind
proof (rule wp_paymentMerchantEvents [OF I q(2)])
  fix es w1 assume i1: "INV sv w1" and v1: "V w1 = V w" and es: "map abs_evt es = events_of (abs_pay nx q)"
    "list_all (\<lambda>e. me_WorkspaceID e = pi_WorkspaceID q) es"
  have id: "pi_ID q = pi_ID intent" using q(1) by (simp add: same_payment_def)
  show "wp (run_store (MarkPaymentPaidWithEvents repo q r es)) (\<lambda>_. wp (returnE q)
      (\<lambda>x w'. INV sv w' \<and> stored x w' \<and> pi_Status x = PaymentStatusPaid) (\<lambda>_. INV sv)) (\<lambda>_. INV sv) w1"
  proof (rule wp_run_store)
    fix u s' assume *: "MarkPaymentPaidWithEvents repo q r es (w_store w1) = (Inr u, s')"
    have p1: "v_pay (V w1) (pi_ID q) = Some (abs_pay nx intent)" using p(1) id v1 by simp
    have v': "view s' = put_paid (abs_pay nx q) r es (V w1)" by (rule MarkPaid_value [OF * p1 q(1)])
    have "settled (atts (V w) (pi_ID intent)) (abs_pay nx intent)"
      using invD(4) [OF INV_D [OF I] p(1)] p(2) by (simp add: status_ok_def)
    then have se: "settled (atts (V w) (pi_ID intent)) (abs_pay nx q)" using q by (simp add: settled_def)
    have "inv (sv_maxAttempts sv) (sv_ids sv) ikey (w_tick w1) (put_paid (abs_pay nx q) r es (V w1)) (w_calls w1)"
      by (rule inv_put_paid [OF INV_D [OF i1], of _ "abs_pay nx intent"])
        (use p p1 q r es se id v1 in \<open>simp_all\<close>)
    then have "INV sv (w1\<lparr>w_store := s'\<rparr>)" using v' by (simp add: world_inv_def)
    moreover have "v_pay (view s') (pi_ID q) = Some (abs_pay nx q)"
      unfolding v' by (auto simp: put_paid_def put_rec_def split: option.split)
    ultimately show "wp (returnE q) (\<lambda>x w'. INV sv w' \<and> stored x w' \<and> pi_Status x = PaymentStatusPaid)
        (\<lambda>_. INV sv) (w1\<lparr>w_store := s'\<rparr>)"
      using q(2) by (simp add: wp_return stored_def)
  next
    fix e s' assume "MarkPaymentPaidWithEvents repo q r es (w_store w1) = (Inl e, s')"
    then have "view s' = V w1" by (rule MarkPaid_error)
    then show "INV sv (w1\<lparr>w_store := s'\<rparr>)" by (rule INV_view [OF i1])
  qed
qed

lemma wp_recoverAndMark:
  assumes ok: "service_ok repo view sv" and i1: "INV sv w1" and p: "v_pay (V w1) (pi_ID intent) = Some (abs_pay nx intent)"
        "pi_Status intent = PaymentStatusAwaitingPayment"
      and a: "v_att (V w1) (pi_PresentedAttemptID intent) = Some (abs_att nx attempt)"
      and xs: "map (abs_att nx) attempts = atts (V w1) (pi_ID intent)"
      and pd: "paid = intent\<lparr>pi_Status := PaymentStatusPaid, pi_PaidAt := Some t, pi_UpdatedAt := t\<rparr>"
  shows "wp (bindE (case failedBefore attempt attempts of None \<Rightarrow> returnE (paid, None)
       | Some failed \<Rightarrow> bindE (NewID sv ''re'') (\<lambda>rid. returnE (paid\<lparr>pi_Recovered := True,
           pi_RecoveredAmount := pi_Amount paid\<rparr>, Some (newRecovery rid paid failed attempt t))))
      (\<lambda>(x, recovery). bindE (paymentMerchantEvents sv x t) (\<lambda>events.
     bindE (run_store (MarkPaymentPaidWithEvents repo x recovery events)) (\<lambda>_. returnE x)))) (\<lambda>x w'. INV sv w' \<and> stored x w' \<and> pi_Status x = PaymentStatusPaid) (\<lambda>_. INV sv) w1"
proof -
  let ?as = "atts (V w1) (pi_ID intent)"
  have up: "unpaid intent" by (rule stored_unpaid [OF i1 p(1)]) (simp add: p)
  have se: "settled ?as (abs_pay nx intent)" using invD(4) [OF INV_D [OF i1] p(1)] p(2) by (simp add: status_ok_def)
  then have ne: "?as \<noteq> []" by (simp add: settled_def)
  have la: "abs_att nx attempt = last ?as" using last_att_stored(1) [OF i1 ne] a se by (simp add: settled_def)
  have ids: "pa_ID attempt = pi_PresentedAttemptID intent" using INV_att_id [OF i1 a] by simp
  have xne: "attempts \<noteq> []" using xs ne by (metis list.map_disc_iff)
  note fb = failedBefore_stored [OF i1 xs xne la]
  show ?thesis
  proof (cases "\<exists>f g zs. attempts = f # g # zs")
    case False
    then have none: "failedBefore attempt attempts = None" and "length attempts = 1"
      using fb xne by (auto split: list.splits simp: neq_Nil_conv)
    then have "recovery_for ?as (abs_pay nx paid) = []"
      unfolding xs [symmetric] by (cases attempts) (auto simp: recovery_for_def)
    then show ?thesis
      unfolding none option.case bindE_return prod.case
      by (intro wp_MarkPaid_finish [OF ok i1 p]) (use up in \<open>auto simp: pd same_payment_def unpaid_def\<close>)
  next
    case True
    then obtain f g zs where at: "attempts = f # g # zs" by blast
    have some: "failedBefore attempt attempts = Some f" using fb at by simp
    let ?x = "paid\<lparr>pi_Recovered := True, pi_RecoveredAmount := pi_Amount paid\<rparr>"
    have rf: "[abs_rec (newRecovery rid paid f attempt t)] = recovery_for ?as (abs_pay nx ?x)" for rid
      unfolding xs [symmetric] at using ids by (simp add: recovery_for_def abs_rec_def newRecovery_def pd)
    have i2: "INV sv (step_tick w1)" using i1 by simp
    show ?thesis
      unfolding some option.case bindE_assoc
      unfolding wp_bind [of "NewID sv ''re''"] wp_NewID bindE_return prod.case
      by (intro wp_MarkPaid_finish [OF ok i2, of intent])
        (use p rf up in \<open>auto simp: pd same_payment_def unpaid_def newRecovery_def cong del: if_weak_cong\<close>)
  qed
qed

lemma wp_MarkPaidWithOutbox:
  assumes ok: "service_ok repo view sv" and I: "INV sv w"
  shows "wp (MarkPaidWithOutbox sv pid aid) (\<lambda>x w'. INV sv w' \<and> stored x w' \<and> pi_Status x = PaymentStatusPaid)
    (\<lambda>_. INV sv) w"
proof -
  have sv: "sv_repo sv = repo" using ok by (simp add: service_ok_def)
  let ?Q = "\<lambda>x w'. INV sv w' \<and> stored x w' \<and> pi_Status x = PaymentStatusPaid"
  show ?thesis
    unfolding MarkPaidWithOutbox_def sv wp_bind [of "run_store (GetPayment repo pid)"]
  proof (rule wp_get [OF GetPayment_state I])
    fix intent s1
    let ?w1 = "w\<lparr>w_store := s1\<rparr>"
    assume g: "GetPayment repo pid (w_store w) = (Inr intent, s1)" and i1: "INV sv ?w1" and v1: "view s1 = V w"
    have p0: "v_pay (V ?w1) pid = Some (abs_pay nx intent)" using GetPayment_value [OF g] v1 by simp
    have id: "pi_ID intent = pid" using INV_pay_id [OF i1 p0] by simp
    have p: "v_pay (V ?w1) (pi_ID intent) = Some (abs_pay nx intent)" using p0 id by simp
    let ?rest = "bindE (run_store (GetAttempt repo aid)) (\<lambda>attempt.
     if pa_Status attempt \<noteq> AttemptStatusSucceeded then throwE ErrInvalidTransition
     else bindE (Now sv) (\<lambda>now.
     let intent = intent\<lparr>pi_Status := PaymentStatusPaid, pi_PaidAt := Some now, pi_UpdatedAt := now\<rparr> in
     bindE (run_store (ListAttempts repo (pi_ID intent))) (\<lambda>attempts.
     bindE (case failedBefore attempt attempts of
         None \<Rightarrow> returnE (intent, None)
       | Some failed \<Rightarrow>
           bindE (NewID sv ''re'') (\<lambda>rid.
           returnE (intent\<lparr>pi_Recovered := True, pi_RecoveredAmount := pi_Amount intent\<rparr>,
                    Some (newRecovery rid intent failed attempt now)))) (\<lambda>(intent, recovery).
     bindE (paymentMerchantEvents sv intent now) (\<lambda>events.
     bindE (run_store (MarkPaymentPaidWithEvents repo intent recovery events)) (\<lambda>_.
     returnE intent))))))"
    have rest: "wp ?rest ?Q (\<lambda>_. INV sv) ?w1"
      if st: "pi_Status intent = PaymentStatusAwaitingPayment" and pr: "pi_PresentedAttemptID intent = aid"
      unfolding wp_bind [of "run_store (GetAttempt repo aid)"]
    proof (rule wp_get [OF GetAttempt_state i1])
      fix attempt s2
      let ?w2 = "?w1\<lparr>w_store := s2\<rparr>"
      assume ga: "GetAttempt repo aid (w_store ?w1) = (Inr attempt, s2)" and i2: "INV sv ?w2" and v2: "view s2 = V ?w1"
      have a: "v_att (V ?w1) (pi_PresentedAttemptID intent) = Some (abs_att nx attempt)"
        using GetAttempt_value [OF ga] pr by simp
      let ?t = "sv_clock sv (w_tick ?w2)"
      let ?paid = "intent\<lparr>pi_Status := PaymentStatusPaid, pi_PaidAt := Some ?t, pi_UpdatedAt := ?t\<rparr>"
      have "wp (run_store (ListAttempts repo (pi_ID ?paid))) (\<lambda>attempts. wp (bindE (case failedBefore attempt attempts of None \<Rightarrow> returnE (?paid, None)
       | Some failed \<Rightarrow> bindE (NewID sv ''re'') (\<lambda>rid. returnE (?paid\<lparr>pi_Recovered := True,
           pi_RecoveredAmount := pi_Amount ?paid\<rparr>, Some (newRecovery rid ?paid failed attempt ?t))))
      (\<lambda>(x, recovery). bindE (paymentMerchantEvents sv x ?t) (\<lambda>events.
     bindE (run_store (MarkPaymentPaidWithEvents repo x recovery events)) (\<lambda>_. returnE x)))) ?Q (\<lambda>_. INV sv)) (\<lambda>_. INV sv) (step_tick ?w2)"
      proof (rule wp_get [OF ListAttempts_state world_inv_tick [OF i2]])
        fix attempts s3
        let ?w3 = "(step_tick ?w2)\<lparr>w_store := s3\<rparr>"
        assume gl: "ListAttempts repo (pi_ID ?paid) (w_store (step_tick ?w2)) = (Inr attempts, s3)" and i3: "INV sv ?w3"
          and v3: "view s3 = V (step_tick ?w2)"
        have "listed (V ?w2) (pi_ID intent)" by (rule list_ok_listed [OF invD(2) [OF INV_D [OF i2]]])
        then have xs: "map (abs_att nx) attempts = atts (V ?w3) (pi_ID intent)"
          using ListAttempts_value [OF gl] v3 by simp
        show "wp (bindE (case failedBefore attempt attempts of None \<Rightarrow> returnE (?paid, None)
       | Some failed \<Rightarrow> bindE (NewID sv ''re'') (\<lambda>rid. returnE (?paid\<lparr>pi_Recovered := True,
           pi_RecoveredAmount := pi_Amount ?paid\<rparr>, Some (newRecovery rid ?paid failed attempt ?t))))
      (\<lambda>(x, recovery). bindE (paymentMerchantEvents sv x ?t) (\<lambda>events.
     bindE (run_store (MarkPaymentPaidWithEvents repo x recovery events)) (\<lambda>_. returnE x)))) ?Q (\<lambda>_. INV sv) ?w3"
          by (rule wp_recoverAndMark [OF ok i3, of intent]) (use p a st v2 v3 xs in simp_all)
      qed
      then show "wp (if pa_Status attempt \<noteq> AttemptStatusSucceeded then throwE ErrInvalidTransition
     else bindE (Now sv) (\<lambda>now.
     let intent = intent\<lparr>pi_Status := PaymentStatusPaid, pi_PaidAt := Some now, pi_UpdatedAt := now\<rparr> in
     bindE (run_store (ListAttempts repo (pi_ID intent))) (\<lambda>attempts.
     bindE (case failedBefore attempt attempts of
         None \<Rightarrow> returnE (intent, None)
       | Some failed \<Rightarrow>
           bindE (NewID sv ''re'') (\<lambda>rid.
           returnE (intent\<lparr>pi_Recovered := True, pi_RecoveredAmount := pi_Amount intent\<rparr>,
                    Some (newRecovery rid intent failed attempt now)))) (\<lambda>(intent, recovery).
     bindE (paymentMerchantEvents sv intent now) (\<lambda>events.
     bindE (run_store (MarkPaymentPaidWithEvents repo intent recovery events)) (\<lambda>_.
     returnE intent)))))) ?Q (\<lambda>_. INV sv) ?w2"
        unfolding Let_def wp_bind [of "Now sv"] if_distrib [of "\<lambda>m. wp m Q R x" for Q R x] wp_throw wp_Now
          wp_bind [of "run_store (ListAttempts repo i)" for i] using i2 by (simp only: if_True if_False simp_thms split: if_split)
    qed
    show "wp (if pi_Status intent = PaymentStatusPaid then returnE intent
     else if pi_Status intent \<noteq> PaymentStatusAwaitingPayment \<or> pi_PresentedAttemptID intent \<noteq> aid
     then throwE ErrInvalidTransition else ?rest) ?Q (\<lambda>_. INV sv) ?w1"
      using rest i1 p by (simp add: wp_return wp_throw stored_def)
  qed
qed

end

end
