(* ===== verification/Reachable.thy ===== *)
theory Reachable
  imports Settlement
begin

text \<open>
  Runs of the service.  \<open>service_step\<close> is one call of a method of the service by the HTTP layer
  or by an operator, with any argument; \<open>reachable\<close> is its closure from an initial world.  The
  invariant holds in every world reached without a collision of ids (\<open>reachable_INV\<close>); over
  the in-memory store, started empty, this gives the safety properties of the specification
  (INV-001 to INV-010) as theorems about any run.

  \<open>administer\<close> and \<open>clock\<close> are what the rest of the program does to the store and to the tick.
  \<open>Service.MarkPaid\<close>, which no component calls, is not a step: it settles a payment without the
  outbox.
\<close>

section \<open>Webhooks\<close>

context repository
begin

lemma wp_settleWebhook:
  assumes ok: "service_ok repo view sv" and I: "INV sv w"
  shows "wp (settleWebhook sv conn request event) (\<lambda>x w'. INV sv w' \<and> stored x w' \<and> pi_Status x = PaymentStatusPaid)
    (\<lambda>_. INV sv) w"
proof -
  have sv: "sv_repo sv = repo" using ok by (simp add: service_ok_def)
  have I2: "INV sv (step_tick (step_tick w))" using I by simp
  show ?thesis
    unfolding settleWebhook_def sv wp_bind wp_Now wp_NewID wp_return
  proof (rule wp_view_keep [OF RecordProviderEvent_state I2], rule wp_view_keep [OF ByProviderPaymentID_state],
      assumption, rule wp_weaken [OF wp_MarkPaidWithOutbox [OF ok]], assumption)
    fix x w3 assume x: "INV sv w3 \<and> stored x w3 \<and> pi_Status x = PaymentStatusPaid"
    then have i3: "INV sv (step_tick w3)" by simp
    show "wp (run_store (MarkProviderEventProcessed repo conn (we_ExternalEventID event) (sv_clock sv (w_tick w3))))
        (\<lambda>_ w'. INV sv w' \<and> stored x w' \<and> pi_Status x = PaymentStatusPaid) (\<lambda>_. INV sv) (step_tick w3)"
      by (rule wp_view_keep [OF MarkProviderEventProcessed_state i3]) (use x in \<open>auto simp: stored_def\<close>)
  qed
qed

lemma wp_ProcessProviderWebhook:
  assumes ok: "service_ok repo view sv" and I: "INV sv w"
  shows "wp (ProcessProviderWebhook sv conn request) (\<lambda>x w'. INV sv w' \<and> stored x w' \<and> pi_Status x = PaymentStatusPaid)
    (\<lambda>_. INV sv) w"
proof -
  have sv: "sv_repo sv = repo" using ok by (simp add: service_ok_def)
  have tick: "INV sv w' \<Longrightarrow> INV sv (step_tick w')" for w' by simp
  show ?thesis
    unfolding ProcessProviderWebhook_def sv wp_bind
    by (rule wp_view_keep [OF GetProviderConnection_state I])
      (auto simp: wp_Resolve wp_throw wp_bind callParseWebhook_def wp_def [of "callParseWebhook p r" for p r]
        split: sum.split option.split intro!: tick wp_settleWebhook [OF ok])
qed

text \<open>Queries only read: the view, the log and the tick stay.\<close>

lemma wp_look:
  assumes "\<And>s. view (snd (m s)) = view s"
    and "\<And>x s'. m (w_store w) = (Inr x, s') \<Longrightarrow> view s' = V w \<Longrightarrow> Q x (w\<lparr>w_store := s'\<rparr>)"
    and "\<And>e s'. view s' = V w \<Longrightarrow> R e (w\<lparr>w_store := s'\<rparr>)"
  shows "wp (run_store m) Q R w"
  by (rule wp_read) (use assms in simp_all)

lemma wp_queryPayment:
  assumes sv: "sv_repo sv = repo"
    and Q: "\<And>q w'. V w' = V w \<Longrightarrow> w_calls w' = w_calls w \<Longrightarrow> w_tick w' = w_tick w \<Longrightarrow>
      v_pay (V w) pid = Some (abs_pay nx q) \<Longrightarrow> pi_WorkspaceID q = ws \<Longrightarrow> Q q w'"
    and R: "\<And>e w'. V w' = V w \<Longrightarrow> w_calls w' = w_calls w \<Longrightarrow> w_tick w' = w_tick w \<Longrightarrow> R e w'"
  shows "wp (queryPayment sv ws env pid) Q R w"
  unfolding queryPayment_def sv wp_bind
proof (rule wp_look [OF GetPayment_state])
  fix q s1 assume g: "GetPayment repo pid (w_store w) = (Inr q, s1)" and v1: "view s1 = V w"
  have p: "v_pay (V w) pid = Some (abs_pay nx q)" by (rule GetPayment_value [OF g])
  let ?w = "w\<lparr>w_store := s1\<rparr>"
  have "wp (run_store (GetPaymentEnvironment repo pid)) (\<lambda>e. wp (if e \<noteq> env then throwE ErrNotFound else returnE q) Q R) R ?w"
    if "pi_WorkspaceID q = ws"
    by (rule wp_look [OF GetPaymentEnvironment_state]) (use that v1 p Q R in \<open>auto simp: wp_throw wp_return\<close>)
  then show "wp (if pi_WorkspaceID q \<noteq> ws then throwE ErrNotFound else bindE (run_store (GetPaymentEnvironment repo pid))
      (\<lambda>e. if e \<noteq> env then throwE ErrNotFound else returnE q)) Q R ?w"
    using v1 R by (simp add: wp_throw wp_bind)
qed (use R in simp)

lemma wp_ListPaymentAttempts:
  assumes sv: "sv_repo sv = repo" and I: "INV sv w"
  shows "wp (ListPaymentAttempts sv ws env pid) (\<lambda>xs w'. INV sv w' \<and> map (abs_att nx) xs = atts (V w) pid)
    (\<lambda>_. INV sv) w"
  unfolding ListPaymentAttempts_def wp_bind sv
proof (rule wp_queryPayment [OF sv])
  fix q w1 assume v1: "V w1 = V w" "w_calls w1 = w_calls w" "w_tick w1 = w_tick w"
  have i1: "INV sv w1" using I v1 by (simp add: world_inv_def)
  have "listed (V w1) pid" by (rule list_ok_listed [OF invD(2) [OF INV_D [OF i1]]])
  then show "wp (run_store (ListAttempts repo pid)) (\<lambda>xs w'. INV sv w' \<and> map (abs_att nx) xs = atts (V w) pid)
      (\<lambda>_. INV sv) w1"
    by (intro wp_get [OF ListAttempts_state i1]) (use v1 in \<open>auto dest: ListAttempts_value\<close>)
qed (use I in \<open>simp add: world_inv_def\<close>)

end

section \<open>Runs\<close>

inductive service_step :: "'s Service \<Rightarrow> ('s \<Rightarrow> 's \<Rightarrow> bool) \<Rightarrow> 's world \<Rightarrow> 's world \<Rightarrow> bool"
  for sv :: "'s Service" and admin :: "'s \<Rightarrow> 's \<Rightarrow> bool" where
  create: "service_step sv admin w (snd (CreatePayment sv req w))"
| reconcile: "service_step sv admin w (snd (ReconcilePayment sv pid env w))"
| mark_paid: "service_step sv admin w (snd (MarkPaidWithOutbox sv pid aid w))"
| webhook: "service_step sv admin w (snd (ProcessProviderWebhook sv conn request w))"
| get_payment: "service_step sv admin w (snd (queryPayment sv ws env pid w))"
| list_attempts: "service_step sv admin w (snd (ListPaymentAttempts sv ws env pid w))"
| administer: "admin (w_store w) s' \<Longrightarrow> service_step sv admin w (w\<lparr>w_store := s'\<rparr>)"
| clock: "service_step sv admin w (step_tick w)"

inductive_cases service_stepE: "service_step sv admin w w'"

inductive reachable :: "'s Service \<Rightarrow> ('s \<Rightarrow> 's \<Rightarrow> bool) \<Rightarrow> 's world \<Rightarrow> 's world \<Rightarrow> bool"
  for sv :: "'s Service" and admin :: "'s \<Rightarrow> 's \<Rightarrow> bool" and w0 :: "'s world" where
  start: "reachable sv admin w0 w0"
| step: "reachable sv admin w0 w \<Longrightarrow> service_step sv admin w w' \<Longrightarrow> reachable sv admin w0 w'"

text \<open>A relation that the operations and the rest of the program respect, the runs do.\<close>

context service_relation
begin

lemma along_step:
  assumes "service_step sv admin w w'" and "\<And>s'. admin (w_store w) s' \<Longrightarrow> R w (w\<lparr>w_store := s'\<rparr>)"
  shows "R w w'"
  using assms(1) by (cases rule: service_step.cases) (auto intro: alongD along_intros tick assms(2))

lemma along_reachable:
  assumes "reachable sv admin w0 w" and "\<And>w s'. admin (w_store w) s' \<Longrightarrow> R w (w\<lparr>w_store := s'\<rparr>)"
  shows "R w0 w"
  using assms(1)
proof induction
  case (step w w')
  then show ?case using trans along_step assms(2) by blast
qed (rule refl)

end

lemma service_step_tick: "service_step sv admin w w' \<Longrightarrow> w_tick w \<le> w_tick w'"
  by (erule ticks.along_step) simp

context repository
begin

lemma service_step_INV:
  assumes ok: "service_ok repo view sv" and adm: "\<And>s s'. admin s s' \<Longrightarrow> view s' = view s"
    and I: "INV sv w" and st: "service_step sv admin w w'" and nc: "no_collision sv w'"
  shows "INV sv w'"
  using st
proof (cases rule: service_step.cases)
  case (create req)
  then show ?thesis using wp_CreatePayment [OF ok I, of req] nc by (auto simp: wp_def split: prod.splits sum.splits)
next
  case (reconcile pid env)
  then show ?thesis using wp_ReconcilePayment [OF ok I, of pid env] nc by (auto simp: wp_def split: prod.splits sum.splits)
next
  case (mark_paid pid aid)
  then show ?thesis using wp_MarkPaidWithOutbox [OF ok I, of pid aid] by (auto simp: wp_def split: prod.splits sum.splits)
next
  case (webhook conn request)
  then show ?thesis using wp_ProcessProviderWebhook [OF ok I, of conn request] by (auto simp: wp_def split: prod.splits sum.splits)
next
  case (get_payment ws env pid)
  have "wp (queryPayment sv ws env pid) (\<lambda>_. INV sv) (\<lambda>_. INV sv) w"
    by (rule wp_queryPayment) (use ok I in \<open>auto simp: world_inv_def service_ok_def\<close>)
  then show ?thesis using get_payment wp_state by metis
next
  case (list_attempts ws env pid)
  have "sv_repo sv = repo" using ok by (simp add: service_ok_def)
  from wp_ListPaymentAttempts [OF this I, of ws env pid] list_attempts show ?thesis
    by (auto simp: wp_def split: prod.splits sum.splits)
next
  case (administer s')
  then show ?thesis using adm INV_view [OF I] by simp
next
  case clock
  then show ?thesis using I by simp
qed

theorem reachable_INV:
  assumes ok: "service_ok repo view sv" and adm: "\<And>s s'. admin s s' \<Longrightarrow> view s' = view s"
    and I: "INV sv w0" and r: "reachable sv admin w0 w" and nc: "no_collision sv w"
  shows "INV sv w"
  using r nc
proof induction
  case start
  show ?case by (rule I)
next
  case (step w w')
  have "no_collision sv w"
    using step.prems service_step_tick [OF step.hyps(2)] unique_ids_mono unfolding no_collision_def by blast
  with step show ?case using service_step_INV [OF ok adm] by blast
qed

end

end
