(* ===== verification/Guarantees.thy ===== *)
theory Guarantees
  imports Reachable
begin

text \<open>
  What the service promises over the in-memory store: the properties below hold in every world
  that a run of the service reaches (\<open>mem_run\<close>), whatever the providers answer, whatever the
  clock reads, for any generator whose ids have not collided so far.  They are the facts of the
  interpretation \<open>mem\<close>, written out over the store.  The last section gives the behaviour of
  single calls: replay, conflict, guards.
\<close>

definition mem_admin :: "MemStore \<Rightarrow> MemStore \<Rightarrow> bool" where
  "mem_admin s s' \<longleftrightarrow> (\<exists>conn. s' = AddProviderConnection conn s)"

definition mem_start :: "nat \<Rightarrow> MemStore world" where
  "mem_start n = \<lparr>w_store = New, w_tick = n, w_calls = []\<rparr>"

definition mem_run :: "(string list \<Rightarrow> string list) \<Rightarrow> MemStore Service \<Rightarrow> MemStore world \<Rightarrow> bool" where
  "mem_run perm sv w \<longleftrightarrow> sv_repo sv = mem_repository perm \<and> sv_telemetry sv = None \<and>
     (\<exists>n. reachable sv mem_admin (mem_start n) w) \<and> no_collision sv w"

lemma mem_view_admin: "mem_admin s s' \<Longrightarrow> mem_view s' = mem_view s"
  by (auto simp: mem_admin_def mem_view_def AddProviderConnection_def)

lemma mem_start_inv: "inv mx ids ikey n (mem_view New) []"
  by (rule invI)
    (auto simp: mem_view_def New_def ids_ok_def list_ok_def atts_def idem_ok_def evt_ok_def trace_ok_def)

lemma mem_run_ok: "mem_run perm sv w \<Longrightarrow> service_ok (mem_repository perm) mem_view sv"
  by (simp add: mem_run_def service_ok_def)

lemma mem_run_INV: "mem_run perm sv w \<Longrightarrow> world_inv mem_view join_key sv w"
proof -
  assume run: "mem_run perm sv w"
  then obtain n where "reachable sv mem_admin (mem_start n) w" "no_collision sv w" by (auto simp: mem_run_def)
  moreover have "world_inv mem_view join_key sv (mem_start n)" by (simp add: world_inv_def mem_start_def mem_start_inv)
  ultimately show ?thesis using mem.reachable_INV [OF mem_run_ok [OF run] mem_view_admin] by blast
qed

lemma mem_run_inv:
  "mem_run perm sv w \<Longrightarrow> inv (sv_maxAttempts sv) (sv_ids sv) join_key (w_tick w) (mem_view (w_store w)) (w_calls w)"
  using mem_run_INV by (simp add: world_inv_def)

lemma mem_view_pay: "v_pay (mem_view s) pid = map_option (abs_pay id) (ms_payments s pid)"
  by (simp add: mem_view_def)

lemma mem_view_att: "v_att (mem_view s) aid = map_option (abs_att id) (map_of (ms_attempts s) aid)"
  by (simp add: mem_view_def)

section \<open>A run for the witnesses\<close>

text \<open>
  Two connections of a fake provider: \<open>a\<close> fails safely, \<open>b\<close> creates the charge.  The ids are the
  prefix behind a unary counter, which never repeats.
\<close>

definition demo_pix :: Pix where
  "demo_pix = \<lparr>px_CopyPaste = ''copy'', px_ExpiresAt = 900\<rparr>"

definition demo_connector :: "CreateOutcomeKind \<Rightarrow> Connector" where
  "demo_connector kind = \<lparr>
     cn_Manifest = \<lparr>mf_Key = ''fake'', mf_DisplayName = ''Fake'', mf_Version = ''1'',
       mf_Capabilities = [CapabilityPixCreate], mf_CredentialTypes = []\<rparr>,
     cn_CreatePix = (\<lambda>n req. \<lparr>co_Kind = kind, co_ProviderPaymentID = ''pp'' @ cq_AttemptID req,
       co_Pix = (if kind = CreateSucceeded then Some demo_pix else None), co_FailureCode = ''timeout''\<rparr>),
     cn_Reconcile = (\<lambda>n req. \<lparr>ro_Kind = ReconcileNotCreated, ro_ProviderPaymentID = [], ro_Pix = None,
       ro_FailureCode = ''not_found''\<rparr>),
     cn_ParseWebhook = Some (\<lambda>n req. Inr \<lparr>we_ExternalEventID = ''e1'', we_Type = ''payment.paid'',
       we_ProviderPaymentID = wr_Body req\<rparr>)\<rparr>"

definition demo_registry :: Registry where
  "demo_registry = \<lparr>
     rg_Resolve = (\<lambda>n conn. Inr (demo_connector (if pc_ID conn = ''a'' then CreateFailedSafe else CreateSucceeded))),
     rg_Manifest = (\<lambda>key. Some (cn_Manifest (demo_connector CreateSucceeded)))\<rparr>"

definition demo_ids :: "nat \<Rightarrow> string \<Rightarrow> string" where
  "demo_ids n prefix = replicate n CHR ''1'' @ CHR ''_'' # prefix"

definition demo_service :: "MemStore Service" where
  "demo_service = NewService (\<lambda>n. int n) (\<lambda>n. []) \<lparr>op_Repository = mem_repository id, op_Providers = demo_registry,
     op_RoutingTelemetry = None, op_Clock = None, op_IDs = Some demo_ids, op_MaxAttempts = 0\<rparr>"

definition demo_request :: CreatePaymentRequest where
  "demo_request = \<lparr>cr_WorkspaceID = ''ws'', cr_IdempotencyKey = ''k'', cr_MerchantOrderID = ''o'',
     cr_Amount = 1000, cr_Currency = ''BRL'', cr_Metadata = None, cr_Environment = EnvironmentTest\<rparr>"

definition demo_configured :: "MemStore world" where
  "demo_configured = \<lparr>w_store = AddProviderConnection (demo_connection ''b'' 2 CircuitClosed)
     (AddProviderConnection (demo_connection ''a'' 1 CircuitClosed) New), w_tick = 0, w_calls = []\<rparr>"

definition demo_created :: "MemStore world" where
  "demo_created = snd (CreatePayment demo_service demo_request demo_configured)"

definition demo_paid :: "MemStore world" where
  "demo_paid = snd (ProcessProviderWebhook demo_service ''b''
     \<lparr>wr_Headers = [], wr_Body = ''pp'' @ demo_ids 11 ''pa''\<rparr> demo_created)"

lemma demo_ids_unique: "unique_ids demo_ids n"
proof -
  have "takeWhile (\<lambda>c. c = CHR ''1'') (demo_ids k p) = replicate k CHR ''1''" for k p
    by (induction k) (simp_all add: demo_ids_def)
  then show ?thesis unfolding unique_ids_def by (metis length_replicate)
qed

lemma demo_service_simps [simp]:
  "sv_repo demo_service = mem_repository id" "sv_telemetry demo_service = None" "sv_ids demo_service = demo_ids"
  "sv_maxAttempts demo_service = 3"
  by (simp_all add: demo_service_def NewService_def)

lemma demo_no_collision: "no_collision demo_service w"
  by (simp add: no_collision_def demo_ids_unique)

lemma demo_configured_reachable: "reachable demo_service mem_admin (mem_start 0) demo_configured"
proof -
  let ?a = "AddProviderConnection (demo_connection ''a'' 1 CircuitClosed) New"
  have "mem_admin New ?a" "mem_admin ?a (w_store demo_configured)"
    by (auto simp: mem_admin_def demo_configured_def)
  then have "service_step demo_service mem_admin (mem_start 0) ((mem_start 0)\<lparr>w_store := ?a\<rparr>)"
    and "service_step demo_service mem_admin ((mem_start 0)\<lparr>w_store := ?a\<rparr>) demo_configured"
    using service_step.administer [of mem_admin "mem_start 0" ?a demo_service]
      service_step.administer [of mem_admin "(mem_start 0)\<lparr>w_store := ?a\<rparr>" "w_store demo_configured" demo_service]
    by (simp_all add: mem_start_def demo_configured_def)
  then show ?thesis by (blast intro: reachable.intros)
qed

lemma demo_created_reachable: "reachable demo_service mem_admin (mem_start 0) demo_created"
  unfolding demo_created_def by (rule reachable.step [OF demo_configured_reachable service_step.create])

lemma demo_paid_reachable: "reachable demo_service mem_admin (mem_start 0) demo_paid"
  unfolding demo_paid_def by (rule reachable.step [OF demo_created_reachable service_step.webhook])

lemma demo_runs: "mem_run id demo_service demo_configured" "mem_run id demo_service demo_created"
    "mem_run id demo_service demo_paid"
  using demo_configured_reachable demo_created_reachable demo_paid_reachable demo_no_collision
  by (auto simp: mem_run_def)

definition demo_fp :: string where
  "demo_fp = (case requestFingerprint demo_request of Inr fp \<Rightarrow> fp | Inl _ \<Rightarrow> [])"

lemma demo_fp: "requestFingerprint demo_request = Inr demo_fp"
  by (simp add: demo_fp_def requestFingerprint_def demo_request_def json_string_map_def split: option.split)

lemma length_fingerprint: "requestFingerprint req = Inr fp \<Longrightarrow> length fp = 64"
  by (auto simp: requestFingerprint_def split: option.splits)

lemma demo_fp_other: "''other'' \<noteq> demo_fp"
proof
  assume "''other'' = demo_fp"
  then have "length ''other'' = 64" using length_fingerprint [OF demo_fp] by (simp only:)
  then show False by simp
qed

text \<open>A store that binds the key of \<open>demo_request\<close> to a stored payment with fingerprint \<open>fp\<close>.\<close>

definition demo_bound :: "string \<Rightarrow> MemStore world" where
  "demo_bound fp = \<lparr>w_store = snd (mem_GetOrCreatePayment (newIntent demo_request fp 5 ''pi_1'') New), w_tick = 7, w_calls = []\<rparr>"

section \<open>Safety of runs\<close>

text \<open>
  C1.  No double charge (INV-003, AC-006, AC-007): in the log of provider calls of any run, a Pix
  creation is requested only after every earlier creation of the same payment has been cleared by
  its provider, as a safe failure or as a reconciliation that found no charge.
\<close>

theorem no_double_charge:
  assumes "mem_run perm sv w"
  shows "safe_trace (w_calls w)"
  using invD(9) [OF mem_run_inv [OF assms]] by (simp add: trace_ok_def)

theorem no_double_charge_witness: "safe_trace (w_calls demo_paid)"
  by (rule no_double_charge [OF demo_runs(3)])

text \<open>
  C24.  Every request sent to a provider concerns a stored attempt of a stored payment, goes to the
  connection that attempt was routed to, and charges exactly the amount of the payment.
\<close>

theorem calls_match_payment:
  assumes "mem_run perm sv w"
  shows "list_all (\<lambda>call. case call of
      CallCreate conn req out \<Rightarrow>
        map_option (\<lambda>a. (pa_PaymentIntentID a, pa_ProviderConnectionID a)) (map_of (ms_attempts (w_store w)) (cq_AttemptID req))
          = Some (cq_PaymentIntentID req, pc_ID conn) \<and>
        map_option pi_Amount (ms_payments (w_store w) (cq_PaymentIntentID req)) = Some (cq_Amount req)
    | CallReconcile conn req out \<Rightarrow>
        map_option (\<lambda>a. (pa_PaymentIntentID a, pa_ProviderConnectionID a)) (map_of (ms_attempts (w_store w)) (rq_AttemptID req))
          = Some (rq_PaymentIntentID req, pc_ID conn)) (w_calls w)"
  using invD(9) [OF mem_run_inv [OF assms]]
  by (fastforce simp: trace_ok_def call_ok_def list_all_iff mem_view_pay mem_view_att split: ProviderCall.splits)

theorem calls_match_payment_witness:
  "list_all (\<lambda>call. case call of
      CallCreate conn req out \<Rightarrow>
        map_option (\<lambda>a. (pa_PaymentIntentID a, pa_ProviderConnectionID a)) (map_of (ms_attempts (w_store demo_paid)) (cq_AttemptID req))
          = Some (cq_PaymentIntentID req, pc_ID conn) \<and>
        map_option pi_Amount (ms_payments (w_store demo_paid) (cq_PaymentIntentID req)) = Some (cq_Amount req)
    | CallReconcile conn req out \<Rightarrow>
        map_option (\<lambda>a. (pa_PaymentIntentID a, pa_ProviderConnectionID a)) (map_of (ms_attempts (w_store demo_paid)) (rq_AttemptID req))
          = Some (rq_PaymentIntentID req, pc_ID conn)) (w_calls demo_paid)"
  by (rule calls_match_payment [OF demo_runs(3)])

lemma safe_trace_distinct: "safe_trace calls \<Longrightarrow> distinct (creates_for pid calls)"
  by (induction pid calls rule: creates_for.induct) (auto simp: list_all_iff)

lemma creates_attempts:
  assumes I: "inv mx ids ikey n v calls"
  shows "set (creates_for pid calls) \<subseteq> set (v_attIDs v pid)"
proof
  fix aid assume "aid \<in> set (creates_for pid calls)"
  then obtain conn req out where "CallCreate conn req out \<in> set calls" "cq_PaymentIntentID req = pid" "cq_AttemptID req = aid"
    using creates_for_mem by blast
  then show "aid \<in> set (v_attIDs v pid)"
    using invD(9) [OF I] list_ok_mem [OF I, of aid pid] by (fastforce simp: trace_ok_def call_ok_def)
qed

text \<open>
  C23.  The fallback budget bounds the charges: over the whole life of a payment, reconciliations
  included, at most \<open>MaxAttempts\<close> Pix creations are requested for it, each for another attempt.
\<close>

theorem creations_bounded:
  assumes "mem_run perm sv w"
  shows "distinct (creates_for pid (w_calls w)) \<and> int (length (creates_for pid (w_calls w))) \<le> max 0 (sv_maxAttempts sv)"
proof -
  note I = mem_run_inv [OF assms]
  have d: "distinct (creates_for pid (w_calls w))" using invD(9) [OF I] by (simp add: trace_ok_def safe_trace_distinct)
  have "length (creates_for pid (w_calls w)) \<le> length (v_attIDs (mem_view (w_store w)) pid)"
    using card_mono [OF finite_set creates_attempts [OF I, of pid]] d
      card_length [of "v_attIDs (mem_view (w_store w)) pid"] by (simp add: distinct_card)
  then show ?thesis using d invD(3) [OF I, of pid] by simp
qed

theorem creations_bounded_witness:
  "distinct (creates_for (demo_ids 1 ''pi'') (w_calls demo_paid)) \<and>
   int (length (creates_for (demo_ids 1 ''pi'') (w_calls demo_paid))) \<le> max 0 (sv_maxAttempts demo_service)"
  by (rule creations_bounded [OF demo_runs(3)])

lemma mem_atts: "atts (mem_view s) pid = map (\<lambda>i. the (map_option (abs_att id) (map_of (ms_attempts s) i))) (ms_attemptsByPay s pid)"
  by (simp add: atts_def mem_view_def)

text \<open>
  C22.  The attempts of a payment (INV-004): numbered 1, 2, \<dots> in their order, on pairwise different
  connections, never more than \<open>MaxAttempts\<close>; all but the last have failed safely.
\<close>

theorem attempts_sequence:
  assumes "mem_run perm sv w"
  shows "map aa_Sequence (atts (mem_view (w_store w)) pid) = map int [1..<Suc (length (ms_attemptsByPay (w_store w) pid))] \<and>
    distinct (map aa_Connection (atts (mem_view (w_store w)) pid)) \<and>
    int (length (ms_attemptsByPay (w_store w) pid)) \<le> max 0 (sv_maxAttempts sv) \<and>
    list_all (\<lambda>a. aa_Status a = AttemptStatusFailedSafe) (butlast (atts (mem_view (w_store w)) pid))"
proof -
  note I = mem_run_inv [OF assms]
  have "v_attIDs (mem_view (w_store w)) pid = ms_attemptsByPay (w_store w) pid" by (simp add: mem_view_def)
  then show ?thesis using invD(2,3) [OF I, of pid] by (simp add: list_ok_def list_all_iff del: upt_Suc)
qed

theorem attempts_sequence_witness:
  "map aa_Sequence (atts (mem_view (w_store demo_paid)) (demo_ids 1 ''pi'')) =
     map int [1..<Suc (length (ms_attemptsByPay (w_store demo_paid) (demo_ids 1 ''pi'')))] \<and>
   distinct (map aa_Connection (atts (mem_view (w_store demo_paid)) (demo_ids 1 ''pi''))) \<and>
   int (length (ms_attemptsByPay (w_store demo_paid) (demo_ids 1 ''pi''))) \<le> max 0 (sv_maxAttempts demo_service) \<and>
   list_all (\<lambda>a. aa_Status a = AttemptStatusFailedSafe) (butlast (atts (mem_view (w_store demo_paid)) (demo_ids 1 ''pi'')))"
  by (rule attempts_sequence [OF demo_runs(3)])

text \<open>
  C20.  At most one charge is presented to the payer (INV-005): an awaiting or paid payment shows
  the Pix of its last attempt, which succeeded, and no other attempt of the payment succeeded.
\<close>

theorem one_presented_pix:
  assumes "mem_run perm sv w"
  shows "case ms_payments (w_store w) pid of None \<Rightarrow> ms_attemptsByPay (w_store w) pid = []
    | Some p \<Rightarrow> if pi_Status p = PaymentStatusAwaitingPayment \<or> pi_Status p = PaymentStatusPaid
        then map (\<lambda>a. (aa_ID a, aa_Pix a))
          (filter (\<lambda>a. aa_Status a = AttemptStatusSucceeded) (atts (mem_view (w_store w)) pid)) =
          [(pi_PresentedAttemptID p, pi_Pix p)]
        else True"
proof -
  note I = mem_run_inv [OF assms(1)]
  let ?as = "atts (mem_view (w_store w)) pid"
  have none: "ms_attemptsByPay (w_store w) pid = []" if "ms_payments (w_store w) pid = None"
    using list_ok_no_pay [OF invD(2) [OF I], of pid] that by (simp add: mem_view_def)
  have "map (\<lambda>a. (aa_ID a, aa_Pix a)) (filter (\<lambda>a. aa_Status a = AttemptStatusSucceeded) ?as) =
      [(pi_PresentedAttemptID p, pi_Pix p)]"
    if p0: "ms_payments (w_store w) pid = Some p"
      and st: "pi_Status p = PaymentStatusAwaitingPayment \<or> pi_Status p = PaymentStatusPaid" for p
  proof -
    have p: "v_pay (mem_view (w_store w)) pid = Some (abs_pay id p)" using p0 by (simp add: mem_view_pay)
    have se: "settled ?as (abs_pay id p)" using invD(4) [OF I p] st by (auto simp: status_ok_def)
    then have ne: "?as \<noteq> []" by (simp add: settled_def)
    have "filter (\<lambda>a. aa_Status a = AttemptStatusSucceeded) (butlast ?as) = []"
      using invD(2) [OF I, of pid] by (auto simp: list_ok_def filter_empty_conv)
    moreover have "?as = butlast ?as @ [last ?as]" using ne by simp
    ultimately have "filter (\<lambda>a. aa_Status a = AttemptStatusSucceeded) ?as = [last ?as]"
      using se filter_append [of _ "butlast ?as" "[last ?as]"] by (simp add: settled_def)
    then show ?thesis using se by (simp add: settled_def)
  qed
  then show ?thesis using none by (simp split: option.split)
qed

theorem one_presented_pix_witness:
  "case ms_payments (w_store demo_paid) (demo_ids 1 ''pi'') of None \<Rightarrow> ms_attemptsByPay (w_store demo_paid) (demo_ids 1 ''pi'') = []
    | Some p \<Rightarrow> if pi_Status p = PaymentStatusAwaitingPayment \<or> pi_Status p = PaymentStatusPaid
        then map (\<lambda>a. (aa_ID a, aa_Pix a))
          (filter (\<lambda>a. aa_Status a = AttemptStatusSucceeded) (atts (mem_view (w_store demo_paid)) (demo_ids 1 ''pi''))) =
          [(pi_PresentedAttemptID p, pi_Pix p)]
        else True"
  by (rule one_presented_pix [OF demo_runs(3)])

text \<open>
  C21.  Recovery is honest (INV-007, INV-008): a payment counts as recovered exactly when it is paid
  and an earlier attempt had failed; then there is exactly one recovery event, which names the
  first failed attempt with its failure code, the attempt that was paid and the amount.  A payment
  that is not stored has no recovery event.
\<close>

theorem recovery_exact:
  assumes "mem_run perm sv w"
  shows "case ms_payments (w_store w) pid of None \<Rightarrow> ms_recoveriesByPay (w_store w) pid = []
    | Some p \<Rightarrow> map abs_rec (ms_recoveriesByPay (w_store w) pid) =
        (if pi_Status p = PaymentStatusPaid then recovery_for (atts (mem_view (w_store w)) pid) (abs_pay id p) else []) \<and>
      pi_Recovered p = (pi_Status p = PaymentStatusPaid \<and> 2 \<le> length (ms_attemptsByPay (w_store w) pid)) \<and>
      pi_RecoveredAmount p = (if pi_Recovered p then pi_Amount p else 0) \<and>
      (pi_PaidAt p \<noteq> None) = (pi_Status p = PaymentStatusPaid)"
proof -
  note I = mem_run_inv [OF assms]
  let ?v = "mem_view (w_store w)"
  have len: "length (atts ?v pid) = length (ms_attemptsByPay (w_store w) pid)" by (simp add: mem_view_def)
  have vrec: "v_rec ?v pid = map abs_rec (ms_recoveriesByPay (w_store w) pid)" by (simp add: mem_view_def)
  have "recovery_for as q = [] \<longleftrightarrow> \<not> 2 \<le> length as" for as q
    by (auto simp: recovery_for_def split: list.split)
  then have re: "recovery_for (atts ?v pid) q = [] \<longleftrightarrow> \<not> 2 \<le> length (ms_attemptsByPay (w_store w) pid)" for q
    by (simp only: len)
  have rl: "ms_recoveriesByPay (w_store w) pid = [] \<longleftrightarrow> \<not> 2 \<le> length (ms_attemptsByPay (w_store w) pid)"
    if "map abs_rec (ms_recoveriesByPay (w_store w) pid) = recovery_for (atts ?v pid) q" for q
    using re [of q] that by (metis list.map_disc_iff)
  show ?thesis
  proof (cases "ms_payments (w_store w) pid")
    case None
    then show ?thesis using invD(6) [OF I, of pid] by (simp add: mem_view_pay vrec)
  next
    case (Some p)
    then have "rec_ok (atts ?v pid) (v_rec ?v pid) (abs_pay id p)" using invD(5) [OF I, of pid] by (simp add: mem_view_pay)
    then show ?thesis using Some rl [of "abs_pay id p"] by (auto simp: rec_ok_def vrec)
  qed
qed

theorem recovery_exact_witness:
  "case ms_payments (w_store demo_paid) (demo_ids 1 ''pi'') of None \<Rightarrow> ms_recoveriesByPay (w_store demo_paid) (demo_ids 1 ''pi'') = []
    | Some p \<Rightarrow> map abs_rec (ms_recoveriesByPay (w_store demo_paid) (demo_ids 1 ''pi'')) =
        (if pi_Status p = PaymentStatusPaid then recovery_for (atts (mem_view (w_store demo_paid)) (demo_ids 1 ''pi'')) (abs_pay id p) else []) \<and>
      pi_Recovered p = (pi_Status p = PaymentStatusPaid \<and> 2 \<le> length (ms_attemptsByPay (w_store demo_paid) (demo_ids 1 ''pi''))) \<and>
      pi_RecoveredAmount p = (if pi_Recovered p then pi_Amount p else 0) \<and>
      (pi_PaidAt p \<noteq> None) = (pi_Status p = PaymentStatusPaid)"
  by (rule recovery_exact [OF demo_runs(3)])

text \<open>
  The outbox is exactly-once (INV-009): for each stored payment it holds one
  \<open>payment.paid\<close> event when the payment is paid, followed by one \<open>payment.recovered\<close> event when it
  is recovered, and nothing else; a payment that is not stored has no event.
\<close>

lemma outbox_exactly_once:
  assumes "mem_run perm sv w"
  shows "case ms_payments (w_store w) pid of
      None \<Rightarrow> filter (\<lambda>e. me_PaymentIntentID e = pid) (ms_merchantEvents (w_store w) ws) = []
    | Some p \<Rightarrow> map (\<lambda>e. (me_EventType e, me_EventKey e))
        (filter (\<lambda>e. me_PaymentIntentID e = pid) (ms_merchantEvents (w_store w) (pi_WorkspaceID p))) =
        (if pi_Status p = PaymentStatusPaid
         then (''payment.paid'', ''payment.paid:'' @ pid) #
           (if pi_Recovered p then [(''payment.recovered'', ''payment.recovered:'' @ pid)] else [])
         else [])"
proof -
  note I = mem_run_inv [OF assms]
  note E = invD(8) [OF I]
  have mev: "v_mev (mem_view (w_store w)) x = map abs_evt (ms_merchantEvents (w_store w) x)" for x
    by (simp add: mem_view_def)
  show ?thesis
  proof (cases "ms_payments (w_store w) pid")
    case None
    then show ?thesis
      using evt_okD(3) [OF E, of _ ws] by (fastforce simp: mev filter_empty_conv mem_view_pay abs_evt_def)
  next
    case (Some p)
    let ?v = "mem_view (w_store w)"
    have p: "v_pay ?v pid = Some (abs_pay id p)" using Some by (simp add: mem_view_pay)
    have id: "pi_ID p = pid" using invD(1) [OF I] p by (fastforce simp: ids_ok_def)
    have "map (\<lambda>e. (ae_Type e, ae_Key e)) (filter (\<lambda>e. ae_Payment e = pid) (v_mev ?v (pi_WorkspaceID p))) =
        map (\<lambda>e. (ae_Type e, ae_Key e)) (events_of (abs_pay id p))"
      using evt_okD(2) [OF E p] by simp
    then show ?thesis
      using Some id by (simp add: mev filter_map comp_def abs_evt_def events_of_def paid_event_def recovered_event_def)
  qed
qed

text \<open>
  C30.  Routing evidence (AC-013): each attempt has exactly one routing decision, in the same order,
  that selects the attempt's connection and lists it among its candidates as eligible.
\<close>

theorem routing_evidence:
  assumes "mem_run perm sv w"
  shows "map rd_AttemptID (ms_decisionsByPay (w_store w) pid) = ms_attemptsByPay (w_store w) pid \<and>
    map rd_SelectedProviderConnectionID (ms_decisionsByPay (w_store w) pid) =
      map aa_Connection (atts (mem_view (w_store w)) pid) \<and>
    list_all (\<lambda>d. list_ex (\<lambda>c. cs_ProviderConnectionID c = rd_SelectedProviderConnectionID d \<and> cs_Eligible c) (rd_Candidates d))
      (ms_decisionsByPay (w_store w) pid)"
proof -
  have dec: "v_dec (mem_view (w_store w)) pid = map abs_dec (ms_decisionsByPay (w_store w) pid)"
    and ids: "v_attIDs (mem_view (w_store w)) pid = ms_attemptsByPay (w_store w) pid" by (simp_all add: mem_view_def)
  show ?thesis
    using invD(2) [OF mem_run_inv [OF assms], of pid]
    by (auto simp: list_ok_def dec ids comp_def dec_ok_def list_all_iff)
qed

theorem routing_evidence_witness:
  "map rd_AttemptID (ms_decisionsByPay (w_store demo_paid) (demo_ids 1 ''pi'')) = ms_attemptsByPay (w_store demo_paid) (demo_ids 1 ''pi'') \<and>
    map rd_SelectedProviderConnectionID (ms_decisionsByPay (w_store demo_paid) (demo_ids 1 ''pi'')) =
      map aa_Connection (atts (mem_view (w_store demo_paid)) (demo_ids 1 ''pi'')) \<and>
    list_all (\<lambda>d. list_ex (\<lambda>c. cs_ProviderConnectionID c = rd_SelectedProviderConnectionID d \<and> cs_Eligible c) (rd_Candidates d))
      (ms_decisionsByPay (w_store demo_paid) (demo_ids 1 ''pi''))"
  by (rule routing_evidence [OF demo_runs(3)])



section \<open>Single calls\<close>



text \<open>
  C27.  Replay (INV-001, AC-002): a request whose workspace and key are already bound to a payment
  with the same fingerprint returns that payment as it is stored; nothing is written and no
  provider is called.
\<close>

theorem CreatePayment_replay:
  assumes "sv_repo sv = mem_repository perm" and "requestFingerprint req = Inr fp"
    and "ms_idempotency (w_store w) (join_key (cr_WorkspaceID req) (cr_IdempotencyKey req)) =
      Some \<lparr>ir_paymentID = pid, ir_fingerprint = fp\<rparr>"
    and "ms_payments (w_store w) pid = Some p"
  shows "CreatePayment sv req w = (Inr (p, None), step_tick (step_tick w))"
  using assms
  by (simp add: CreatePayment_def createOrReplay_def prog_defs Now_def NewID_def run_store_def newIntent_def
      mem_GetOrCreatePayment_def step_tick_def)

theorem CreatePayment_replay_witness:
  "CreatePayment demo_service demo_request (demo_bound demo_fp) =
     (Inr (newIntent demo_request demo_fp 5 ''pi_1'', None), step_tick (step_tick (demo_bound demo_fp)))"
  by (rule CreatePayment_replay [where perm = id, OF _ demo_fp])
    (simp_all add: demo_bound_def mem_GetOrCreatePayment_def New_def newIntent_def demo_request_def)

text \<open>
  C26.  Conflict (INV-002, AC-003): the same workspace and key with another fingerprint is refused;
  nothing is written and no provider is called.
\<close>

theorem CreatePayment_conflict:
  assumes "sv_repo sv = mem_repository perm" and "requestFingerprint req = Inr fp"
    and "map_option ir_fingerprint (ms_idempotency (w_store w) (join_key (cr_WorkspaceID req) (cr_IdempotencyKey req))) =
      Some fp'" and "fp' \<noteq> fp"
  shows "CreatePayment sv req w = (Inl ErrIdempotencyConflict, step_tick (step_tick w))"
  using assms
  by (auto simp: CreatePayment_def createOrReplay_def prog_defs Now_def NewID_def run_store_def newIntent_def
      mem_GetOrCreatePayment_def step_tick_def)

theorem CreatePayment_conflict_witness:
  "CreatePayment demo_service demo_request (demo_bound ''other'') =
     (Inl ErrIdempotencyConflict, step_tick (step_tick (demo_bound ''other'')))"
  by (rule CreatePayment_conflict [where perm = id and fp' = "''other''", OF _ demo_fp])
    (use demo_fp_other in \<open>auto simp: demo_bound_def mem_GetOrCreatePayment_def New_def newIntent_def demo_request_def\<close>)

text \<open>
  C31.  Settling is guarded and idempotent (INV-006, AC-009): a paid payment is returned as it is and
  nothing changes; a payment that is not awaiting, or whose presented attempt is another one, is
  refused and nothing changes.
\<close>

theorem MarkPaid_guards:
  assumes "sv_repo sv = mem_repository perm"
    and "case ms_payments (w_store w) pid of None \<Rightarrow> True
      | Some p \<Rightarrow> \<not> (pi_Status p = PaymentStatusAwaitingPayment \<and> pi_PresentedAttemptID p = aid)"
  shows "MarkPaidWithOutbox sv pid aid w = (case ms_payments (w_store w) pid of None \<Rightarrow> (Inl ErrNotFound, w)
    | Some p \<Rightarrow> if pi_Status p = PaymentStatusPaid then (Inr p, w) else (Inl ErrInvalidTransition, w))"
  using assms
  by (auto simp: MarkPaidWithOutbox_def prog_defs run_store_def mem_GetPayment_def split: option.split)

definition demo_settled :: "MemStore world" where
  "demo_settled = (demo_bound demo_fp)\<lparr>w_store := (w_store (demo_bound demo_fp))\<lparr>
     ms_payments := [''pi_1'' \<mapsto> (newIntent demo_request demo_fp 5 ''pi_1'')\<lparr>pi_Status := PaymentStatusPaid\<rparr>],
     ms_attempts := [(''pa_1'', (newAttempt ''pa_1'' ''pi_1'' ''b'' 1 6)\<lparr>pa_ProviderPaymentID := ''pp''\<rparr>)]\<rparr>\<rparr>"

theorem MarkPaid_guards_witness:
  "MarkPaidWithOutbox demo_service ''pi_1'' ''pa_1'' demo_settled =
     (Inr ((newIntent demo_request demo_fp 5 ''pi_1'')\<lparr>pi_Status := PaymentStatusPaid\<rparr>), demo_settled)"
  by (subst MarkPaid_guards [where perm = id]) (simp_all add: demo_settled_def)



text \<open>
  Queries are scoped (AC-014): a payment is returned only to its own workspace and only in the
  environment of its first attempt's connection; every other query answers not found, and no query
  changes anything.
\<close>

lemma query_scoped:
  assumes "sv_repo sv = mem_repository perm"
  shows "queryPayment sv ws env pid w = (case ms_payments (w_store w) pid of None \<Rightarrow> (Inl ErrNotFound, w)
    | Some p \<Rightarrow> if pi_WorkspaceID p = ws \<and> fst (mem_GetPaymentEnvironment perm pid (w_store w)) = Inr env
        then (Inr p, w) else (Inl ErrNotFound, w))"
  using assms
  by (auto simp: queryPayment_def prog_defs run_store_def mem_GetPayment_def mem_GetPaymentEnvironment_def
      split: option.split list.split)

text \<open>
  The default id generator never repeats an id as long as \<open>crypto/rand\<close> does not repeat its twelve bytes,
  whatever the prefixes.
\<close>

lemma random_ids_unique:
  assumes "op_IDs opts = None" and "distinct (map random [0..<n])"
    and "list_all (\<lambda>bs. length bs = 12 \<and> list_all (\<lambda>b. b < 256) bs) (map random [0..<n])"
  shows "unique_ids (sv_ids (NewService clock random opts)) n"
proof -
  have ids: "sv_ids (NewService clock random opts) = randomIDGenerator_New random"
    using assms(1) by (simp add: NewService_def)
  have "k = l" if kl: "k < n" "l < n" and eq: "randomIDGenerator_New random k p = randomIDGenerator_New random l q" for k l p q
  proof -
    have r: "length (random i) = 12" "list_all (\<lambda>b. b < 256) (random i)" if "i < n" for i
      using assms(3) that by (auto simp: list_all_iff)
    have "length (EncodeToString (random k)) = length (EncodeToString (random l))" using r kl by simp
    then have "EncodeToString (random k) = EncodeToString (random l)"
      using eq by (simp add: randomIDGenerator_New_def append_eq_append_conv)
    then have "random k = random l" using DecodeString_EncodeToString r kl by (metis option.inject)
    then show ?thesis using assms(2) kl by (simp add: distinct_map inj_on_def)
  qed
  then show ?thesis unfolding ids unique_ids_def by blast
qed

end
