(* ===== verification/Telemetry.thy ===== *)
theory Telemetry
  imports Domain "HOL-Library.AList"
begin

text \<open>
  Routing telemetry (\<open>routingtelemetry/service.go\<close>): before routing, each connection of the
  requested environment gets a health snapshot of its recent attempts, a score, and a step of
  its circuit breaker.

  The service works over a repository record; \<open>Refresh\<close> and \<open>evaluateCircuit\<close> are programs over
  its state.  Scores and rates are binary64 values (\<open>Float64\<close>), evaluated in the order of the
  source; Go may fuse a multiplication and an addition on some processors, which the model does
  not (amd64 does not).

  The lemmas on floats show that the thresholds of \<open>unhealthy\<close>, which compare rounded quotients
  with rounded constants, decide exactly the comparisons of the counts.
\<close>

record 's TelemetryRepository =
  AggregateProviderHealth :: "string \<Rightarrow> Time \<Rightarrow> Time \<Rightarrow> ('s, go_error, ProviderHealthSnapshot) prog"
  SaveProviderHealthSnapshot :: "ProviderHealthSnapshot \<Rightarrow> ('s, go_error, unit) prog"
  ListRecentProviderHealthSnapshots :: "string \<Rightarrow> int \<Rightarrow> ('s, go_error, ProviderHealthSnapshot list) prog"
  LatestProviderAttemptSince :: "string \<Rightarrow> Time \<Rightarrow> ('s, go_error, PaymentAttempt) prog"
  UpdateProviderCircuit :: "string \<Rightarrow> CircuitState \<Rightarrow> Time option \<Rightarrow> ('s, go_error, unit) prog"

record TelemetryOptions =
  to_Window :: Duration
  to_CircuitCooldown :: Duration
  to_MinimumSamples :: int

record 's TelemetryService =
  ts_repo :: "'s TelemetryRepository"
  ts_window :: Duration
  ts_circuitCooldown :: Duration
  ts_minimumSamples :: int

definition NewTelemetry :: "'s TelemetryRepository \<Rightarrow> TelemetryOptions \<Rightarrow> 's TelemetryService" where
  "NewTelemetry repo opts = \<lparr>ts_repo = repo,
     ts_window = (if to_Window opts \<le> 0 then 15 * minute else to_Window opts),
     ts_circuitCooldown = (if to_CircuitCooldown opts \<le> 0 then minute else to_CircuitCooldown opts),
     ts_minimumSamples = (if to_MinimumSamples opts \<le> 0 then 20 else to_MinimumSamples opts)\<rparr>"

section \<open>Score and health\<close>

definition clamp01 :: "float64 \<Rightarrow> float64" where
  "clamp01 value = (if value < 0 then 0 else if value > 1 then 1 else value)"

definition latencyScore :: "float64 \<Rightarrow> float64" where
  "latencyScore p95 = fsub 1 (fdiv (min p95 2000) 2000)"

definition score :: "ProviderHealthSnapshot \<Rightarrow> float64" where
  "score snapshot = (if ph_SampleCount snapshot < 5 then 1/2
     else clamp01 (fadd (fadd (fadd
       (fmul (rnd64 (50/100)) (ph_QRSuccessRate snapshot))
       (fmul (rnd64 (20/100)) (fsub 1 (ph_ErrorRate snapshot))))
       (fmul (rnd64 (15/100)) (fsub 1 (ph_TimeoutRate snapshot))))
       (fmul (rnd64 (15/100)) (latencyScore (ph_LatencyP95MS snapshot)))))"

definition unhealthy :: "ProviderHealthSnapshot \<Rightarrow> int \<Rightarrow> bool" where
  "unhealthy snapshot minimumSamples =
     (if ph_SampleCount snapshot < minimumSamples then False
      else ph_QRSuccessRate snapshot < rnd64 (70/100) \<or> ph_ErrorRate snapshot \<ge> rnd64 (30/100) \<or>
        ph_TimeoutRate snapshot \<ge> rnd64 (20/100))"

section \<open>Circuit breaker\<close>

text \<open>What a half-open circuit does with the latest attempt since it opened.\<close>

definition onProbe ::
  "'s TelemetryService \<Rightarrow> ProviderConnection \<Rightarrow> Time \<Rightarrow> PaymentAttempt \<Rightarrow> ('s, go_error, unit) prog" where
  "onProbe sv conn now attempt = (case pa_Status attempt of
     AttemptStatusSucceeded \<Rightarrow> UpdateProviderCircuit (ts_repo sv) (pc_ID conn) CircuitClosed None
   | AttemptStatusFailedSafe \<Rightarrow> UpdateProviderCircuit (ts_repo sv) (pc_ID conn) CircuitOpen (Some now)
   | AttemptStatusFailedTerminal \<Rightarrow> UpdateProviderCircuit (ts_repo sv) (pc_ID conn) CircuitOpen (Some now)
   | AttemptStatusUnknown \<Rightarrow> UpdateProviderCircuit (ts_repo sv) (pc_ID conn) CircuitOpen (Some now)
   | _ \<Rightarrow> returnE ())"

definition evaluateCircuit ::
  "'s TelemetryService \<Rightarrow> ProviderConnection \<Rightarrow> ProviderHealthSnapshot \<Rightarrow> ProviderHealthSnapshot list \<Rightarrow> Time \<Rightarrow>
   ('s, go_error, unit) prog" where
  "evaluateCircuit sv conn current previous now =
     (case pc_Circuit conn of
        CircuitClosed \<Rightarrow>
          (if unhealthy current (ts_minimumSamples sv) \<and>
              (case previous of [] \<Rightarrow> False
               | p # _ \<Rightarrow> \<not> ph_ObservedAt p < now - ts_window sv \<and> unhealthy p (ts_minimumSamples sv))
           then UpdateProviderCircuit (ts_repo sv) (pc_ID conn) CircuitOpen (Some now)
           else returnE ())
      | CircuitOpen \<Rightarrow>
          (case pc_CircuitOpenedAt conn of
             None \<Rightarrow> returnE ()
           | Some openedAt \<Rightarrow>
               if \<not> now < openedAt + ts_circuitCooldown sv
               then UpdateProviderCircuit (ts_repo sv) (pc_ID conn) CircuitHalfOpen (Some openedAt)
               else returnE ())
      | CircuitHalfOpen \<Rightarrow>
          (case pc_CircuitOpenedAt conn of
             None \<Rightarrow> UpdateProviderCircuit (ts_repo sv) (pc_ID conn) CircuitOpen (Some now)
           | Some openedAt \<Rightarrow>
               bindE (tryE (LatestProviderAttemptSince (ts_repo sv) (pc_ID conn) openedAt)) (\<lambda>latest.
               case latest of
                 Inl err \<Rightarrow> if errors_Is err ErrNotFound then returnE () else throwE err
               | Inr attempt \<Rightarrow> onProbe sv conn now attempt))
      | _ \<Rightarrow> returnE ())"

text \<open>What \<open>Refresh\<close> adds to an aggregate.\<close>

definition observed :: "'s TelemetryService \<Rightarrow> ProviderConnection \<Rightarrow> Time \<Rightarrow> ProviderHealthSnapshot \<Rightarrow> ProviderHealthSnapshot" where
  "observed sv conn now snapshot =
     (let snapshot = snapshot\<lparr>ph_ProviderConnectionID := pc_ID conn, ph_WindowStart := now - ts_window sv,
           ph_WindowEnd := now, ph_ObservedAt := now, ph_ScoreVersion := RoutingScoreVersion\<rparr>
      in snapshot\<lparr>ph_HealthScore := score snapshot\<rparr>)"

lemma observed_id [simp]: "ph_ProviderConnectionID (observed sv conn now snapshot) = pc_ID conn"
  by (simp add: observed_def Let_def)

text \<open>The body of the loop of \<open>Refresh\<close> for one connection of the environment.\<close>

definition refreshOne ::
  "'s TelemetryService \<Rightarrow> Time \<Rightarrow> ProviderConnection \<Rightarrow> ('s, go_error, ProviderHealthSnapshot) prog" where
  "refreshOne sv now conn =
     bindE (ListRecentProviderHealthSnapshots (ts_repo sv) (pc_ID conn) 1) (\<lambda>previous.
     bindE (AggregateProviderHealth (ts_repo sv) (pc_ID conn) (now - ts_window sv) now) (\<lambda>snapshot.
     let snapshot = observed sv conn now snapshot in
     bindE (SaveProviderHealthSnapshot (ts_repo sv) snapshot) (\<lambda>_.
     bindE (evaluateCircuit sv conn snapshot previous now) (\<lambda>_.
     returnE snapshot))))"

fun refreshLoop ::
  "'s TelemetryService \<Rightarrow> Environment \<Rightarrow> Time \<Rightarrow> ProviderConnection list \<Rightarrow> HealthMap \<Rightarrow> ('s, go_error, HealthMap) prog" where
  "refreshLoop sv env now [] result = returnE result"
| "refreshLoop sv env now (conn # connections) result =
     (if pc_Environment conn \<noteq> env then refreshLoop sv env now connections result
      else bindE (refreshOne sv now conn) (\<lambda>snapshot.
        refreshLoop sv env now connections (AList.update (pc_ID conn) snapshot result)))"

definition Refresh ::
  "'s TelemetryService \<Rightarrow> ProviderConnection list \<Rightarrow> Environment \<Rightarrow> Time \<Rightarrow> ('s, go_error, HealthMap) prog" where
  "Refresh sv connections env now = refreshLoop sv env now connections []"

section \<open>Floats\<close>

lemma clamp01_range: "0 \<le> clamp01 x" "clamp01 x \<le> 1"
  by (simp_all add: clamp01_def)

lemma clamp01_mono: "x \<le> y \<Longrightarrow> clamp01 x \<le> clamp01 y"
  by (auto simp: clamp01_def)

lemma fadd_mono: "a \<le> b \<Longrightarrow> c \<le> d \<Longrightarrow> fadd a c \<le> fadd b d"
  by (simp add: fadd_def rnd64_mono)

lemma fmul_mono: "0 \<le> k \<Longrightarrow> a \<le> b \<Longrightarrow> fmul k a \<le> fmul k b"
  by (simp add: fmul_def rnd64_mono mult_left_mono)

lemma fsub_antimono: "a \<le> b \<Longrightarrow> fsub k b \<le> fsub k a"
  by (simp add: fsub_def rnd64_mono)

lemma latencyScore_antimono: "a \<le> b \<Longrightarrow> latencyScore b \<le> latencyScore a"
  unfolding latencyScore_def fdiv_def by (intro fsub_antimono rnd64_mono divide_right_mono) auto

text \<open>
  A rounded fraction with a small denominator compares with a rounded constant as the fractions
  do: the fractions differ by at least \<open>1 / (n * d)\<close>, which the two rounding errors cannot bridge.
\<close>

lemma rnd64_fraction_less:
  assumes k: "0 \<le> k" "k \<le> n" and n: "0 < n" "n \<le> 2 ^ 40" and c: "0 \<le> c" "c \<le> d" "0 < d" "d \<le> 2 ^ 10"
  shows "rnd64 (of_int k / of_int n) < rnd64 (of_int c / of_int d) \<longleftrightarrow> k * d < c * n"
proof -
  let ?p = "of_int k / of_int n :: rat" and ?q = "of_int c / of_int d :: rat"
  have pq: "?p < ?q \<longleftrightarrow> k * d < c * n"
  proof -
    have "?p < ?q \<longleftrightarrow> (of_int k * of_int d :: rat) < of_int c * of_int n"
      using n c by (simp add: field_simps)
    then show ?thesis by (simp only: of_int_mult [symmetric] of_int_less_iff)
  qed
  show ?thesis
  proof (cases "k * d < c * n")
    case False
    then show ?thesis using pq rnd64_mono [of ?q ?p] by (simp add: not_less)
  next
    case True
    then have "1 \<le> c * n - k * d" by simp
    then have "(1 :: rat) \<le> of_int (c * n - k * d)" by (metis of_int_1 of_int_le_iff)
    then have "1 / (of_int n * of_int d) \<le> of_int (c * n - k * d) / (of_int n * of_int d :: rat)"
      using n c by (intro divide_right_mono) auto
    also have "\<dots> = ?q - ?p" using n c by (simp add: field_simps)
    finally have gap: "1 / (of_int n * of_int d) \<le> ?q - ?p" .
    have "(of_int n * of_int d :: rat) \<le> 2 ^ 40 * 2 ^ 10"
    proof (intro mult_mono)
      show "(of_int n :: rat) \<le> 2 ^ 40" using n(2) by (metis of_int_le_iff of_int_numeral of_int_power)
      show "(of_int d :: rat) \<le> 2 ^ 10" using c(4) by (metis of_int_le_iff of_int_numeral of_int_power)
    qed (use n c in auto)
    then have "1 / (2 ^ 40 * 2 ^ 10) \<le> 1 / (of_int n * of_int d :: rat)"
      using n c by (intro divide_left_mono) auto
    then have gap': "1 / (2 ^ 40 * 2 ^ 10) \<le> ?q - ?p" using gap by (rule order_trans)
    have unit: "0 \<le> ?p" "?p \<le> 1" "0 \<le> ?q" "?q \<le> 1" using k n c by (simp_all add: field_simps)
    have "\<bar>rnd64 ?p - ?p\<bar> \<le> 1 / 2 ^ 53" "\<bar>rnd64 ?q - ?q\<bar> \<le> 1 / 2 ^ 53"
      by (rule rnd64_unit_error [OF unit(1,2)], rule rnd64_unit_error [OF unit(3,4)])
    moreover have "(1 / 2 ^ 53 + 1 / 2 ^ 53 :: rat) < 1 / (2 ^ 40 * 2 ^ 10)" by simp
    ultimately have "rnd64 ?p < rnd64 ?q" using gap' by linarith
    then show ?thesis using True by simp
  qed
qed

section \<open>Refreshing along a relation\<close>

context state_preorder
begin

lemma along_Refresh:
  assumes "\<And>i t1 t2. along R (AggregateProviderHealth (ts_repo sv) i t1 t2)" "\<And>p. along R (SaveProviderHealthSnapshot (ts_repo sv) p)"
    and "\<And>i n. along R (ListRecentProviderHealthSnapshots (ts_repo sv) i n)" "\<And>i t. along R (LatestProviderAttemptSince (ts_repo sv) i t)"
    and "\<And>i st ot. along R (UpdateProviderCircuit (ts_repo sv) i st ot)"
  shows "along R (Refresh sv conns env now)"
proof -
  note ops = along_intros assms
  have evaluate: "along R (evaluateCircuit sv c cur prev now)" for c cur prev now
    unfolding evaluateCircuit_def onProbe_def
    by (auto intro!: ops split: CircuitState.split option.split AttemptStatus.split sum.split)
  have one: "along R (refreshOne sv now c)" for c
    unfolding refreshOne_def Let_def by (intro ops evaluate)
  have "along R (refreshLoop sv env now conns result)" for result
    by (induction conns arbitrary: result) (simp_all add: ops one)
  then show ?thesis by (simp add: Refresh_def)
qed

end

section \<open>Properties\<close>

text \<open>
  C34.  The thresholds are exact: for rates computed from counts as the store computes them, a
  connection is unhealthy exactly when it has enough samples and fewer than 7 in 10 succeeded, at
  least 3 in 10 failed or at least 1 in 5 timed out.  No rounding of the quotients or of the
  constants 0.70, 0.30, 0.20 changes the verdict, in particular not on the boundary.
\<close>

theorem unhealthy_exact:
  assumes "0 < ph_SampleCount s" and "ph_SampleCount s \<le> 2 ^ 40"
    and "0 \<le> ph_QRSuccessCount s" and "ph_QRSuccessCount s \<le> ph_SampleCount s"
    and "0 \<le> ph_ErrorCount s" and "ph_ErrorCount s \<le> ph_SampleCount s"
    and "0 \<le> ph_TimeoutCount s" and "ph_TimeoutCount s \<le> ph_SampleCount s"
    and "ph_QRSuccessRate s = fdiv (fint (ph_QRSuccessCount s)) (fint (ph_SampleCount s))"
    and "ph_ErrorRate s = fdiv (fint (ph_ErrorCount s)) (fint (ph_SampleCount s))"
    and "ph_TimeoutRate s = fdiv (fint (ph_TimeoutCount s)) (fint (ph_SampleCount s))"
  shows "unhealthy s minimumSamples \<longleftrightarrow> minimumSamples \<le> ph_SampleCount s \<and>
    (10 * ph_QRSuccessCount s < 7 * ph_SampleCount s \<or> 10 * ph_ErrorCount s \<ge> 3 * ph_SampleCount s \<or>
     5 * ph_TimeoutCount s \<ge> ph_SampleCount s)"
proof -
  have fi: "fint i = of_int i" if "0 \<le> i" "i \<le> ph_SampleCount s" for i
    using that assms(2) by (simp add: fint_def rnd64_of_int)
  have rate: "fdiv (fint i) (fint (ph_SampleCount s)) < rnd64 (of_int c / of_int d) \<longleftrightarrow> i * d < c * ph_SampleCount s"
    if "0 \<le> i" "i \<le> ph_SampleCount s" "0 \<le> c" "c \<le> d" "0 < d" "d \<le> 2 ^ 10" for i c d
    using that assms(1,2) rnd64_fraction_less [of i "ph_SampleCount s" c d] by (simp add: fi fdiv_def)
  show ?thesis
    using rate [of "ph_QRSuccessCount s" 70 100] rate [of "ph_ErrorCount s" 30 100] rate [of "ph_TimeoutCount s" 20 100]
      assms by (auto simp: unhealthy_def not_less)
qed

lemma unhealthy_exact_witness:
  "\<not> unhealthy \<lparr>ph_ProviderConnectionID = ''a'', ph_WindowStart = 0, ph_WindowEnd = 1, ph_SampleCount = 20,
     ph_QRSuccessCount = 14, ph_ErrorCount = 4, ph_TimeoutCount = 2,
     ph_QRSuccessRate = fdiv (fint 14) (fint 20), ph_ErrorRate = fdiv (fint 4) (fint 20),
     ph_TimeoutRate = fdiv (fint 2) (fint 20), ph_LatencyP50MS = 0, ph_LatencyP95MS = 0, ph_HealthScore = 0,
     ph_ScoreVersion = [], ph_ObservedAt = 1\<rparr> 20"
  by (subst unhealthy_exact) simp_all

text \<open>
  The score orders connections sensibly: it lies in [0,1], and a snapshot that is at least as
  good in its success rate, error rate, timeout rate and latency never scores lower, rounding
  included.
\<close>

lemma score_monotone:
  assumes "ph_SampleCount a = ph_SampleCount b" and "ph_QRSuccessRate a \<le> ph_QRSuccessRate b"
    and "ph_ErrorRate b \<le> ph_ErrorRate a" and "ph_TimeoutRate b \<le> ph_TimeoutRate a"
    and "ph_LatencyP95MS b \<le> ph_LatencyP95MS a"
  shows "0 \<le> score a \<and> score a \<le> score b \<and> score b \<le> 1"
proof -
  have "score a \<le> score b"
    unfolding score_def assms(1)
    by (auto intro!: clamp01_mono fadd_mono fmul_mono fsub_antimono latencyScore_antimono rnd64_nonneg assms(2-))
  then show ?thesis using clamp01_range by (simp add: score_def)
qed

end
