(* ===== verification/Webhook.thy ===== *)
theory Webhook
  imports Domain Sha256 "HOL-Library.Signed_Division"
begin

text \<open>
  The pure part of the merchant webhooks (\<open>webhookdelivery/types.go\<close>, \<open>retry.go\<close>, \<open>url.go\<close>,
  \<open>http_sender.go\<close>): the data, the retry schedule, the endpoint and address rules, the signature and
  the HTTP sender.

  What the operating system and the network answer is a parameter: the parser of URLs and IP
  addresses (\<open>UrlLib\<close>), and the HTTP client with the outcome of a request (\<open>HttpEnv\<close>).  An IP address
  is its bytes, 4 or 16, and the empty list is the nil address.  The lemmas show that the retry
  schedule is the capped doubling with a jitter of ten percent, that the address rule is a list of
  address blocks, and that the signature verifies exactly itself.
\<close>

section \<open>Data (types.go)\<close>

record Endpoint =
  en_ID :: string
  en_WorkspaceID :: string
  en_Environment :: Environment
  en_URL :: string
  en_SigningSecretCiphertext :: string
  en_Enabled :: bool
  en_ActiveSince :: Time
  en_CreatedAt :: Time
  en_UpdatedAt :: Time

record Job =
  jb_DeliveryID :: string
  jb_MerchantEventID :: string
  jb_EventType :: string
  jb_Payload :: string
  jb_TargetURL :: string
  jb_SigningSecretCiphertext :: string
  jb_AttemptCount :: int

datatype DeliveryStatus = DeliveryPending | DeliveryRetry | DeliverySucceeded | DeliveryFailed

record Completion =
  cm_DeliveryID :: string
  cm_AttemptID :: string
  cm_Sequence :: int
  cm_Status :: DeliveryStatus
  cm_StartedAt :: Time
  cm_CompletedAt :: Time
  cm_HTTPStatus :: "int option"
  cm_Latency :: Duration
  cm_ErrorCode :: string
  cm_NextAttemptAt :: Time
  cm_DeliveredAt :: "Time option"

record SendRequest =
  sr_EventID :: string
  sr_URL :: string
  sr_Payload :: string
  sr_Secret :: "nat list"
  sr_Now :: Time

record SendResult =
  sn_HTTPStatus :: "int option"
  sn_Latency :: Duration
  sn_ErrorCode :: string

section \<open>Retry schedule (retry.go)\<close>

text \<open>The loop \<open>for i := 1; i < sequence; i++\<close>, by the iterations left.\<close>

fun backoff :: "nat \<Rightarrow> Duration \<Rightarrow> Duration" where
  "backoff 0 base = base"
| "backoff (Suc n) base = (if base \<ge> 6 * hour then 6 * hour else backoff n (wrap64 (base * 2)))"

definition jitter :: "string \<Rightarrow> int \<Rightarrow> int" where
  "jitter deliveryID sequence =
     (let hash = Sum256 (map byte (deliveryID @ '':'' @ Itoa sequence));
          bucket = hash ! 0 * 256 + hash ! 1
      in 900 + int (bucket mod 201))"

definition retryDelay :: "string \<Rightarrow> int \<Rightarrow> Duration" where
  "retryDelay deliveryID sequence =
     (let sequence = (if sequence < 1 then 1 else sequence);
          base = backoff (nat (sequence - 1)) (30 * second);
          base = (if base > 6 * hour then 6 * hour else base)
      in wrap64 (base * jitter deliveryID sequence) sdiv 1000)"

lemma sdiv_nonneg: "0 \<le> a \<Longrightarrow> 0 < b \<Longrightarrow> a sdiv b = a div b" for a b :: int
  by (cases "a = 0") (simp_all add: signed_divide_int_def sgn_if)

lemma backoff_capped:
  assumes "0 < base" and "base < 12 * hour"
  shows "min (backoff n base) (6 * hour) = min (base * 2 ^ n) (6 * hour)"
  using assms
proof (induction n arbitrary: base)
  case (Suc n)
  show ?case
  proof (cases "base \<ge> 6 * hour")
    case True
    then have "6 * hour \<le> base * 2 ^ Suc n" using Suc.prems by (smt (verit) mult_le_cancel_left1 one_le_power)
    then show ?thesis using True by simp
  next
    case False
    then have "wrap64 (base * 2) = base * 2" "base * 2 < 12 * hour"
      using Suc.prems by (simp_all add: fits64_def duration_defs)
    then show ?thesis using False Suc by (simp add: mult.assoc)
  qed
qed simp

lemma backoff_pos: "0 < base \<Longrightarrow> base < 12 * hour \<Longrightarrow> 0 < backoff n base"
  using backoff_capped [of base n] by (simp add: min_def duration_defs split: if_splits)

lemma jitter_range: "900 \<le> jitter i s" "jitter i s \<le> 1100"
proof -
  have "b mod 201 < 201" for b :: nat by simp
  then show "900 \<le> jitter i s" "jitter i s \<le> 1100" by (simp_all add: jitter_def Let_def)
qed

lemma retryDelay_exact:
  "retryDelay i n = min (30 * second * 2 ^ nat (n - 1)) (6 * hour) * jitter i (max 1 n) div 1000 \<and>
   900 \<le> jitter i (max 1 n) \<and> jitter i (max 1 n) \<le> 1100 \<and>
   27 * second \<le> retryDelay i n \<and> retryDelay i n \<le> 6 * hour + 36 * minute"
proof -
  let ?m = "max 1 n" and ?b = "min (30 * second * 2 ^ nat (n - 1)) (6 * hour)"
  let ?k = "nat (?m - 1)"
  have k: "nat (n - 1) = ?k" by simp
  have cap: "min (backoff ?k (30 * second)) (6 * hour) = ?b"
    using backoff_capped [of "30 * second" ?k] by (simp add: duration_defs k)
  have low: "30 * second \<le> ?b" by (simp add: duration_defs)
  have high: "?b \<le> 6 * hour" by simp
  note j = jitter_range [of i ?m]
  have "?b * jitter i ?m \<le> 6 * hour * 1100" using high low j by (intro mult_mono) (simp_all add: duration_defs)
  moreover have "30 * second * 900 \<le> ?b * jitter i ?m" using low j by (intro mult_mono) (simp_all add: duration_defs)
  ultimately have bounds: "30 * second * 900 \<le> ?b * jitter i ?m" "?b * jitter i ?m \<le> 6 * hour * 1100" by simp_all
  then have w: "wrap64 (?b * jitter i ?m) = ?b * jitter i ?m" by (intro wrap64_id) (simp_all add: fits64_def duration_defs)
  have "retryDelay i n = wrap64 (min (backoff ?k (30 * second)) (6 * hour) * jitter i ?m) sdiv 1000"
    by (simp add: retryDelay_def Let_def max_def min_def)
  then have d: "retryDelay i n = ?b * jitter i ?m div 1000"
    using bounds(1) by (simp only: cap w) (rule sdiv_nonneg, simp_all add: duration_defs)
  show ?thesis using bounds d j by (simp add: duration_defs) linarith
qed

lemma retryDelay_bounds: "27 * second \<le> retryDelay i n" "retryDelay i n \<le> 6 * hour + 36 * minute"
  using retryDelay_exact [of i n] by simp_all

text \<open>
  C36.  The retry schedule: the delay after attempt \<open>n\<close> is 30 seconds doubled \<open>n - 1\<close> times, capped
  at six hours, times a jitter of 90 to 110 percent that depends only on the delivery and the
  attempt; the 64-bit arithmetic never wraps, and a delay is at least 27 seconds and at most six
  hours and 36 minutes.
\<close>

theorem retryDelay_schedule:
  "retryDelay i n = min (30 * second * 2 ^ nat (n - 1)) (6 * hour) * jitter i (max 1 n) div 1000 \<and>
   900 \<le> jitter i (max 1 n) \<and> jitter i (max 1 n) \<le> 1100 \<and>
   27 * second \<le> retryDelay i n \<and> retryDelay i n \<le> 6 * hour + 36 * minute"
  by (rule retryDelay_exact)

section \<open>Addresses (http_sender.go)\<close>

text \<open>The methods of \<open>net.IP\<close>: \<open>To4\<close> sees through an IPv4-mapped IPv6 address.\<close>

definition v4_mapped :: "nat list" where
  "v4_mapped = replicate 10 0 @ [255, 255]"

definition To4 :: "nat list \<Rightarrow> nat list option" where
  "To4 ip = (if length ip = 4 then Some ip
     else if length ip = 16 \<and> take 12 ip = v4_mapped then Some (drop 12 ip) else None)"

definition ip_match :: "(nat list \<Rightarrow> bool) \<Rightarrow> (nat list \<Rightarrow> bool) \<Rightarrow> nat list \<Rightarrow> bool" where
  "ip_match p4 p6 ip = (case To4 ip of Some ip4 \<Rightarrow> p4 ip4 | None \<Rightarrow> length ip = 16 \<and> p6 ip)"

definition IsUnspecified :: "nat list \<Rightarrow> bool" where
  "IsUnspecified = ip_match (\<lambda>ip4. ip4 = [0, 0, 0, 0]) (\<lambda>ip. ip = replicate 16 0)"

definition IsLoopback :: "nat list \<Rightarrow> bool" where
  "IsLoopback = ip_match (\<lambda>ip4. ip4 ! 0 = 127) (\<lambda>ip. ip = replicate 15 0 @ [1])"

definition IsMulticast :: "nat list \<Rightarrow> bool" where
  "IsMulticast = ip_match (\<lambda>ip4. ip4 ! 0 AND 240 = 224) (\<lambda>ip. ip ! 0 = 255)"

definition IsPrivate :: "nat list \<Rightarrow> bool" where
  "IsPrivate = ip_match
     (\<lambda>ip4. ip4 ! 0 = 10 \<or> ip4 ! 0 = 172 \<and> ip4 ! 1 AND 240 = 16 \<or> ip4 ! 0 = 192 \<and> ip4 ! 1 = 168)
     (\<lambda>ip. ip ! 0 AND 254 = 252)"

definition IsLinkLocalUnicast :: "nat list \<Rightarrow> bool" where
  "IsLinkLocalUnicast = ip_match (\<lambda>ip4. ip4 ! 0 = 169 \<and> ip4 ! 1 = 254) (\<lambda>ip. ip ! 0 = 254 \<and> ip ! 1 AND 192 = 128)"

definition IsLinkLocalMulticast :: "nat list \<Rightarrow> bool" where
  "IsLinkLocalMulticast = ip_match (\<lambda>ip4. ip4 ! 0 = 224 \<and> ip4 ! 1 = 0 \<and> ip4 ! 2 = 0)
     (\<lambda>ip. ip ! 0 = 255 \<and> ip ! 1 AND 15 = 2)"

definition isPublicWebhookIP :: "nat list \<Rightarrow> bool" where
  "isPublicWebhookIP ip =
     (if ip = [] \<or> IsUnspecified ip \<or> IsLoopback ip \<or> IsMulticast ip \<or> IsPrivate ip \<or>
         IsLinkLocalUnicast ip \<or> IsLinkLocalMulticast ip then False
      else case To4 ip of None \<Rightarrow> True
        | Some ip4 \<Rightarrow>
            if ip4 ! 0 = 100 \<and> ip4 ! 1 \<ge> 64 \<and> ip4 ! 1 \<le> 127 then False
            else if ip4 ! 0 = 192 \<and> ip4 ! 1 = 0 \<and> ip4 ! 2 = 2 then False
            else if ip4 ! 0 = 198 \<and> ip4 ! 1 = 51 \<and> ip4 ! 2 = 100 then False
            else if ip4 ! 0 = 203 \<and> ip4 ! 1 = 0 \<and> ip4 ! 2 = 113 then False
            else True)"

text \<open>
  The rule as a table of address blocks: network address and prefix length, over addresses as
  32-bit words.
\<close>

fun ipv4_addr :: "nat \<times> nat \<times> nat \<times> nat \<Rightarrow> int" where
  "ipv4_addr (a, b, c, d) = ((int a * 256 + int b) * 256 + int c) * 256 + int d"

definition in_block :: "32 word \<Rightarrow> (nat \<times> nat \<times> nat \<times> nat) \<times> nat \<Rightarrow> bool" where
  "in_block w block = (uint w div 2 ^ (32 - snd block) = ipv4_addr (fst block) div 2 ^ (32 - snd block))"

definition nonpublic_blocks :: "((nat \<times> nat \<times> nat \<times> nat) \<times> nat) list" where
  "nonpublic_blocks =
     [((0, 0, 0, 0), 32), ((10, 0, 0, 0), 8), ((100, 64, 0, 0), 10), ((127, 0, 0, 0), 8), ((169, 254, 0, 0), 16),
      ((172, 16, 0, 0), 12), ((192, 0, 2, 0), 24), ((192, 168, 0, 0), 16), ((198, 51, 100, 0), 24),
      ((203, 0, 113, 0), 24), ((224, 0, 0, 0), 4)]"

lemma digits_eq: "0 \<le> r \<Longrightarrow> r < k \<Longrightarrow> p * k + r = n \<longleftrightarrow> p = n div k \<and> r = n mod k" for p r k n :: int
  by auto

lemma range_eqs: "int b div 64 = 1 \<longleftrightarrow> 64 \<le> b \<and> b \<le> 127" "int b div 16 = 1 \<longleftrightarrow> 16 \<le> b \<and> b \<le> 31"
  "int b div 16 = 14 \<longleftrightarrow> 224 \<le> b \<and> b \<le> 239"
  by (safe; linarith)+

lemma byte_masks:
  assumes "b < (256 :: nat)"
  shows "b AND 240 = 224 \<longleftrightarrow> 224 \<le> b \<and> b \<le> 239" "b AND 240 = 16 \<longleftrightarrow> 16 \<le> b \<and> b \<le> 31"
proof -
  have "b AND 240 = b AND push_bit 4 (mask 4)" by (simp add: push_bit_eq_mult mask_eq_exp_minus_1)
  also have "\<dots> = push_bit 4 (take_bit 4 (drop_bit 4 b))" by (rule bit_eqI) (auto simp: bit_simps)
  also have "\<dots> = 16 * (b div 16 mod 16)" by (simp add: push_bit_eq_mult take_bit_eq_mod drop_bit_eq_div)
  also have "b div 16 mod 16 = b div 16" using assms by (simp add: less_mult_imp_div_less)
  finally have "b AND 240 = 16 * (b div 16)" .
  then have "b AND 240 = 224 \<longleftrightarrow> b div 16 = 14" "b AND 240 = 16 \<longleftrightarrow> b div 16 = 1" by simp_all
  moreover have "b div 16 = 14 \<longleftrightarrow> 224 \<le> b \<and> b \<le> 239" "b div 16 = 1 \<longleftrightarrow> 16 \<le> b \<and> b \<le> 31" by (safe; linarith)+
  ultimately show "b AND 240 = 224 \<longleftrightarrow> 224 \<le> b \<and> b \<le> 239" "b AND 240 = 16 \<longleftrightarrow> 16 \<le> b \<and> b \<le> 31" by simp_all
qed

lemma public_bytes:
  assumes "a < 256" "b < 256" "c < 256" "d < 256"
  shows "isPublicWebhookIP [a, b, c, d] \<longleftrightarrow> \<not> (a = 0 \<and> b = 0 \<and> c = 0 \<and> d = 0 \<or> a = 10 \<or>
    a = 100 \<and> 64 \<le> b \<and> b \<le> 127 \<or> a = 127 \<or> a = 169 \<and> b = 254 \<or> a = 172 \<and> 16 \<le> b \<and> b \<le> 31 \<or>
    a = 192 \<and> b = 0 \<and> c = 2 \<or> a = 192 \<and> b = 168 \<or> a = 198 \<and> b = 51 \<and> c = 100 \<or> a = 203 \<and> b = 0 \<and> c = 113 \<or>
    224 \<le> a \<and> a \<le> 239)"
  using byte_masks [OF assms(1)] byte_masks [OF assms(2)]
  by (simp add: isPublicWebhookIP_def To4_def ip_match_def IsUnspecified_def IsLoopback_def IsMulticast_def IsPrivate_def
      IsLinkLocalUnicast_def IsLinkLocalMulticast_def)

lemma blocks_bytes:
  assumes "a < 256" "b < 256" "c < 256" "d < 256" and w: "uint w = ipv4_addr (a, b, c, d)"
  shows "list_ex (in_block w) nonpublic_blocks \<longleftrightarrow> (a = 0 \<and> b = 0 \<and> c = 0 \<and> d = 0 \<or> a = 10 \<or>
    a = 100 \<and> 64 \<le> b \<and> b \<le> 127 \<or> a = 127 \<or> a = 169 \<and> b = 254 \<or> a = 172 \<and> 16 \<le> b \<and> b \<le> 31 \<or>
    a = 192 \<and> b = 0 \<and> c = 2 \<or> a = 192 \<and> b = 168 \<or> a = 198 \<and> b = 51 \<and> c = 100 \<or> a = 203 \<and> b = 0 \<and> c = 113 \<or>
    224 \<le> a \<and> a \<le> 239)"
proof -
  define u where "u = uint w"
  have div8: "u div 16777216 = int a" "u div 65536 = int a * 256 + int b"
    "u div 256 = (int a * 256 + int b) * 256 + int c" "u div 4194304 = int a * 4 + int b div 64"
    "u div 1048576 = int a * 16 + int b div 16" "u div 268435456 = int a div 16"
    using assms by (simp_all add: w u_def)
  have zero: "u = 0 \<longleftrightarrow> a = 0 \<and> b = 0 \<and> c = 0 \<and> d = 0" by (simp add: w u_def) linarith
  have "list_ex (in_block w) nonpublic_blocks \<longleftrightarrow> u = 0 \<or> u div 16777216 = 10 \<or> u div 4194304 = 401 \<or> u div 16777216 = 127 \<or>
      u div 65536 = 43518 \<or> u div 1048576 = 2753 \<or> u div 256 = 12582914 \<or> u div 65536 = 49320 \<or> u div 256 = 12989284 \<or>
      u div 256 = 13303921 \<or> u div 268435456 = 14"
    by (simp add: nonpublic_blocks_def in_block_def u_def)
  also have "\<dots> \<longleftrightarrow> (a = 0 \<and> b = 0 \<and> c = 0 \<and> d = 0 \<or> a = 10 \<or>
    a = 100 \<and> 64 \<le> b \<and> b \<le> 127 \<or> a = 127 \<or> a = 169 \<and> b = 254 \<or> a = 172 \<and> 16 \<le> b \<and> b \<le> 31 \<or>
    a = 192 \<and> b = 0 \<and> c = 2 \<or> a = 192 \<and> b = 168 \<or> a = 198 \<and> b = 51 \<and> c = 100 \<or> a = 203 \<and> b = 0 \<and> c = 113 \<or>
    224 \<le> a \<and> a \<le> 239)"
    using assms(1-4) by (simp add: div8 zero digits_eq range_eqs del: distrib_right_numeral)
  finally show ?thesis .
qed

lemma be_bytes4:
  "be_bytes 4 u = [nat (u div 256 div 256 div 256 mod 256), nat (u div 256 div 256 mod 256), nat (u div 256 mod 256), nat (u mod 256)]"
proof -
  have "4 = Suc (Suc (Suc (Suc 0)))" by simp
  then show ?thesis by (simp only: be_bytes.simps append.simps)
qed

lemma digits4:
  fixes u :: int
  assumes "0 \<le> u" "u < 256 * (256 * (256 * 256))"
  shows "((u div 256 div 256 div 256 mod 256 * 256 + u div 256 div 256 mod 256) * 256 + u div 256 mod 256) * 256 + u mod 256 = u"
proof -
  have "u div 256 < 256 * (256 * 256)" "0 \<le> u div 256" using assms by simp_all
  then have "u div 256 div 256 < 256 * 256" "0 \<le> u div 256 div 256" by simp_all
  then have "u div 256 div 256 div 256 < 256" "0 \<le> u div 256 div 256 div 256" by simp_all
  then have "u div 256 div 256 div 256 mod 256 = u div 256 div 256 div 256" by (rule mod_pos_pos_trivial [rotated])
  then show ?thesis by (simp only: div_mult_mod_eq)
qed

lemma uint_bytes:
  fixes w :: "32 word"
  assumes "be_bytes 4 (uint w) = [a, b, c, d]"
  shows "uint w = ipv4_addr (a, b, c, d)"
proof -
  have byte: "int (nat (x mod 256)) = x mod 256" for x :: int by simp
  have "0 \<le> uint w" "uint w < 256 * (256 * (256 * 256))" using uint_lt2p [of w] by simp_all
  note u = digits4 [OF this]
  show ?thesis
    using assms unfolding be_bytes4 list.inject by (elim conjE, hypsubst) (simp only: ipv4_addr.simps byte u)
qed

lemma public_word:
  "isPublicWebhookIP (be_bytes 4 (uint w)) \<longleftrightarrow> \<not> list_ex (in_block w) nonpublic_blocks" for w :: "32 word"
proof -
  obtain a b c d where bytes: "be_bytes 4 (uint w) = [a, b, c, d]"
    by (simp add: be_bytes4)
  have "a < 256" "b < 256" "c < 256" "d < 256"
    using be_bytes_range [of _ 4 "uint w"] by (simp_all add: bytes)
  then show ?thesis
    unfolding bytes by (simp only: public_bytes blocks_bytes [OF _ _ _ _ uint_bytes [OF bytes]])
qed

lemma To4_mapped: "length ip = 4 \<Longrightarrow> To4 (v4_mapped @ ip) = To4 ip"
  by (simp add: To4_def v4_mapped_def)

lemma ip_match_mapped: "length ip = 4 \<Longrightarrow> ip_match p q (v4_mapped @ ip) = ip_match p q ip"
  by (simp add: ip_match_def To4_def v4_mapped_def)

lemma public_mapped: "length ip = 4 \<Longrightarrow> isPublicWebhookIP (v4_mapped @ ip) = isPublicWebhookIP ip"
proof -
  assume ip: "length ip = 4"
  then have "ip \<noteq> []" "v4_mapped @ ip \<noteq> []" by auto
  then show ?thesis
    by (simp only: isPublicWebhookIP_def IsUnspecified_def IsLoopback_def IsMulticast_def IsPrivate_def IsLinkLocalUnicast_def
        IsLinkLocalMulticast_def ip_match_mapped [OF ip] To4_mapped [OF ip] simp_thms)
qed

text \<open>
  C37.  The address rule is a table of blocks: an IPv4 address, in its 4-byte form or mapped into
  IPv6, is refused exactly when it lies in one of the blocks of \<open>nonpublic_blocks\<close> (private,
  shared, loopback, link local, documentation and multicast networks).
\<close>

theorem public_ipv4_blocks:
  "isPublicWebhookIP (be_bytes 4 (uint w)) = (\<not> list_ex (in_block w) nonpublic_blocks) \<and>
   isPublicWebhookIP (v4_mapped @ be_bytes 4 (uint w)) = (\<not> list_ex (in_block w) nonpublic_blocks)"
  for w :: "32 word"
  by (simp add: public_word public_mapped)

text \<open>
  The dialer of the sender's transport: it resolves the host of each connection it opens and connects
  to the first address allowed.  \<open>net.SplitHostPort\<close>, the resolver and the connection itself are the
  environment.
\<close>

type_synonym Resolver = "string \<Rightarrow> go_error + nat list list"

record HTTPOptions =
  ho_Timeout :: Duration
  ho_AllowPrivateTargets :: bool
  ho_Resolver :: "Resolver option"

record HTTPSender =
  hs_timeout :: Duration
  hs_allowPrivateTargets :: bool
  hs_resolver :: Resolver

definition NewHTTPSender :: "Resolver \<Rightarrow> HTTPOptions \<Rightarrow> HTTPSender" where
  "NewHTTPSender DefaultResolver opts = \<lparr>
     hs_timeout = (if ho_Timeout opts \<le> 0 then 10 * second else ho_Timeout opts),
     hs_allowPrivateTargets = ho_AllowPrivateTargets opts,
     hs_resolver = (case ho_Resolver opts of None \<Rightarrow> DefaultResolver | Some r \<Rightarrow> r)\<rparr>"

definition errTargetNotPublic :: go_error where
  "errTargetNotPublic = Errorf ''webhook target is not public''"

definition DialContext ::
  "HTTPSender \<Rightarrow> (string \<Rightarrow> go_error + string \<times> string) \<Rightarrow> string \<Rightarrow> go_error + nat list \<times> string" where
  "DialContext sender SplitHostPort address = (case SplitHostPort address of
     Inl e \<Rightarrow> Inl e
   | Inr (host, port) \<Rightarrow> (case hs_resolver sender host of
       Inl e \<Rightarrow> Inl e
     | Inr ips \<Rightarrow> (case find (\<lambda>ip. hs_allowPrivateTargets sender \<or> isPublicWebhookIP ip) ips of
         None \<Rightarrow> Inl errTargetNotPublic | Some ip \<Rightarrow> Inr (ip, port))))"

text \<open>
  C38.  No request reaches an internal address: whatever the resolver answers, a sender that does not
  allow private targets never opens a connection to an IPv4 address of a non-public block, in either
  form; so a name that resolves to a private address, now or on a later attempt, is no way in.
\<close>

theorem dial_never_private:
  assumes "list_ex (in_block w) nonpublic_blocks" and "ip \<in> {be_bytes 4 (uint w), v4_mapped @ be_bytes 4 (uint w)}"
    and "\<not> ho_AllowPrivateTargets opts"
  shows "DialContext (NewHTTPSender resolver opts) split address \<noteq> Inr (ip, port)"
proof -
  have "\<not> isPublicWebhookIP ip" using assms(1,2) by (auto simp: public_word public_mapped)
  then have "find (\<lambda>x. hs_allowPrivateTargets (NewHTTPSender resolver opts) \<or> isPublicWebhookIP x) ips \<noteq> Some ip" for ips
    using assms(3) by (auto simp: NewHTTPSender_def dest!: find_Some_iff2)
  then show ?thesis by (auto simp: DialContext_def split: sum.splits option.splits)
qed

lemma dial_never_private_witness:
  "DialContext (NewHTTPSender (\<lambda>_. Inr [[10, 0, 0, 7]]) \<lparr>ho_Timeout = 0, ho_AllowPrivateTargets = False, ho_Resolver = None\<rparr>)
     (\<lambda>_. Inr (''internal'', ''443'')) ''internal:443'' \<noteq> Inr ([10, 0, 0, 7], ''443'')"
  by (rule dial_never_private [of "167772167"]) (simp_all add: nonpublic_blocks_def in_block_def be_bytes4)

section \<open>Endpoint URLs (url.go)\<close>

text \<open>
  \<open>url.Parse\<close> and \<open>net.ParseIP\<close>: what the code reads of a parsed URL.
\<close>

record ParsedURL =
  pu_Scheme :: string
  pu_Host :: string
  pu_User :: "string option"
  pu_Fragment :: string
  pu_Hostname :: string
  pu_String :: string

record UrlLib =
  ul_Parse :: "string \<Rightarrow> ParsedURL option"
  ul_ParseIP :: "string \<Rightarrow> nat list option"

definition invalidEndpoint :: "string \<Rightarrow> go_error" where
  "invalidEndpoint reason = Wrapf reason ErrInvalidEndpoint"

definition isLocalHostname :: "UrlLib \<Rightarrow> string \<Rightarrow> bool" where
  "isLocalHostname lib host = (if EqualFold host ''localhost'' then True
     else case ul_ParseIP lib host of None \<Rightarrow> False | Some ip \<Rightarrow> IsLoopback ip)"

definition validateEndpointURL :: "UrlLib \<Rightarrow> string \<Rightarrow> bool \<Rightarrow> go_error + string" where
  "validateEndpointURL lib raw allowInsecureLocal =
     (let raw = TrimSpace raw in
      if raw = [] then Inl (invalidEndpoint ''url is required'')
      else case ul_Parse lib raw of
        None \<Rightarrow> Inl (invalidEndpoint ''url is invalid'')
      | Some parsed \<Rightarrow>
          if pu_Host parsed = [] \<or> pu_User parsed \<noteq> None \<or> pu_Fragment parsed \<noteq> [] then Inl (invalidEndpoint ''url is invalid'')
          else let host = pu_Hostname parsed in
          if host = [] then Inl (invalidEndpoint ''url is invalid'')
          else if \<not> allowInsecureLocal \<and> EqualFold host ''localhost'' then Inl (invalidEndpoint ''localhost is not allowed'')
          else if \<not> allowInsecureLocal \<and> (case ul_ParseIP lib host of None \<Rightarrow> False | Some ip \<Rightarrow> \<not> isPublicWebhookIP ip)
          then Inl (invalidEndpoint ''private or non-public IP is not allowed'')
          else if pu_Scheme parsed = ''https'' then Inr (pu_String parsed)
          else if pu_Scheme parsed = ''http'' \<and> allowInsecureLocal \<and> isLocalHostname lib host then Inr (pu_String parsed)
          else Inl (invalidEndpoint ''url must use https''))"

text \<open>What an accepted endpoint is.\<close>

definition acceptable :: "UrlLib \<Rightarrow> bool \<Rightarrow> ParsedURL \<Rightarrow> bool" where
  "acceptable lib allowInsecureLocal u \<longleftrightarrow>
     pu_Host u \<noteq> [] \<and> pu_Hostname u \<noteq> [] \<and> pu_User u = None \<and> pu_Fragment u = [] \<and>
     (if allowInsecureLocal then pu_Scheme u = ''https'' \<or> pu_Scheme u = ''http'' \<and> isLocalHostname lib (pu_Hostname u)
      else pu_Scheme u = ''https'' \<and> \<not> EqualFold (pu_Hostname u) ''localhost'' \<and>
        (\<forall>ip. ul_ParseIP lib (pu_Hostname u) = Some ip \<longrightarrow> isPublicWebhookIP ip))"

lemma validate_accepts:
  "validateEndpointURL lib raw local = Inr url \<longleftrightarrow>
     TrimSpace raw \<noteq> [] \<and> (\<exists>u. ul_Parse lib (TrimSpace raw) = Some u \<and> acceptable lib local u \<and> url = pu_String u)"
  by (auto simp: validateEndpointURL_def acceptable_def Let_def split: option.splits)

lemma validate_rejects:
  "validateEndpointURL lib raw local = Inl e \<Longrightarrow> \<exists>reason. e = Wrapf reason ErrInvalidEndpoint"
  by (auto simp: validateEndpointURL_def invalidEndpoint_def Let_def split: option.splits if_splits)

section \<open>Signature and request (http_sender.go)\<close>

definition signWebhook :: "nat list \<Rightarrow> string \<Rightarrow> string \<Rightarrow> string" where
  "signWebhook secret timestamp payload =
     EncodeToString (hmac_sha256 secret (map byte timestamp @ map byte ''.'' @ map byte payload))"

definition VerifySignature :: "nat list \<Rightarrow> string \<Rightarrow> string \<Rightarrow> string \<Rightarrow> bool" where
  "VerifySignature secret timestamp payload header =
     (if \<not> starts_with ''v1='' header then False
      else case DecodeString (drop 3 header) of
        None \<Rightarrow> False
      | Some provided \<Rightarrow> (case DecodeString (signWebhook secret timestamp payload) of
          None \<Rightarrow> False | Some expected \<Rightarrow> provided = expected))"

lemma unhex_Some:
  "unhex c = Some n \<longleftrightarrow> n < 16 \<and> ascii_lower c = hex_digit n"
proof -
  have "unhex (char_of k) = Some n \<longleftrightarrow> n < 16 \<and> ascii_lower (char_of k) = hex_digit n" if "k < 256" for k :: nat
  proof -
    have k: "of_char (char_of k :: char) = k" using that by (simp add: of_char_of take_bit_eq_mod)
    have inj: "char_of i = (char_of j :: char) \<longleftrightarrow> i = j" if "i < 256" "j < 256" for i j :: nat
      using that by (metis mod_less of_char_of take_bit_eq_mod of_char_mod_256 char_of_eq_iff)
    show ?thesis
      using that by (auto simp: unhex_def ascii_lower_def hex_digit_def k Let_def inj)
  qed
  from this [of "byte c"] show ?thesis by (simp add: less_char_def)
qed

lemma byte_pair: "16 * x + y = b \<and> x < 16 \<and> y < 16 \<longleftrightarrow> b < 256 \<and> x = b div 16 \<and> y = b mod 16" for x y b :: nat
  by auto

lemma DecodeString_iff:
  "DecodeString h = Some bs \<longleftrightarrow> list_all (\<lambda>b. b < 256) bs \<and> map ascii_lower h = EncodeToString bs"
proof (induction h arbitrary: bs rule: DecodeString.induct)
  case 1
  then show ?case by (cases bs) (simp_all add: EncodeToString_def hex_byte_def)
next
  case (2 c)
  then show ?case by (cases bs) (auto simp: EncodeToString_def hex_byte_def)
next
  case (3 c d s)
  show ?case
  proof (cases bs)
    case Nil
    then show ?thesis by (auto simp: EncodeToString_def split: option.split)
  next
    case (Cons b bs')
    let ?R = "list_all (\<lambda>b. b < 256) bs' \<and> map ascii_lower s = EncodeToString bs'"
    have IH: "unhex c = Some x \<Longrightarrow> unhex d = Some y \<Longrightarrow> DecodeString s = Some bs' \<longleftrightarrow> ?R" for x y
      using 3 by simp
    have "DecodeString (c # d # s) = Some bs \<longleftrightarrow>
        (\<exists>x y. unhex c = Some x \<and> unhex d = Some y \<and> 16 * x + y = b \<and> DecodeString s = Some bs')"
      by (auto simp: Cons split: option.split)
    also have "\<dots> \<longleftrightarrow> (\<exists>x y. unhex c = Some x \<and> unhex d = Some y \<and> 16 * x + y = b \<and> ?R)" using IH by blast
    also have "\<dots> \<longleftrightarrow> (\<exists>x y. (16 * x + y = b \<and> x < 16 \<and> y < 16) \<and> ascii_lower c = hex_digit x \<and> ascii_lower d = hex_digit y \<and> ?R)"
      unfolding unhex_Some by blast
    also have "\<dots> \<longleftrightarrow> list_all (\<lambda>b. b < 256) bs \<and> map ascii_lower (c # d # s) = EncodeToString bs"
      unfolding byte_pair by (auto simp: Cons EncodeToString_def hex_byte_def)
    finally show ?thesis .
  qed
qed

lemma starts_with_iff: "starts_with p s \<longleftrightarrow> (\<exists>h. s = p @ h)"
  by (auto simp: starts_with_def) (metis append_take_drop_id)

text \<open>
  C39.  The merchant's check accepts exactly the signature that the sender puts in the header: \<open>v1=\<close>
  and the hexadecimal HMAC-SHA-256 of the timestamp, a dot and the payload, in lower or upper case;
  any other header, a truncated or extended one included, is refused.
\<close>

theorem VerifySignature_exact:
  "VerifySignature secret timestamp payload header \<longleftrightarrow>
     (\<exists>h. header = ''v1='' @ h \<and> map ascii_lower h = signWebhook secret timestamp payload)"
proof -
  let ?mac = "hmac_sha256 secret (map byte timestamp @ map byte ''.'' @ map byte payload)"
  have mac: "list_all (\<lambda>b. b < 256) ?mac" by (simp only: list_all_iff hmac_range Ball_def simp_thms) (blast intro: hmac_range)
  have "VerifySignature secret timestamp payload header \<longleftrightarrow> starts_with ''v1='' header \<and> DecodeString (drop 3 header) = Some ?mac"
    using DecodeString_EncodeToString [OF mac] by (simp add: VerifySignature_def signWebhook_def split: option.split)
  also have "\<dots> \<longleftrightarrow> (\<exists>h. header = ''v1='' @ h \<and> map ascii_lower h = EncodeToString ?mac)"
    unfolding DecodeString_iff starts_with_iff using mac by auto
  finally show ?thesis by (simp add: signWebhook_def)
qed

text \<open>
  The request of a delivery, and the HTTP client: whether the URL makes a request, what comes of it,
  and the time it took.  The transport's dialer is \<open>DialContext\<close>; redirects are not followed, so the
  status is that of the endpoint itself.
\<close>

record HTTPRequest =
  hq_Method :: string
  hq_URL :: string
  hq_Header :: "(string \<times> string) list"
  hq_Body :: string

record NetError =
  ne_Is :: "go_error \<Rightarrow> bool"
  ne_Error :: string
  ne_Timeout :: bool

record HTTPClient =
  hc_NewRequest :: "string \<Rightarrow> bool"
  hc_Do :: "nat \<Rightarrow> HTTPRequest \<Rightarrow> NetError + int"
  hc_Since :: "nat \<Rightarrow> Duration"

fun Contains :: "string \<Rightarrow> string \<Rightarrow> bool" where
  "Contains [] sub = (sub = [])"
| "Contains (c # s) sub = (starts_with sub (c # s) \<or> Contains s sub)"

definition classifyNetworkError :: "NetError \<Rightarrow> string" where
  "classifyNetworkError err =
     (if ne_Is err errTargetNotPublic \<or> Contains (ne_Error err) ''webhook target is not public'' then ''target_not_public''
      else if ne_Timeout err then ''request_timeout''
      else ''network_error'')"

definition httpRequest :: "SendRequest \<Rightarrow> HTTPRequest" where
  "httpRequest request = (let timestamp = Itoa (Unix (sr_Now request)) in
     \<lparr>hq_Method = ''POST'', hq_URL = sr_URL request,
      hq_Header = [(''Content-Type'', ''application/json''), (''User-Agent'', ''Conver-Pay-Webhooks/1.0''),
        (''Conver-Pay-Event-ID'', sr_EventID request), (''Conver-Pay-Timestamp'', timestamp),
        (''Conver-Pay-Signature'', ''v1='' @ signWebhook (sr_Secret request) timestamp (sr_Payload request))],
      hq_Body = sr_Payload request\<rparr>)"

definition HTTPSender_Send :: "HTTPClient \<Rightarrow> nat \<Rightarrow> SendRequest \<Rightarrow> SendResult" where
  "HTTPSender_Send client n request =
     (if \<not> hc_NewRequest client (sr_URL request)
      then \<lparr>sn_HTTPStatus = None, sn_Latency = hc_Since client n, sn_ErrorCode = ''invalid_url''\<rparr>
      else case hc_Do client n (httpRequest request) of
        Inl err \<Rightarrow> \<lparr>sn_HTTPStatus = None, sn_Latency = hc_Since client n, sn_ErrorCode = classifyNetworkError err\<rparr>
      | Inr status \<Rightarrow> \<lparr>sn_HTTPStatus = Some status, sn_Latency = hc_Since client n, sn_ErrorCode = []\<rparr>)"

end
