(* ===== verification/Postgres.thy ===== *)
theory Postgres
  imports Webhook "HOL-Library.Product_Lexorder"
begin

text \<open>
  The database behind \<open>store/postgres\<close>, with the tables of \<open>migrations/\<close>.

  A table is the list of its rows in the order of their insertion; a row is the record that the code
  scans it into, or a record of its columns where the code has none (\<open>Delivery\<close>, \<open>DeliveryAttempt\<close>,
  \<open>ApiKey\<close>).  A statement runs alone (\<open>statement\<close>) and so does a transaction (\<open>transaction\<close>), which leaves
  the tables as they were when it fails.  Any statement may fail: \<open>db_faults\<close> says for each statement
  to come whether it does (a broken connection, a value that the column's type refuses), and an
  exhausted list means that no rest faults; a failed statement or commit changes no table.

  An insertion checks the constraints of its table (\<open>constraint\<close>); an update by primary key concerns
  the row with that key (\<open>update_first\<close>).  A \<open>TIMESTAMPTZ\<close> has microseconds (\<open>pg_time\<close>).  Ids are ordered
  bytewise.
\<close>

section \<open>Tables\<close>

record Delivery =
  dl_ID :: string
  dl_EventID :: string
  dl_EndpointID :: string
  dl_Status :: DeliveryStatus
  dl_AttemptCount :: int
  dl_NextAttemptAt :: Time
  dl_LockedBy :: string
  dl_LockedUntil :: "Time option"
  dl_LastAttemptAt :: "Time option"
  dl_DeliveredAt :: "Time option"
  dl_LastHTTPStatus :: "int option"
  dl_LastErrorCode :: string
  dl_CreatedAt :: Time
  dl_UpdatedAt :: Time

record DeliveryAttempt =
  da_ID :: string
  da_DeliveryID :: string
  da_Sequence :: int
  da_StartedAt :: Time
  da_CompletedAt :: Time
  da_HTTPStatus :: "int option"
  da_LatencyMS :: int
  da_ErrorCode :: string

record ApiKey =
  ak_ID :: string
  ak_WorkspaceID :: string
  ak_Environment :: Environment
  ak_SecretHash :: "nat list"
  ak_Active :: bool

record PgDB =
  db_connections :: "ProviderConnection list"
  db_credentials :: "(string \<times> string) list"
  db_payments :: "PaymentIntent list"
  db_attempts :: "PaymentAttempt list"
  db_decisions :: "RoutingDecision list"
  db_recoveries :: "RecoveryEvent list"
  db_providerEvents :: "ProviderEvent list"
  db_merchantEvents :: "MerchantEvent list"
  db_apiKeys :: "ApiKey list"
  db_endpoints :: "Endpoint list"
  db_deliveries :: "Delivery list"
  db_deliveryAttempts :: "DeliveryAttempt list"
  db_snapshots :: "ProviderHealthSnapshot list"
  db_faults :: "bool list"

type_synonym 'a sql = "(PgDB, go_error, 'a) prog"

definition empty_db :: PgDB where
  "empty_db = \<lparr>db_connections = [], db_credentials = [], db_payments = [], db_attempts = [], db_decisions = [],
     db_recoveries = [], db_providerEvents = [], db_merchantEvents = [], db_apiKeys = [], db_endpoints = [],
     db_deliveries = [], db_deliveryAttempts = [], db_snapshots = [], db_faults = []\<rparr>"

definition pg_time :: "Time \<Rightarrow> Time" where
  "pg_time t = t div 1000 * 1000"

lemma pg_time_idem [simp]: "pg_time (pg_time t) = pg_time t"
  by (simp add: pg_time_def)

lemma pg_time_mono: "s \<le> t \<Longrightarrow> pg_time s \<le> pg_time t"
  by (simp add: pg_time_def zdiv_mono1)

section \<open>Statements and transactions\<close>

definition pg_fault :: go_error where
  "pg_fault = Errorf ''postgres: connection failure''"

definition constraint :: "(go_error \<Rightarrow> go_error) \<Rightarrow> 'a sql" where
  "constraint wrap = throwE (wrap (Errorf ''postgres: constraint violation''))"

definition statement :: "(go_error \<Rightarrow> go_error) \<Rightarrow> 'a sql \<Rightarrow> 'a sql" where
  "statement wrap m db = (let db' = db\<lparr>db_faults := tl (db_faults db)\<rparr> in
     if db_faults db \<noteq> [] \<and> hd (db_faults db) then (Inl (wrap pg_fault), db') else m db')"

definition transaction :: "(go_error \<Rightarrow> go_error) \<Rightarrow> (go_error \<Rightarrow> go_error) \<Rightarrow> 'a sql \<Rightarrow> 'a sql" where
  "transaction wrapBegin wrapCommit m db =
     (case bindE (statement wrapBegin (returnE ())) (\<lambda>_. bindE m (\<lambda>x. bindE (statement wrapCommit (returnE ())) (\<lambda>_. returnE x))) db of
        (Inl e, db') \<Rightarrow> (Inl e, db\<lparr>db_faults := db_faults db'\<rparr>)
      | (Inr x, db') \<Rightarrow> (Inr x, db'))"

text \<open>\<open>UPDATE \<dots> WHERE key = k\<close> on a key of the table.\<close>

fun update_first :: "('r \<Rightarrow> bool) \<Rightarrow> ('r \<Rightarrow> 'r) \<Rightarrow> 'r list \<Rightarrow> 'r list" where
  "update_first P f [] = []"
| "update_first P f (r # rs) = (if P r then f r # rs else r # update_first P f rs)"

text \<open>What a failed statement leaves: the tables.\<close>

definition tables :: "PgDB \<Rightarrow> PgDB" where
  "tables db = db\<lparr>db_faults := []\<rparr>"

definition keeps_tables :: "'a sql \<Rightarrow> bool" where
  "keeps_tables m \<longleftrightarrow> (\<forall>db e db'. m db = (Inl e, db') \<longrightarrow> tables db' = tables db)"

lemma tables_faults [simp]: "tables (db\<lparr>db_faults := fs\<rparr>) = tables db"
  by (simp add: tables_def)

lemma tables_eqD:
  assumes "tables db = tables db'"
  shows "db_connections db = db_connections db'" "db_credentials db = db_credentials db'" "db_payments db = db_payments db'"
    "db_attempts db = db_attempts db'" "db_decisions db = db_decisions db'" "db_recoveries db = db_recoveries db'"
    "db_providerEvents db = db_providerEvents db'" "db_merchantEvents db = db_merchantEvents db'" "db_apiKeys db = db_apiKeys db'"
    "db_endpoints db = db_endpoints db'" "db_deliveries db = db_deliveries db'" "db_deliveryAttempts db = db_deliveryAttempts db'"
    "db_snapshots db = db_snapshots db'"
  using assms by (cases db; cases db'; simp add: tables_def)+

lemma keeps_statement: "keeps_tables m \<Longrightarrow> keeps_tables (statement wrap m)"
  by (auto simp: keeps_tables_def statement_def Let_def split: if_splits)

lemma keeps_transaction: "keeps_tables (transaction b c m)"
  by (auto simp: keeps_tables_def transaction_def split: prod.splits sum.splits)

text \<open>Rules for statements: a fault, or the body.\<close>

lemma statement_Inr: "statement wrap m db = (Inr x, db') \<Longrightarrow> m (db\<lparr>db_faults := tl (db_faults db)\<rparr>) = (Inr x, db')"
  by (simp add: statement_def Let_def split: if_splits)

lemma statement_Inl: "statement wrap m db = (Inl e, db') \<Longrightarrow>
   db' = db\<lparr>db_faults := tl (db_faults db)\<rparr> \<or> m (db\<lparr>db_faults := tl (db_faults db)\<rparr>) = (Inl e, db')"
  by (simp add: statement_def Let_def split: if_splits)

lemma statement_no_faults: "db_faults db = [] \<Longrightarrow> statement wrap m db = m db"
  by (cases db) (simp add: statement_def Let_def)

lemma transaction_Inr:
  assumes "transaction b c m db = (Inr x, db')"
  obtains fs fs' db1 where "m (db\<lparr>db_faults := fs\<rparr>) = (Inr x, db1)" and "db' = db1\<lparr>db_faults := fs'\<rparr>"
  using assms by (auto simp: transaction_def prog_defs statement_def Let_def split: prod.splits sum.splits if_splits)

section \<open>Statements along a relation of databases\<close>

text \<open>A preorder that does not look at the faults to come.\<close>

locale sql_relation = state_preorder R for R :: "PgDB \<Rightarrow> PgDB \<Rightarrow> bool" +
  assumes faults [simp]: "R (db\<lparr>db_faults := fs\<rparr>) db' = R db db'" "R db (db'\<lparr>db_faults := fs\<rparr>) = R db db'"
begin

lemma along_constraint [along_intros]: "along R (constraint wrap)"
  unfolding constraint_def by (rule along_basic)

lemma along_statement:
  assumes "\<And>db. R db (snd (m db))"
  shows "along R (statement wrap m)"
proof (rule alongI)
  fix db show "R db (snd (statement wrap m db))"
    using assms [of "db\<lparr>db_faults := tl (db_faults db)\<rparr>"] by (simp add: statement_def Let_def refl)
qed

lemma along_transaction [along_intros]:
  assumes "along R m"
  shows "along R (transaction b c m)"
proof (rule alongI)
  fix db
  let ?m = "bindE (statement b (returnE ())) (\<lambda>_. bindE m (\<lambda>x. bindE (statement c (returnE ())) (\<lambda>_. returnE x)))"
  have empty: "along R (statement wrap (returnE ()))" for wrap by (rule along_statement) (simp add: returnE_def refl)
  have "along R ?m" by (intro along_intros assms empty)
  then show "R db (snd (transaction b c m db))"
    using alongD [of R ?m db] by (auto simp: transaction_def refl split: prod.split sum.split)
qed

end

section \<open>Rows\<close>

lemma find_update_same:
  assumes "\<And>r. find P rs = Some r \<Longrightarrow> Q (f r) = Q r \<and> g (f r) = g r"
  shows "map_option g (find Q (update_first P f rs)) = map_option g (find Q rs)"
  using assms by (induction rs) auto

lemma find_update_key:
  assumes "\<And>r. key (f r) = key r"
  shows "find (\<lambda>r. key r = j) (update_first (\<lambda>r. key r = i) f rs) =
    map_option (\<lambda>r. if i = j then f r else r) (find (\<lambda>r. key r = j) rs)"
  using assms by (induction rs) (auto simp: option.map_ident)

lemma update_first_map:
  assumes "\<And>r. r \<in> set rs \<Longrightarrow> P r \<Longrightarrow> g (f r) = g r"
  shows "map g (update_first P f rs) = map g rs"
  using assms by (induction rs) auto

lemma update_first_none: "find P rs = None \<Longrightarrow> update_first P f rs = rs"
  by (induction rs) (auto split: if_splits)

lemma find_append: "find P (xs @ ys) = (case find P xs of None \<Rightarrow> find P ys | Some x \<Rightarrow> Some x)"
  by (induction xs) auto

lemma find_None_ex: "find P rs = None \<longleftrightarrow> \<not> list_ex P rs"
  by (induction rs) auto

lemma insort_snoc: "f x \<le> f a \<Longrightarrow> insort_key f x (ys @ [a]) = insort_key f x ys @ [a]"
  by (induction ys) simp_all

lemma sort_key_snoc: "(\<And>x. x \<in> set xs \<Longrightarrow> f x \<le> f a) \<Longrightarrow> sort_key f (xs @ [a]) = sort_key f xs @ [a]"
  by (induction xs) (simp_all add: insort_snoc)

text \<open>Columns of a selection that an update does not touch.\<close>

lemma select_columns:
  assumes "map (\<lambda>r. (c r, w r, k r)) xs = map (\<lambda>r. (c r, w r, k r)) ys"
  shows "map c (sort_key k (filter (\<lambda>r. w r = i) xs)) = map c (sort_key k (filter (\<lambda>r. w r = i) ys))"
proof -
  let ?g = "\<lambda>r. (c r, w r, k r)" and ?k = "\<lambda>(_, _, s). s" and ?w = "\<lambda>(_, j, _). j = i"
  have "map c (sort_key k (filter (\<lambda>r. w r = i) rs)) = map fst (sort_key ?k (filter ?w (map ?g rs)))" for rs
  proof -
    have "map fst (sort_key ?k (filter ?w (map ?g rs))) = map fst (sort_key ?k (map ?g (filter (\<lambda>r. w r = i) rs)))"
      by (simp add: filter_map comp_def)
    also have "\<dots> = map fst (map ?g (sort_key (\<lambda>r. ?k (?g r)) (filter (\<lambda>r. w r = i) rs)))"
      by (rule arg_cong [OF map_sort [symmetric]])
    finally show ?thesis by (simp add: comp_def)
  qed
  then show ?thesis using assms by simp
qed

end
