(* ===== verification/PgTelemetry.thy ===== *)
theory PgTelemetry
  imports Telemetry Postgres
begin

text \<open>
  The contract between routing telemetry and its repository (the locale
  \<open>telemetry_repository\<close>), what \<open>Refresh\<close> does to the circuits under it, and the PostgreSQL store
  that provides it (\<open>store/postgres/routing_telemetry.go\<close>).

  \<open>provider_health_snapshots\<close> is in the order of its serial id, and a zero \<open>RequestStartedAt\<close> is NULL.  The latency percentiles of the aggregate query are PostgreSQL's \<open>percentile_cont\<close>, a parameter
  here; the constraints of the snapshot table are \<open>snapshot_row_ok\<close>.
\<close>

section \<open>The contract\<close>

locale telemetry_repository =
  fixes repo :: "'s TelemetryRepository"
    and circuit :: "'s \<Rightarrow> string \<Rightarrow> (CircuitState \<times> Time option) option"
    and snaps :: "'s \<Rightarrow> ProviderHealthSnapshot list"
    and latest :: "'s \<Rightarrow> string \<Rightarrow> Time \<Rightarrow> AttemptStatus option"
    and stamp :: "Time \<Rightarrow> Time"
    and row :: "ProviderHealthSnapshot \<Rightarrow> ProviderHealthSnapshot"
  assumes Update_value: "UpdateProviderCircuit repo i st t s = (Inr u, s') \<Longrightarrow>
      circuit s' = (circuit s)(i \<mapsto> (st, map_option stamp t)) \<and> snaps s' = snaps s \<and> latest s' = latest s"
    and Update_error: "UpdateProviderCircuit repo i st t s = (Inl e, s') \<Longrightarrow>
      circuit s' = circuit s \<and> snaps s' = snaps s \<and> latest s' = latest s"
    and Latest_value: "LatestProviderAttemptSince repo i since s = (Inr a, s') \<Longrightarrow> latest s i since = Some (pa_Status a)"
    and Latest_state: "LatestProviderAttemptSince repo i since s = (r1, s') \<Longrightarrow>
      circuit s' = circuit s \<and> snaps s' = snaps s \<and> latest s' = latest s"
    and Aggregate_state: "AggregateProviderHealth repo i t1 t2 s = (r2, s') \<Longrightarrow>
      circuit s' = circuit s \<and> snaps s' = snaps s \<and> latest s' = latest s"
    and Save_value: "SaveProviderHealthSnapshot repo p s = (Inr u, s') \<Longrightarrow>
      circuit s' = circuit s \<and> snaps s' = snaps s @ [row p] \<and> latest s' = latest s"
    and Save_error: "SaveProviderHealthSnapshot repo p s = (Inl e, s') \<Longrightarrow>
      circuit s' = circuit s \<and> snaps s' = snaps s \<and> latest s' = latest s"
    and Recent_value: "ListRecentProviderHealthSnapshots repo i n s = (Inr ps, s') \<Longrightarrow>
      set ps \<subseteq> {p \<in> set (snaps s). ph_ProviderConnectionID p = i}"
    and Recent_state: "ListRecentProviderHealthSnapshots repo i n s = (r3, s') \<Longrightarrow>
      circuit s' = circuit s \<and> snaps s' = snaps s \<and> latest s' = latest s"
    and row_id: "ph_ProviderConnectionID (row p) = ph_ProviderConnectionID p"
    and row_unhealthy: "unhealthy (row p) m = unhealthy p m"

text \<open>
  The evidence for a transition of a circuit: it opens on two unhealthy snapshots of the connection
  on record, the older observed within the window, or on a failed probe; it becomes half open
  after the cooldown; it closes only on a successful attempt since it opened.  \<open>rows\<close> are the
  stored snapshots, oldest first, and \<open>probe\<close> gives the status of the newest attempt since a time.
\<close>

definition two_unhealthy :: "'s TelemetryService \<Rightarrow> string \<Rightarrow> Time \<Rightarrow> ProviderHealthSnapshot list \<Rightarrow> bool" where
  "two_unhealthy sv i now rows \<longleftrightarrow> (\<exists>older current newer previous. rows = older @ current # newer \<and> previous \<in> set older \<and>
     ph_ProviderConnectionID current = i \<and> ph_ProviderConnectionID previous = i \<and>
     unhealthy current (ts_minimumSamples sv) \<and> unhealthy previous (ts_minimumSamples sv) \<and>
     now - ts_window sv \<le> ph_ObservedAt previous)"

definition breaker_evidence ::
  "(Time \<Rightarrow> Time) \<Rightarrow> 's TelemetryService \<Rightarrow> Time \<Rightarrow> ProviderHealthSnapshot list \<Rightarrow> (Time \<Rightarrow> AttemptStatus option) \<Rightarrow> string \<Rightarrow>
   CircuitState \<times> Time option \<Rightarrow> CircuitState \<times> Time option \<Rightarrow> bool" where
  "breaker_evidence stamp sv now rows probe i before after \<longleftrightarrow> (case before of
     (CircuitClosed, _) \<Rightarrow> after = (CircuitOpen, Some (stamp now)) \<and> two_unhealthy sv i now rows
   | (CircuitOpen, Some openedAt) \<Rightarrow>
       after = (CircuitHalfOpen, Some (stamp openedAt)) \<and> openedAt + ts_circuitCooldown sv \<le> now
   | (CircuitHalfOpen, None) \<Rightarrow> after = (CircuitOpen, Some (stamp now))
   | (CircuitHalfOpen, Some openedAt) \<Rightarrow>
       after = (CircuitClosed, None) \<and> probe openedAt = Some AttemptStatusSucceeded \<or>
       after = (CircuitOpen, Some (stamp now)) \<and>
         probe openedAt \<in> {Some AttemptStatusFailedSafe, Some AttemptStatusFailedTerminal, Some AttemptStatusUnknown}
   | _ \<Rightarrow> False)"

lemma two_unhealthy_append: "two_unhealthy sv i now rows \<Longrightarrow> two_unhealthy sv i now (rows @ rest)"
  by (fastforce simp: two_unhealthy_def)

lemma breaker_evidence_append:
  "breaker_evidence stamp sv now rows probe i before after \<Longrightarrow> breaker_evidence stamp sv now (rows @ rest) probe i before after"
  by (auto simp: breaker_evidence_def two_unhealthy_append split: CircuitState.splits option.splits)

context telemetry_repository
begin

text \<open>What a step for the connections \<open>conns\<close> does, from \<open>s\<close> to \<open>s'\<close>.\<close>

definition moves :: "'s TelemetryService \<Rightarrow> Time \<Rightarrow> ProviderConnection list \<Rightarrow> 's \<Rightarrow> 's \<Rightarrow> bool" where
  "moves sv now conns s s' \<longleftrightarrow> latest s' = latest s \<and> (\<exists>rest. snaps s' = snaps s @ rest) \<and>
     (\<forall>i. circuit s' i = circuit s i \<or> (\<exists>c \<in> set conns. pc_ID c = i \<and> (\<exists>after. circuit s' i = Some after \<and>
       breaker_evidence stamp sv now (snaps s') (latest s i) i (pc_Circuit c, pc_CircuitOpenedAt c) after)))"

lemma moves_keep: "circuit s' = circuit s \<and> snaps s' = snaps s \<and> latest s' = latest s \<Longrightarrow> moves sv now conns s s'"
  by (simp add: moves_def)

lemma moves_trans:
  assumes "moves sv now cs s s1" and "moves sv now ds s1 s2" and "set cs \<subseteq> set es" and "set ds \<subseteq> set es"
  shows "moves sv now es s s2"
proof -
  from assms(1,2) have l: "latest s1 = latest s" "latest s2 = latest s" by (simp_all add: moves_def)
  from assms(2) obtain rest where rest: "snaps s2 = snaps s1 @ rest" by (auto simp: moves_def)
  show ?thesis
    unfolding moves_def
  proof (intro conjI allI)
    show "latest s2 = latest s" by fact
    show "\<exists>rest. snaps s2 = snaps s @ rest" using assms(1) rest by (auto simp: moves_def)
    show "circuit s2 i = circuit s i \<or> (\<exists>c \<in> set es. pc_ID c = i \<and> (\<exists>after. circuit s2 i = Some after \<and>
        breaker_evidence stamp sv now (snaps s2) (latest s i) i (pc_Circuit c, pc_CircuitOpenedAt c) after))" for i
    proof (cases "circuit s2 i = circuit s1 i")
      case True
      then show ?thesis using assms(1,3) unfolding moves_def rest by (metis breaker_evidence_append subsetD)
    next
      case False
      then show ?thesis using assms(2,4) unfolding moves_def l by (metis subsetD)
    qed
  qed
qed

lemma wp_update:
  assumes e: "breaker_evidence stamp sv now (snaps s) (latest s (pc_ID c)) (pc_ID c) (pc_Circuit c, pc_CircuitOpenedAt c)
      (st, map_option stamp t)"
  shows "wp (UpdateProviderCircuit repo (pc_ID c) st t) (\<lambda>_. moves sv now [c] s) (\<lambda>_. moves sv now [c] s) s"
  by (rule wpI) (use e in \<open>auto simp: moves_def dest!: Update_value Update_error split: if_splits\<close>)

lemma wp_noop: "wp (returnE ()) (\<lambda>_. moves sv now conns s) (\<lambda>_. moves sv now conns s) s"
  by (simp add: wp_return moves_def)

lemma wp_onProbe:
  assumes "ts_repo sv = repo" and "pc_Circuit c = CircuitHalfOpen" and "pc_CircuitOpenedAt c = Some openedAt"
    and "latest s (pc_ID c) openedAt = Some (pa_Status a)"
  shows "wp (onProbe sv c now a) (\<lambda>_. moves sv now [c] s) (\<lambda>_. moves sv now [c] s) s"
  unfolding onProbe_def assms(1)
  by (cases "pa_Status a") (auto intro!: wp_update wp_noop simp: breaker_evidence_def assms)

lemma evaluateCircuit_moves:
  assumes sv: "ts_repo sv = repo"
    and two: "\<And>p. unhealthy current (ts_minimumSamples sv) \<Longrightarrow> p \<in> set previous \<Longrightarrow> unhealthy p (ts_minimumSamples sv) \<Longrightarrow>
      now - ts_window sv \<le> ph_ObservedAt p \<Longrightarrow> two_unhealthy sv (pc_ID c) now (snaps s)"
  shows "wp (evaluateCircuit sv c current previous now) (\<lambda>_. moves sv now [c] s) (\<lambda>_. moves sv now [c] s) s"
proof (cases "pc_Circuit c")
  case CircuitClosed
  then show ?thesis
    using two [of "hd previous"]
    by (cases previous) (auto simp: evaluateCircuit_def sv breaker_evidence_def not_less intro!: wp_update wp_noop)
next
  case CircuitOpen
  then show ?thesis
    by (auto simp: evaluateCircuit_def sv breaker_evidence_def not_less intro!: wp_update wp_noop split: option.split)
next
  case CircuitHalfOpen
  show ?thesis
  proof (cases "pc_CircuitOpenedAt c")
    case None
    then show ?thesis using CircuitHalfOpen
      by (auto simp: evaluateCircuit_def sv breaker_evidence_def intro!: wp_update)
  next
    case (Some openedAt)
    have "wp (LatestProviderAttemptSince repo (pc_ID c) openedAt)
        (\<lambda>a. wp (onProbe sv c now a) (\<lambda>_. moves sv now [c] s) (\<lambda>_. moves sv now [c] s)) (\<lambda>_. moves sv now [c] s) s"
    proof (rule wpI)
      fix a s1 assume l: "LatestProviderAttemptSince repo (pc_ID c) openedAt s = (Inr a, s1)"
      note same = Latest_state [OF l]
      have "wp (onProbe sv c now a) (\<lambda>_. moves sv now [c] s1) (\<lambda>_. moves sv now [c] s1) s1"
        by (rule wp_onProbe [OF sv CircuitHalfOpen Some]) (use same Latest_value [OF l] in simp)
      then show "wp (onProbe sv c now a) (\<lambda>_. moves sv now [c] s) (\<lambda>_. moves sv now [c] s) s1"
        unfolding moves_def using same by (elim wp_weaken) simp_all
    qed (auto intro!: moves_keep dest: Latest_state)
    then show ?thesis using CircuitHalfOpen Some
      by (simp add: evaluateCircuit_def sv wp_bind wp_try) (erule wp_weaken; simp add: wp_return wp_throw)
  qed
qed (simp add: evaluateCircuit_def wp_noop)

lemma refreshOne_moves:
  assumes sv: "ts_repo sv = repo"
  shows "wp (refreshOne sv now c) (\<lambda>_. moves sv now [c] s) (\<lambda>_. moves sv now [c] s) s"
  unfolding refreshOne_def Let_def wp_bind sv wp_return
proof (rule wpI)
  fix previous s1 assume l1: "ListRecentProviderHealthSnapshots repo (pc_ID c) 1 s = (Inr previous, s1)"
  note s1 = Recent_state [OF l1]
  show "wp (AggregateProviderHealth repo (pc_ID c) (now - ts_window sv) now) (\<lambda>x. wp (SaveProviderHealthSnapshot repo (observed sv c now x))
      (\<lambda>_. wp (evaluateCircuit sv c (observed sv c now x) previous now) (\<lambda>_. moves sv now [c] s) (\<lambda>_. moves sv now [c] s))
      (\<lambda>_. moves sv now [c] s)) (\<lambda>_. moves sv now [c] s) s1"
  proof (rule wpI)
    fix x s2 assume "AggregateProviderHealth repo (pc_ID c) (now - ts_window sv) now s1 = (Inr x, s2)"
    note s2 = Aggregate_state [OF this]
    show "wp (SaveProviderHealthSnapshot repo (observed sv c now x))
      (\<lambda>_. wp (evaluateCircuit sv c (observed sv c now x) previous now) (\<lambda>_. moves sv now [c] s) (\<lambda>_. moves sv now [c] s))
      (\<lambda>_. moves sv now [c] s) s2"
    proof (rule wpI)
      fix u s3 assume "SaveProviderHealthSnapshot repo (observed sv c now x) s2 = (Inr u, s3)"
      note s3 = Save_value [OF this]
      have "wp (evaluateCircuit sv c (observed sv c now x) previous now) (\<lambda>_. moves sv now [c] s3) (\<lambda>_. moves sv now [c] s3) s3"
      proof (rule evaluateCircuit_moves [OF sv])
        fix p assume "unhealthy (observed sv c now x) (ts_minimumSamples sv)" "p \<in> set previous" "unhealthy p (ts_minimumSamples sv)"
          "now - ts_window sv \<le> ph_ObservedAt p"
        then show "two_unhealthy sv (pc_ID c) now (snaps s3)"
          unfolding two_unhealthy_def using Recent_value [OF l1] s1 s2 s3
          by (intro exI [of _ "snaps s"] exI [of _ "row (observed sv c now x)"] exI [of _ "[]"] exI [of _ p]) (auto simp: row_id row_unhealthy)
      qed
      moreover have "moves sv now [] s s3" using s1 s2 s3 by (simp add: moves_def)
      ultimately show "wp (evaluateCircuit sv c (observed sv c now x) previous now) (\<lambda>_. moves sv now [c] s) (\<lambda>_. moves sv now [c] s) s3"
        by (elim wp_weaken) (auto elim: moves_trans)
    qed (use s1 s2 in \<open>auto intro!: moves_keep dest: Save_error\<close>)
  qed (use s1 in \<open>auto intro!: moves_keep dest: Aggregate_state\<close>)
qed (auto intro!: moves_keep dest: Recent_state)

lemma refreshLoop_moves:
  assumes sv: "ts_repo sv = repo"
  shows "wp (refreshLoop sv env now conns result) (\<lambda>_. moves sv now (filter (\<lambda>c. pc_Environment c = env) conns) s)
    (\<lambda>_. moves sv now (filter (\<lambda>c. pc_Environment c = env) conns) s) s"
proof (induction conns arbitrary: s result)
  case Nil
  then show ?case by (simp add: wp_return moves_def)
next
  case (Cons c conns)
  show ?case
  proof (cases "pc_Environment c = env")
    case True
    let ?P = "moves sv now (c # filter (\<lambda>c. pc_Environment c = env) conns) s"
    have "wp (refreshOne sv now c)
        (\<lambda>snapshot. wp (refreshLoop sv env now conns (AList.update (pc_ID c) snapshot result)) (\<lambda>_. ?P) (\<lambda>_. ?P)) (\<lambda>_. ?P) s"
    proof (rule wp_weaken [OF refreshOne_moves [OF sv]])
      fix snapshot s1 assume s1: "moves sv now [c] s s1"
      show "wp (refreshLoop sv env now conns (AList.update (pc_ID c) snapshot result)) (\<lambda>_. ?P) (\<lambda>_. ?P) s1"
        by (rule wp_weaken [OF Cons.IH]; erule moves_trans [OF s1]) auto
    qed (erule moves_trans [OF _ moves_keep, where ds = "[]"], auto)
    then show ?thesis using True by (simp add: wp_bind)
  qed (use Cons.IH in simp)
qed

end

section \<open>The store\<close>

text \<open>The percentiles: the fraction and the latencies in milliseconds, unordered; never empty.\<close>

type_synonym percentile = "rat \<Rightarrow> float64 list \<Rightarrow> float64"

definition in_window :: "string \<Rightarrow> Time \<Rightarrow> Time \<Rightarrow> PaymentAttempt \<Rightarrow> bool" where
  "in_window connectionID windowStart windowEnd a \<longleftrightarrow> pa_ProviderConnectionID a = connectionID \<and>
     pa_RequestStartedAt a \<noteq> 0 \<and> pg_time windowStart \<le> pa_RequestStartedAt a \<and> pa_RequestStartedAt a < pg_time windowEnd"

definition latencies :: "PaymentAttempt list \<Rightarrow> float64 list" where
  "latencies as = List.map_filter (\<lambda>a. map_option (\<lambda>t. rnd64 (of_int (t - pa_RequestStartedAt a) / 1000000)) (pa_ResponseReceivedAt a)) as"

definition percentile_or_0 :: "percentile \<Rightarrow> rat \<Rightarrow> float64 list \<Rightarrow> float64" where
  "percentile_or_0 percentile_cont p xs = (if xs = [] then 0 else percentile_cont p xs)"

definition count :: "AttemptStatus list \<Rightarrow> PaymentAttempt list \<Rightarrow> int" where
  "count statuses as = int (length (filter (\<lambda>a. pa_Status a \<in> set statuses) as))"

definition pg_AggregateProviderHealth ::
  "percentile \<Rightarrow> string \<Rightarrow> Time \<Rightarrow> Time \<Rightarrow> ProviderHealthSnapshot sql" where
  "pg_AggregateProviderHealth percentile_cont connectionID windowStart windowEnd =
     statement (Wrapf ''aggregate provider health'') (\<lambda>db.
       let as = filter (in_window connectionID windowStart windowEnd) (db_attempts db);
           n = int (length as);
           successCount = count [AttemptStatusSucceeded] as;
           errorCount = count [AttemptStatusFailedSafe, AttemptStatusFailedTerminal] as;
           timeoutCount = count [AttemptStatusUnknown] as;
           rate = (\<lambda>k. if n > 0 then fdiv (fint k) (fint n) else 0)
       in (Inr \<lparr>ph_ProviderConnectionID = connectionID, ph_WindowStart = 0, ph_WindowEnd = 0, ph_SampleCount = n,
         ph_QRSuccessCount = successCount, ph_ErrorCount = errorCount, ph_TimeoutCount = timeoutCount,
         ph_QRSuccessRate = rate successCount, ph_ErrorRate = rate errorCount, ph_TimeoutRate = rate timeoutCount,
         ph_LatencyP50MS = percentile_or_0 percentile_cont (50/100) (latencies as),
         ph_LatencyP95MS = percentile_or_0 percentile_cont (95/100) (latencies as),
         ph_HealthScore = 0, ph_ScoreVersion = [], ph_ObservedAt = 0\<rparr>, db))"

definition unit_range :: "float64 \<Rightarrow> bool" where
  "unit_range x \<longleftrightarrow> 0 \<le> x \<and> x \<le> 1"

definition snapshot_row_ok :: "PgDB \<Rightarrow> ProviderHealthSnapshot \<Rightarrow> bool" where
  "snapshot_row_ok db p \<longleftrightarrow> list_ex (\<lambda>c. pc_ID c = ph_ProviderConnectionID p) (db_connections db) \<and>
     0 \<le> ph_SampleCount p \<and> 0 \<le> ph_QRSuccessCount p \<and> 0 \<le> ph_ErrorCount p \<and> 0 \<le> ph_TimeoutCount p \<and>
     unit_range (ph_QRSuccessRate p) \<and> unit_range (ph_ErrorRate p) \<and> unit_range (ph_TimeoutRate p) \<and>
     0 \<le> ph_LatencyP50MS p \<and> 0 \<le> ph_LatencyP95MS p \<and> unit_range (ph_HealthScore p)"

definition snapshot_row :: "ProviderHealthSnapshot \<Rightarrow> ProviderHealthSnapshot" where
  "snapshot_row p = p\<lparr>ph_WindowStart := pg_time (ph_WindowStart p), ph_WindowEnd := pg_time (ph_WindowEnd p),
     ph_ObservedAt := pg_time (ph_ObservedAt p)\<rparr>"

definition pg_SaveProviderHealthSnapshot :: "ProviderHealthSnapshot \<Rightarrow> unit sql" where
  "pg_SaveProviderHealthSnapshot p = statement (Wrapf ''save provider health snapshot'') (\<lambda>db.
     if snapshot_row_ok db p then (Inr (), db\<lparr>db_snapshots := db_snapshots db @ [snapshot_row p]\<rparr>)
     else (Inl (Wrapf ''save provider health snapshot'' (Errorf ''constraint violation'')), db))"

definition pg_ListRecentProviderHealthSnapshots ::
  "string \<Rightarrow> int \<Rightarrow> ProviderHealthSnapshot list sql" where
  "pg_ListRecentProviderHealthSnapshots connectionID limit =
     (if limit \<le> 0 then returnE []
      else statement (Wrapf ''list provider health snapshots'') (\<lambda>db.
        (Inr (take (nat limit) (sort_key (\<lambda>p. - ph_ObservedAt p)
           (rev (filter (\<lambda>p. ph_ProviderConnectionID p = connectionID) (db_snapshots db))))), db)))"

text \<open>\<open>ORDER BY request_started_at DESC, id DESC LIMIT 1\<close>.\<close>

definition newest_attempt :: "PaymentAttempt list \<Rightarrow> PaymentAttempt option" where
  "newest_attempt as = (case rev (sort_key (\<lambda>a. (pa_RequestStartedAt a, pa_ID a)) as) of [] \<Rightarrow> None | a # _ \<Rightarrow> Some a)"

definition attempts_since :: "PgDB \<Rightarrow> string \<Rightarrow> Time \<Rightarrow> PaymentAttempt list" where
  "attempts_since db connectionID since = filter (\<lambda>a. pa_ProviderConnectionID a = connectionID \<and>
     pa_RequestStartedAt a \<noteq> 0 \<and> pg_time since \<le> pa_RequestStartedAt a) (db_attempts db)"

definition pg_LatestProviderAttemptSince :: "string \<Rightarrow> Time \<Rightarrow> PaymentAttempt sql" where
  "pg_LatestProviderAttemptSince connectionID since = statement id (\<lambda>db.
     case newest_attempt (attempts_since db connectionID since) of
       None \<Rightarrow> (Inl ErrNotFound, db) | Some a \<Rightarrow> (Inr a, db))"

definition pg_UpdateProviderCircuit :: "string \<Rightarrow> CircuitState \<Rightarrow> Time option \<Rightarrow> unit sql" where
  "pg_UpdateProviderCircuit connectionID state openedAt = statement (Wrapf ''update provider circuit'') (\<lambda>db.
     if state \<notin> {CircuitClosed, CircuitOpen, CircuitHalfOpen} \<and> list_ex (\<lambda>c. pc_ID c = connectionID) (db_connections db)
     then (Inl (Wrapf ''update provider circuit'' (Errorf ''constraint violation'')), db)
     else if \<not> list_ex (\<lambda>c. pc_ID c = connectionID) (db_connections db) then (Inl ErrNotFound, db)
     else (Inr (), db\<lparr>db_connections := map (\<lambda>c. if pc_ID c = connectionID
       then c\<lparr>pc_Circuit := state, pc_CircuitOpenedAt := map_option pg_time openedAt\<rparr> else c) (db_connections db)\<rparr>))"

definition pg_telemetry :: "percentile \<Rightarrow> PgDB TelemetryRepository" where
  "pg_telemetry percentile_cont = \<lparr>
     AggregateProviderHealth = pg_AggregateProviderHealth percentile_cont,
     SaveProviderHealthSnapshot = pg_SaveProviderHealthSnapshot,
     ListRecentProviderHealthSnapshots = pg_ListRecentProviderHealthSnapshots,
     LatestProviderAttemptSince = pg_LatestProviderAttemptSince,
     UpdateProviderCircuit = pg_UpdateProviderCircuit\<rparr>"

section \<open>The store provides the contract\<close>

definition pg_circuit :: "PgDB \<Rightarrow> string \<Rightarrow> (CircuitState \<times> Time option) option" where
  "pg_circuit db i = map_option (\<lambda>c. (pc_Circuit c, pc_CircuitOpenedAt c)) (find (\<lambda>c. pc_ID c = i) (db_connections db))"

definition pg_latest :: "PgDB \<Rightarrow> string \<Rightarrow> Time \<Rightarrow> AttemptStatus option" where
  "pg_latest db i since = map_option pa_Status (newest_attempt (attempts_since db i since))"

lemma pg_circuit_cong: "db_connections db = db_connections db' \<Longrightarrow> pg_circuit db = pg_circuit db'"
  by (rule ext) (simp add: pg_circuit_def)

lemma find_update:
  "find (\<lambda>c. pc_ID c = j) (map (\<lambda>c. if pc_ID c = i then c\<lparr>pc_Circuit := st, pc_CircuitOpenedAt := t\<rparr> else c) cs) =
   map_option (\<lambda>c. if pc_ID c = i then c\<lparr>pc_Circuit := st, pc_CircuitOpenedAt := t\<rparr> else c) (find (\<lambda>c. pc_ID c = j) cs)"
  by (induction cs) auto

lemma pg_update_circuit:
  assumes "list_ex (\<lambda>c. pc_ID c = i) (db_connections db)"
  shows "pg_circuit (db\<lparr>db_connections := map (\<lambda>c. if pc_ID c = i
      then c\<lparr>pc_Circuit := st, pc_CircuitOpenedAt := t\<rparr> else c) (db_connections db)\<rparr>) = (pg_circuit db)(i \<mapsto> (st, t))"
proof
  fix j
  have found: "pc_ID c = k" if "find (\<lambda>c. pc_ID c = k) cs = Some c" for k cs and c :: ProviderConnection
    using that by (auto simp: find_Some_iff)
  have "find (\<lambda>c. pc_ID c = i) (db_connections db) \<noteq> None" using assms by (auto simp: find_None_iff list_ex_iff)
  then show "pg_circuit (db\<lparr>db_connections := map (\<lambda>c. if pc_ID c = i
      then c\<lparr>pc_Circuit := st, pc_CircuitOpenedAt := t\<rparr> else c) (db_connections db)\<rparr>) j = ((pg_circuit db)(i \<mapsto> (st, t))) j"
    by (cases "find (\<lambda>c. pc_ID c = j) (db_connections db)") (auto simp: pg_circuit_def find_update dest: found)
qed

lemma find_distinct:
  "distinct (map pc_ID cs) \<Longrightarrow> c \<in> set cs \<Longrightarrow> find (\<lambda>d. pc_ID d = pc_ID c) cs = Some c"
  by (induction cs) (auto simp: image_iff)

lemmas pg_telemetry_defs = pg_telemetry_def pg_AggregateProviderHealth_def pg_SaveProviderHealthSnapshot_def
  pg_ListRecentProviderHealthSnapshots_def pg_LatestProviderAttemptSince_def pg_UpdateProviderCircuit_def
  statement_def Let_def

lemma pg_latest_cong: "db_attempts db = db_attempts db' \<Longrightarrow> pg_latest db = pg_latest db'"
  by (intro ext) (simp add: pg_latest_def attempts_since_def)

lemma pg_same:
  "db_connections db' = db_connections db \<Longrightarrow> db_snapshots db' = db_snapshots db \<Longrightarrow> db_attempts db' = db_attempts db \<Longrightarrow>
   pg_circuit db' = pg_circuit db \<and> db_snapshots db' = db_snapshots db \<and> pg_latest db' = pg_latest db"
  by (auto intro: pg_circuit_cong pg_latest_cong)

interpretation pg_tel: telemetry_repository "pg_telemetry percentile_cont" pg_circuit db_snapshots pg_latest pg_time snapshot_row
proof unfold_locales
  fix i st t s u s' assume "UpdateProviderCircuit (pg_telemetry percentile_cont) i st t s = (Inr u, s')"
  then have ex: "list_ex (\<lambda>c. pc_ID c = i) (db_connections s)" and s': "s' = (s\<lparr>db_faults := tl (db_faults s)\<rparr>)
      \<lparr>db_connections := map (\<lambda>c. if pc_ID c = i then c\<lparr>pc_Circuit := st, pc_CircuitOpenedAt := map_option pg_time t\<rparr> else c) (db_connections s)\<rparr>"
    by (auto simp: pg_telemetry_defs split: if_splits)
  show "pg_circuit s' = (pg_circuit s)(i \<mapsto> (st, map_option pg_time t)) \<and> db_snapshots s' = db_snapshots s \<and> pg_latest s' = pg_latest s"
    using pg_update_circuit [of i "s\<lparr>db_faults := tl (db_faults s)\<rparr>"] ex pg_circuit_cong [of "s\<lparr>db_faults := tl (db_faults s)\<rparr>" s]
    by (auto simp: s' intro: pg_latest_cong)
next
  fix i since s a s' assume "LatestProviderAttemptSince (pg_telemetry percentile_cont) i since s = (Inr a, s')"
  then show "pg_latest s i since = Some (pa_Status a)"
    by (auto simp: pg_telemetry_defs pg_latest_def attempts_since_def split: if_splits option.splits)
next
  fix p s u s' assume "SaveProviderHealthSnapshot (pg_telemetry percentile_cont) p s = (Inr u, s')"
  then show "pg_circuit s' = pg_circuit s \<and> db_snapshots s' = db_snapshots s @ [snapshot_row p] \<and> pg_latest s' = pg_latest s"
    by (auto simp: pg_telemetry_defs intro: pg_circuit_cong pg_latest_cong split: if_splits)
next
  fix i n s ps s' assume "ListRecentProviderHealthSnapshots (pg_telemetry percentile_cont) i n s = (Inr ps, s')"
  then show "set ps \<subseteq> {p \<in> set (db_snapshots s). ph_ProviderConnectionID p = i}"
    by (auto simp: pg_telemetry_defs prog_defs split: if_splits dest!: in_set_takeD)
qed (auto simp: pg_telemetry_defs prog_defs snapshot_row_def unhealthy_def intro!: pg_circuit_cong pg_latest_cong
      split: if_splits option.splits)

lemma fint_mono: "i \<le> j \<Longrightarrow> fint i \<le> fint j"
  by (simp add: fint_def rnd64_mono)

lemma unit_rate: "0 \<le> k \<Longrightarrow> k \<le> n \<Longrightarrow> 0 < n \<Longrightarrow> unit_range (fdiv (fint k) (fint n))"
proof -
  assume a: "0 \<le> k" "k \<le> n" "0 < n"
  have "0 \<le> fint k" "1 \<le> fint n" "fint k \<le> fint n"
    using a fint_mono [of 0 k] fint_mono [of 1 n] fint_mono [of k n] by (simp_all add: fint_def)
  then have q: "0 \<le> fint k / fint n" "fint k / fint n \<le> 1" by (simp_all add: divide_le_eq_1)
  show ?thesis using rnd64_mono [OF q(1)] rnd64_mono [OF q(2)] by (simp add: unit_range_def fdiv_def)
qed

lemma count_le: "0 \<le> count statuses as" "count statuses as \<le> int (length as)"
  by (simp_all add: count_def)

lemma count_add:
  "set xs \<inter> set ys = {} \<Longrightarrow> count xs as + count ys as = count (xs @ ys) as"
  by (induction as) (auto simp: count_def)

text \<open>A database that answers: no fault to come, and no attempt whose response precedes its request.\<close>

definition healthy_db :: "string list \<Rightarrow> PgDB \<Rightarrow> bool" where
  "healthy_db ids db \<longleftrightarrow> db_faults db = [] \<and> list_all (\<lambda>i. list_ex (\<lambda>c. pc_ID c = i) (db_connections db)) ids \<and>
     list_all (\<lambda>a. case pa_ResponseReceivedAt a of None \<Rightarrow> True | Some t \<Rightarrow> pa_RequestStartedAt a \<le> t) (db_attempts db)"

text \<open>The counts and rates of a snapshot agree, and its score is a score.\<close>

definition coherent :: "ProviderHealthSnapshot \<Rightarrow> bool" where
  "coherent p \<longleftrightarrow> ph_QRSuccessCount p + ph_ErrorCount p + ph_TimeoutCount p \<le> ph_SampleCount p \<and>
     0 \<le> ph_QRSuccessCount p \<and> 0 \<le> ph_ErrorCount p \<and> 0 \<le> ph_TimeoutCount p \<and> unit_range (ph_HealthScore p) \<and>
     (0 < ph_SampleCount p \<longrightarrow> ph_QRSuccessRate p = fdiv (fint (ph_QRSuccessCount p)) (fint (ph_SampleCount p)) \<and>
       ph_ErrorRate p = fdiv (fint (ph_ErrorCount p)) (fint (ph_SampleCount p)) \<and>
       ph_TimeoutRate p = fdiv (fint (ph_TimeoutCount p)) (fint (ph_SampleCount p)))"

definition nonnegative_percentile :: "percentile \<Rightarrow> bool" where
  "nonnegative_percentile percentile_cont \<longleftrightarrow> (\<forall>q xs. xs \<noteq> [] \<longrightarrow> (\<forall>x \<in> set xs. 0 \<le> x) \<longrightarrow> 0 \<le> percentile_cont q xs)"

lemma latencies_nonneg:
  assumes "list_all (\<lambda>a. case pa_ResponseReceivedAt a of None \<Rightarrow> True | Some t \<Rightarrow> pa_RequestStartedAt a \<le> t) as" and "x \<in> set (latencies as)"
  shows "0 \<le> x"
  using assms by (auto simp: latencies_def map_filter_def list_all_iff intro!: rnd64_nonneg dest!: bspec)

lemma percentile_nonneg:
  assumes "nonnegative_percentile percentile_cont"
    and "list_all (\<lambda>a. case pa_ResponseReceivedAt a of None \<Rightarrow> True | Some t \<Rightarrow> pa_RequestStartedAt a \<le> t) as"
  shows "0 \<le> percentile_or_0 percentile_cont q (latencies as)"
  using assms(1) latencies_nonneg [OF assms(2)] by (simp add: percentile_or_0_def nonnegative_percentile_def)

lemma aggregate_ok:
  assumes h: "healthy_db ids db" and p: "nonnegative_percentile percentile_cont"
  obtains x where "pg_AggregateProviderHealth percentile_cont i t1 t2 db = (Inr x, db)"
    and "\<And>(sv :: 's TelemetryService) (c :: ProviderConnection) now. pc_ID c \<in> set ids \<Longrightarrow> coherent (observed sv c now x) \<and> snapshot_row_ok db (observed sv c now x)"
proof -
  let ?as = "filter (in_window i t1 t2) (db_attempts db)"
  have as: "list_all (\<lambda>a. case pa_ResponseReceivedAt a of None \<Rightarrow> True | Some t \<Rightarrow> pa_RequestStartedAt a \<le> t) ?as"
    using h by (auto simp: healthy_db_def list_all_iff)
  obtain x where x: "pg_AggregateProviderHealth percentile_cont i t1 t2 db = (Inr x, db)"
    using h by (simp add: pg_AggregateProviderHealth_def statement_def Let_def healthy_db_def)
  have sum: "count [AttemptStatusSucceeded] ?as + count [AttemptStatusFailedSafe, AttemptStatusFailedTerminal] ?as
      + count [AttemptStatusUnknown] ?as \<le> int (length ?as)"
    by (simp add: count_add count_le(2))
  have score: "unit_range (score s)" for s using clamp01_range by (simp add: score_def unit_range_def)
  show ?thesis
  proof (rule that [OF x], rule conjI)
    fix sv :: "'s TelemetryService" and c :: ProviderConnection and now assume c: "pc_ID c \<in> set ids"
    show "coherent (observed sv c now x)"
      using x sum h score by (auto simp: coherent_def observed_def Let_def pg_AggregateProviderHealth_def statement_def healthy_db_def count_le)
    show "snapshot_row_ok db (observed sv c now x)"
      using x h c score unit_rate [OF count_le] percentile_nonneg [OF p as]
      by (auto simp: snapshot_row_ok_def observed_def Let_def pg_AggregateProviderHealth_def statement_def healthy_db_def
          count_le list_all_iff unit_range_def)
  qed
qed

lemma healthy_statement: "healthy_db ids db \<Longrightarrow> statement wrap m db = m db"
  by (cases db) (simp add: statement_def healthy_db_def Let_def)

lemma wp_pg_update:
  assumes "healthy_db ids db" and "i \<in> set ids" and "st \<in> {CircuitClosed, CircuitOpen, CircuitHalfOpen}"
  shows "wp (UpdateProviderCircuit (pg_telemetry percentile_cont) i st t) (\<lambda>_. healthy_db ids) (\<lambda>_ _. False) db"
proof -
  have ex: "list_ex (\<lambda>c. pc_ID c = i) (db_connections db)" using assms(1,2) by (simp add: healthy_db_def list_all_iff)
  have ids: "list_ex (\<lambda>c. pc_ID c = j) (map (\<lambda>c. if pc_ID c = i then c\<lparr>pc_Circuit := v, pc_CircuitOpenedAt := u\<rparr> else c) cs) =
      list_ex (\<lambda>c. pc_ID c = j) cs" for j u v and cs :: "ProviderConnection list"
    by (induction cs) auto
  show ?thesis
    using assms ex by (auto simp: pg_telemetry_def pg_UpdateProviderCircuit_def wp_def healthy_statement healthy_db_def ids)
qed

lemma wp_evaluate_ok:
  assumes sv: "ts_repo sv = pg_telemetry percentile_cont" and h: "healthy_db ids db" and c: "pc_ID c \<in> set ids"
  shows "wp (evaluateCircuit sv c current previous now) (\<lambda>_. healthy_db ids) (\<lambda>_ _. False) db"
proof (cases "pc_Circuit c")
  case CircuitClosed
  then show ?thesis using h c by (auto simp: evaluateCircuit_def sv wp_return intro!: wp_pg_update)
next
  case CircuitOpen
  then show ?thesis using h c by (auto simp: evaluateCircuit_def sv wp_return intro!: wp_pg_update split: option.split)
next
  case CircuitHalfOpen
  have probe: "wp (onProbe sv c now a) (\<lambda>_. healthy_db ids) (\<lambda>_ _. False) db" for a
    using h c by (cases "pa_Status a") (auto simp: onProbe_def sv wp_return intro!: wp_pg_update)
  have latest: "LatestProviderAttemptSince (pg_telemetry percentile_cont) i t db =
      (case newest_attempt (attempts_since db i t) of None \<Rightarrow> (Inl ErrNotFound, db) | Some a \<Rightarrow> (Inr a, db))" for i t
    using h by (simp add: pg_telemetry_def pg_LatestProviderAttemptSince_def healthy_statement)
  show ?thesis
    using CircuitHalfOpen h c probe
    by (auto simp: evaluateCircuit_def sv wp_bind wp_try latest wp_def [of "LatestProviderAttemptSince _ _ _"] wp_return
        intro!: wp_pg_update split: option.split)
qed (use h in \<open>simp_all add: evaluateCircuit_def wp_return\<close>)

lemma wp_refreshOne_ok:
  assumes sv: "ts_repo sv = pg_telemetry percentile_cont" and h: "healthy_db ids db" and c: "pc_ID c \<in> set ids"
    and p: "nonnegative_percentile percentile_cont"
  shows "wp (refreshOne sv now c) (\<lambda>x db'. healthy_db ids db' \<and> coherent x) (\<lambda>_ _. False) db"
proof -
  obtain previous where recent: "ListRecentProviderHealthSnapshots (pg_telemetry percentile_cont) (pc_ID c) 1 db = (Inr previous, db)"
    using h by (simp add: pg_telemetry_def pg_ListRecentProviderHealthSnapshots_def healthy_statement)
  obtain x where x: "pg_AggregateProviderHealth percentile_cont (pc_ID c) (now - ts_window sv) now db = (Inr x, db)"
      "coherent (observed sv c now x)" "snapshot_row_ok db (observed sv c now x)"
    using aggregate_ok [OF h p] c by metis
  let ?db = "db\<lparr>db_snapshots := db_snapshots db @ [snapshot_row (observed sv c now x)]\<rparr>"
  have h': "healthy_db ids ?db" using h by (simp add: healthy_db_def)
  have save: "SaveProviderHealthSnapshot (pg_telemetry percentile_cont) (observed sv c now x) db = (Inr (), ?db)"
    using x(3) h by (simp add: pg_telemetry_def pg_SaveProviderHealthSnapshot_def healthy_statement)
  have agg: "AggregateProviderHealth (pg_telemetry percentile_cont) (pc_ID c) (now - ts_window sv) now db = (Inr x, db)"
    using x(1) by (simp add: pg_telemetry_def)
  have "wp (evaluateCircuit sv c (observed sv c now x) previous now)
      (\<lambda>_ db'. healthy_db ids db' \<and> coherent (observed sv c now x)) (\<lambda>_ _. False) ?db"
    by (rule wp_weaken [OF wp_evaluate_ok [OF sv h' c]]) (simp_all add: x(2))
  then show ?thesis
    by (simp add: refreshOne_def sv wp_def bindE_def recent agg save returnE_def Let_def split: prod.splits sum.splits)
qed

lemma wp_refreshLoop_ok:
  assumes sv: "ts_repo sv = pg_telemetry percentile_cont" and p: "nonnegative_percentile percentile_cont"
    and "healthy_db ids db" and "\<And>c. c \<in> set conns \<Longrightarrow> pc_ID c \<in> set ids" and "list_all (\<lambda>(i, x). coherent x) result"
  shows "wp (refreshLoop sv env now conns result) (\<lambda>m _. list_all (\<lambda>(i, x). coherent x) m \<and>
      fst ` set m = fst ` set result \<union> pc_ID ` {c \<in> set conns. pc_Environment c = env}) (\<lambda>_ _. False) db"
  using assms(3-)
proof (induction conns arbitrary: db result)
  case Nil
  then show ?case by (simp add: wp_return)
next
  case (Cons c conns)
  show ?case
  proof (cases "pc_Environment c = env")
    case True
    have one: "wp (refreshOne sv now c) (\<lambda>x db'. healthy_db ids db' \<and> coherent x) (\<lambda>_ _. False) db"
      by (rule wp_refreshOne_ok [OF sv Cons.prems(1) _ p]) (use Cons.prems(2) in simp)
    have upd: "list_all (\<lambda>(i, x). coherent x) (AList.update (pc_ID c) x result)" if "coherent x" for x
      using that Cons.prems(3) by (induction result) auto
    have "wp (refreshOne sv now c) (\<lambda>x. wp (refreshLoop sv env now conns (AList.update (pc_ID c) x result))
        (\<lambda>m _. list_all (\<lambda>(i, x). coherent x) m \<and>
          fst ` set m = fst ` set result \<union> pc_ID ` {d \<in> set (c # conns). pc_Environment d = env}) (\<lambda>_ _. False)) (\<lambda>_ _. False) db"
    proof (rule wp_weaken [OF one])
      fix x db1 assume x: "healthy_db ids db1 \<and> coherent x"
      have keys: "fst ` set (AList.update (pc_ID c) x result) \<union> pc_ID ` {d \<in> set conns. pc_Environment d = env} =
          fst ` set result \<union> pc_ID ` {d \<in> set (c # conns). pc_Environment d = env}"
        using True by (auto simp: dom_update)
      show "wp (refreshLoop sv env now conns (AList.update (pc_ID c) x result)) (\<lambda>m _. list_all (\<lambda>(i, x). coherent x) m \<and>
          fst ` set m = fst ` set result \<union> pc_ID ` {d \<in> set (c # conns). pc_Environment d = env}) (\<lambda>_ _. False) db1"
        unfolding keys [symmetric] by (rule Cons.IH) (use x Cons.prems(2) upd in auto)
    qed
    then show ?thesis using True by (simp add: wp_bind)
  next
    case False
    then have "{d \<in> set (c # conns). pc_Environment d = env} = {d \<in> set conns. pc_Environment d = env}" by auto
    then show ?thesis using False Cons.IH [OF Cons.prems(1) _ Cons.prems(3)] Cons.prems(2) by simp
  qed
qed

section \<open>A sample refresh\<close>

definition sample_connection :: ProviderConnection where
  "sample_connection = \<lparr>pc_ID = ''c1'', pc_WorkspaceID = ''w'', pc_ProviderKey = ''fake_a'', pc_Environment = EnvironmentTest,
     pc_Enabled = True, pc_CredentialsValid = True, pc_Circuit = CircuitClosed, pc_CircuitOpenedAt = None, pc_Priority = 1\<rparr>"

definition sample_snapshot :: ProviderHealthSnapshot where
  "sample_snapshot = \<lparr>ph_ProviderConnectionID = ''c1'', ph_WindowStart = 0, ph_WindowEnd = 5000, ph_SampleCount = 2,
     ph_QRSuccessCount = 0, ph_ErrorCount = 2, ph_TimeoutCount = 0, ph_QRSuccessRate = 0, ph_ErrorRate = 1, ph_TimeoutRate = 0,
     ph_LatencyP50MS = 0, ph_LatencyP95MS = 0, ph_HealthScore = 1/2, ph_ScoreVersion = RoutingScoreVersion, ph_ObservedAt = 5000\<rparr>"

definition sample_telemetry_db :: PgDB where
  "sample_telemetry_db = empty_db\<lparr>db_connections := [sample_connection],
     db_attempts := [\<lparr>pa_ID = ''a1'', pa_PaymentIntentID = ''p1'', pa_ProviderConnectionID = ''c1'', pa_Sequence = 1,
       pa_Status = AttemptStatusFailedSafe, pa_ProviderPaymentID = [], pa_FailureCode = [], pa_ReconciliationStatus = [], pa_Pix = None,
       pa_RequestStartedAt = 6000, pa_ResponseReceivedAt = Some 8000, pa_CreatedAt = 6000, pa_UpdatedAt = 8000\<rparr>],
     db_snapshots := [sample_snapshot]\<rparr>"

definition sample_options :: TelemetryOptions where
  "sample_options = \<lparr>to_Window = 0, to_CircuitCooldown = 0, to_MinimumSamples = 1\<rparr>"

text \<open>The circuit of the sample opens.\<close>

lemma sample_refresh:
  "pg_circuit (snd (Refresh (NewTelemetry (pg_telemetry (\<lambda>_. hd)) sample_options) [sample_connection] EnvironmentTest 9000 sample_telemetry_db)) ''c1''
     = Some (CircuitOpen, Some 9000)"
  by code_simp

section \<open>Properties\<close>



text \<open>
  C35.  A refresh of a healthy database succeeds.  When no statement fails, every connection has its
  row, no response precedes its request and percentiles of non-negative values are non-negative,
  \<open>Refresh\<close> returns a snapshot for exactly the connections of the environment; in each, the counts
  of successes, errors and timeouts are within the samples, the rates are their quotients, and the
  score lies in [0,1], so that every snapshot meets the constraints of its table.
\<close>

theorem Refresh_succeeds:
  assumes "healthy_db (map pc_ID conns) db" and "nonnegative_percentile percentile_cont"
    and "sv = NewTelemetry (pg_telemetry percentile_cont) opts"
  shows "\<exists>m db'. Refresh sv conns env now db = (Inr m, db') \<and> list_all (\<lambda>(i, x). coherent x) m \<and>
    fst ` set m = pc_ID ` {c \<in> set conns. pc_Environment c = env}"
proof -
  have "ts_repo sv = pg_telemetry percentile_cont" by (simp add: assms(3) NewTelemetry_def)
  from wp_refreshLoop_ok [OF this assms(2,1), of conns "[]" env now] show ?thesis
    by (auto simp: Refresh_def wp_def split: prod.splits sum.splits)
qed

lemma Refresh_succeeds_witness:
  "\<exists>m db'. Refresh (NewTelemetry (pg_telemetry (\<lambda>_. hd)) sample_options) [sample_connection] EnvironmentTest 9000 sample_telemetry_db = (Inr m, db') \<and>
    list_all (\<lambda>(i, x). coherent x) m \<and> fst ` set m = pc_ID ` {c \<in> set [sample_connection]. pc_Environment c = EnvironmentTest}"
  by (rule Refresh_succeeds [OF _ _ refl])
    (simp_all add: healthy_db_def nonnegative_percentile_def sample_telemetry_db_def empty_db_def sample_connection_def)

end
