(* ===== verification/PgStore.thy ===== *)
theory PgStore
  imports Reachable Postgres
begin

text \<open>
  The PostgreSQL store of payments, attempts and events (\<open>store/postgres/store.go\<close>, \<open>events.go\<close>,
  \<open>scope.go\<close>): the operations of \<open>orchestration.Repository\<close> over the tables of theory Postgres, and
  the repository contract interpreted on them (\<open>pg\<close>).

  What a row keeps of a value: times to the microsecond, a Pix with an empty code as none, the
  payload and the metadata as JSONB returns them (\<open>PgLib\<close>).  The columns of routing evidence hold the
  values themselves: their JSON is read back as it was written.
\<close>

record PgLib =
  pl_jsonb :: "string \<Rightarrow> string"
  pl_metadata :: "StringMap option \<Rightarrow> StringMap option"

section \<open>Rows\<close>

text \<open>\<open>pixValues\<close> and the Pix of \<open>scanPayment\<close> and \<open>scanAttempt\<close>.\<close>

definition pixValues :: "Pix option \<Rightarrow> string \<times> Time option" where
  "pixValues pix = (case pix of None \<Rightarrow> ([], None) | Some p \<Rightarrow> (px_CopyPaste p, Some (px_ExpiresAt p)))"

definition scanPix :: "string \<times> Time option \<Rightarrow> Pix option" where
  "scanPix columns = (case columns of (pixCopy, pixExpires) \<Rightarrow>
     if pixCopy \<noteq> [] then Some \<lparr>px_CopyPaste = pixCopy, px_ExpiresAt = (case pixExpires of None \<Rightarrow> 0 | Some t \<Rightarrow> pg_time t)\<rparr>
     else None)"

definition pix_row :: "Pix option \<Rightarrow> Pix option" where
  "pix_row pix = scanPix (pixValues pix)"

definition nullableTime :: "Time \<Rightarrow> Time option" where
  "nullableTime value = (if value = 0 then None else Some value)"

definition scanPayment :: "PgLib \<Rightarrow> PaymentIntent \<Rightarrow> PaymentIntent" where
  "scanPayment lib p = p\<lparr>pi_Metadata := pl_metadata lib (pi_Metadata p), pi_Pix := pix_row (pi_Pix p),
     pi_CreatedAt := pg_time (pi_CreatedAt p), pi_UpdatedAt := pg_time (pi_UpdatedAt p),
     pi_PaidAt := map_option pg_time (pi_PaidAt p)\<rparr>"

definition scanAttempt :: "PaymentAttempt \<Rightarrow> PaymentAttempt" where
  "scanAttempt a = a\<lparr>pa_Pix := pix_row (pa_Pix a),
     pa_RequestStartedAt := (case nullableTime (pa_RequestStartedAt a) of None \<Rightarrow> 0 | Some t \<Rightarrow> pg_time t),
     pa_ResponseReceivedAt := map_option pg_time (pa_ResponseReceivedAt a),
     pa_CreatedAt := pg_time (pa_CreatedAt a), pa_UpdatedAt := pg_time (pa_UpdatedAt a)\<rparr>"

lemma pix_row_idem [simp]: "pix_row (pix_row p) = pix_row p"
  by (auto simp: pix_row_def scanPix_def pixValues_def split: option.splits)

definition mapNotFound :: "'r option \<Rightarrow> 'r sql" where
  "mapNotFound row = (case row of None \<Rightarrow> throwE ErrNotFound | Some r \<Rightarrow> returnE r)"

definition exists_payment :: "PgDB \<Rightarrow> string \<Rightarrow> bool" where
  "exists_payment db i = list_ex (\<lambda>p. pi_ID p = i) (db_payments db)"

definition exists_attempt :: "PgDB \<Rightarrow> string \<Rightarrow> bool" where
  "exists_attempt db i = list_ex (\<lambda>a. pa_ID a = i) (db_attempts db)"

definition exists_connection :: "PgDB \<Rightarrow> string \<Rightarrow> bool" where
  "exists_connection db i = list_ex (\<lambda>c. pc_ID c = i) (db_connections db)"

section \<open>Payments (store.go)\<close>

text \<open>\<open>char_length\<close> counts characters: the bytes that do not continue one.\<close>

definition payment_checks :: "PaymentIntent \<Rightarrow> bool" where
  "payment_checks p \<longleftrightarrow> 0 < pi_Amount p \<and> 0 \<le> pi_RecoveredAmount p \<and>
     length (filter (\<lambda>c. \<not> cont_byte (byte c)) (pi_Currency p)) = 3"

definition same_key :: "string \<Rightarrow> string \<Rightarrow> PaymentIntent \<Rightarrow> bool" where
  "same_key ws k p \<longleftrightarrow> pi_WorkspaceID p = ws \<and> pi_IdempotencyKey p = k"

definition insertPayment :: "PgLib \<Rightarrow> PaymentIntent \<Rightarrow> PaymentIntent option sql" where
  "insertPayment lib intent = statement (Wrapf ''insert payment intent'') (\<lambda>db.
     if \<not> payment_checks intent then constraint (Wrapf ''insert payment intent'') db
     else if list_ex (same_key (pi_WorkspaceID intent) (pi_IdempotencyKey intent)) (db_payments db) then (Inr None, db)
     else if exists_payment db (pi_ID intent) then constraint (Wrapf ''insert payment intent'') db
     else (Inr (Some (scanPayment lib intent)), db\<lparr>db_payments := db_payments db @ [scanPayment lib intent]\<rparr>))"

definition getPaymentByIdempotency :: "string \<Rightarrow> string \<Rightarrow> PaymentIntent sql" where
  "getPaymentByIdempotency workspaceID idempotencyKey = statement id (\<lambda>db.
     mapNotFound (find (same_key workspaceID idempotencyKey) (db_payments db)) db)"

definition pg_GetOrCreatePayment :: "PgLib \<Rightarrow> PaymentIntent \<Rightarrow> (PaymentIntent \<times> bool) sql" where
  "pg_GetOrCreatePayment lib intent =
     bindE (insertPayment lib intent) (\<lambda>inserted. case inserted of
       Some p \<Rightarrow> returnE (p, True)
     | None \<Rightarrow> bindE (getPaymentByIdempotency (pi_WorkspaceID intent) (pi_IdempotencyKey intent)) (\<lambda>existing.
         if pi_RequestFingerprint existing \<noteq> pi_RequestFingerprint intent then throwE ErrIdempotencyConflict
         else returnE (existing, False)))"

definition pg_GetPayment :: "string \<Rightarrow> PaymentIntent sql" where
  "pg_GetPayment i = statement id (\<lambda>db. mapNotFound (find (\<lambda>p. pi_ID p = i) (db_payments db)) db)"

definition payment_columns :: "PgLib \<Rightarrow> PaymentIntent \<Rightarrow> PaymentIntent \<Rightarrow> PaymentIntent" where
  "payment_columns lib intent row = (let new = scanPayment lib intent in
     row\<lparr>pi_MerchantOrderID := pi_MerchantOrderID new, pi_RequestFingerprint := pi_RequestFingerprint new,
       pi_Amount := pi_Amount new, pi_Currency := pi_Currency new, pi_Metadata := pi_Metadata new,
       pi_Status := pi_Status new, pi_ActiveAttemptID := pi_ActiveAttemptID new,
       pi_PresentedAttemptID := pi_PresentedAttemptID new, pi_Pix := pi_Pix new, pi_Recovered := pi_Recovered new,
       pi_RecoveredAmount := pi_RecoveredAmount new, pi_FailureCode := pi_FailureCode new,
       pi_UpdatedAt := pi_UpdatedAt new, pi_PaidAt := pi_PaidAt new\<rparr>)"

definition updatePayment :: "(go_error \<Rightarrow> go_error) \<Rightarrow> PgLib \<Rightarrow> PaymentIntent \<Rightarrow> unit sql" where
  "updatePayment wrap lib intent = statement wrap (\<lambda>db.
     if \<not> exists_payment db (pi_ID intent) then (Inl ErrNotFound, db)
     else if \<not> payment_checks intent then constraint wrap db
     else (Inr (), db\<lparr>db_payments :=
       update_first (\<lambda>p. pi_ID p = pi_ID intent) (payment_columns lib intent) (db_payments db)\<rparr>))"

definition pg_SavePayment :: "PgLib \<Rightarrow> PaymentIntent \<Rightarrow> unit sql" where
  "pg_SavePayment lib intent = updatePayment (Wrapf ''update payment intent'') lib intent"

definition pg_ListProviderConnections :: "string \<Rightarrow> ProviderConnection list sql" where
  "pg_ListProviderConnections workspaceID = statement (Wrapf ''list provider connections'') (\<lambda>db.
     (Inr (sort_key (\<lambda>c. (pc_Priority c, pc_ID c)) (filter (\<lambda>c. pc_WorkspaceID c = workspaceID) (db_connections db))), db))"

section \<open>Attempts and routing decisions (store.go)\<close>

definition insertAttempt :: "PaymentAttempt \<Rightarrow> unit sql" where
  "insertAttempt attempt = statement (Wrapf ''insert payment attempt'') (\<lambda>db.
     if pa_Sequence attempt \<le> 0 \<or> exists_attempt db (pa_ID attempt) \<or>
        list_ex (\<lambda>a. pa_PaymentIntentID a = pa_PaymentIntentID attempt \<and> pa_Sequence a = pa_Sequence attempt) (db_attempts db) \<or>
        \<not> exists_payment db (pa_PaymentIntentID attempt) \<or> \<not> exists_connection db (pa_ProviderConnectionID attempt)
     then constraint (Wrapf ''insert payment attempt'') db
     else (Inr (), db\<lparr>db_attempts := db_attempts db @ [scanAttempt attempt]\<rparr>))"

definition insertDecision :: "RoutingDecision \<Rightarrow> unit sql" where
  "insertDecision decision = statement (Wrapf ''insert routing decision'') (\<lambda>db.
     if list_ex (\<lambda>d. rd_ID d = rd_ID decision) (db_decisions db) \<or> \<not> exists_payment db (rd_PaymentIntentID decision) \<or>
        \<not> exists_attempt db (rd_AttemptID decision) \<or> \<not> exists_connection db (rd_SelectedProviderConnectionID decision)
     then constraint (Wrapf ''insert routing decision'') db
     else (Inr (), db\<lparr>db_decisions := db_decisions db @ [decision\<lparr>rd_CreatedAt := pg_time (rd_CreatedAt decision)\<rparr>]\<rparr>))"

definition pg_AddAttemptWithRoutingDecision :: "PaymentAttempt \<Rightarrow> RoutingDecision \<Rightarrow> unit sql" where
  "pg_AddAttemptWithRoutingDecision attempt decision =
     transaction (Wrapf ''begin attempt transaction'') (Wrapf ''commit attempt transaction'')
       (bindE (insertAttempt attempt) (\<lambda>_. insertDecision decision))"

definition attempt_columns :: "PaymentAttempt \<Rightarrow> PaymentAttempt \<Rightarrow> PaymentAttempt" where
  "attempt_columns attempt row = (let new = scanAttempt attempt in
     row\<lparr>pa_Status := pa_Status new, pa_ProviderPaymentID := pa_ProviderPaymentID new, pa_FailureCode := pa_FailureCode new,
       pa_ReconciliationStatus := pa_ReconciliationStatus new, pa_Pix := pa_Pix new,
       pa_RequestStartedAt := pa_RequestStartedAt new, pa_ResponseReceivedAt := pa_ResponseReceivedAt new,
       pa_UpdatedAt := pa_UpdatedAt new\<rparr>)"

definition pg_SaveAttempt :: "PaymentAttempt \<Rightarrow> unit sql" where
  "pg_SaveAttempt attempt = statement (Wrapf ''update payment attempt'') (\<lambda>db.
     if \<not> exists_attempt db (pa_ID attempt) then (Inl ErrNotFound, db)
     else (Inr (), db\<lparr>db_attempts := update_first (\<lambda>a. pa_ID a = pa_ID attempt) (attempt_columns attempt) (db_attempts db)\<rparr>))"

definition pg_GetAttempt :: "string \<Rightarrow> PaymentAttempt sql" where
  "pg_GetAttempt i = statement id (\<lambda>db. mapNotFound (find (\<lambda>a. pa_ID a = i) (db_attempts db)) db)"

definition attempts_of :: "PgDB \<Rightarrow> string \<Rightarrow> PaymentAttempt list" where
  "attempts_of db paymentID = sort_key pa_Sequence (filter (\<lambda>a. pa_PaymentIntentID a = paymentID) (db_attempts db))"

definition pg_ListAttempts :: "string \<Rightarrow> PaymentAttempt list sql" where
  "pg_ListAttempts paymentID = statement (Wrapf ''list payment attempts'') (\<lambda>db. (Inr (attempts_of db paymentID), db))"

definition pg_ListRoutingDecisions :: "string \<Rightarrow> RoutingDecision list sql" where
  "pg_ListRoutingDecisions paymentID = statement (Wrapf ''list routing decisions'') (\<lambda>db.
     (Inr (sort_key (\<lambda>d. (rd_CreatedAt d, rd_ID d)) (filter (\<lambda>d. rd_PaymentIntentID d = paymentID) (db_decisions db))), db))"

section \<open>Recovery, provider and merchant events (store.go, events.go, scope.go)\<close>

definition insertRecovery :: "(go_error \<Rightarrow> go_error) \<Rightarrow> RecoveryEvent \<Rightarrow> bool sql" where
  "insertRecovery wrap event = statement wrap (\<lambda>db.
     if re_Amount event \<le> 0 then constraint wrap db
     else if list_ex (\<lambda>r. re_PaymentIntentID r = re_PaymentIntentID event) (db_recoveries db) then (Inr False, db)
     else if list_ex (\<lambda>r. re_ID r = re_ID event) (db_recoveries db) \<or> \<not> exists_payment db (re_PaymentIntentID event) \<or>
       \<not> exists_attempt db (re_FailedAttemptID event) \<or> \<not> exists_attempt db (re_SuccessfulAttemptID event)
     then constraint wrap db
     else (Inr True, db\<lparr>db_recoveries := db_recoveries db @ [event\<lparr>re_CreatedAt := pg_time (re_CreatedAt event)\<rparr>]\<rparr>))"

definition pg_CreateRecoveryIfAbsent :: "RecoveryEvent \<Rightarrow> bool sql" where
  "pg_CreateRecoveryIfAbsent event = insertRecovery (Wrapf ''insert recovery event'') event"

definition pg_ListRecoveryEvents :: "string \<Rightarrow> RecoveryEvent list sql" where
  "pg_ListRecoveryEvents paymentID = statement (Wrapf ''list recovery events'') (\<lambda>db.
     (Inr (sort_key re_CreatedAt (filter (\<lambda>r. re_PaymentIntentID r = paymentID) (db_recoveries db))), db))"

definition pg_GetProviderConnection :: "string \<Rightarrow> ProviderConnection sql" where
  "pg_GetProviderConnection i = statement id (\<lambda>db. mapNotFound (find (\<lambda>c. pc_ID c = i) (db_connections db)) db)"

definition pg_GetAttemptByProviderPaymentID :: "string \<Rightarrow> string \<Rightarrow> PaymentAttempt sql" where
  "pg_GetAttemptByProviderPaymentID providerConnectionID providerPaymentID = statement id (\<lambda>db.
     mapNotFound (case rev (sort_key pa_Sequence (filter (\<lambda>a. pa_ProviderConnectionID a = providerConnectionID \<and>
         pa_ProviderPaymentID a = providerPaymentID) (db_attempts db))) of [] \<Rightarrow> None | a # _ \<Rightarrow> Some a) db)"

definition external_event :: "string \<Rightarrow> string \<Rightarrow> ProviderEvent \<Rightarrow> bool" where
  "external_event conn ext e \<longleftrightarrow> pe_ProviderConnectionID e = conn \<and> pe_ExternalEventID e = ext"

definition pg_RecordProviderEvent :: "ProviderEvent \<Rightarrow> bool sql" where
  "pg_RecordProviderEvent event = statement (Wrapf ''insert provider event'') (\<lambda>db.
     if list_ex (external_event (pe_ProviderConnectionID event) (pe_ExternalEventID event)) (db_providerEvents db) then (Inr False, db)
     else if list_ex (\<lambda>e. pe_ID e = pe_ID event) (db_providerEvents db) \<or> \<not> exists_connection db (pe_ProviderConnectionID event)
     then constraint (Wrapf ''insert provider event'') db
     else (Inr True, db\<lparr>db_providerEvents := db_providerEvents db @ [event\<lparr>pe_ReceivedAt := pg_time (pe_ReceivedAt event),
       pe_ProcessedAt := map_option pg_time (pe_ProcessedAt event)\<rparr>]\<rparr>))"

definition pg_MarkProviderEventProcessed :: "string \<Rightarrow> string \<Rightarrow> Time \<Rightarrow> unit sql" where
  "pg_MarkProviderEventProcessed conn ext processedAt = statement (Wrapf ''mark provider event processed'') (\<lambda>db.
     if \<not> list_ex (external_event conn ext) (db_providerEvents db) then (Inl ErrNotFound, db)
     else (Inr (), db\<lparr>db_providerEvents := update_first (external_event conn ext)
       (\<lambda>e. e\<lparr>pe_ProcessedAt := Some (pg_time processedAt)\<rparr>) (db_providerEvents db)\<rparr>))"

definition insertMerchantEvent :: "PgLib \<Rightarrow> MerchantEvent \<Rightarrow> unit sql" where
  "insertMerchantEvent lib event = statement (Wrapf ''insert merchant event'') (\<lambda>db.
     if list_ex (\<lambda>e. me_EventKey e = me_EventKey event) (db_merchantEvents db) then (Inr (), db)
     else if list_ex (\<lambda>e. me_ID e = me_ID event) (db_merchantEvents db) \<or> \<not> exists_payment db (me_PaymentIntentID event)
     then constraint (Wrapf ''insert merchant event'') db
     else (Inr (), db\<lparr>db_merchantEvents := db_merchantEvents db @ [event\<lparr>me_Payload := pl_jsonb lib (me_Payload event),
       me_CreatedAt := pg_time (me_CreatedAt event)\<rparr>]\<rparr>))"

fun insertMerchantEvents :: "PgLib \<Rightarrow> MerchantEvent list \<Rightarrow> unit sql" where
  "insertMerchantEvents lib [] = returnE ()"
| "insertMerchantEvents lib (event # events) = bindE (insertMerchantEvent lib event) (\<lambda>_. insertMerchantEvents lib events)"

definition pg_MarkPaymentPaidWithEvents ::
  "PgLib \<Rightarrow> PaymentIntent \<Rightarrow> RecoveryEvent option \<Rightarrow> MerchantEvent list \<Rightarrow> unit sql" where
  "pg_MarkPaymentPaidWithEvents lib intent recovery events =
     transaction (Wrapf ''begin paid transaction'') (Wrapf ''commit paid transaction'')
       (bindE (updatePayment (Wrapf ''update paid payment'') lib intent) (\<lambda>_.
        bindE (case recovery of None \<Rightarrow> returnE False
          | Some event \<Rightarrow> insertRecovery (Wrapf ''insert paid recovery event'') event) (\<lambda>_.
        insertMerchantEvents lib events)))"

definition pg_ListMerchantEvents :: "string \<Rightarrow> MerchantEvent list sql" where
  "pg_ListMerchantEvents workspaceID = statement (Wrapf ''list merchant events'') (\<lambda>db.
     (Inr (sort_key (\<lambda>e. (me_CreatedAt e, me_ID e)) (filter (\<lambda>e. me_WorkspaceID e = workspaceID) (db_merchantEvents db))), db))"

text \<open>The environment of the payment's first attempt.\<close>

definition payment_environment :: "PgDB \<Rightarrow> string \<Rightarrow> Environment option" where
  "payment_environment db paymentID =
     (case List.map_filter (\<lambda>a. find (\<lambda>c. pc_ID c = pa_ProviderConnectionID a) (db_connections db)) (attempts_of db paymentID) of
        [] \<Rightarrow> None | pc # _ \<Rightarrow> Some (pc_Environment pc))"

definition pg_GetPaymentEnvironment :: "string \<Rightarrow> Environment sql" where
  "pg_GetPaymentEnvironment paymentID = statement id (\<lambda>db. mapNotFound (payment_environment db paymentID) db)"

definition pg_repository :: "PgLib \<Rightarrow> PgDB Repository" where
  "pg_repository lib = \<lparr>
     GetOrCreatePayment = pg_GetOrCreatePayment lib,
     GetPayment = pg_GetPayment,
     GetPaymentEnvironment = pg_GetPaymentEnvironment,
     SavePayment = pg_SavePayment lib,
     ListProviderConnections = pg_ListProviderConnections,
     GetProviderConnection = pg_GetProviderConnection,
     AddAttemptWithRoutingDecision = pg_AddAttemptWithRoutingDecision,
     SaveAttempt = pg_SaveAttempt,
     GetAttempt = pg_GetAttempt,
     GetAttemptByProviderPaymentID = pg_GetAttemptByProviderPaymentID,
     ListAttempts = pg_ListAttempts,
     ListRoutingDecisions = pg_ListRoutingDecisions,
     CreateRecoveryIfAbsent = pg_CreateRecoveryIfAbsent,
     ListRecoveryEvents = pg_ListRecoveryEvents,
     RecordProviderEvent = pg_RecordProviderEvent,
     MarkProviderEventProcessed = pg_MarkProviderEventProcessed,
     MarkPaymentPaidWithEvents = pg_MarkPaymentPaidWithEvents lib,
     ListMerchantEvents = pg_ListMerchantEvents\<rparr>"

section \<open>The store provides the contract\<close>

definition pg_view :: "PgDB \<Rightarrow> (string \<times> string) view" where
  "pg_view db = \<lparr>
     v_pay = (\<lambda>i. map_option (abs_pay pix_row) (find (\<lambda>p. pi_ID p = i) (db_payments db))),
     v_idem = (\<lambda>k. map_option (\<lambda>p. (pi_ID p, pi_RequestFingerprint p)) (find (\<lambda>p. (pi_WorkspaceID p, pi_IdempotencyKey p) = k) (db_payments db))),
     v_att = (\<lambda>i. map_option (abs_att pix_row) (find (\<lambda>a. pa_ID a = i) (db_attempts db))),
     v_attIDs = (\<lambda>pid. map pa_ID (attempts_of db pid)),
     v_dec = (\<lambda>pid. map abs_dec (filter (\<lambda>d. rd_PaymentIntentID d = pid) (db_decisions db))),
     v_rec = (\<lambda>pid. map abs_rec (filter (\<lambda>r. re_PaymentIntentID r = pid) (db_recoveries db))),
     v_mev = (\<lambda>ws. map abs_evt (filter (\<lambda>e. me_WorkspaceID e = ws) (db_merchantEvents db))),
     v_mevKeys = (\<lambda>k. list_ex (\<lambda>e. me_EventKey e = k) (db_merchantEvents db))\<rparr>"

lemma pg_view_cong:
  assumes "db_payments db = db_payments db'" "db_attempts db = db_attempts db'" "db_decisions db = db_decisions db'"
    "db_recoveries db = db_recoveries db'" "db_merchantEvents db = db_merchantEvents db'"
  shows "pg_view db = pg_view db'"
  using assms by (simp add: pg_view_def attempts_of_def)

lemma pg_view_tables: "tables db = tables db' \<Longrightarrow> pg_view db = pg_view db'"
  by (rule pg_view_cong) (auto dest: tables_eqD)

lemma pg_view_faults [simp]: "pg_view (db\<lparr>db_faults := fs\<rparr>) = pg_view db"
  by (rule pg_view_tables) simp

lemma same_key_eq: "same_key ws k = (\<lambda>p. (pi_WorkspaceID p, pi_IdempotencyKey p) = (ws, k))"
  by (simp add: same_key_def fun_eq_iff)

text \<open>Reading statements, and failed ones.\<close>

lemma pg_statement_view:
  assumes "\<And>db. pg_view (snd (m db)) = pg_view db"
  shows "pg_view (snd (statement wrap m db)) = pg_view db"
  by (simp add: statement_def Let_def assms)

lemma pg_statement_error:
  assumes "statement wrap m db = (Inl e, db')" and "\<And>db e db'. m db = (Inl e, db') \<Longrightarrow> pg_view db' = pg_view db"
  shows "pg_view db' = pg_view db"
  using statement_Inl [OF assms(1)] assms(2) by (metis pg_view_faults)

lemma mapNotFound_state [simp]: "snd (mapNotFound r db) = db"
  by (simp add: mapNotFound_def prog_defs split: option.split)

lemma mapNotFound_Inr [simp]: "mapNotFound r db = (Inr x, db') \<longleftrightarrow> r = Some x \<and> db' = db"
  by (auto simp: mapNotFound_def prog_defs split: option.split)

lemma constraint_eq [simp]: "constraint wrap db = (Inl (wrap (Errorf ''postgres: constraint violation'')), db)"
  by (simp add: constraint_def throwE_def)

lemma pg_transaction_error: "transaction b c m db = (Inl e, db') \<Longrightarrow> pg_view db' = pg_view db"
  by (auto simp: transaction_def split: prod.splits sum.splits)

text \<open>Payments.\<close>

lemma view_insertPayment:
  assumes "insertPayment lib p db = (Inr (Some q), db')" and new: "v_pay (pg_view db) (pi_ID p) = None"
  shows "abs_pay pix_row q = abs_pay pix_row p \<and>
    pg_view db' = add_pay (pi_WorkspaceID p, pi_IdempotencyKey p) (abs_pay pix_row p) (pg_view db)"
proof -
  from statement_Inr [OF assms(1) [unfolded insertPayment_def]]
  have q: "q = scanPayment lib p" and fresh: "find (\<lambda>r. (pi_WorkspaceID r, pi_IdempotencyKey r) = (pi_WorkspaceID p, pi_IdempotencyKey p)) (db_payments db) = None"
    and db': "db' = db\<lparr>db_faults := tl (db_faults db), db_payments := db_payments db @ [scanPayment lib p]\<rparr>"
    by (auto simp: same_key_eq find_None_ex split: if_splits)
  have a: "abs_pay pix_row (scanPayment lib p) = abs_pay pix_row p" by (simp add: abs_pay_def scanPayment_def)
  have ids: "pi_ID (scanPayment lib p) = pi_ID p" "pi_WorkspaceID (scanPayment lib p) = pi_WorkspaceID p"
    "pi_IdempotencyKey (scanPayment lib p) = pi_IdempotencyKey p" "pi_RequestFingerprint (scanPayment lib p) = pi_RequestFingerprint p"
    by (simp_all add: scanPayment_def)
  have pay: "map_option (abs_pay pix_row) (find (\<lambda>r. pi_ID r = i) (db_payments db @ [scanPayment lib p])) =
      (if i = pi_ID p then Some (abs_pay pix_row p) else map_option (abs_pay pix_row) (find (\<lambda>r. pi_ID r = i) (db_payments db)))" for i
    using new by (simp add: find_append pg_view_def ids a split: option.split)
  have key: "map_option (\<lambda>r. (pi_ID r, pi_RequestFingerprint r)) (find (\<lambda>r. (pi_WorkspaceID r, pi_IdempotencyKey r) = k) (db_payments db @ [scanPayment lib p])) =
      (if k = (pi_WorkspaceID p, pi_IdempotencyKey p) then Some (pi_ID p, pi_RequestFingerprint p)
       else map_option (\<lambda>r. (pi_ID r, pi_RequestFingerprint r)) (find (\<lambda>r. (pi_WorkspaceID r, pi_IdempotencyKey r) = k) (db_payments db)))" for k
    using fresh by (simp add: find_append ids split: option.split)
  have "pg_view db' = add_pay (pi_WorkspaceID p, pi_IdempotencyKey p) (abs_pay pix_row p) (pg_view db)"
    by (simp add: db' pg_view_def add_pay_def attempts_of_def pay key fun_eq_iff abs_pay_def [of _ p])
  then show ?thesis by (simp add: q a)
qed

lemma abs_payment_columns:
  "same_payment (abs_pay pix_row p) (abs_pay pix_row r) \<Longrightarrow> abs_pay pix_row (payment_columns lib p r) = abs_pay pix_row p"
  by (simp add: abs_pay_def payment_columns_def scanPayment_def same_payment_def Let_def)

lemma view_updatePayment:
  assumes "updatePayment wrap lib p db = (Inr u, db')" and p0: "v_pay (pg_view db) (pi_ID p) = Some p0"
    and same: "same_payment (abs_pay pix_row p) p0"
  shows "pg_view db' = put_pay (abs_pay pix_row p) (pg_view db)"
proof -
  let ?P = "\<lambda>r. pi_ID r = pi_ID p" and ?f = "payment_columns lib p"
  from statement_Inr [OF assms(1) [unfolded updatePayment_def]]
  have db': "db' = db\<lparr>db_faults := tl (db_faults db), db_payments := update_first ?P ?f (db_payments db)\<rparr>"
    by (auto split: if_splits)
  obtain r0 where r0: "find ?P (db_payments db) = Some r0" "p0 = abs_pay pix_row r0" using p0 by (auto simp: pg_view_def)
  then have s: "same_payment (abs_pay pix_row p) (abs_pay pix_row r0)" using same by simp
  have idem: "map_option (\<lambda>r. (pi_ID r, pi_RequestFingerprint r)) (find (\<lambda>r. (pi_WorkspaceID r, pi_IdempotencyKey r) = k) (update_first ?P ?f (db_payments db))) =
      map_option (\<lambda>r. (pi_ID r, pi_RequestFingerprint r)) (find (\<lambda>r. (pi_WorkspaceID r, pi_IdempotencyKey r) = k) (db_payments db))" for k
    by (rule find_update_same) (use r0 s in \<open>auto simp: payment_columns_def Let_def scanPayment_def same_payment_def abs_pay_def\<close>)
  have "find (\<lambda>r. pi_ID r = i) (update_first ?P ?f (db_payments db)) =
      map_option (\<lambda>r. if pi_ID p = i then ?f r else r) (find (\<lambda>r. pi_ID r = i) (db_payments db))" for i
    by (rule find_update_key) (simp add: payment_columns_def Let_def)
  then have "map_option (abs_pay pix_row) (find (\<lambda>r. pi_ID r = i) (update_first ?P ?f (db_payments db))) =
      (if i = pi_ID p then Some (abs_pay pix_row p) else map_option (abs_pay pix_row) (find (\<lambda>r. pi_ID r = i) (db_payments db)))" for i
    using r0(1) abs_payment_columns [OF s] by (auto simp: option.map_comp comp_def)
  then show ?thesis
    by (simp add: db' pg_view_def put_pay_def attempts_of_def idem fun_eq_iff abs_pay_def [of _ p])
qed

text \<open>Attempts: the rows of a listed payment are found under their ids.\<close>

lemma attempts_of_iff: "a \<in> set (attempts_of db pid) \<longleftrightarrow> a \<in> set (db_attempts db) \<and> pa_PaymentIntentID a = pid"
  by (simp add: attempts_of_def)

lemma listed_row:
  assumes l: "listed (pg_view db) (pa_PaymentIntentID a)" and a: "a \<in> set (db_attempts db)"
  shows "find (\<lambda>r. pa_ID r = pa_ID a) (db_attempts db) = Some a"
proof -
  let ?as = "attempts_of db (pa_PaymentIntentID a)"
  have mem: "a \<in> set ?as" using a by (simp add: attempts_of_iff)
  then obtain r where r: "find (\<lambda>r. pa_ID r = pa_ID a) (db_attempts db) = Some r" "pa_PaymentIntentID r = pa_PaymentIntentID a"
    using l by (fastforce simp: listed_def pg_view_def abs_att_def)
  then have "r \<in> set ?as" "pa_ID r = pa_ID a" by (auto simp: attempts_of_iff find_Some_iff)
  moreover have "inj_on pa_ID (set ?as)" using l by (simp add: listed_def pg_view_def distinct_map)
  ultimately show ?thesis using r mem by (simp add: inj_on_def)
qed

lemma listed_atts:
  assumes "listed (pg_view db) pid"
  shows "atts (pg_view db) pid = map (abs_att pix_row) (attempts_of db pid)"
  unfolding atts_def pg_view_def view.simps map_map comp_def
proof (rule map_cong [OF refl])
  fix a assume "a \<in> set (attempts_of db pid)"
  then have "find (\<lambda>r. pa_ID r = pa_ID a) (db_attempts db) = Some a"
    using assms by (intro listed_row) (auto simp: attempts_of_iff)
  then show "the (map_option (abs_att pix_row) (find (\<lambda>r. pa_ID r = pa_ID a) (db_attempts db))) = abs_att pix_row a" by simp
qed

lemma view_addAttempt:
  assumes "pg_AddAttemptWithRoutingDecision a d db = (Inr u, db')" and new: "v_att (pg_view db) (pa_ID a) = None"
    and d: "rd_PaymentIntentID d = pa_PaymentIntentID a" and l: "listed (pg_view db) (pa_PaymentIntentID a)"
    and seq: "\<And>b. b \<in> set (atts (pg_view db) (pa_PaymentIntentID a)) \<Longrightarrow> aa_Sequence b < pa_Sequence a"
  shows "pg_view db' = add_att (abs_att pix_row a) (abs_dec d) (pg_view db)"
proof -
  let ?d = "d\<lparr>rd_CreatedAt := pg_time (rd_CreatedAt d)\<rparr>" and ?a = "scanAttempt a"
  from transaction_Inr [OF assms(1) [unfolded pg_AddAttemptWithRoutingDecision_def]] obtain fs fs' db1 where
    "bindE (insertAttempt a) (\<lambda>_. insertDecision d) (db\<lparr>db_faults := fs\<rparr>) = (Inr u, db1)" and db': "db' = db1\<lparr>db_faults := fs'\<rparr>" by blast
  then obtain fs'' where db1: "db1 = db\<lparr>db_attempts := db_attempts db @ [?a], db_faults := fs'', db_decisions := db_decisions db @ [?d]\<rparr>"
    by (elim bindE_InrE) (auto simp: insertAttempt_def insertDecision_def dest!: statement_Inr split: if_splits)
  have a: "abs_att pix_row ?a = abs_att pix_row a" "pa_ID ?a = pa_ID a" "pa_PaymentIntentID ?a = pa_PaymentIntentID a" "pa_Sequence ?a = pa_Sequence a"
    by (simp_all add: abs_att_def scanAttempt_def)
  have att: "map_option (abs_att pix_row) (find (\<lambda>r. pa_ID r = i) (db_attempts db @ [?a])) =
      (if i = pa_ID a then Some (abs_att pix_row a) else map_option (abs_att pix_row) (find (\<lambda>r. pa_ID r = i) (db_attempts db)))" for i
    using new by (simp add: find_append pg_view_def a split: option.split)
  have "pa_Sequence b \<le> pa_Sequence ?a" if "b \<in> set (filter (\<lambda>b. pa_PaymentIntentID b = pa_PaymentIntentID a) (db_attempts db))" for b
    using seq [of "abs_att pix_row b"] that by (simp add: listed_atts [OF l] attempts_of_def a abs_att_def)
  then have "sort_key pa_Sequence (filter (\<lambda>b. pa_PaymentIntentID b = pa_PaymentIntentID a) (db_attempts db) @ [?a]) =
      attempts_of db (pa_PaymentIntentID a) @ [?a]"
    unfolding attempts_of_def by (rule sort_key_snoc)
  then have ids: "map pa_ID (sort_key pa_Sequence (filter (\<lambda>b. pa_PaymentIntentID b = pid) (db_attempts db @ [?a]))) =
      (if pid = pa_PaymentIntentID a then map pa_ID (attempts_of db pid) @ [pa_ID a] else map pa_ID (attempts_of db pid))" for pid
    by (simp add: a attempts_of_def)
  have dec: "abs_dec ?d = abs_dec d" by (simp add: abs_dec_def)
  have attempts: "db_attempts db1 = db_attempts db @ [?a]" by (simp add: db1)
  have "map pa_ID (attempts_of db1 pid) =
      (if pid = pa_PaymentIntentID a then map pa_ID (attempts_of db pid) @ [pa_ID a] else map pa_ID (attempts_of db pid))" for pid
    unfolding ids [symmetric] attempts [symmetric] by (rule arg_cong [OF attempts_of_def])
  then have "pg_view db1 = add_att (abs_att pix_row a) (abs_dec d) (pg_view db)"
    by (simp add: pg_view_def add_att_def) (simp add: db1 att d dec fun_eq_iff abs_att_def [of _ a])
  then show ?thesis by (simp add: db')
qed

lemma view_SaveAttempt:
  assumes "pg_SaveAttempt a db = (Inr u, db')" and b: "v_att (pg_view db) (pa_ID a) = Some b" and same: "same_attempt (abs_att pix_row a) b"
  shows "pg_view db' = put_att (abs_att pix_row a) (pg_view db)"
proof -
  let ?P = "\<lambda>r. pa_ID r = pa_ID a" and ?f = "attempt_columns a"
  from statement_Inr [OF assms(1) [unfolded pg_SaveAttempt_def]]
  have db': "db' = db\<lparr>db_faults := tl (db_faults db), db_attempts := update_first ?P ?f (db_attempts db)\<rparr>"
    by (auto split: if_splits)
  obtain r0 where r0: "find ?P (db_attempts db) = Some r0" "b = abs_att pix_row r0" using b by (auto simp: pg_view_def)
  have f: "abs_att pix_row (?f r0) = abs_att pix_row a"
    using same by (simp add: r0 abs_att_def attempt_columns_def scanAttempt_def same_attempt_def Let_def)
  have "find (\<lambda>r. pa_ID r = i) (update_first ?P ?f (db_attempts db)) =
      map_option (\<lambda>r. if pa_ID a = i then ?f r else r) (find (\<lambda>r. pa_ID r = i) (db_attempts db))" for i
    by (rule find_update_key) (simp add: attempt_columns_def Let_def)
  then have att: "map_option (abs_att pix_row) (find (\<lambda>r. pa_ID r = i) (update_first ?P ?f (db_attempts db))) =
      (if i = pa_ID a then Some (abs_att pix_row a) else map_option (abs_att pix_row) (find (\<lambda>r. pa_ID r = i) (db_attempts db)))" for i
    using r0(1) f by (auto simp: option.map_comp comp_def)
  have "map (\<lambda>r. (pa_ID r, pa_PaymentIntentID r, pa_Sequence r)) (update_first ?P ?f (db_attempts db)) =
      map (\<lambda>r. (pa_ID r, pa_PaymentIntentID r, pa_Sequence r)) (db_attempts db)"
    by (rule update_first_map) (simp add: attempt_columns_def Let_def)
  from select_columns [OF this] have "map pa_ID (attempts_of db' pid) = map pa_ID (attempts_of db pid)" for pid
    by (simp add: attempts_of_def db')
  then show ?thesis
    by (simp add: pg_view_def put_att_def) (simp add: db' att fun_eq_iff abs_att_def [of _ a])
qed

text \<open>Events.\<close>

lemma view_insertMerchantEvent:
  assumes "insertMerchantEvent lib e db = (Inr u, db')"
  shows "pg_view db' = put_event (me_WorkspaceID e) (abs_evt e) (pg_view db)"
  using statement_Inr [OF assms [unfolded insertMerchantEvent_def]]
  by (auto simp: pg_view_def put_event_def abs_evt_def attempts_of_def fun_eq_iff split: if_splits)

lemma view_insertMerchantEvents:
  "insertMerchantEvents lib es db = (Inr u, db') \<Longrightarrow> pg_view db' = put_events es (pg_view db)"
  by (induction es arbitrary: db) (auto simp: put_events_def returnE_def dest!: view_insertMerchantEvent elim!: bindE_InrE)

lemma view_insertRecovery:
  assumes "insertRecovery wrap r db = (Inr c, db')"
  shows "pg_view db' = put_rec (re_PaymentIntentID r) (abs_rec r) (pg_view db)"
  using statement_Inr [OF assms [unfolded insertRecovery_def]]
  by (auto simp: pg_view_def put_rec_def abs_rec_def attempts_of_def fun_eq_iff list_ex_iff filter_empty_conv split: if_splits)

lemma view_MarkPaid:
  assumes "pg_MarkPaymentPaidWithEvents lib p r es db = (Inr u, db')" and p0: "v_pay (pg_view db) (pi_ID p) = Some p0"
    and same: "same_payment (abs_pay pix_row p) p0"
  shows "pg_view db' = put_paid (abs_pay pix_row p) r es (pg_view db)"
proof -
  from transaction_Inr [OF assms(1) [unfolded pg_MarkPaymentPaidWithEvents_def]] obtain fs fs' db3 where
    "bindE (updatePayment (Wrapf ''update paid payment'') lib p) (\<lambda>_. bindE (case r of None \<Rightarrow> returnE False
      | Some event \<Rightarrow> insertRecovery (Wrapf ''insert paid recovery event'') event) (\<lambda>_. insertMerchantEvents lib es)) (db\<lparr>db_faults := fs\<rparr>)
      = (Inr u, db3)" and db': "db' = db3\<lparr>db_faults := fs'\<rparr>" by blast
  then obtain db1 db2 c where 1: "updatePayment (Wrapf ''update paid payment'') lib p (db\<lparr>db_faults := fs\<rparr>) = (Inr (), db1)"
    and 2: "(case r of None \<Rightarrow> returnE False | Some event \<Rightarrow> insertRecovery (Wrapf ''insert paid recovery event'') event) db1 = (Inr c, db2)"
    and 3: "insertMerchantEvents lib es db2 = (Inr u, db3)"
    by (auto elim!: bindE_InrE)
  have v1: "pg_view db1 = put_pay (abs_pay pix_row p) (pg_view db)" using view_updatePayment [OF 1] p0 same by simp
  have v2: "pg_view db2 = (case r of None \<Rightarrow> pg_view db1 | Some r' \<Rightarrow> put_rec (re_PaymentIntentID r') (abs_rec r') (pg_view db1))"
    using 2 by (auto simp: returnE_def dest: view_insertRecovery split: option.splits)
  show ?thesis using view_insertMerchantEvents [OF 3] by (simp add: db' put_paid_def v1 v2 cong: option.case_cong)
qed

lemma pg_reads:
  "pg_view (snd (pg_GetPayment i db)) = pg_view db" "pg_view (snd (pg_GetPaymentEnvironment i db)) = pg_view db"
  "pg_view (snd (pg_ListProviderConnections i db)) = pg_view db" "pg_view (snd (pg_GetProviderConnection i db)) = pg_view db"
  "pg_view (snd (pg_GetAttempt i db)) = pg_view db" "pg_view (snd (pg_GetAttemptByProviderPaymentID c i db)) = pg_view db"
  "pg_view (snd (pg_ListAttempts i db)) = pg_view db"
  "pg_view (snd (pg_RecordProviderEvent e db)) = pg_view db" "pg_view (snd (pg_MarkProviderEventProcessed c i t db)) = pg_view db"
  by (auto simp: pg_GetPayment_def pg_GetPaymentEnvironment_def pg_ListProviderConnections_def pg_GetProviderConnection_def pg_GetAttempt_def
      pg_GetAttemptByProviderPaymentID_def pg_ListAttempts_def pg_RecordProviderEvent_def pg_MarkProviderEventProcessed_def
      intro!: pg_statement_view pg_view_cong)

lemma pg_create_error:
  assumes "pg_GetOrCreatePayment lib p db = (Inl e, db')"
  shows "pg_view db' = pg_view db"
proof -
  have ins: "pg_view db1 = pg_view db" if "insertPayment lib p db = (Inl e1, db1)" for e1 db1
    by (rule pg_statement_error [OF that [unfolded insertPayment_def]]) (auto split: if_splits)
  have none: "pg_view db1 = pg_view db" if "insertPayment lib p db = (Inr None, db1)" for db1
    using statement_Inr [OF that [unfolded insertPayment_def]] by (auto split: if_splits)
  have get: "pg_view db2 = pg_view db1" if "getPaymentByIdempotency w k db1 = (r, db2)" for w k r db1 db2
    using pg_statement_view [of "\<lambda>db. mapNotFound (find (same_key w k) (db_payments db)) db" id db1] that
    by (simp add: getPaymentByIdempotency_def)
  show ?thesis
    using assms by (auto simp: pg_GetOrCreatePayment_def bindE_def throwE_def returnE_def dest: ins split: prod.splits sum.splits option.splits if_splits)
      (metis get none)+
qed

lemma pg_create_old:
  assumes "pg_GetOrCreatePayment lib p db = (Inr (q, created), db')"
    and old: "v_idem (pg_view db) (pi_WorkspaceID p, pi_IdempotencyKey p) = Some (pid, fp)"
    and p0: "v_pay (pg_view db) pid = Some p0" "(ap_Workspace p0, ap_Key p0) = (pi_WorkspaceID p, pi_IdempotencyKey p)"
  shows "\<not> created \<and> fp = pi_RequestFingerprint p \<and> v_pay (pg_view db) pid = Some (abs_pay pix_row q) \<and> pg_view db' = pg_view db"
proof -
  let ?K = "same_key (pi_WorkspaceID p) (pi_IdempotencyKey p)"
  obtain r where r: "find ?K (db_payments db) = Some r" "pid = pi_ID r" "fp = pi_RequestFingerprint r"
    using old by (auto simp: pg_view_def same_key_eq)
  obtain r0 where r0: "find (\<lambda>x. pi_ID x = pid) (db_payments db) = Some r0" "p0 = abs_pay pix_row r0"
    using p0(1) by (auto simp: pg_view_def)
  have first: "find P xs = Some x \<Longrightarrow> find Q xs = Some y \<Longrightarrow> P y \<Longrightarrow> Q x \<Longrightarrow> x = y" for P Q :: "PaymentIntent \<Rightarrow> bool" and xs x y
    by (induction xs) (auto split: if_splits)
  have "?K r0" using p0(2) by (simp add: r0 abs_pay_def same_key_def)
  with first [OF r(1) r0(1)] r(2) have "r = r0" by simp
  obtain x db1 where x: "insertPayment lib p db = (Inr x, db1)"
      "(case x of Some p \<Rightarrow> returnE (p, True) | None \<Rightarrow> bindE (getPaymentByIdempotency (pi_WorkspaceID p) (pi_IdempotencyKey p)) (\<lambda>existing.
         if pi_RequestFingerprint existing \<noteq> pi_RequestFingerprint p then throwE ErrIdempotencyConflict else returnE (existing, False))) db1
       = (Inr (q, created), db')"
    using assms(1) unfolding pg_GetOrCreatePayment_def by (elim bindE_InrE)
  have "list_ex ?K (db_payments db)" using r(1) find_None_ex [of ?K "db_payments db"] by simp
  then have "x = None" using statement_Inr [OF x(1) [unfolded insertPayment_def]] by (auto split: if_splits)
  with x have i: "insertPayment lib p db = (Inr None, db1)"
      "bindE (getPaymentByIdempotency (pi_WorkspaceID p) (pi_IdempotencyKey p)) (\<lambda>existing.
         if pi_RequestFingerprint existing \<noteq> pi_RequestFingerprint p then throwE ErrIdempotencyConflict else returnE (existing, False)) db1
       = (Inr (q, created), db')" by simp_all
  have db1: "db1 = db\<lparr>db_faults := tl (db_faults db)\<rparr>"
    using i(1) by (auto simp: insertPayment_def dest!: statement_Inr split: if_splits)
  from i(2) have "q = r \<and> \<not> created \<and> pi_RequestFingerprint r = pi_RequestFingerprint p \<and> pg_view db' = pg_view db1"
    by (elim bindE_InrE) (auto simp: getPaymentByIdempotency_def throwE_def returnE_def db1 r(1) dest!: statement_Inr split: if_splits)
  then show ?thesis using r r0 \<open>r = r0\<close> by (simp add: db1 pg_view_def attempts_of_def)
qed

lemma pg_create_new:
  assumes "pg_GetOrCreatePayment lib p db = (Inr (q, created), db')" and new: "v_pay (pg_view db) (pi_ID p) = None"
    and none: "v_idem (pg_view db) (pi_WorkspaceID p, pi_IdempotencyKey p) = None"
  shows "created \<and> abs_pay pix_row q = abs_pay pix_row p \<and>
    pg_view db' = add_pay (pi_WorkspaceID p, pi_IdempotencyKey p) (abs_pay pix_row p) (pg_view db)"
proof -
  have "find (same_key (pi_WorkspaceID p) (pi_IdempotencyKey p)) (db_payments db) = None"
    using none by (simp add: pg_view_def same_key_eq)
  then have free: "\<not> list_ex (same_key (pi_WorkspaceID p) (pi_IdempotencyKey p)) (db_payments db)" by (simp add: find_None_ex)
  obtain x db1 where x: "insertPayment lib p db = (Inr x, db1)"
      "(case x of Some p \<Rightarrow> returnE (p, True) | None \<Rightarrow> bindE (getPaymentByIdempotency (pi_WorkspaceID p) (pi_IdempotencyKey p)) (\<lambda>existing.
         if pi_RequestFingerprint existing \<noteq> pi_RequestFingerprint p then throwE ErrIdempotencyConflict else returnE (existing, False))) db1
       = (Inr (q, created), db')"
    using assms(1) unfolding pg_GetOrCreatePayment_def by (elim bindE_InrE)
  then have "x = Some (scanPayment lib p)"
    using free statement_Inr [OF x(1) [unfolded insertPayment_def]] by (auto split: if_splits)
  with x view_insertPayment [of lib p db _ db1] new show ?thesis by (auto simp: returnE_def)
qed

lemma pg_update_error: "updatePayment wrap lib p db = (Inl e, db') \<Longrightarrow> pg_view db' = pg_view db"
  unfolding updatePayment_def by (erule pg_statement_error) (auto split: if_splits)

lemma pg_gets:
  "pg_GetPayment i db = (Inr p, db') \<Longrightarrow> v_pay (pg_view db) i = Some (abs_pay pix_row p)"
  "pg_GetAttempt i db = (Inr a, db') \<Longrightarrow> v_att (pg_view db) i = Some (abs_att pix_row a)"
  by (auto simp: pg_GetPayment_def pg_GetAttempt_def pg_view_def dest!: statement_Inr)

interpretation pg: repository "pg_repository lib" pg_view Pair pix_row
proof unfold_locales
  fix p s q created s' assume "GetOrCreatePayment (pg_repository lib) p s = (Inr (q, created), s')"
  then have g: "pg_GetOrCreatePayment lib p s = (Inr (q, created), s')" by (simp add: pg_repository_def)
  { assume "v_pay (pg_view s) (pi_ID p) = None" "v_idem (pg_view s) (pi_WorkspaceID p, pi_IdempotencyKey p) = None"
    then show "created \<and> abs_pay pix_row q = abs_pay pix_row p \<and>
      pg_view s' = add_pay (pi_WorkspaceID p, pi_IdempotencyKey p) (abs_pay pix_row p) (pg_view s)"
      by (rule pg_create_new [OF g]) }
  { fix pid fp p0 assume "v_idem (pg_view s) (pi_WorkspaceID p, pi_IdempotencyKey p) = Some (pid, fp)" "v_pay (pg_view s) pid = Some p0"
      "(ap_Workspace p0, ap_Key p0) = (pi_WorkspaceID p, pi_IdempotencyKey p)"
    then show "\<not> created \<and> fp = pi_RequestFingerprint p \<and> v_pay (pg_view s) pid = Some (abs_pay pix_row q) \<and> pg_view s' = pg_view s"
      by (rule pg_create_old [OF g]) }
next
  fix p s e s' assume "GetOrCreatePayment (pg_repository lib) p s = (Inl e, s')"
  then show "pg_view s' = pg_view s" by (intro pg_create_error) (simp add: pg_repository_def)
next
  fix p s u s' p0 assume "SavePayment (pg_repository lib) p s = (Inr u, s')" "v_pay (pg_view s) (pi_ID p) = Some p0"
    "same_payment (abs_pay pix_row p) p0"
  then show "pg_view s' = put_pay (abs_pay pix_row p) (pg_view s)"
    by (intro view_updatePayment) (simp_all add: pg_repository_def pg_SavePayment_def)
next
  fix p s e s' assume "SavePayment (pg_repository lib) p s = (Inl e, s')"
  then show "pg_view s' = pg_view s" by (intro pg_update_error) (simp add: pg_repository_def pg_SavePayment_def)
next
  fix a d s u s' assume "AddAttemptWithRoutingDecision (pg_repository lib) a d s = (Inr u, s')" "v_att (pg_view s) (pa_ID a) = None"
    "rd_PaymentIntentID d = pa_PaymentIntentID a" "listed (pg_view s) (pa_PaymentIntentID a)"
    "\<And>b. b \<in> set (atts (pg_view s) (pa_PaymentIntentID a)) \<Longrightarrow> aa_Sequence b < pa_Sequence a"
  then show "pg_view s' = add_att (abs_att pix_row a) (abs_dec d) (pg_view s)"
    by (intro view_addAttempt) (simp_all add: pg_repository_def)
next
  fix a s u s' b assume "SaveAttempt (pg_repository lib) a s = (Inr u, s')" "v_att (pg_view s) (pa_ID a) = Some b"
    "same_attempt (abs_att pix_row a) b"
  then show "pg_view s' = put_att (abs_att pix_row a) (pg_view s)" by (intro view_SaveAttempt) (simp_all add: pg_repository_def)
next
  fix a s e s' assume "SaveAttempt (pg_repository lib) a s = (Inl e, s')"
  then show "pg_view s' = pg_view s"
    by (auto simp: pg_repository_def pg_SaveAttempt_def dest!: statement_Inl split: if_splits)
next
  fix c i s a s' assume g: "GetAttemptByProviderPaymentID (pg_repository lib) c i s = (Inr a, s')" and l: "\<And>pid. listed (pg_view s) pid"
  let ?as = "filter (\<lambda>a. pa_ProviderConnectionID a = c \<and> pa_ProviderPaymentID a = i) (db_attempts s)"
  obtain rest where "sort_key pa_Sequence ?as = rev rest @ [a]"
    using g by (auto simp: pg_repository_def pg_GetAttemptByProviderPaymentID_def dest!: statement_Inr split: list.splits)
  then have "a \<in> set (sort_key pa_Sequence ?as)" by simp
  then show "v_att (pg_view s) (pa_ID a) = Some (abs_att pix_row a) \<and> pa_ProviderConnectionID a = c \<and> pa_ProviderPaymentID a = i"
    using listed_row [OF l] by (auto simp: pg_view_def)
next
  fix i s xs s' assume g: "ListAttempts (pg_repository lib) i s = (Inr xs, s')" and l: "listed (pg_view s) i"
  then have "xs = attempts_of s i"
    by (auto simp: pg_repository_def pg_ListAttempts_def attempts_of_def dest!: statement_Inr)
  then show "map (abs_att pix_row) xs = atts (pg_view s) i" by (simp add: listed_atts [OF l])
next
  fix p r es s u s' p0 assume "MarkPaymentPaidWithEvents (pg_repository lib) p r es s = (Inr u, s')" "v_pay (pg_view s) (pi_ID p) = Some p0"
    "same_payment (abs_pay pix_row p) p0"
  then show "pg_view s' = put_paid (abs_pay pix_row p) r es (pg_view s)" by (intro view_MarkPaid) (simp_all add: pg_repository_def)
qed (auto simp: pg_repository_def pg_reads pg_AddAttemptWithRoutingDecision_def pg_MarkPaymentPaidWithEvents_def pg_gets
    dest: pg_transaction_error)

end
