(* ===== verification/Production.thy ===== *)
theory Production
  imports Guarantees PgStore PgTelemetry
begin

text \<open>
  The wiring of \<open>cmd/api/main.go\<close>: the orchestration service over the PostgreSQL store, with routing
  telemetry on the same store.  A run interleaves whole calls of the service with whatever the rest of
  the program does to the database (provider connections, API keys, the webhook worker, telemetry):
  \<open>pg_admin\<close>, any change that leaves the tables of payments, attempts, decisions, recoveries and merchant
  events alone.  Statements fail at any point (\<open>db_faults\<close> is arbitrary).

  The properties are those of the in-memory runs, now over the tables, by the interpretation \<open>pg\<close>.
\<close>

section \<open>Telemetry leaves the payments alone\<close>

definition same_core :: "PgDB \<Rightarrow> PgDB \<Rightarrow> bool" where
  "same_core db db' \<longleftrightarrow> db_payments db' = db_payments db \<and> db_attempts db' = db_attempts db \<and> db_decisions db' = db_decisions db \<and>
     db_recoveries db' = db_recoveries db \<and> db_merchantEvents db' = db_merchantEvents db"

lemma same_core_view: "same_core db db' \<Longrightarrow> pg_view db' = pg_view db"
  by (rule pg_view_cong) (simp_all add: same_core_def)

interpretation core: sql_relation same_core
  by unfold_locales (auto simp: same_core_def)

lemma core_telemetry:
  "along same_core (AggregateProviderHealth (pg_telemetry pc) i t1 t2)" "along same_core (SaveProviderHealthSnapshot (pg_telemetry pc) p)"
  "along same_core (ListRecentProviderHealthSnapshots (pg_telemetry pc) i n)" "along same_core (LatestProviderAttemptSince (pg_telemetry pc) i t)"
  "along same_core (UpdateProviderCircuit (pg_telemetry pc) i st ot)"
  by (auto simp: pg_telemetry_def pg_AggregateProviderHealth_def pg_SaveProviderHealthSnapshot_def pg_ListRecentProviderHealthSnapshots_def
      pg_LatestProviderAttemptSince_def pg_UpdateProviderCircuit_def same_core_def Let_def
      intro!: core.along_statement along_intros split: option.splits)

lemma core_refresh: "ts_repo sv = pg_telemetry pc \<Longrightarrow> along same_core (Refresh sv conns env now)"
  by (intro core.along_Refresh) (simp_all add: core_telemetry)

section \<open>Runs\<close>

definition pg_service :: "PgLib \<Rightarrow> percentile \<Rightarrow> TelemetryOptions \<Rightarrow> PgDB Service \<Rightarrow> bool" where
  "pg_service lib percentile_cont opts sv \<longleftrightarrow> sv_repo sv = pg_repository lib \<and>
     sv_telemetry sv = Some (Refresh (NewTelemetry (pg_telemetry percentile_cont) opts))"

definition pg_admin :: "PgDB \<Rightarrow> PgDB \<Rightarrow> bool" where
  "pg_admin = same_core"

definition pg_start :: "nat \<Rightarrow> PgDB world" where
  "pg_start n = \<lparr>w_store = empty_db, w_tick = n, w_calls = []\<rparr>"

definition pg_run :: "PgLib \<Rightarrow> percentile \<Rightarrow> TelemetryOptions \<Rightarrow> PgDB Service \<Rightarrow> PgDB world \<Rightarrow> bool" where
  "pg_run lib percentile_cont opts sv w \<longleftrightarrow> pg_service lib percentile_cont opts sv \<and>
     (\<exists>n. reachable sv pg_admin (pg_start n) w) \<and> no_collision sv w"

lemma pg_service_ok: "pg_service lib pc opts sv \<Longrightarrow> service_ok (pg_repository lib) pg_view sv"
  using core_refresh [of "NewTelemetry (pg_telemetry pc) opts" pc]
  by (auto simp: pg_service_def service_ok_def NewTelemetry_def along_def intro!: same_core_view)

lemma pg_start_inv: "inv mx ids ikey n (pg_view empty_db) []"
  by (rule invI)
    (auto simp: pg_view_def empty_db_def attempts_of_def ids_ok_def list_ok_def atts_def idem_ok_def evt_ok_def trace_ok_def)

lemma pg_run_inv:
  assumes "pg_run lib pc opts sv w"
  shows "inv (sv_maxAttempts sv) (sv_ids sv) Pair (w_tick w) (pg_view (w_store w)) (w_calls w)"
proof -
  obtain n where ok: "pg_service lib pc opts sv" and "reachable sv pg_admin (pg_start n) w" "no_collision sv w"
    using assms by (auto simp: pg_run_def)
  moreover have "world_inv pg_view Pair sv (pg_start n)" by (simp add: world_inv_def pg_start_def pg_start_inv)
  ultimately have "world_inv pg_view Pair sv w"
    using pg.reachable_INV [OF pg_service_ok [OF ok], of pg_admin] same_core_view by (auto simp: pg_admin_def)
  then show ?thesis by (simp add: world_inv_def)
qed

section \<open>A run for the witnesses\<close>

definition demo_lib :: PgLib where
  "demo_lib = \<lparr>pl_jsonb = id, pl_metadata = id\<rparr>"

definition demo_telemetry :: TelemetryOptions where
  "demo_telemetry = \<lparr>to_Window = 0, to_CircuitCooldown = 0, to_MinimumSamples = 0\<rparr>"

definition demo_pg_service :: "PgDB Service" where
  "demo_pg_service = NewService (\<lambda>n. int n * 1000) (\<lambda>n. []) \<lparr>op_Repository = pg_repository demo_lib, op_Providers = demo_registry,
     op_RoutingTelemetry = Some (Refresh (NewTelemetry (pg_telemetry (\<lambda>_. hd)) demo_telemetry)), op_Clock = None,
     op_IDs = Some demo_ids, op_MaxAttempts = 0\<rparr>"

definition demo_pg_configured :: "PgDB world" where
  "demo_pg_configured = \<lparr>w_store = empty_db\<lparr>db_connections :=
     [demo_connection ''a'' 1 CircuitClosed, demo_connection ''b'' 2 CircuitClosed]\<rparr>, w_tick = 0, w_calls = []\<rparr>"

definition demo_pg_created :: "PgDB world" where
  "demo_pg_created = snd (CreatePayment demo_pg_service demo_request demo_pg_configured)"

definition demo_pg_paid :: "PgDB world" where
  "demo_pg_paid = snd (ProcessProviderWebhook demo_pg_service ''b''
     \<lparr>wr_Headers = [], wr_Body = ''pp'' @ demo_ids 12 ''pa''\<rparr> demo_pg_created)"

lemma demo_pg_service: "pg_service demo_lib (\<lambda>_. hd) demo_telemetry demo_pg_service"
  by (simp add: pg_service_def demo_pg_service_def NewService_def)

lemma demo_pg_run: "pg_run demo_lib (\<lambda>_. hd) demo_telemetry demo_pg_service demo_pg_paid"
proof -
  have "service_step demo_pg_service pg_admin (pg_start 0) ((pg_start 0)\<lparr>w_store := w_store demo_pg_configured\<rparr>)"
    by (rule service_step.administer) (simp add: pg_admin_def same_core_def demo_pg_configured_def pg_start_def empty_db_def)
  moreover have "(pg_start 0)\<lparr>w_store := w_store demo_pg_configured\<rparr> = demo_pg_configured"
    by (simp add: pg_start_def demo_pg_configured_def)
  ultimately have "reachable demo_pg_service pg_admin (pg_start 0) demo_pg_configured"
    using reachable.start reachable.step by metis
  then have "reachable demo_pg_service pg_admin (pg_start 0) demo_pg_created"
    unfolding demo_pg_created_def by (rule reachable.step [OF _ service_step.create])
  then have "reachable demo_pg_service pg_admin (pg_start 0) demo_pg_paid"
    unfolding demo_pg_paid_def by (rule reachable.step [OF _ service_step.webhook])
  moreover have "no_collision demo_pg_service w" for w
    by (simp add: no_collision_def demo_pg_service_def NewService_def demo_ids_unique)
  ultimately show ?thesis using demo_pg_service unfolding pg_run_def by blast
qed

section \<open>Properties\<close>

lemma pg_view_pay: "v_pay (pg_view db) pid = map_option (abs_pay pix_row) (find (\<lambda>p. pi_ID p = pid) (db_payments db))"
  by (simp add: pg_view_def)

text \<open>
  C2.  No double charge in production (INV-003, AC-006, AC-007): over PostgreSQL, with telemetry, with
  statements failing anywhere and the rest of the program writing its own tables in between, a Pix
  creation is requested only after every earlier creation of the same payment was cleared by its
  provider; no attempt is charged twice, and a payment never has more than \<open>MaxAttempts\<close> creations.
\<close>

theorem production_no_double_charge:
  assumes "pg_run lib percentile_cont opts sv w"
  shows "safe_trace (w_calls w) \<and> distinct (creates_for pid (w_calls w)) \<and>
    int (length (creates_for pid (w_calls w))) \<le> max 0 (sv_maxAttempts sv)"
proof -
  note I = pg_run_inv [OF assms]
  have s: "safe_trace (w_calls w)" using invD(9) [OF I] by (simp add: trace_ok_def)
  then have d: "distinct (creates_for pid (w_calls w))" by (rule safe_trace_distinct)
  have "length (creates_for pid (w_calls w)) \<le> length (v_attIDs (pg_view (w_store w)) pid)"
    using card_mono [OF finite_set creates_attempts [OF I, of pid]] d
      card_length [of "v_attIDs (pg_view (w_store w)) pid"] by (simp add: distinct_card)
  then show ?thesis using s d invD(3) [OF I, of pid] by simp
qed

theorem production_no_double_charge_witness:
  "safe_trace (w_calls demo_pg_paid) \<and> distinct (creates_for (demo_ids 1 ''pi'') (w_calls demo_pg_paid)) \<and>
    int (length (creates_for (demo_ids 1 ''pi'') (w_calls demo_pg_paid))) \<le> max 0 (sv_maxAttempts demo_pg_service)"
  by (rule production_no_double_charge [OF demo_pg_run])

lemma pg_event_owner:
  assumes "pg_run lib pc opts sv w" and "e \<in> set (db_merchantEvents (w_store w))"
  shows "\<exists>p. find (\<lambda>p. pi_ID p = me_PaymentIntentID e) (db_payments (w_store w)) = Some p \<and> pi_WorkspaceID p = me_WorkspaceID e"
  using evt_okD(3) [OF invD(8) [OF pg_run_inv [OF assms(1)]], of "abs_evt e" "me_WorkspaceID e"] assms(2)
  by (auto simp: pg_view_def abs_evt_def)

lemma pg_events_of:
  assumes "pg_run lib pc opts sv w" and "find (\<lambda>p. pi_ID p = pid) (db_payments (w_store w)) = Some p"
  shows "map abs_evt (filter (\<lambda>e. me_PaymentIntentID e = pid) (db_merchantEvents (w_store w))) = events_of (abs_pay pix_row p)"
proof -
  let ?evs = "db_merchantEvents (w_store w)"
  have "filter (\<lambda>e. me_PaymentIntentID e = pid) ?evs =
      filter (\<lambda>e. me_PaymentIntentID e = pid) (filter (\<lambda>e. me_WorkspaceID e = pi_WorkspaceID p) ?evs)"
    unfolding filter_filter by (rule filter_cong [OF refl]) (use pg_event_owner [OF assms(1)] assms(2) in fastforce)
  moreover have "v_pay (pg_view (w_store w)) pid = Some (abs_pay pix_row p)" using assms(2) by (simp add: pg_view_pay)
  from evt_okD(2) [OF invD(8) [OF pg_run_inv [OF assms(1)]] this]
  have "map abs_evt (filter (\<lambda>e. me_PaymentIntentID e = pid) (filter (\<lambda>e. me_WorkspaceID e = pi_WorkspaceID p) ?evs)) =
      events_of (abs_pay pix_row p)"
    by (simp add: pg_view_def filter_map comp_def abs_evt_def)
  ultimately show ?thesis by simp
qed

text \<open>
  C3.  The outbox and the recoveries of the database are exactly-once (INV-007 to INV-009): for a stored
  payment the table \<open>merchant_events\<close> holds one \<open>payment.paid\<close> of its workspace when it is paid, then
  one \<open>payment.recovered\<close> when it is recovered, and nothing else; the recovered flag is set exactly
  when its one recovery event is in the table; a payment that is not stored has neither.
\<close>

theorem production_outbox:
  assumes "pg_run lib percentile_cont opts sv w"
  shows "case find (\<lambda>p. pi_ID p = pid) (db_payments (w_store w)) of
      None \<Rightarrow> filter (\<lambda>e. me_PaymentIntentID e = pid) (db_merchantEvents (w_store w)) = [] \<and>
        filter (\<lambda>r. re_PaymentIntentID r = pid) (db_recoveries (w_store w)) = []
    | Some p \<Rightarrow> map (\<lambda>e. (me_WorkspaceID e, me_EventType e, me_EventKey e))
          (filter (\<lambda>e. me_PaymentIntentID e = pid) (db_merchantEvents (w_store w))) =
        (if pi_Status p = PaymentStatusPaid
         then (pi_WorkspaceID p, ''payment.paid'', ''payment.paid:'' @ pid) #
           (if pi_Recovered p then [(pi_WorkspaceID p, ''payment.recovered'', ''payment.recovered:'' @ pid)] else [])
         else []) \<and>
        map re_Amount (filter (\<lambda>r. re_PaymentIntentID r = pid) (db_recoveries (w_store w))) =
          (if pi_Recovered p then [pi_Amount p] else [])"
proof -
  let ?db = "w_store w" and ?v = "pg_view (w_store w)"
  note I = pg_run_inv [OF assms]
  have rec: "v_rec ?v pid = map abs_rec (filter (\<lambda>r. re_PaymentIntentID r = pid) (db_recoveries ?db))" by (simp add: pg_view_def)
  note owner = pg_event_owner [OF assms]
  show ?thesis
  proof (cases "find (\<lambda>p. pi_ID p = pid) (db_payments ?db)")
    case None
    then have none: "v_pay ?v pid = None" by (simp add: pg_view_pay)
    then show ?thesis using None owner invD(6) [OF I none] by (force simp: rec filter_empty_conv)
  next
    case (Some p)
    then have p: "v_pay ?v pid = Some (abs_pay pix_row p)" by (simp add: pg_view_pay)
    have id: "pi_ID p = pid" using Some by (auto simp: find_Some_iff)
    note ev = pg_events_of [OF assms Some]
    have ws: "me_WorkspaceID e = pi_WorkspaceID p" if "e \<in> set (filter (\<lambda>e. me_PaymentIntentID e = pid) (db_merchantEvents ?db))" for e
      using owner [of e] that Some by auto
    have "map (\<lambda>e. (me_WorkspaceID e, me_EventType e, me_EventKey e)) (filter (\<lambda>e. me_PaymentIntentID e = pid) (db_merchantEvents ?db)) =
        map (\<lambda>a. (pi_WorkspaceID p, ae_Type a, ae_Key a)) (map abs_evt (filter (\<lambda>e. me_PaymentIntentID e = pid) (db_merchantEvents ?db)))"
      unfolding map_map by (rule map_cong [OF refl]) (use ws in \<open>simp add: abs_evt_def\<close>)
    moreover have "rec_ok (atts ?v pid) (v_rec ?v pid) (abs_pay pix_row p)" by (rule invD(5) [OF I p])
    moreover have "map re_Amount (filter (\<lambda>r. re_PaymentIntentID r = pid) (db_recoveries ?db)) = map ar_Amount (v_rec ?v pid)"
      by (simp add: rec abs_rec_def comp_def)
    ultimately show ?thesis
      using Some id by (auto simp: ev events_of_def paid_event_def recovered_event_def rec_ok_def recovery_for_def split: list.splits)
  qed
qed

theorem production_outbox_witness:
  "case find (\<lambda>p. pi_ID p = demo_ids 1 ''pi'') (db_payments (w_store demo_pg_paid)) of
      None \<Rightarrow> filter (\<lambda>e. me_PaymentIntentID e = demo_ids 1 ''pi'') (db_merchantEvents (w_store demo_pg_paid)) = [] \<and>
        filter (\<lambda>r. re_PaymentIntentID r = demo_ids 1 ''pi'') (db_recoveries (w_store demo_pg_paid)) = []
    | Some p \<Rightarrow> map (\<lambda>e. (me_WorkspaceID e, me_EventType e, me_EventKey e))
          (filter (\<lambda>e. me_PaymentIntentID e = demo_ids 1 ''pi'') (db_merchantEvents (w_store demo_pg_paid))) =
        (if pi_Status p = PaymentStatusPaid
         then (pi_WorkspaceID p, ''payment.paid'', ''payment.paid:'' @ demo_ids 1 ''pi'') #
           (if pi_Recovered p then [(pi_WorkspaceID p, ''payment.recovered'', ''payment.recovered:'' @ demo_ids 1 ''pi'')] else [])
         else []) \<and>
        map re_Amount (filter (\<lambda>r. re_PaymentIntentID r = demo_ids 1 ''pi'') (db_recoveries (w_store demo_pg_paid))) =
          (if pi_Recovered p then [pi_Amount p] else [])"
  by (rule production_outbox [OF demo_pg_run])

end
