(* ===== verification/Delivery.thy ===== *)
theory Delivery
  imports Webhook
begin

text \<open>
  The delivery service of merchant webhooks (\<open>webhookdelivery/service.go\<close>) over any repository: the
  endpoint operations of the API, and the worker's \<open>RunOnce\<close>.

  A \<open>dworld\<close> is the state of the store, a tick that counts interactions with the environment (clock,
  ids, cipher and sender answer as functions of the tick) and the log of the requests sent, newest
  first.  \<open>processJob\<close> is \<open>attemptJob\<close>, which sends and decides the completion without touching the
  store, and the statement that records it.
\<close>

section \<open>Interfaces (types.go)\<close>

record 's DeliveryRepository =
  UpsertWebhookEndpoint :: "Endpoint \<Rightarrow> ('s, go_error, Endpoint) prog"
  GetWebhookEndpoint :: "string \<Rightarrow> Environment \<Rightarrow> ('s, go_error, Endpoint) prog"
  DisableWebhookEndpoint :: "string \<Rightarrow> Environment \<Rightarrow> Time \<Rightarrow> ('s, go_error, unit) prog"
  MaterializePendingDeliveries :: "Time \<Rightarrow> int \<Rightarrow> ('s, go_error, int) prog"
  ClaimDueDeliveries :: "Time \<Rightarrow> Time \<Rightarrow> string \<Rightarrow> int \<Rightarrow> ('s, go_error, Job list) prog"
  CompleteDelivery :: "string \<Rightarrow> Completion \<Rightarrow> ('s, go_error, unit) prog"

record SecretCipher =
  sc_Encrypt :: "nat \<Rightarrow> nat list \<Rightarrow> go_error + string"
  sc_Decrypt :: "string \<Rightarrow> go_error + nat list"

type_synonym Sender = "nat \<Rightarrow> SendRequest \<Rightarrow> SendResult"

record 's DeliveryOptions =
  do_Repository :: "'s DeliveryRepository option"
  do_Cipher :: "SecretCipher option"
  do_Sender :: "Sender option"
  do_Clock :: "(nat \<Rightarrow> Time) option"
  do_IDs :: "(nat \<Rightarrow> string \<Rightarrow> string) option"
  do_WorkerID :: string
  do_BatchSize :: int
  do_LeaseDuration :: Duration
  do_MaxAttempts :: int
  do_AllowInsecureLocalTargets :: bool

record 's DeliveryService =
  ds_repo :: "'s DeliveryRepository"
  ds_cipher :: SecretCipher
  ds_sender :: "Sender option"
  ds_clock :: "nat \<Rightarrow> Time"
  ds_ids :: "nat \<Rightarrow> string \<Rightarrow> string"
  ds_workerID :: string
  ds_batchSize :: int
  ds_leaseDuration :: Duration
  ds_maxAttempts :: int
  ds_allowInsecureLocalTargets :: bool

text \<open>\<open>New\<close>, run at tick \<open>n\<close>; \<open>random\<close> gives the twelve bytes of an id.\<close>

definition randomIDs_New :: "(nat \<Rightarrow> nat list) \<Rightarrow> nat \<Rightarrow> string \<Rightarrow> string" where
  "randomIDs_New random n prefix = prefix @ ''_'' @ EncodeToString (random n)"

definition NewDelivery ::
  "(nat \<Rightarrow> Time) \<Rightarrow> (nat \<Rightarrow> nat list) \<Rightarrow> nat \<Rightarrow> 's DeliveryOptions \<Rightarrow> go_error + 's DeliveryService" where
  "NewDelivery realClock random n opts = (case do_Repository opts of
     None \<Rightarrow> Inl (Errorf ''webhook repository is required'')
   | Some repo \<Rightarrow> (case do_Cipher opts of
       None \<Rightarrow> Inl (Errorf ''webhook secret cipher is required'')
     | Some cipher \<Rightarrow>
         (let ids = (case do_IDs opts of None \<Rightarrow> randomIDs_New random | Some i \<Rightarrow> i);
              workerID = TrimSpace (do_WorkerID opts)
          in Inr \<lparr>ds_repo = repo, ds_cipher = cipher, ds_sender = do_Sender opts,
               ds_clock = (case do_Clock opts of None \<Rightarrow> realClock | Some c \<Rightarrow> c), ds_ids = ids,
               ds_workerID = (if workerID = [] then ids n ''worker'' else workerID),
               ds_batchSize = (if do_BatchSize opts \<le> 0 then 25 else do_BatchSize opts),
               ds_leaseDuration = (if do_LeaseDuration opts \<le> 0 then 30 * second else do_LeaseDuration opts),
               ds_maxAttempts = (if do_MaxAttempts opts \<le> 0 then 12 else do_MaxAttempts opts),
               ds_allowInsecureLocalTargets = do_AllowInsecureLocalTargets opts\<rparr>)))"

section \<open>The world\<close>

record 's dworld =
  dw_store :: 's
  dw_tick :: nat
  dw_sent :: "(string \<times> SendRequest \<times> SendResult) list"   \<comment> \<open>delivery, request, result\<close>

type_synonym ('s, 'a) dprog = "('s dworld, go_error, 'a) prog"

definition dw_step :: "'s dworld \<Rightarrow> 's dworld" where
  "dw_step w = w\<lparr>dw_tick := Suc (dw_tick w)\<rparr>"

definition dw_run :: "('s, go_error, 'a) prog \<Rightarrow> ('s, 'a) dprog" where
  "dw_run m w = (case m (dw_store w) of (r, s') \<Rightarrow> (r, w\<lparr>dw_store := s'\<rparr>))"

definition ds_now :: "'s DeliveryService \<Rightarrow> ('s, Time) dprog" where
  "ds_now sv w = (Inr (ds_clock sv (dw_tick w)), dw_step w)"

definition ds_newID :: "'s DeliveryService \<Rightarrow> string \<Rightarrow> ('s, string) dprog" where
  "ds_newID sv prefix w = (Inr (ds_ids sv (dw_tick w) prefix), dw_step w)"

definition ds_encrypt :: "'s DeliveryService \<Rightarrow> nat list \<Rightarrow> ('s, string) dprog" where
  "ds_encrypt sv plaintext w = (sc_Encrypt (ds_cipher sv) (dw_tick w) plaintext, dw_step w)"

definition ds_send :: "Sender \<Rightarrow> string \<Rightarrow> SendRequest \<Rightarrow> ('s, SendResult) dprog" where
  "ds_send sender delivery request w = (let result = sender (dw_tick w) request in
     (Inr result, (dw_step w)\<lparr>dw_sent := (delivery, request, result) # dw_sent w\<rparr>))"

section \<open>Endpoints\<close>

definition newEndpoint :: "string \<Rightarrow> string \<Rightarrow> Environment \<Rightarrow> string \<Rightarrow> string \<Rightarrow> Time \<Rightarrow> Endpoint" where
  "newEndpoint i workspaceID environment url ciphertext now = \<lparr>en_ID = i, en_WorkspaceID = workspaceID,
     en_Environment = environment, en_URL = url, en_SigningSecretCiphertext = ciphertext, en_Enabled = True,
     en_ActiveSince = now, en_CreatedAt = now, en_UpdatedAt = now\<rparr>"

definition keepExisting :: "Endpoint \<Rightarrow> Endpoint \<Rightarrow> Endpoint" where
  "keepExisting existing endpoint = (let endpoint = endpoint\<lparr>en_ID := en_ID existing, en_CreatedAt := en_CreatedAt existing\<rparr>
     in if en_Enabled existing then endpoint\<lparr>en_ActiveSince := en_ActiveSince existing\<rparr> else endpoint)"

definition SetEndpoint ::
  "UrlLib \<Rightarrow> 's DeliveryService \<Rightarrow> string \<Rightarrow> Environment \<Rightarrow> string \<Rightarrow> string \<Rightarrow> ('s, Endpoint) dprog" where
  "SetEndpoint lib sv workspaceID environment rawURL signingSecret =
     (let workspaceID = TrimSpace workspaceID in
      if workspaceID = [] then throwE (Errorf ''workspace is required'')
      else if environment \<noteq> EnvironmentTest \<and> environment \<noteq> EnvironmentLive then throwE (Errorf ''invalid environment'')
      else bindE (liftE (validateEndpointURL lib rawURL (ds_allowInsecureLocalTargets sv))) (\<lambda>url.
      if length signingSecret < 32 then throwE (Errorf ''signing secret must be at least 32 bytes'')
      else bindE (tryE (ds_encrypt sv (map byte signingSecret))) (\<lambda>encrypted. case encrypted of
        Inl err \<Rightarrow> throwE (Wrapf ''encrypt webhook signing secret'' err)
      | Inr ciphertext \<Rightarrow>
          bindE (ds_now sv) (\<lambda>now.
          bindE (ds_newID sv ''whe'') (\<lambda>i.
          let endpoint = newEndpoint i workspaceID environment url ciphertext now in
          bindE (tryE (dw_run (GetWebhookEndpoint (ds_repo sv) workspaceID environment))) (\<lambda>found. case found of
            Inr existing \<Rightarrow> dw_run (UpsertWebhookEndpoint (ds_repo sv) (keepExisting existing endpoint))
          | Inl err \<Rightarrow> if \<not> errors_Is err ErrNotFound then throwE err
              else dw_run (UpsertWebhookEndpoint (ds_repo sv) endpoint)))))))"

definition GetEndpoint :: "'s DeliveryService \<Rightarrow> string \<Rightarrow> Environment \<Rightarrow> ('s, Endpoint) dprog" where
  "GetEndpoint sv workspaceID environment = dw_run (GetWebhookEndpoint (ds_repo sv) workspaceID environment)"

definition DisableEndpoint :: "'s DeliveryService \<Rightarrow> string \<Rightarrow> Environment \<Rightarrow> ('s, unit) dprog" where
  "DisableEndpoint sv workspaceID environment = bindE (ds_now sv) (\<lambda>now.
     dw_run (DisableWebhookEndpoint (ds_repo sv) workspaceID environment now))"

section \<open>The worker\<close>

definition classifyDelivery :: "SendResult \<Rightarrow> DeliveryStatus" where
  "classifyDelivery result = (case sn_HTTPStatus result of
     Some status \<Rightarrow>
       if status \<ge> 200 \<and> status < 300 then DeliverySucceeded
       else if status = 408 \<or> status = 425 \<or> status = 429 \<or> status \<ge> 500 then DeliveryRetry
       else DeliveryFailed
   | None \<Rightarrow>
       if sn_ErrorCode result = ''target_not_public'' \<or> sn_ErrorCode result = ''invalid_url'' then DeliveryFailed
       else DeliveryRetry)"

definition failedSend :: "string \<Rightarrow> SendResult" where
  "failedSend code = \<lparr>sn_HTTPStatus = None, sn_Latency = 0, sn_ErrorCode = code\<rparr>"

definition sendJob :: "'s DeliveryService \<Rightarrow> Job \<Rightarrow> Time \<Rightarrow> ('s, SendResult) dprog" where
  "sendJob sv job startedAt = (case sc_Decrypt (ds_cipher sv) (jb_SigningSecretCiphertext job) of
     Inl decryptErr \<Rightarrow> returnE (failedSend ''secret_decryption_failed'')
   | Inr secret \<Rightarrow> (case ds_sender sv of
       None \<Rightarrow> returnE (failedSend ''sender_not_configured'')
     | Some sender \<Rightarrow> ds_send sender (jb_DeliveryID job) \<lparr>sr_EventID = jb_MerchantEventID job, sr_URL = jb_TargetURL job,
         sr_Payload = jb_Payload job, sr_Secret = secret, sr_Now = startedAt\<rparr>))"

text \<open>\<open>completedAt.Sub(startedAt)\<close> saturates at the ends of the 64-bit range.\<close>

definition time_Sub :: "Time \<Rightarrow> Time \<Rightarrow> Duration" where
  "time_Sub t u = max (- (2 ^ 63)) (min (2 ^ 63 - 1) (t - u))"

definition completionOf :: "'s DeliveryService \<Rightarrow> Job \<Rightarrow> Time \<Rightarrow> Time \<Rightarrow> SendResult \<Rightarrow> string \<Rightarrow> Completion" where
  "completionOf sv job startedAt completedAt result i =
     (let sequence = jb_AttemptCount job + 1;
          latency = (if sn_Latency result \<le> 0 then time_Sub completedAt startedAt else sn_Latency result);
          status = classifyDelivery result;
          deliveredAt = (if status = DeliverySucceeded then Some completedAt else None);
          exhausted = (status = DeliveryRetry \<and> sequence \<ge> ds_maxAttempts sv);
          nextAttemptAt = (if status = DeliveryRetry \<and> \<not> exhausted
            then completedAt + retryDelay (jb_DeliveryID job) sequence else completedAt)
      in \<lparr>cm_DeliveryID = jb_DeliveryID job, cm_AttemptID = i, cm_Sequence = sequence,
          cm_Status = (if exhausted then DeliveryFailed else status), cm_StartedAt = startedAt, cm_CompletedAt = completedAt,
          cm_HTTPStatus = sn_HTTPStatus result, cm_Latency = latency, cm_ErrorCode = sn_ErrorCode result,
          cm_NextAttemptAt = nextAttemptAt, cm_DeliveredAt = deliveredAt\<rparr>)"

definition attemptJob :: "'s DeliveryService \<Rightarrow> Job \<Rightarrow> ('s, Completion) dprog" where
  "attemptJob sv job =
     bindE (ds_now sv) (\<lambda>startedAt.
     bindE (sendJob sv job startedAt) (\<lambda>result.
     bindE (ds_now sv) (\<lambda>completedAt.
     bindE (ds_newID sv ''wha'') (\<lambda>i.
     returnE (completionOf sv job startedAt completedAt result i)))))"

definition processJob :: "'s DeliveryService \<Rightarrow> Job \<Rightarrow> ('s, unit) dprog" where
  "processJob sv job = bindE (attemptJob sv job) (\<lambda>completion.
     dw_run (CompleteDelivery (ds_repo sv) (ds_workerID sv) completion))"

text \<open>\<open>RunOnce\<close> returns the number of jobs processed, and the error that stopped it.\<close>

fun processJobs :: "'s DeliveryService \<Rightarrow> int \<Rightarrow> Job list \<Rightarrow> ('s, int \<times> go_error option) dprog" where
  "processJobs sv processed [] = returnE (processed, None)"
| "processJobs sv processed (job # jobs) = bindE (tryE (processJob sv job)) (\<lambda>r. case r of
     Inl err \<Rightarrow> returnE (processed, Some err)
   | Inr _ \<Rightarrow> processJobs sv (processed + 1) jobs)"

definition RunOnce :: "'s DeliveryService \<Rightarrow> ('s, int \<times> go_error option) dprog" where
  "RunOnce sv =
     bindE (ds_now sv) (\<lambda>now.
     bindE (tryE (dw_run (MaterializePendingDeliveries (ds_repo sv) now (ds_batchSize sv * 4)))) (\<lambda>materialized. case materialized of
       Inl err \<Rightarrow> returnE (0, Some err)
     | Inr _ \<Rightarrow>
         bindE (tryE (dw_run (ClaimDueDeliveries (ds_repo sv) now (now + ds_leaseDuration sv) (ds_workerID sv) (ds_batchSize sv)))) (\<lambda>claimed.
         case claimed of
           Inl err \<Rightarrow> returnE (0, Some err)
         | Inr jobs \<Rightarrow> processJobs sv 0 jobs)))"

section \<open>What a completion records\<close>

definition retryable :: "SendResult \<Rightarrow> bool" where
  "retryable result \<longleftrightarrow> (case sn_HTTPStatus result of
     Some status \<Rightarrow> status \<in> {408, 425, 429} \<or> 500 \<le> status
   | None \<Rightarrow> sn_ErrorCode result \<noteq> ''target_not_public'' \<and> sn_ErrorCode result \<noteq> ''invalid_url'')"

text \<open>
  C40.  What an attempt of a delivery decides: it succeeded exactly on a 2xx answer; it is retried exactly
  on 408, 425, 429, a 5xx or above, or a transport error other than a refused target or a bad URL, and
  only while fewer than \<open>MaxAttempts\<close> attempts were made; otherwise it failed.  The delivery time is set
  exactly on success, the attempt's number is one more than the attempts before, and a retry is due
  between 27 seconds and six hours 36 minutes later.
\<close>

theorem completion_exact:
  "(cm_Status (completionOf sv job t0 t1 result i) = DeliverySucceeded) =
     (case sn_HTTPStatus result of None \<Rightarrow> False | Some status \<Rightarrow> 200 \<le> status \<and> status \<le> 299) \<and>
   (cm_Status (completionOf sv job t0 t1 result i) = DeliveryRetry) =
     (retryable result \<and> jb_AttemptCount job + 1 < ds_maxAttempts sv) \<and>
   cm_Status (completionOf sv job t0 t1 result i) \<noteq> DeliveryPending \<and>
   cm_Sequence (completionOf sv job t0 t1 result i) = jb_AttemptCount job + 1 \<and>
   cm_DeliveredAt (completionOf sv job t0 t1 result i) =
     (if cm_Status (completionOf sv job t0 t1 result i) = DeliverySucceeded then Some t1 else None) \<and>
   (if cm_Status (completionOf sv job t0 t1 result i) = DeliveryRetry
    then t1 + 27 * second \<le> cm_NextAttemptAt (completionOf sv job t0 t1 result i) \<and>
      cm_NextAttemptAt (completionOf sv job t0 t1 result i) \<le> t1 + 6 * hour + 36 * minute
    else cm_NextAttemptAt (completionOf sv job t0 t1 result i) = t1)"
  using retryDelay_bounds [of "jb_DeliveryID job" "jb_AttemptCount job + 1"]
  by (auto simp: completionOf_def classifyDelivery_def retryable_def Let_def split: option.splits)

end
