(* ===== verification/PgDelivery.thy ===== *)
theory PgDelivery
  imports PgStore Delivery
begin

text \<open>
  The webhook tables (\<open>store/postgres/webhook_delivery.go\<close>), and several workers on them.

  The operations are statements on the tables of theory Postgres.  \<open>worker_step\<close> is one statement or
  one request of one of the workers, in any order, with crashes between any two of them and the rest
  of the program in between; \<open>RunOnce\<close> is a path of such steps.  The invariant \<open>fleet_ok\<close> holds on every
  path: it is what the leases, the unique keys and the check of the lock owner are for.
\<close>

section \<open>Endpoints\<close>

definition endpoint_of :: "string \<Rightarrow> Environment \<Rightarrow> Endpoint \<Rightarrow> bool" where
  "endpoint_of workspaceID environment e \<longleftrightarrow> en_WorkspaceID e = workspaceID \<and> en_Environment e = environment"

definition endpoint_row :: "Endpoint \<Rightarrow> Endpoint" where
  "endpoint_row e = e\<lparr>en_ActiveSince := pg_time (en_ActiveSince e), en_CreatedAt := pg_time (en_CreatedAt e),
     en_UpdatedAt := pg_time (en_UpdatedAt e)\<rparr>"

definition pg_UpsertWebhookEndpoint :: "Endpoint \<Rightarrow> Endpoint sql" where
  "pg_UpsertWebhookEndpoint endpoint = statement (Wrapf ''upsert webhook endpoint'') (\<lambda>db.
     let new = endpoint_row endpoint; here = endpoint_of (en_WorkspaceID endpoint) (en_Environment endpoint) in
     if en_Environment endpoint \<notin> {EnvironmentTest, EnvironmentLive} then constraint (Wrapf ''upsert webhook endpoint'') db
     else case find here (db_endpoints db) of
       Some old \<Rightarrow>
         (let saved = old\<lparr>en_URL := en_URL new, en_SigningSecretCiphertext := en_SigningSecretCiphertext new, en_Enabled := en_Enabled new,
            en_ActiveSince := (if en_Enabled old then en_ActiveSince old else en_ActiveSince new), en_UpdatedAt := en_UpdatedAt new\<rparr>
          in (Inr saved, db\<lparr>db_endpoints := update_first here (\<lambda>_. saved) (db_endpoints db)\<rparr>))
     | None \<Rightarrow>
         if list_ex (\<lambda>e. en_ID e = en_ID endpoint) (db_endpoints db) then constraint (Wrapf ''upsert webhook endpoint'') db
         else (Inr new, db\<lparr>db_endpoints := db_endpoints db @ [new]\<rparr>))"

definition pg_GetWebhookEndpoint :: "string \<Rightarrow> Environment \<Rightarrow> Endpoint sql" where
  "pg_GetWebhookEndpoint workspaceID environment = statement id (\<lambda>db.
     mapNotFound (find (endpoint_of workspaceID environment) (db_endpoints db)) db)"

definition pg_DisableWebhookEndpoint :: "string \<Rightarrow> Environment \<Rightarrow> Time \<Rightarrow> unit sql" where
  "pg_DisableWebhookEndpoint workspaceID environment updatedAt = statement (Wrapf ''disable webhook endpoint'') (\<lambda>db.
     if \<not> list_ex (endpoint_of workspaceID environment) (db_endpoints db) then (Inl ErrNotFound, db)
     else (Inr (), db\<lparr>db_endpoints := update_first (endpoint_of workspaceID environment)
       (\<lambda>e. e\<lparr>en_Enabled := False, en_UpdatedAt := pg_time updatedAt\<rparr>) (db_endpoints db)\<rparr>))"

section \<open>Deliveries\<close>

text \<open>The endpoint of an event: of its workspace, in the environment of its payment, enabled and active since before it.\<close>

definition event_endpoint :: "PgDB \<Rightarrow> MerchantEvent \<Rightarrow> Endpoint option" where
  "event_endpoint db me = (case payment_environment db (me_PaymentIntentID me) of
     None \<Rightarrow> None
   | Some environment \<Rightarrow> find (\<lambda>e. endpoint_of (me_WorkspaceID me) environment e \<and> en_Enabled e \<and>
       en_ActiveSince e \<le> me_CreatedAt me) (db_endpoints db))"

definition delivered :: "PgDB \<Rightarrow> string \<Rightarrow> bool" where
  "delivered db eventID = list_ex (\<lambda>d. dl_EventID d = eventID) (db_deliveries db)"

definition candidates :: "PgDB \<Rightarrow> (MerchantEvent \<times> Endpoint) list" where
  "candidates db = List.map_filter (\<lambda>me. map_option (\<lambda>e. (me, e)) (event_endpoint db me))
     (sort_key (\<lambda>me. (me_CreatedAt me, me_ID me)) (filter (\<lambda>me. \<not> delivered db (me_ID me)) (db_merchantEvents db)))"

definition newDelivery :: "Time \<Rightarrow> string \<Rightarrow> string \<Rightarrow> Delivery" where
  "newDelivery now eventID endpointID = \<lparr>dl_ID = ''whd_'' @ eventID, dl_EventID = eventID, dl_EndpointID = endpointID,
     dl_Status = DeliveryPending, dl_AttemptCount = 0, dl_NextAttemptAt = pg_time now, dl_LockedBy = [], dl_LockedUntil = None,
     dl_LastAttemptAt = None, dl_DeliveredAt = None, dl_LastHTTPStatus = None, dl_LastErrorCode = [],
     dl_CreatedAt = pg_time now, dl_UpdatedAt = pg_time now\<rparr>"

text \<open>\<open>INSERT \<dots> SELECT \<dots> ON CONFLICT (merchant_event_id) DO NOTHING\<close>, row by row.\<close>

fun insertDeliveries :: "Time \<Rightarrow> (MerchantEvent \<times> Endpoint) list \<Rightarrow> PgDB \<Rightarrow> PgDB" where
  "insertDeliveries now [] db = db"
| "insertDeliveries now ((me, e) # rows) db = insertDeliveries now rows
     (if delivered db (me_ID me) then db
      else db\<lparr>db_deliveries := db_deliveries db @ [newDelivery now (me_ID me) (en_ID e)]\<rparr>)"

definition pg_MaterializePendingDeliveries :: "Time \<Rightarrow> int \<Rightarrow> int sql" where
  "pg_MaterializePendingDeliveries now limit =
     (if limit \<le> 0 then returnE 0
      else statement (Wrapf ''materialize webhook deliveries'') (\<lambda>db.
        let db' = insertDeliveries now (take (nat limit) (candidates db)) db in
        (Inr (int (length (db_deliveries db')) - int (length (db_deliveries db))), db')))"

definition due :: "PgDB \<Rightarrow> Time \<Rightarrow> Delivery \<Rightarrow> bool" where
  "due db now d \<longleftrightarrow> dl_Status d \<in> {DeliveryPending, DeliveryRetry} \<and> dl_NextAttemptAt d \<le> pg_time now \<and>
     (case dl_LockedUntil d of None \<Rightarrow> True | Some t \<Rightarrow> t < pg_time now) \<and>
     list_ex (\<lambda>e. en_ID e = dl_EndpointID d \<and> en_Enabled e) (db_endpoints db)"

definition claimed :: "PgDB \<Rightarrow> Time \<Rightarrow> int \<Rightarrow> string list" where
  "claimed db now limit = take (nat limit) (map dl_ID
     (sort_key (\<lambda>d. (dl_NextAttemptAt d, dl_CreatedAt d, dl_ID d)) (filter (due db now) (db_deliveries db))))"

definition lockDelivery :: "Time \<Rightarrow> Time \<Rightarrow> string \<Rightarrow> Delivery \<Rightarrow> Delivery" where
  "lockDelivery now lockedUntil workerID d =
     d\<lparr>dl_LockedBy := workerID, dl_LockedUntil := Some (pg_time lockedUntil), dl_UpdatedAt := pg_time now\<rparr>"

definition jobOf :: "PgDB \<Rightarrow> Delivery \<Rightarrow> Job option" where
  "jobOf db d =
     (case (find (\<lambda>me. me_ID me = dl_EventID d) (db_merchantEvents db), find (\<lambda>e. en_ID e = dl_EndpointID d) (db_endpoints db)) of
        (Some me, Some e) \<Rightarrow> Some \<lparr>jb_DeliveryID = dl_ID d, jb_MerchantEventID = dl_EventID d, jb_EventType = me_EventType me,
          jb_Payload = me_Payload me, jb_TargetURL = en_URL e, jb_SigningSecretCiphertext = en_SigningSecretCiphertext e,
          jb_AttemptCount = dl_AttemptCount d\<rparr>
      | _ \<Rightarrow> None)"

definition pg_ClaimDueDeliveries :: "Time \<Rightarrow> Time \<Rightarrow> string \<Rightarrow> int \<Rightarrow> Job list sql" where
  "pg_ClaimDueDeliveries now lockedUntil workerID limit =
     (if limit \<le> 0 then returnE []
      else statement (Wrapf ''claim webhook deliveries'') (\<lambda>db.
        let ids = claimed db now limit;
            rows = map (\<lambda>d. if dl_ID d \<in> set ids then lockDelivery now lockedUntil workerID d else d) (db_deliveries db)
        in (Inr (List.map_filter (jobOf db) (sort_key dl_ID (filter (\<lambda>d. dl_ID d \<in> set ids) rows))),
            db\<lparr>db_deliveries := rows\<rparr>)))"

definition Milliseconds :: "Duration \<Rightarrow> int" where
  "Milliseconds d = d sdiv 1000000"

definition insertDeliveryAttempt :: "Completion \<Rightarrow> unit sql" where
  "insertDeliveryAttempt c = statement (Wrapf ''insert webhook delivery attempt'') (\<lambda>db.
     if cm_Sequence c \<le> 0 \<or> list_ex (\<lambda>a. da_ID a = cm_AttemptID c) (db_deliveryAttempts db) \<or>
        list_ex (\<lambda>a. da_DeliveryID a = cm_DeliveryID c \<and> da_Sequence a = cm_Sequence c) (db_deliveryAttempts db) \<or>
        \<not> list_ex (\<lambda>d. dl_ID d = cm_DeliveryID c) (db_deliveries db)
     then constraint (Wrapf ''insert webhook delivery attempt'') db
     else (Inr (), db\<lparr>db_deliveryAttempts := db_deliveryAttempts db @ [\<lparr>da_ID = cm_AttemptID c, da_DeliveryID = cm_DeliveryID c,
       da_Sequence = cm_Sequence c, da_StartedAt = pg_time (cm_StartedAt c), da_CompletedAt = pg_time (cm_CompletedAt c),
       da_HTTPStatus = cm_HTTPStatus c, da_LatencyMS = max 0 (Milliseconds (cm_Latency c)), da_ErrorCode = cm_ErrorCode c\<rparr>]\<rparr>))"

definition completeRow :: "Completion \<Rightarrow> Delivery \<Rightarrow> Delivery" where
  "completeRow c d = d\<lparr>dl_Status := cm_Status c, dl_AttemptCount := cm_Sequence c, dl_NextAttemptAt := pg_time (cm_NextAttemptAt c),
     dl_LockedBy := [], dl_LockedUntil := None, dl_LastAttemptAt := Some (pg_time (cm_CompletedAt c)),
     dl_DeliveredAt := map_option pg_time (cm_DeliveredAt c), dl_LastHTTPStatus := cm_HTTPStatus c, dl_LastErrorCode := cm_ErrorCode c,
     dl_UpdatedAt := pg_time (cm_CompletedAt c)\<rparr>"

definition updateDelivery :: "string \<Rightarrow> Completion \<Rightarrow> unit sql" where
  "updateDelivery workerID c = statement (Wrapf ''update webhook delivery'') (\<lambda>db.
     let here = (\<lambda>d. dl_ID d = cm_DeliveryID c \<and> dl_LockedBy d = workerID) in
     if \<not> list_ex here (db_deliveries db) then (Inl ErrInvalidTransition, db)
     else (Inr (), db\<lparr>db_deliveries := update_first here (completeRow c) (db_deliveries db)\<rparr>))"

definition pg_CompleteDelivery :: "string \<Rightarrow> Completion \<Rightarrow> unit sql" where
  "pg_CompleteDelivery workerID c =
     transaction (Wrapf ''begin webhook completion'') (Wrapf ''commit webhook completion'')
       (bindE (insertDeliveryAttempt c) (\<lambda>_. updateDelivery workerID c))"

definition pg_deliveries :: "PgDB DeliveryRepository" where
  "pg_deliveries = \<lparr>
     UpsertWebhookEndpoint = pg_UpsertWebhookEndpoint,
     GetWebhookEndpoint = pg_GetWebhookEndpoint,
     DisableWebhookEndpoint = pg_DisableWebhookEndpoint,
     MaterializePendingDeliveries = pg_MaterializePendingDeliveries,
     ClaimDueDeliveries = pg_ClaimDueDeliveries,
     CompleteDelivery = pg_CompleteDelivery\<rparr>"

section \<open>Workers\<close>

text \<open>
  Where a worker is in \<open>RunOnce\<close>: before it, after materializing (with the time read), with jobs to
  process, with a request answered and its completion not yet recorded.  A worker's id is not empty
  (\<open>New\<close> draws one).
\<close>

datatype phase = Idle | Materialized Time | Processing "Job list" | Answered Completion "Job list"

type_synonym fleet = "PgDB dworld \<times> (string \<Rightarrow> phase)"

definition other_writes :: "PgDB \<Rightarrow> PgDB \<Rightarrow> bool" where
  "other_writes db db' \<longleftrightarrow> db_deliveries db' = db_deliveries db \<and> db_deliveryAttempts db' = db_deliveryAttempts db \<and>
     (\<exists>new. db_merchantEvents db' = db_merchantEvents db @ new)"

inductive worker_step :: "(string \<Rightarrow> PgDB DeliveryService) \<Rightarrow> fleet \<Rightarrow> fleet \<Rightarrow> bool"
  for sv :: "string \<Rightarrow> PgDB DeliveryService" where
  clock: "worker_step sv (W, ph) (dw_step W, ph)"
| materialize: "ph w = Idle \<Longrightarrow>
    dw_run (pg_MaterializePendingDeliveries now (ds_batchSize (sv w) * 4)) W = (Inr n, W') \<Longrightarrow>
    worker_step sv (W, ph) (W', ph(w := Materialized now))"
| materialize_fails: "ph w = Idle \<Longrightarrow>
    dw_run (pg_MaterializePendingDeliveries now (ds_batchSize (sv w) * 4)) W = (Inl e, W') \<Longrightarrow> worker_step sv (W, ph) (W', ph)"
| claim: "ph w = Materialized now \<Longrightarrow> w \<noteq> [] \<Longrightarrow>
    dw_run (pg_ClaimDueDeliveries now (now + ds_leaseDuration (sv w)) w (ds_batchSize (sv w))) W = (Inr jobs, W') \<Longrightarrow>
    worker_step sv (W, ph) (W', ph(w := Processing jobs))"
| claim_fails: "ph w = Materialized now \<Longrightarrow>
    dw_run (pg_ClaimDueDeliveries now (now + ds_leaseDuration (sv w)) w (ds_batchSize (sv w))) W = (Inl e, W') \<Longrightarrow>
    worker_step sv (W, ph) (W', ph(w := Idle))"
| send: "ph w = Processing (job # jobs) \<Longrightarrow> attemptJob (sv w) job W = (Inr c, W') \<Longrightarrow>
    worker_step sv (W, ph) (W', ph(w := Answered c jobs))"
| complete: "ph w = Answered c jobs \<Longrightarrow> dw_run (pg_CompleteDelivery w c) W = (Inr u, W') \<Longrightarrow>
    worker_step sv (W, ph) (W', ph(w := Processing jobs))"
| complete_fails: "ph w = Answered c jobs \<Longrightarrow> dw_run (pg_CompleteDelivery w c) W = (Inl e, W') \<Longrightarrow>
    worker_step sv (W, ph) (W', ph(w := Idle))"
| finish: "ph w = Processing [] \<Longrightarrow> worker_step sv (W, ph) (W, ph(w := Idle))"
| crash: "worker_step sv (W, ph) (W, ph(w := Idle))"
| other: "other_writes (dw_store W) db \<Longrightarrow> worker_step sv (W, ph) (W\<lparr>dw_store := db\<rparr>, ph)"

inductive_cases worker_stepE: "worker_step sv (W, ph) s'"

definition fleet_config :: "int \<Rightarrow> (string \<Rightarrow> PgDB DeliveryService) \<Rightarrow> bool" where
  "fleet_config mx sv \<longleftrightarrow> 0 < mx \<and> (\<forall>w. ds_repo (sv w) = pg_deliveries \<and> ds_workerID (sv w) = w \<and> ds_maxAttempts (sv w) = mx)"

section \<open>The invariant\<close>

definition attempts_for :: "PgDB \<Rightarrow> string \<Rightarrow> DeliveryAttempt list" where
  "attempts_for db i = filter (\<lambda>a. da_DeliveryID a = i) (db_deliveryAttempts db)"

definition success_status :: "int option \<Rightarrow> bool" where
  "success_status s \<longleftrightarrow> (case s of None \<Rightarrow> False | Some status \<Rightarrow> 200 \<le> status \<and> status \<le> 299)"

text \<open>
  A row and its attempts: they are numbered 1 to the attempt count, at most \<open>mx\<close>; the status agrees with
  the count, a settled delivery is not locked, and it succeeded exactly when its last attempt was
  answered with 2xx.
\<close>

definition row_ok :: "int \<Rightarrow> PgDB \<Rightarrow> Delivery \<Rightarrow> bool" where
  "row_ok mx db d \<longleftrightarrow> dl_ID d = ''whd_'' @ dl_EventID d \<and> 0 \<le> dl_AttemptCount d \<and> dl_AttemptCount d \<le> mx \<and>
     map da_Sequence (attempts_for db (dl_ID d)) = map int [1..<Suc (nat (dl_AttemptCount d))] \<and>
     (case dl_Status d of
        DeliveryPending \<Rightarrow> dl_AttemptCount d = 0
      | DeliveryRetry \<Rightarrow> 1 \<le> dl_AttemptCount d \<and> dl_AttemptCount d < mx
      | _ \<Rightarrow> 1 \<le> dl_AttemptCount d \<and> dl_LockedBy d = []) \<and>
     (dl_DeliveredAt d \<noteq> None \<longleftrightarrow> dl_Status d = DeliverySucceeded) \<and>
     (dl_Status d = DeliverySucceeded \<longleftrightarrow> success_status (dl_LastHTTPStatus d)) \<and>
     (dl_AttemptCount d = 0 \<and> dl_LastHTTPStatus d = None \<or> attempts_for db (dl_ID d) \<noteq> [] \<and>
       dl_LastHTTPStatus d = da_HTTPStatus (last (attempts_for db (dl_ID d))))"

definition db_ok :: "int \<Rightarrow> PgDB \<Rightarrow> bool" where
  "db_ok mx db \<longleftrightarrow> distinct (map dl_ID (db_deliveries db)) \<and> (\<forall>d\<in>set (db_deliveries db). row_ok mx db d) \<and>
     da_DeliveryID ` set (db_deliveryAttempts db) \<subseteq> dl_ID ` set (db_deliveries db)"

text \<open>While worker \<open>w\<close> holds the lock of delivery \<open>i\<close>, its attempt count is \<open>n\<close>.\<close>

definition holds :: "PgDB \<Rightarrow> string \<Rightarrow> string \<Rightarrow> int \<Rightarrow> bool" where
  "holds db w i n \<longleftrightarrow> (\<forall>d\<in>set (db_deliveries db). dl_ID d = i \<longrightarrow> dl_LockedBy d = w \<longrightarrow> dl_AttemptCount d = n)"

definition of_event :: "PgDB \<Rightarrow> string \<Rightarrow> string \<Rightarrow> string \<Rightarrow> bool" where
  "of_event db deliveryID eventID payload \<longleftrightarrow> deliveryID = ''whd_'' @ eventID \<and>
     (\<exists>me\<in>set (db_merchantEvents db). me_ID me = eventID \<and> me_Payload me = payload)"

definition jobs_ok :: "PgDB \<Rightarrow> string \<Rightarrow> Job list \<Rightarrow> bool" where
  "jobs_ok db w js \<longleftrightarrow> w \<noteq> [] \<and> distinct (map jb_DeliveryID js) \<and>
     (\<forall>j\<in>set js. holds db w (jb_DeliveryID j) (jb_AttemptCount j) \<and> of_event db (jb_DeliveryID j) (jb_MerchantEventID j) (jb_Payload j))"

definition completion_ok :: "int \<Rightarrow> Completion \<Rightarrow> bool" where
  "completion_ok mx c \<longleftrightarrow> cm_Status c \<noteq> DeliveryPending \<and> (cm_Status c = DeliveryRetry \<longrightarrow> cm_Sequence c < mx) \<and>
     (cm_DeliveredAt c \<noteq> None \<longleftrightarrow> cm_Status c = DeliverySucceeded) \<and>
     (cm_Status c = DeliverySucceeded \<longleftrightarrow> success_status (cm_HTTPStatus c))"

definition phase_ok :: "int \<Rightarrow> PgDB \<Rightarrow> string \<Rightarrow> phase \<Rightarrow> bool" where
  "phase_ok mx db w p = (case p of
     Processing js \<Rightarrow> jobs_ok db w js
   | Answered c js \<Rightarrow> jobs_ok db w js \<and> completion_ok mx c \<and> holds db w (cm_DeliveryID c) (cm_Sequence c - 1) \<and>
       cm_DeliveryID c \<notin> jb_DeliveryID ` set js
   | _ \<Rightarrow> True)"

definition sent_ok :: "PgDB \<Rightarrow> string \<times> SendRequest \<times> SendResult \<Rightarrow> bool" where
  "sent_ok db = (\<lambda>(i, request, result). of_event db i (sr_EventID request) (sr_Payload request))"

definition fleet_ok :: "int \<Rightarrow> fleet \<Rightarrow> bool" where
  "fleet_ok mx = (\<lambda>(W, ph). db_ok mx (dw_store W) \<and> (\<forall>w. phase_ok mx (dw_store W) w (ph w)) \<and>
     (\<forall>x\<in>set (dw_sent W). sent_ok (dw_store W) x))"

lemma of_event_mono:
  "of_event db i e p \<Longrightarrow> set (db_merchantEvents db) \<subseteq> set (db_merchantEvents db') \<Longrightarrow> of_event db' i e p"
  by (auto simp: of_event_def)

lemma sent_ok_mono: "sent_ok db x \<Longrightarrow> set (db_merchantEvents db) \<subseteq> set (db_merchantEvents db') \<Longrightarrow> sent_ok db' x"
  by (auto simp: sent_ok_def intro: of_event_mono)

lemma row_ok_attempts: "attempts_for db' (dl_ID d) = attempts_for db (dl_ID d) \<Longrightarrow> row_ok mx db' d = row_ok mx db d"
  by (simp only: row_ok_def)

lemma row_ok_cong: "db_deliveryAttempts db' = db_deliveryAttempts db \<Longrightarrow> row_ok mx db' d = row_ok mx db d"
  by (simp add: row_ok_def attempts_for_def)

lemma db_ok_cong:
  "db_deliveries db' = db_deliveries db \<Longrightarrow> db_deliveryAttempts db' = db_deliveryAttempts db \<Longrightarrow> db_ok mx db' = db_ok mx db"
  by (simp add: db_ok_def row_ok_def attempts_for_def)

text \<open>What the steps of other workers, and of the rest of the program, leave of a worker's phase.\<close>

lemma phase_ok_mono:
  assumes p: "phase_ok mx db w p" and ev: "set (db_merchantEvents db) \<subseteq> set (db_merchantEvents db')"
    and h: "\<And>i n. w \<noteq> [] \<Longrightarrow> holds db w i n \<Longrightarrow> holds db' w i n"
  shows "phase_ok mx db' w p"
proof -
  have "jobs_ok db w js \<Longrightarrow> jobs_ok db' w js" for js
    using h of_event_mono [OF _ ev] by (auto simp: jobs_ok_def)
  then show ?thesis using p h by (auto simp: phase_ok_def jobs_ok_def split: phase.splits)
qed

lemma fleet_okI:
  assumes "db_ok mx db'" and "fleet_ok mx (W, ph)" and "set (db_merchantEvents (dw_store W)) \<subseteq> set (db_merchantEvents db')"
    and "\<And>v i n. v \<noteq> [] \<Longrightarrow> v \<noteq> w \<Longrightarrow> holds (dw_store W) v i n \<Longrightarrow> holds db' v i n" and "phase_ok mx db' w p"
    and "dw_store W' = db'" and "dw_sent W' = dw_sent W"
  shows "fleet_ok mx (W', ph(w := p))"
  using assms phase_ok_mono [OF _ assms(3)] sent_ok_mono [OF _ assms(3)] by (auto simp: fleet_ok_def)

section \<open>Every step keeps it\<close>

lemma delivered_iff: "delivered db e \<longleftrightarrow> e \<in> dl_EventID ` set (db_deliveries db)"
  by (auto simp: delivered_def list_ex_iff)

lemma insert_db_ok:
  assumes ok: "db_ok mx db" and mx: "0 < mx" and new: "\<not> delivered db e"
  shows "db_ok mx (db\<lparr>db_deliveries := db_deliveries db @ [newDelivery now e en]\<rparr>)"
proof -
  let ?d = "newDelivery now e en"
  let ?db = "db\<lparr>db_deliveries := db_deliveries db @ [?d]\<rparr>"
  have ids: "dl_ID d = ''whd_'' @ dl_EventID d" if "d \<in> set (db_deliveries db)" for d
    using ok that by (simp add: db_ok_def row_ok_def)
  have "dl_ID ?d \<noteq> dl_ID d" if "d \<in> set (db_deliveries db)" for d
    using new that ids [OF that] by (auto simp: delivered_iff newDelivery_def)
  then have fresh: "dl_ID ?d \<notin> dl_ID ` set (db_deliveries db)" by blast
  then have "dl_ID ?d \<notin> da_DeliveryID ` set (db_deliveryAttempts db)" using ok unfolding db_ok_def by blast
  then have "attempts_for db (dl_ID ?d) = []" unfolding attempts_for_def filter_empty_conv by (metis imageI)
  then have "row_ok mx db ?d" using mx by (simp add: row_ok_def newDelivery_def success_status_def)
  then have "row_ok mx ?db d" if "d \<in> set (db_deliveries ?db)" for d
    using ok that row_ok_cong [of ?db db mx d] by (auto simp: db_ok_def)
  moreover have "distinct (map dl_ID (db_deliveries ?db))" using ok fresh by (simp add: db_ok_def)
  moreover have "da_DeliveryID ` set (db_deliveryAttempts ?db) \<subseteq> dl_ID ` set (db_deliveries ?db)" using ok by (auto simp: db_ok_def)
  ultimately show ?thesis unfolding db_ok_def by blast
qed

lemma insertDeliveries_ok:
  assumes "db_ok mx db" and "0 < mx"
  shows "db_ok mx (insertDeliveries now rows db) \<and> db_merchantEvents (insertDeliveries now rows db) = db_merchantEvents db \<and>
    (w \<noteq> [] \<longrightarrow> holds db w i n \<longrightarrow> holds (insertDeliveries now rows db) w i n)"
  using assms
proof (induction rows arbitrary: db)
  case (Cons r rows)
  obtain me e where r: "r = (me, e)" by (cases r)
  let ?db = "if delivered db (me_ID me) then db else db\<lparr>db_deliveries := db_deliveries db @ [newDelivery now (me_ID me) (en_ID e)]\<rparr>"
  have "db_ok mx ?db" using insert_db_ok Cons.prems by simp
  moreover have "db_merchantEvents ?db = db_merchantEvents db" by simp
  moreover have "w \<noteq> [] \<longrightarrow> holds db w i n \<longrightarrow> holds ?db w i n" by (simp add: holds_def newDelivery_def)
  moreover note Cons.IH [of ?db] Cons.prems(2)
  ultimately show ?case by (simp only: r insertDeliveries.simps) blast
qed simp

lemma materialize_ok:
  assumes "pg_MaterializePendingDeliveries now limit db = (r, db')" and ok: "db_ok mx db" and mx: "0 < mx"
  shows "db_ok mx db' \<and> db_merchantEvents db' = db_merchantEvents db \<and> (w \<noteq> [] \<longrightarrow> holds db w i n \<longrightarrow> holds db' w i n)"
proof -
  let ?db = "db\<lparr>db_faults := tl (db_faults db)\<rparr>"
  have ok': "db_ok mx ?db" using ok db_ok_cong [of ?db db] by simp
  have "holds ?db w i n = holds db w i n" by (simp add: holds_def)
  moreover have "db' = db \<or> db' = ?db \<or> (\<exists>rows. db' = insertDeliveries now rows ?db)"
    using assms(1) by (auto simp: pg_MaterializePendingDeliveries_def returnE_def statement_def Let_def split: if_splits)
  ultimately show ?thesis using insertDeliveries_ok [OF ok' mx] ok ok' by auto
qed

lemma map_lock_ID: "map dl_ID (map (\<lambda>d. if P d then lockDelivery now until w d else d) ds) = map dl_ID ds"
  by (simp add: lockDelivery_def)

lemma map_filter_mem: "y \<in> set (List.map_filter f xs) \<longleftrightarrow> (\<exists>x\<in>set xs. f x = Some y)"
  by (force simp: map_filter_def)

lemma holdsI: "db_ok mx db \<Longrightarrow> d \<in> set (db_deliveries db) \<Longrightarrow> holds db w (dl_ID d) (dl_AttemptCount d)"
  by (auto simp: db_ok_def holds_def distinct_map inj_on_def)

lemma claim_value:
  assumes "pg_ClaimDueDeliveries now until w limit db = (Inr jobs, db')" and ok: "db_ok mx db" and w: "w \<noteq> []"
  shows "db_ok mx db' \<and> db_merchantEvents db' = db_merchantEvents db \<and> jobs_ok db' w jobs \<and>
    (v \<noteq> w \<longrightarrow> holds db v i n \<longrightarrow> holds db' v i n)"
proof (cases "limit \<le> 0")
  case True
  then show ?thesis using assms by (simp add: pg_ClaimDueDeliveries_def returnE_def jobs_ok_def)
next
  case False
  let ?db0 = "db\<lparr>db_faults := tl (db_faults db)\<rparr>"
  let ?ids = "claimed ?db0 now limit"
  let ?f = "\<lambda>d. if dl_ID d \<in> set ?ids then lockDelivery now until w d else d"
  let ?rows = "map ?f (db_deliveries db)"
  from statement_Inr [OF assms(1) [unfolded pg_ClaimDueDeliveries_def if_not_P [OF False]]]
  have db': "db' = ?db0\<lparr>db_deliveries := ?rows\<rparr>"
    and jobs: "jobs = List.map_filter (jobOf ?db0) (sort_key dl_ID (filter (\<lambda>d. dl_ID d \<in> set ?ids) ?rows))"
    by (simp_all add: Let_def)
  have inj: "d = d'" if "d \<in> set (db_deliveries db)" "d' \<in> set (db_deliveries db)" "dl_ID d = dl_ID d'" for d d'
    using ok that by (auto simp: db_ok_def distinct_map inj_on_def)
  have ids: "dl_Status d \<in> {DeliveryPending, DeliveryRetry}" if d: "d \<in> set (db_deliveries db)" "dl_ID d \<in> set ?ids" for d
  proof -
    obtain d' where "d' \<in> set (db_deliveries db)" "dl_ID d' = dl_ID d" "due ?db0 now d'"
      using d(2) by (auto simp: claimed_def dest!: in_set_takeD)
    then show ?thesis using inj d(1) by (auto simp: due_def)
  qed
  have rowf: "row_ok mx db' (?f d)" if d: "d \<in> set (db_deliveries db)" for d
  proof -
    have r: "row_ok mx db d" using ok d by (simp add: db_ok_def)
    have "row_ok mx db (?f d)" using r ids [OF d] by (auto simp: row_ok_def lockDelivery_def split: DeliveryStatus.splits)
    then show ?thesis using row_ok_cong [of db' db] by (simp add: db')
  qed
  have "\<forall>d\<in>?f ` set (db_deliveries db). row_ok mx db' d"
  proof (rule ballI, erule imageE)
    fix d x assume "d = ?f x" "x \<in> set (db_deliveries db)"
    then show "row_ok mx db' d" using rowf [of x] by (simp only:)
  qed
  moreover have deliveries: "db_deliveries db' = ?rows" by (simp add: db')
  ultimately have rows: "\<forall>d\<in>set (db_deliveries db'). row_ok mx db' d" by (simp only: set_map)
  have keys: "map dl_ID (db_deliveries db') = map dl_ID (db_deliveries db)" unfolding deliveries by (rule map_lock_ID)
  then have "dl_ID ` set (db_deliveries db') = dl_ID ` set (db_deliveries db)" by (metis set_map)
  then have ok': "db_ok mx db'" using ok rows unfolding db_ok_def keys by (simp add: db')
  have events: "db_merchantEvents db' = db_merchantEvents db" by (simp add: db')
  have "jobs_ok db' w jobs"
  proof -
    let ?ds = "sort_key dl_ID (filter (\<lambda>d. dl_ID d \<in> set ?ids) ?rows)"
    have dist: "distinct (map dl_ID ?ds)"
    proof -
      have "distinct (map dl_ID ?rows)" unfolding map_lock_ID using ok by (simp add: db_ok_def)
      then have "distinct (map dl_ID (filter (\<lambda>d. dl_ID d \<in> set ?ids) ?rows))" by (rule distinct_map_filter)
      then show ?thesis by (simp only: distinct_map set_sort distinct_sort)
    qed
    have job: "jb_DeliveryID j = dl_ID d \<and> jb_AttemptCount j = dl_AttemptCount d \<and>
        (\<exists>me\<in>set (db_merchantEvents db). me_ID me = jb_MerchantEventID j \<and> me_Payload me = jb_Payload j) \<and> jb_MerchantEventID j = dl_EventID d"
      if "jobOf ?db0 d = Some j" for d j
      using that by (auto simp: jobOf_def split: option.splits dest!: find_Some_iff2)
    have ids_sub: "map jb_DeliveryID (List.map_filter (jobOf ?db0) ds) = map dl_ID (filter (\<lambda>d. jobOf ?db0 d \<noteq> None) ds)" for ds
      by (induction ds) (auto simp: map_filter_def dest: job)
    have "distinct (map jb_DeliveryID jobs)" unfolding jobs ids_sub using dist by (rule distinct_map_filter)
    moreover have "holds db' w (jb_DeliveryID j) (jb_AttemptCount j) \<and> of_event db' (jb_DeliveryID j) (jb_MerchantEventID j) (jb_Payload j)"
      if "j \<in> set jobs" for j
    proof -
      obtain d where "d \<in> set ?ds" "jobOf ?db0 d = Some j" using \<open>j \<in> set jobs\<close> unfolding jobs map_filter_mem by blast
      then have d: "d \<in> set ?rows" "jobOf ?db0 d = Some j" unfolding set_sort set_filter by blast+
      have here: "d \<in> set (db_deliveries db')" unfolding deliveries by (rule d(1))
      then have "dl_ID d = ''whd_'' @ dl_EventID d" using ok' by (simp add: db_ok_def row_ok_def)
      moreover have "holds db' w (jb_DeliveryID j) (jb_AttemptCount j)"
        using job [OF d(2)] holdsI [OF ok' here] by simp
      ultimately show ?thesis using job [OF d(2)] unfolding of_event_def events by metis
    qed
    ultimately show ?thesis using w by (simp add: jobs_ok_def)
  qed
  moreover have "v \<noteq> w \<longrightarrow> holds db v i n \<longrightarrow> holds db' v i n" unfolding holds_def deliveries by (auto simp: lockDelivery_def)
  ultimately show ?thesis using ok' events by blast
qed

lemma claim_error:
  assumes "pg_ClaimDueDeliveries now until w limit db = (Inl e, db')"
  shows "tables db' = tables db"
  using assms by (auto simp: pg_ClaimDueDeliveries_def returnE_def statement_def Let_def split: if_splits)

lemma complete_error: "pg_CompleteDelivery w c db = (Inl e, db') \<Longrightarrow> tables db' = tables db"
  using keeps_transaction unfolding pg_CompleteDelivery_def keeps_tables_def by blast

lemma complete_value:
  assumes "pg_CompleteDelivery w c db = (Inr u, db')"
  obtains d a where "d \<in> set (db_deliveries db)" "dl_ID d = cm_DeliveryID c" "dl_LockedBy d = w"
    "db_deliveries db' = update_first (\<lambda>d. dl_ID d = cm_DeliveryID c \<and> dl_LockedBy d = w) (completeRow c) (db_deliveries db)"
    "db_deliveryAttempts db' = db_deliveryAttempts db @ [a]" "da_DeliveryID a = cm_DeliveryID c" "da_Sequence a = cm_Sequence c"
    "da_HTTPStatus a = cm_HTTPStatus c" "db_merchantEvents db' = db_merchantEvents db" "0 < cm_Sequence c"
proof -
  from transaction_Inr [OF assms [unfolded pg_CompleteDelivery_def]] obtain fs fs' db2 where
    "bindE (insertDeliveryAttempt c) (\<lambda>_. updateDelivery w c) (db\<lparr>db_faults := fs\<rparr>) = (Inr u, db2)" and db': "db' = db2\<lparr>db_faults := fs'\<rparr>"
    by blast
  then obtain db1 where 1: "insertDeliveryAttempt c (db\<lparr>db_faults := fs\<rparr>) = (Inr (), db1)" and 2: "updateDelivery w c db1 = (Inr u, db2)"
    by (auto elim: bindE_InrE)
  have i: "0 < cm_Sequence c" "db_deliveries db1 = db_deliveries db" "db_merchantEvents db1 = db_merchantEvents db"
    "\<exists>a. db_deliveryAttempts db1 = db_deliveryAttempts db @ [a] \<and> da_DeliveryID a = cm_DeliveryID c \<and> da_Sequence a = cm_Sequence c \<and>
      da_HTTPStatus a = cm_HTTPStatus c"
    using statement_Inr [OF 1 [unfolded insertDeliveryAttempt_def]] by (auto split: if_splits)
  have u: "list_ex (\<lambda>d. dl_ID d = cm_DeliveryID c \<and> dl_LockedBy d = w) (db_deliveries db1)"
    "db_deliveries db2 = update_first (\<lambda>d. dl_ID d = cm_DeliveryID c \<and> dl_LockedBy d = w) (completeRow c) (db_deliveries db1)"
    "db_deliveryAttempts db2 = db_deliveryAttempts db1" "db_merchantEvents db2 = db_merchantEvents db1"
    using statement_Inr [OF 2 [unfolded updateDelivery_def Let_def]] by (auto split: if_splits)
  from u(1) obtain d where "d \<in> set (db_deliveries db)" "dl_ID d = cm_DeliveryID c" "dl_LockedBy d = w"
    by (auto simp: list_ex_iff i(2))
  with i u show ?thesis using that by (auto simp: db')
qed

lemma update_unique:
  assumes "distinct (map key rs)" and "d \<in> set rs" and "P d" and "\<And>r. P r \<Longrightarrow> key r = key d"
  shows "r \<in> set (update_first P f rs) \<longleftrightarrow> r = f d \<or> r \<in> set rs \<and> key r \<noteq> key d"
  using assms(1,2)
proof (induction rs)
  case (Cons x rs)
  show ?case
  proof (cases "P x")
    case True
    then have "x = d" using Cons.prems assms(4) [of x] by (auto simp: image_iff)
    then show ?thesis using True Cons.prems by (auto simp: image_iff)
  next
    case False
    then have "d \<in> set rs" using Cons.prems assms(3) by auto
    then have "key x \<noteq> key d" using Cons.prems by (auto simp: image_iff)
    then show ?thesis using False Cons.IH Cons.prems \<open>d \<in> set rs\<close> by auto
  qed
qed simp

lemma completeRow_simps [simp]:
  "dl_ID (completeRow c d) = dl_ID d" "dl_EventID (completeRow c d) = dl_EventID d" "dl_Status (completeRow c d) = cm_Status c"
  "dl_AttemptCount (completeRow c d) = cm_Sequence c" "dl_LockedBy (completeRow c d) = []"
  "dl_DeliveredAt (completeRow c d) = map_option pg_time (cm_DeliveredAt c)" "dl_LastHTTPStatus (completeRow c d) = cm_HTTPStatus c"
  by (simp_all add: completeRow_def)

lemma complete_ok:
  assumes c: "pg_CompleteDelivery w c db = (Inr u, db')" and ok: "db_ok mx db" and mx: "0 < mx" and w: "w \<noteq> []"
    and shape: "completion_ok mx c" and h: "holds db w (cm_DeliveryID c) (cm_Sequence c - 1)"
  shows "db_ok mx db' \<and> db_merchantEvents db' = db_merchantEvents db \<and>
    (v \<noteq> [] \<longrightarrow> (v \<noteq> w \<or> i \<noteq> cm_DeliveryID c) \<longrightarrow> holds db v i n \<longrightarrow> holds db' v i n)"
proof -
  let ?P = "\<lambda>d. dl_ID d = cm_DeliveryID c \<and> dl_LockedBy d = w"
  from c obtain d a where d: "d \<in> set (db_deliveries db)" "dl_ID d = cm_DeliveryID c" "dl_LockedBy d = w"
    and rows: "db_deliveries db' = update_first ?P (completeRow c) (db_deliveries db)"
    and atts: "db_deliveryAttempts db' = db_deliveryAttempts db @ [a]" and a: "da_DeliveryID a = cm_DeliveryID c" "da_Sequence a = cm_Sequence c"
      "da_HTTPStatus a = cm_HTTPStatus c" and ev: "db_merchantEvents db' = db_merchantEvents db" and pos: "0 < cm_Sequence c"
    by (rule complete_value)
  have count: "cm_Sequence c = dl_AttemptCount d + 1" using h d by (fastforce simp: holds_def)
  have r: "row_ok mx db d" using ok d by (simp add: db_ok_def)
  then have unsettled: "dl_Status d = DeliveryPending \<and> dl_AttemptCount d = 0 \<or> dl_Status d = DeliveryRetry \<and> dl_AttemptCount d < mx"
    using w d(3) by (auto simp: row_ok_def split: DeliveryStatus.splits)
  have mem: "x \<in> set (db_deliveries db') \<longleftrightarrow> x = completeRow c d \<or> x \<in> set (db_deliveries db) \<and> dl_ID x \<noteq> dl_ID d" for x
    unfolding rows by (rule update_unique [where key = dl_ID]) (use ok d in \<open>auto simp: db_ok_def\<close>)
  have ids: "map dl_ID (db_deliveries db') = map dl_ID (db_deliveries db)"
    unfolding rows by (rule update_first_map) (simp add: completeRow_def)
  have own: "attempts_for db' (dl_ID d) = attempts_for db (dl_ID d) @ [a]" by (simp add: attempts_for_def atts a d)
  have other: "attempts_for db' x = attempts_for db x" if "x \<noteq> dl_ID d" for x using that by (simp add: attempts_for_def atts a d)
  have n: "0 \<le> dl_AttemptCount d" "dl_AttemptCount d + 1 \<le> mx" using r unsettled mx by (auto simp: row_ok_def)
  have "map da_Sequence (attempts_for db (dl_ID d)) = map int [1..<Suc (nat (dl_AttemptCount d))]" using r unfolding row_ok_def by blast
  then have "map da_Sequence (attempts_for db' (dl_ID d)) = map int [1..<Suc (nat (dl_AttemptCount d))] @ [dl_AttemptCount d + 1]"
    unfolding own map_append by (simp only: a count list.map)
  also have "\<dots> = map int [1..<Suc (nat (dl_AttemptCount d + 1))]" using n(1) by (simp add: nat_add_distrib)
  finally have seq: "map da_Sequence (attempts_for db' (dl_ID d)) = map int [1..<Suc (nat (cm_Sequence c))]" by (simp only: count)
  have last: "attempts_for db' (dl_ID d) \<noteq> [] \<and> cm_HTTPStatus c = da_HTTPStatus (last (attempts_for db' (dl_ID d)))" by (simp add: own a)
  have num: "0 \<le> cm_Sequence c" "cm_Sequence c \<le> mx" using n by (simp_all add: count)
  have status: "case cm_Status c of DeliveryPending \<Rightarrow> cm_Sequence c = 0 | DeliveryRetry \<Rightarrow> 1 \<le> cm_Sequence c \<and> cm_Sequence c < mx
      | _ \<Rightarrow> 1 \<le> cm_Sequence c \<and> ([] :: string) = []"
    using shape n by (cases "cm_Status c") (simp_all add: completion_ok_def count)
  have times: "map_option pg_time (cm_DeliveredAt c) \<noteq> None \<longleftrightarrow> cm_Status c = DeliverySucceeded"
    "cm_Status c = DeliverySucceeded \<longleftrightarrow> success_status (cm_HTTPStatus c)" using shape by (simp_all add: completion_ok_def)
  have "dl_ID d = ''whd_'' @ dl_EventID d" using r unfolding row_ok_def by blast
  with seq last num status times have "row_ok mx db' (completeRow c d)"
    unfolding row_ok_def completeRow_simps by blast
  moreover have "row_ok mx db' x" if "x \<in> set (db_deliveries db)" "dl_ID x \<noteq> dl_ID d" for x
    using ok that(1) row_ok_attempts [OF other [OF that(2)], of mx] by (simp add: db_ok_def)
  moreover have "da_DeliveryID ` set (db_deliveryAttempts db') \<subseteq> dl_ID ` set (db_deliveries db')"
  proof -
    have "dl_ID ` set (db_deliveries db') = dl_ID ` set (db_deliveries db)" using ids by (metis set_map)
    moreover have "cm_DeliveryID c \<in> dl_ID ` set (db_deliveries db)" using d by (metis imageI)
    ultimately show ?thesis using ok a by (simp add: db_ok_def atts)
  qed
  ultimately have "db_ok mx db'" using ok mem ids by (auto simp: db_ok_def)
  moreover have "holds db' v i n" if "v \<noteq> []" "v \<noteq> w \<or> i \<noteq> cm_DeliveryID c" "holds db v i n"
    using that by (auto simp: holds_def mem)
  ultimately show ?thesis using ev by blast
qed

lemma attemptJob_value:
  assumes "attemptJob sv job W = (Inr c, W')"
  shows "dw_store W' = dw_store W" and "\<exists>t0 t1 result i. c = completionOf sv job t0 t1 result i"
    and "\<forall>x\<in>set (dw_sent W'). x \<in> set (dw_sent W) \<or> (case x of (i, request, result) \<Rightarrow> i = jb_DeliveryID job \<and>
      sr_EventID request = jb_MerchantEventID job \<and> sr_Payload request = jb_Payload job \<and> sr_URL request = jb_TargetURL job)"
  using assms
  by (auto simp: attemptJob_def sendJob_def ds_now_def ds_newID_def ds_send_def dw_step_def returnE_def Let_def
      elim!: bindE_InrE split: sum.splits option.splits)

lemma completion_ok_of: "ds_maxAttempts sv = mx \<Longrightarrow> completion_ok mx (completionOf sv job t0 t1 result i)"
  by (auto simp: completion_ok_def completionOf_def classifyDelivery_def success_status_def Let_def split: option.splits)

lemma fleet_phase: "fleet_ok mx (W, ph) \<Longrightarrow> phase_ok mx (dw_store W) w (ph w)"
  by (simp add: fleet_ok_def)

lemma fleet_db: "fleet_ok mx (W, ph) \<Longrightarrow> db_ok mx (dw_store W)"
  by (simp add: fleet_ok_def)

lemma tables_db_ok: "tables db' = tables db \<Longrightarrow> db_ok mx db' = db_ok mx db"
  by (intro db_ok_cong tables_eqD)

lemma tables_holds: "tables db' = tables db \<Longrightarrow> holds db' w i n = holds db w i n"
  by (auto simp: holds_def dest: tables_eqD(11))

lemma fleet_fault:
  assumes f: "fleet_ok mx (W, ph)" and "tables (dw_store W') = tables (dw_store W)" and "dw_sent W' = dw_sent W"
  shows "fleet_ok mx (W', ph(w := Idle))"
proof (rule fleet_okI [OF _ f])
  show "db_ok mx (dw_store W')" using fleet_db [OF f] tables_db_ok [OF assms(2)] by simp
  show "set (db_merchantEvents (dw_store W)) \<subseteq> set (db_merchantEvents (dw_store W'))" using tables_eqD(8) [OF assms(2)] by simp
  show "holds (dw_store W) v i n \<Longrightarrow> holds (dw_store W') v i n" for v i n using tables_holds [OF assms(2)] by simp
qed (simp_all add: phase_ok_def assms(3))

lemma dw_run_Inr: "dw_run m W = (Inr x, W') \<Longrightarrow> \<exists>db. m (dw_store W) = (Inr x, db) \<and> W' = W\<lparr>dw_store := db\<rparr>"
  by (auto simp: dw_run_def split: prod.splits)

lemma dw_run_Inl: "dw_run m W = (Inl x, W') \<Longrightarrow> \<exists>db. m (dw_store W) = (Inl x, db) \<and> W' = W\<lparr>dw_store := db\<rparr>"
  by (auto simp: dw_run_def split: prod.splits)

lemma fleet_upd_idle: "fleet_ok mx (W, ph(w := Idle)) \<Longrightarrow> ph w = Idle \<Longrightarrow> fleet_ok mx (W, ph)"
  by (metis fun_upd_triv)

lemma worker_step_ok:
  assumes cfg: "fleet_config mx sv" and step: "worker_step sv (W, ph) s'" and I: "fleet_ok mx (W, ph)"
  shows "fleet_ok mx s'"
  using step
proof (cases rule: worker_step.cases)
  case clock
  then show ?thesis using I by (simp add: fleet_ok_def dw_step_def)
next
  case (materialize w now n W')
  then obtain db where db: "pg_MaterializePendingDeliveries now (ds_batchSize (sv w) * 4) (dw_store W) = (Inr n, db)" "W' = W\<lparr>dw_store := db\<rparr>"
    using dw_run_Inr by metis
  have "0 < mx" using cfg by (simp add: fleet_config_def)
  note ok = materialize_ok [OF db(1) fleet_db [OF I] this]
  show ?thesis unfolding materialize by (rule fleet_okI [OF _ I, where db' = db]) (use ok db in \<open>auto simp: phase_ok_def\<close>)
next
  case (materialize_fails w now e W')
  then obtain db where db: "pg_MaterializePendingDeliveries now (ds_batchSize (sv w) * 4) (dw_store W) = (Inl e, db)" "W' = W\<lparr>dw_store := db\<rparr>"
    using dw_run_Inl by metis
  have "0 < mx" using cfg by (simp add: fleet_config_def)
  note ok = materialize_ok [OF db(1) fleet_db [OF I] this]
  have "fleet_ok mx (W', ph(w := Idle))" by (rule fleet_okI [OF _ I, where db' = db]) (use ok db in \<open>auto simp: phase_ok_def\<close>)
  then show ?thesis using materialize_fails fleet_upd_idle by simp
next
  case (claim w now jobs W')
  then obtain db where db: "pg_ClaimDueDeliveries now (now + ds_leaseDuration (sv w)) w (ds_batchSize (sv w)) (dw_store W) = (Inr jobs, db)"
    "W' = W\<lparr>dw_store := db\<rparr>" using dw_run_Inr by metis
  note ok = claim_value [OF db(1) fleet_db [OF I] \<open>w \<noteq> []\<close>]
  show ?thesis unfolding claim by (rule fleet_okI [OF _ I, where db' = db]) (use ok db in \<open>auto simp: phase_ok_def\<close>)
next
  case (claim_fails w now e W')
  then obtain db where db: "pg_ClaimDueDeliveries now (now + ds_leaseDuration (sv w)) w (ds_batchSize (sv w)) (dw_store W) = (Inl e, db)"
    "W' = W\<lparr>dw_store := db\<rparr>" using dw_run_Inl by metis
  show ?thesis unfolding claim_fails by (rule fleet_fault [OF I]) (simp_all add: db(2) claim_error [OF db(1)])
next
  case (send w job jobs c W')
  note p = fleet_phase [OF I, of w, unfolded send phase_ok_def phase.case jobs_ok_def]
  have mx: "ds_maxAttempts (sv w) = mx" using cfg by (simp add: fleet_config_def)
  from attemptJob_value [OF \<open>attemptJob (sv w) job W = (Inr c, W')\<close>] obtain t0 t1 result i where
    st: "dw_store W' = dw_store W" and c: "c = completionOf (sv w) job t0 t1 result i" and
    sent: "\<forall>x\<in>set (dw_sent W'). x \<in> set (dw_sent W) \<or> (case x of (i, request, result) \<Rightarrow> i = jb_DeliveryID job \<and>
      sr_EventID request = jb_MerchantEventID job \<and> sr_Payload request = jb_Payload job \<and> sr_URL request = jb_TargetURL job)" by blast
  have "cm_DeliveryID c = jb_DeliveryID job" "cm_Sequence c = jb_AttemptCount job + 1" by (simp_all add: c completionOf_def Let_def)
  then have "phase_ok mx (dw_store W) w (Answered c jobs)"
    using p completion_ok_of [OF mx] by (simp add: phase_ok_def jobs_ok_def c)
  moreover have "sent_ok (dw_store W) x" if "x \<in> set (dw_sent W')" for x
    using bspec [OF sent that] I p by (auto simp: fleet_ok_def sent_ok_def)
  ultimately show ?thesis using I st by (simp add: send fleet_ok_def)
next
  case (complete w c jobs u W')
  then obtain db where db: "pg_CompleteDelivery w c (dw_store W) = (Inr u, db)" "W' = W\<lparr>dw_store := db\<rparr>" using dw_run_Inr by metis
  note p = fleet_phase [OF I, of w, unfolded complete phase_ok_def phase.case]
  have mx: "0 < mx" using cfg by (simp add: fleet_config_def)
  have w: "w \<noteq> []" "completion_ok mx c" "holds (dw_store W) w (cm_DeliveryID c) (cm_Sequence c - 1)" using p by (auto simp: jobs_ok_def)
  note ok = complete_ok [OF db(1) fleet_db [OF I] mx w]
  have ev: "db_merchantEvents db = db_merchantEvents (dw_store W)" using ok [where v = "[]"] by blast
  have "jobs_ok db w jobs"
    unfolding jobs_ok_def
  proof (intro conjI ballI)
    show "w \<noteq> []" "distinct (map jb_DeliveryID jobs)" using p by (simp_all add: jobs_ok_def)
    fix j assume j: "j \<in> set jobs"
    have "jb_DeliveryID j \<noteq> cm_DeliveryID c" using imageI [OF j, of jb_DeliveryID] p by metis
    moreover have "holds (dw_store W) w (jb_DeliveryID j) (jb_AttemptCount j)" using p j by (simp add: jobs_ok_def)
    ultimately show "holds db w (jb_DeliveryID j) (jb_AttemptCount j)" using ok w by blast
    show "of_event db (jb_DeliveryID j) (jb_MerchantEventID j) (jb_Payload j)"
      by (rule of_event_mono [where db = "dw_store W"]) (use p j ev in \<open>auto simp: jobs_ok_def\<close>)
  qed
  then show ?thesis unfolding complete by (intro fleet_okI [OF _ I, where db' = db]) (use ok db ev in \<open>auto simp: phase_ok_def\<close>)
next
  case (complete_fails w c jobs e W')
  then obtain db where db: "pg_CompleteDelivery w c (dw_store W) = (Inl e, db)" "W' = W\<lparr>dw_store := db\<rparr>" using dw_run_Inl by metis
  show ?thesis unfolding complete_fails by (rule fleet_fault [OF I]) (simp_all add: db(2) complete_error [OF db(1)])
next
  case (finish w)
  then show ?thesis using fleet_fault [OF I, of W w] by simp
next
  case (crash w)
  then show ?thesis using fleet_fault [OF I, of W w] by simp
next
  case (other db)
  then have o: "db_deliveries db = db_deliveries (dw_store W)" "db_deliveryAttempts db = db_deliveryAttempts (dw_store W)"
    "set (db_merchantEvents (dw_store W)) \<subseteq> set (db_merchantEvents db)" by (auto simp: other_writes_def)
  have h: "holds db v i n = holds (dw_store W) v i n" for v i n using o by (simp add: holds_def)
  have "phase_ok mx db v (ph v)" for v using phase_ok_mono [OF fleet_phase [OF I] o(3)] h by blast
  moreover have "db_ok mx db" using db_ok_cong [OF o(1,2)] fleet_db [OF I] by simp
  moreover have "sent_ok db x" if "x \<in> set (dw_sent W)" for x using sent_ok_mono [OF _ o(3)] I that by (auto simp: fleet_ok_def)
  ultimately show ?thesis by (simp add: other fleet_ok_def)
qed

inductive fleet_run :: "(string \<Rightarrow> PgDB DeliveryService) \<Rightarrow> fleet \<Rightarrow> fleet \<Rightarrow> bool"
  for sv :: "string \<Rightarrow> PgDB DeliveryService" and s0 :: fleet where
  start: "fleet_run sv s0 s0"
| step: "fleet_run sv s0 s \<Longrightarrow> worker_step sv s s' \<Longrightarrow> fleet_run sv s0 s'"

definition fleet_start :: "PgDB \<Rightarrow> nat \<Rightarrow> fleet" where
  "fleet_start db n = (\<lparr>dw_store = db\<lparr>db_deliveries := [], db_deliveryAttempts := []\<rparr>, dw_tick = n, dw_sent = []\<rparr>, \<lambda>_. Idle)"

lemma fleet_start_ok: "fleet_ok mx (fleet_start db n)"
  by (simp add: fleet_start_def fleet_ok_def db_ok_def phase_ok_def)

lemma fleet_run_ok: "fleet_config mx sv \<Longrightarrow> fleet_run sv s0 s \<Longrightarrow> fleet_ok mx s0 \<Longrightarrow> fleet_ok mx s"
  by (erule fleet_run.induct) (auto intro: worker_step_ok)

lemma fleet_run_trans: "fleet_run sv s1 s2 \<Longrightarrow> fleet_run sv s0 s1 \<Longrightarrow> fleet_run sv s0 s2"
  by (induction rule: fleet_run.induct) (auto intro: fleet_run.step)

lemma fleet_run_one: "worker_step sv s s' \<Longrightarrow> fleet_run sv s s'"
  by (rule fleet_run.step [OF fleet_run.start])

section \<open>Settled deliveries stay\<close>

definition settled_row :: "Delivery \<Rightarrow> bool" where
  "settled_row d \<longleftrightarrow> dl_Status d = DeliverySucceeded \<or> dl_Status d = DeliveryFailed"

lemma insertDeliveries_mem: "d \<in> set (db_deliveries db) \<Longrightarrow> d \<in> set (db_deliveries (insertDeliveries now rows db))"
  by (induction now rows db rule: insertDeliveries.induct) simp_all

lemma materialize_settled:
  assumes "pg_MaterializePendingDeliveries now limit db = (r, db')" and "d \<in> set (db_deliveries db)"
  shows "d \<in> set (db_deliveries db')"
  using assms insertDeliveries_mem [of d "db\<lparr>db_faults := tl (db_faults db)\<rparr>"]
  by (auto simp: pg_MaterializePendingDeliveries_def returnE_def statement_def Let_def split: if_splits)

lemma claim_settled:
  assumes c: "pg_ClaimDueDeliveries now until w limit db = (Inr jobs, db')" and ok: "db_ok mx db"
    and d: "d \<in> set (db_deliveries db)" "settled_row d"
  shows "d \<in> set (db_deliveries db')"
proof (cases "limit \<le> 0")
  case True
  then show ?thesis using c d by (simp add: pg_ClaimDueDeliveries_def returnE_def)
next
  case False
  let ?db0 = "db\<lparr>db_faults := tl (db_faults db)\<rparr>"
  let ?f = "\<lambda>d. if dl_ID d \<in> set (claimed ?db0 now limit) then lockDelivery now until w d else d"
  from statement_Inr [OF c [unfolded pg_ClaimDueDeliveries_def if_not_P [OF False]]]
  have "db' = ?db0\<lparr>db_deliveries := map ?f (db_deliveries db)\<rparr>" by (simp add: Let_def)
  then have rows: "db_deliveries db' = map ?f (db_deliveries db)" by simp
  have "dl_ID d \<notin> set (claimed ?db0 now limit)"
  proof
    assume "dl_ID d \<in> set (claimed ?db0 now limit)"
    then obtain d' where d': "d' \<in> set (db_deliveries db)" "dl_ID d' = dl_ID d" "due ?db0 now d'"
      by (auto simp: claimed_def dest!: in_set_takeD)
    then have "d' = d" using ok d(1) by (auto simp: db_ok_def distinct_map inj_on_def)
    then show False using d'(3) d(2) by (auto simp: due_def settled_row_def)
  qed
  then have f: "?f d = d" by (simp only: if_False)
  have "?f d \<in> ?f ` set (db_deliveries db)" using d(1) by (rule imageI)
  then show ?thesis unfolding rows set_map f .
qed

lemma complete_settled:
  assumes c: "pg_CompleteDelivery w c db = (Inr u, db')" and ok: "db_ok mx db" and w: "w \<noteq> []"
    and d: "d \<in> set (db_deliveries db)" "settled_row d"
  shows "d \<in> set (db_deliveries db')"
proof -
  have "dl_LockedBy d = []" using ok d by (auto simp: db_ok_def row_ok_def settled_row_def)
  moreover obtain rest where "db_deliveries db' = update_first (\<lambda>d. dl_ID d = cm_DeliveryID c \<and> dl_LockedBy d = w) (completeRow c) (db_deliveries db)"
    using complete_value [OF c] by metis
  moreover have "\<not> P d \<Longrightarrow> d \<in> set rs \<Longrightarrow> d \<in> set (update_first P f rs)" for P f rs by (induction rs) auto
  ultimately show ?thesis using d(1) w by simp
qed

lemma worker_step_settled:
  assumes step: "worker_step sv (W, ph) (W', ph')" and I: "fleet_ok mx (W, ph)"
    and d: "d \<in> set (db_deliveries (dw_store W))" "settled_row d"
  shows "d \<in> set (db_deliveries (dw_store W'))"
  using step
proof (cases rule: worker_step.cases)
  case (claim w now jobs)
  then obtain db where "pg_ClaimDueDeliveries now (now + ds_leaseDuration (sv w)) w (ds_batchSize (sv w)) (dw_store W) = (Inr jobs, db)"
    "W' = W\<lparr>dw_store := db\<rparr>" using dw_run_Inr by metis
  then show ?thesis using claim_settled [OF _ fleet_db [OF I] d] by simp
next
  case (claim_fails w now e)
  then obtain db where "pg_ClaimDueDeliveries now (now + ds_leaseDuration (sv w)) w (ds_batchSize (sv w)) (dw_store W) = (Inl e, db)"
    "W' = W\<lparr>dw_store := db\<rparr>" using dw_run_Inl by metis
  then show ?thesis using d tables_eqD(11) [OF claim_error] by simp
next
  case (send w job jobs c)
  then show ?thesis using d attemptJob_value(1) [of "sv w" job W c W'] by simp
next
  case (complete w c jobs u)
  then obtain db where db: "pg_CompleteDelivery w c (dw_store W) = (Inr u, db)" "W' = W\<lparr>dw_store := db\<rparr>" using dw_run_Inr by metis
  have "w \<noteq> []" using fleet_phase [OF I, of w] complete by (simp add: phase_ok_def jobs_ok_def)
  then show ?thesis using complete_settled [OF db(1) fleet_db [OF I] _ d] db(2) by simp
next
  case (complete_fails w c jobs e)
  then obtain db where "pg_CompleteDelivery w c (dw_store W) = (Inl e, db)" "W' = W\<lparr>dw_store := db\<rparr>" using dw_run_Inl by metis
  then show ?thesis using d tables_eqD(11) [OF complete_error] by simp
next
  case (materialize w now n)
  then obtain db where "pg_MaterializePendingDeliveries now (ds_batchSize (sv w) * 4) (dw_store W) = (Inr n, db)" "W' = W\<lparr>dw_store := db\<rparr>"
    using dw_run_Inr by metis
  then show ?thesis using materialize_settled [OF _ d(1)] by simp
next
  case (materialize_fails w now e)
  then obtain db where "pg_MaterializePendingDeliveries now (ds_batchSize (sv w) * 4) (dw_store W) = (Inl e, db)" "W' = W\<lparr>dw_store := db\<rparr>"
    using dw_run_Inl by metis
  then show ?thesis using materialize_settled [OF _ d(1)] by simp
next
  case (other db)
  then show ?thesis using d by (simp add: other_writes_def)
qed (use d in \<open>simp_all add: dw_step_def\<close>)

section \<open>RunOnce is a path\<close>

lemma attemptJob_returns: "\<exists>c W'. attemptJob sv job W = (Inr c, W')"
  by (auto simp: attemptJob_def sendJob_def ds_now_def ds_newID_def ds_send_def bindE_def returnE_def Let_def split: sum.split option.split)

lemma processJobs_path:
  assumes cfg: "fleet_config mx sv" and "ph w = Processing js" and "processJobs (sv w) k js W = (r, W')"
  shows "\<exists>n err. r = Inr (n, err) \<and> k \<le> n \<and> n \<le> k + int (length js) \<and> fleet_run sv (W, ph) (W', ph(w := Idle))"
  using assms(2,3)
proof (induction js arbitrary: W ph k)
  case Nil
  then have "r = Inr (k, None)" "W' = W" by (simp_all add: returnE_def)
  moreover have "fleet_run sv (W, ph) (W, ph(w := Idle))" by (rule fleet_run_one [OF worker_step.finish [of ph w sv W, OF Nil(1)]])
  moreover have "k \<le> k" "k \<le> k + int (length ([] :: Job list))" by simp_all
  ultimately show ?case by blast
next
  case (Cons job js)
  obtain c W1 where a: "attemptJob (sv w) job W = (Inr c, W1)" using attemptJob_returns by blast
  have repo: "ds_repo (sv w) = pg_deliveries" "ds_workerID (sv w) = w" using cfg by (simp_all add: fleet_config_def)
  have send: "fleet_run sv (W, ph) (W1, ph(w := Answered c js))"
    by (rule fleet_run_one [OF worker_step.send [of ph w job js sv W c W1, OF Cons.prems(1) a]])
  obtain q W2 where q: "dw_run (pg_CompleteDelivery w c) W1 = (q, W2)" by (cases "dw_run (pg_CompleteDelivery w c) W1")
  have p: "processJob (sv w) job W = (q, W2)"
    unfolding processJob_def bindE_Inr [where m = "attemptJob (sv w) job", OF a] using q by (simp add: repo pg_deliveries_def)
  show ?case
  proof (cases q)
    case (Inl err)
    have "worker_step sv (W1, ph(w := Answered c js)) (W2, (ph(w := Answered c js))(w := Idle))"
      by (rule worker_step.complete_fails) (use q Inl in simp_all)
    then have "fleet_run sv (W, ph) (W2, ph(w := Idle))" using send by (simp add: fleet_run.step)
    moreover have "r = Inr (k, Some err)" "W' = W2" using Cons.prems(2) p Inl by (simp_all add: bindE_def tryE_def returnE_def)
    moreover have "k \<le> k" "k \<le> k + int (length (job # js))" by simp_all
    ultimately show ?thesis by blast
  next
    case (Inr u)
    have "worker_step sv (W1, ph(w := Answered c js)) (W2, (ph(w := Answered c js))(w := Processing js))"
      by (rule worker_step.complete) (use q Inr in simp_all)
    then have s: "fleet_run sv (W, ph) (W2, ph(w := Processing js))" using send by (simp add: fleet_run.step)
    have "processJobs (sv w) (k + 1) js W2 = (r, W')" using Cons.prems(2) p Inr by (simp add: bindE_def tryE_def)
    moreover have "(ph(w := Processing js)) w = Processing js" by simp
    ultimately obtain n err where n: "r = Inr (n, err)" "k + 1 \<le> n" "n \<le> k + 1 + int (length js)"
        "fleet_run sv (W2, ph(w := Processing js)) (W', (ph(w := Processing js))(w := Idle))" using Cons.IH by blast
    from n(4) have "fleet_run sv (W, ph) (W', ph(w := Idle))" unfolding fun_upd_upd by (rule fleet_run_trans [OF _ s])
    moreover have "k \<le> n" "n \<le> k + int (length (job # js))" using n(2,3) by simp_all
    ultimately show ?thesis using n(1) by blast
  qed
qed

lemma claim_length:
  assumes c: "pg_ClaimDueDeliveries now until w limit db = (Inr jobs, db')" and ok: "db_ok mx db" and w: "w \<noteq> []"
  shows "int (length jobs) \<le> max 0 limit"
proof (cases "limit \<le> 0")
  case True
  then show ?thesis using c by (simp add: pg_ClaimDueDeliveries_def returnE_def)
next
  case False
  let ?db0 = "db\<lparr>db_faults := tl (db_faults db)\<rparr>"
  let ?ids = "claimed ?db0 now limit"
  let ?f = "\<lambda>d. if dl_ID d \<in> set ?ids then lockDelivery now until w d else d"
  let ?ds = "sort_key dl_ID (filter (\<lambda>d. dl_ID d \<in> set ?ids) (map ?f (db_deliveries db)))"
  from statement_Inr [OF c [unfolded pg_ClaimDueDeliveries_def if_not_P [OF False]]]
  have jobs: "jobs = List.map_filter (jobOf ?db0) ?ds" by (simp add: Let_def)
  have id: "jb_DeliveryID j = dl_ID d" if "jobOf ?db0 d = Some j" for d j using that by (auto simp: jobOf_def split: option.splits)
  have "set (map jb_DeliveryID jobs) \<subseteq> set ?ids"
  proof
    fix x assume "x \<in> set (map jb_DeliveryID jobs)"
    then obtain j where "j \<in> set jobs" "x = jb_DeliveryID j" by auto
    moreover then obtain d where "d \<in> set ?ds" "jobOf ?db0 d = Some j" unfolding jobs map_filter_mem by blast
    ultimately show "x \<in> set ?ids" using id by auto
  qed
  then have "card (set (map jb_DeliveryID jobs)) \<le> length ?ids" using card_mono [OF finite_set] card_length le_trans by blast
  moreover have "distinct (map jb_DeliveryID jobs)" using claim_value [OF c ok w] by (simp add: jobs_ok_def)
  ultimately have "length jobs \<le> length ?ids" using distinct_card by fastforce
  also have "\<dots> \<le> nat limit" by (simp add: claimed_def)
  finally show ?thesis using False by linarith
qed

lemma RunOnce_path:
  assumes cfg: "fleet_config mx sv" and w: "w \<noteq> []" "ph w = Idle" and I: "fleet_ok mx (W, ph)" and r: "RunOnce (sv w) W = (r, W')"
  shows "\<exists>n err. r = Inr (n, err) \<and> 0 \<le> n \<and> n \<le> max 0 (ds_batchSize (sv w)) \<and> fleet_run sv (W, ph) (W', ph)"
proof -
  have repo: "ds_repo (sv w) = pg_deliveries" "ds_workerID (sv w) = w" using cfg by (simp_all add: fleet_config_def)
  let ?now = "ds_clock (sv w) (dw_tick W)" and ?W = "dw_step W"
  let ?m = "dw_run (pg_MaterializePendingDeliveries ?now (ds_batchSize (sv w) * 4))"
  let ?c = "dw_run (pg_ClaimDueDeliveries ?now (?now + ds_leaseDuration (sv w)) w (ds_batchSize (sv w)))"
  have 0: "fleet_run sv (W, ph) (?W, ph)" by (rule fleet_run_one [OF worker_step.clock])
  have ph: "ph(w := Idle) = ph" using w by auto
  obtain q1 W1 where m: "?m ?W = (q1, W1)" by (cases "?m ?W")
  show ?thesis
  proof (cases q1)
    case (Inl e)
    have "worker_step sv (?W, ph) (W1, ph)" by (rule worker_step.materialize_fails [of ph w, OF w(2)]) (use m Inl in simp)
    then have "fleet_run sv (W, ph) (W1, ph)" by (rule fleet_run.step [OF 0])
    moreover have "(r, W') = (Inr (0, Some e), W1)"
      unfolding r [symmetric] using m Inl by (simp add: RunOnce_def bindE_def tryE_def returnE_def ds_now_def repo pg_deliveries_def)
    ultimately show ?thesis by auto
  next
    case (Inr k)
    have "worker_step sv (?W, ph) (W1, ph(w := Materialized ?now))" by (rule worker_step.materialize [of ph w, OF w(2)]) (use m Inr in simp)
    note 1 = fleet_run.step [OF 0 this]
    have I1: "fleet_ok mx (W1, ph(w := Materialized ?now))" using fleet_run_ok [OF cfg 1 I] .
    obtain q2 W2 where c: "?c W1 = (q2, W2)" by (cases "?c W1")
    show ?thesis
    proof (cases q2)
      case (Inl e)
      have "worker_step sv (W1, ph(w := Materialized ?now)) (W2, (ph(w := Materialized ?now))(w := Idle))"
        by (rule worker_step.claim_fails) (use c Inl in simp_all)
      then have "fleet_run sv (W, ph) (W2, ph)" using fleet_run.step [OF 1] ph by simp
      moreover have "(r, W') = (Inr (0, Some e), W2)"
        unfolding r [symmetric] using m c Inr Inl by (simp add: RunOnce_def bindE_def tryE_def returnE_def ds_now_def repo pg_deliveries_def)
      ultimately show ?thesis by auto
    next
      case (Inr jobs)
      have "worker_step sv (W1, ph(w := Materialized ?now)) (W2, (ph(w := Materialized ?now))(w := Processing jobs))"
        by (rule worker_step.claim) (use c Inr w in simp_all)
      then have 2: "fleet_run sv (W, ph) (W2, ph(w := Processing jobs))" using fleet_run.step [OF 1] by simp
      have len: "int (length jobs) \<le> max 0 (ds_batchSize (sv w))"
        using c Inr claim_length [OF _ fleet_db [OF I1] w(1)] by (auto dest!: dw_run_Inr)
      have "processJobs (sv w) 0 jobs W2 = (r, W')"
        using r m c \<open>q1 = Inr k\<close> Inr by (simp add: RunOnce_def bindE_def tryE_def ds_now_def repo pg_deliveries_def)
      moreover have "(ph(w := Processing jobs)) w = Processing jobs" by simp
      ultimately obtain n err where n: "r = Inr (n, err)" "0 \<le> n" "n \<le> 0 + int (length jobs)"
          "fleet_run sv (W2, ph(w := Processing jobs)) (W', (ph(w := Processing jobs))(w := Idle))" using processJobs_path [OF cfg] by blast
      from n(4) have "fleet_run sv (W, ph) (W', ph)" unfolding fun_upd_upd ph by (rule fleet_run_trans [OF _ 2])
      moreover have "n \<le> max 0 (ds_batchSize (sv w))" using n(3) len by simp
      ultimately show ?thesis using n(1,2) by blast
    qed
  qed
qed

lemma row_sound:
  assumes r: "row_ok mx db d"
  shows "map da_Sequence (attempts_for db (dl_ID d)) = map int [1..<Suc (nat (dl_AttemptCount d))] \<and>
    dl_AttemptCount d \<le> mx \<and>
    (dl_Status d = DeliverySucceeded) = (case rev (attempts_for db (dl_ID d)) of [] \<Rightarrow> False
      | a # _ \<Rightarrow> success_status (da_HTTPStatus a))"
proof (intro conjI)
  show "map da_Sequence (attempts_for db (dl_ID d)) = map int [1..<Suc (nat (dl_AttemptCount d))]" "dl_AttemptCount d \<le> mx"
    using r unfolding row_ok_def by blast+
  show "(dl_Status d = DeliverySucceeded) = (case rev (attempts_for db (dl_ID d)) of [] \<Rightarrow> False
      | a # _ \<Rightarrow> success_status (da_HTTPStatus a))"
  proof (cases "dl_AttemptCount d = 0")
    case True
    then have "attempts_for db (dl_ID d) = []" "dl_Status d \<noteq> DeliverySucceeded" using r by (auto simp: row_ok_def)
    then show ?thesis by simp
  next
    case False
    then show ?thesis using r by (cases "attempts_for db (dl_ID d)" rule: rev_cases) (simp_all only: row_ok_def, auto)
  qed
qed

section \<open>A sample fleet\<close>

definition sample_worker :: "string \<Rightarrow> PgDB DeliveryService" where
  "sample_worker w = \<lparr>ds_repo = pg_deliveries, ds_cipher = \<lparr>sc_Encrypt = (\<lambda>n bs. Inr (map char_of bs)), sc_Decrypt = (\<lambda>s. Inr (map byte s))\<rparr>,
     ds_sender = Some (\<lambda>n request. \<lparr>sn_HTTPStatus = Some 200, sn_Latency = 5, sn_ErrorCode = []\<rparr>), ds_clock = (\<lambda>n. int n * second),
     ds_ids = (\<lambda>n prefix. prefix @ replicate n CHR ''1''), ds_workerID = w, ds_batchSize = 25, ds_leaseDuration = 30 * second,
     ds_maxAttempts = 12, ds_allowInsecureLocalTargets = False\<rparr>"

lemma distinct_events:
  assumes "db_ok mx db"
  shows "distinct (map dl_EventID (db_deliveries db))"
proof -
  have "dl_ID d = ''whd_'' @ dl_EventID d" if "d \<in> set (db_deliveries db)" for d
    using assms that by (simp add: db_ok_def row_ok_def)
  then have "map dl_ID (db_deliveries db) = map ((@) ''whd_'') (map dl_EventID (db_deliveries db))" by simp
  then show ?thesis using assms by (metis db_ok_def distinct_map)
qed

text \<open>A paid payment with its event, and an endpoint for it.\<close>

definition sample_events :: PgDB where
  "sample_events = empty_db\<lparr>
     db_connections := [\<lparr>pc_ID = ''c1'', pc_WorkspaceID = ''w'', pc_ProviderKey = ''fake'', pc_Environment = EnvironmentTest, pc_Enabled = True,
       pc_CredentialsValid = True, pc_Circuit = CircuitClosed, pc_CircuitOpenedAt = None, pc_Priority = 1\<rparr>],
     db_attempts := [\<lparr>pa_ID = ''a1'', pa_PaymentIntentID = ''p1'', pa_ProviderConnectionID = ''c1'', pa_Sequence = 1,
       pa_Status = AttemptStatusSucceeded, pa_ProviderPaymentID = [], pa_FailureCode = [], pa_ReconciliationStatus = [], pa_Pix = None,
       pa_RequestStartedAt = 1000, pa_ResponseReceivedAt = Some 2000, pa_CreatedAt = 1000, pa_UpdatedAt = 2000\<rparr>],
     db_merchantEvents := [\<lparr>me_ID = ''e1'', me_WorkspaceID = ''w'', me_EventKey = ''payment.paid:p1'', me_EventType = ''payment.paid'',
       me_PaymentIntentID = ''p1'', me_Payload = ''body'', me_CreatedAt = 3000\<rparr>],
     db_endpoints := [\<lparr>en_ID = ''whe_1'', en_WorkspaceID = ''w'', en_Environment = EnvironmentTest, en_URL = ''https://shop.example/hook'',
       en_SigningSecretCiphertext = ''secret'', en_Enabled = True, en_ActiveSince = 0, en_CreatedAt = 0, en_UpdatedAt = 0\<rparr>]\<rparr>"

definition sample_round :: "(go_error + int \<times> go_error option) \<times> PgDB dworld" where
  "sample_round = RunOnce (sample_worker ''w1'') (fst (fleet_start sample_events 5))"

definition sample_fleet :: fleet where
  "sample_fleet = (snd sample_round, \<lambda>_. Idle)"

lemma sample_config: "fleet_config 12 sample_worker"
  by (simp add: fleet_config_def sample_worker_def)

lemma sample_run: "fleet_run sample_worker (fleet_start sample_events 5) sample_fleet"
proof -
  let ?W = "fst (fleet_start sample_events 5)"
  have s: "fleet_start sample_events 5 = (?W, \<lambda>_. Idle)" by (simp add: fleet_start_def)
  have I: "fleet_ok 12 (?W, \<lambda>_. Idle)" unfolding s [symmetric] by (rule fleet_start_ok)
  obtain r V where rv: "sample_round = (r, V)" by (cases sample_round)
  have "fleet_run sample_worker (?W, \<lambda>_. Idle) (V, \<lambda>_. Idle)"
    using RunOnce_path [OF sample_config _ _ I rv [unfolded sample_round_def]] by blast
  then show ?thesis by (metis s rv sample_fleet_def snd_conv)
qed

section \<open>Properties\<close>

text \<open>
  C4.  Deliveries are sound under any interleaving of workers, crashes and database failures: an event
  has at most one delivery; its recorded attempts are numbered 1 to its attempt count, which never
  exceeds \<open>MaxAttempts\<close>, and a delivery counts as succeeded exactly when its last recorded attempt was
  answered with a 2xx status.
\<close>

theorem deliveries_sound:
  assumes "fleet_config mx sv" and "fleet_run sv (fleet_start db n) (W, ph)"
  shows "distinct (map dl_EventID (db_deliveries (dw_store W))) \<and>
    list_all (\<lambda>d. map da_Sequence (attempts_for (dw_store W) (dl_ID d)) = map int [1..<Suc (nat (dl_AttemptCount d))] \<and>
      dl_AttemptCount d \<le> mx \<and>
      (dl_Status d = DeliverySucceeded) = (case rev (attempts_for (dw_store W) (dl_ID d)) of [] \<Rightarrow> False
        | a # _ \<Rightarrow> success_status (da_HTTPStatus a))) (db_deliveries (dw_store W))"
proof -
  have ok: "db_ok mx (dw_store W)" by (rule fleet_db [OF fleet_run_ok [OF assms fleet_start_ok]])
  have "distinct (map dl_EventID (db_deliveries (dw_store W)))" by (rule distinct_events [OF ok])
  moreover have "row_ok mx (dw_store W) d" if "d \<in> set (db_deliveries (dw_store W))" for d using ok that by (simp add: db_ok_def)
  ultimately show ?thesis unfolding list_all_iff using row_sound [of mx "dw_store W"] by blast
qed

theorem deliveries_sound_witness:
  "distinct (map dl_EventID (db_deliveries (dw_store (snd sample_round)))) \<and>
    list_all (\<lambda>d. map da_Sequence (attempts_for (dw_store (snd sample_round)) (dl_ID d)) = map int [1..<Suc (nat (dl_AttemptCount d))] \<and>
      dl_AttemptCount d \<le> 12 \<and>
      (dl_Status d = DeliverySucceeded) = (case rev (attempts_for (dw_store (snd sample_round)) (dl_ID d)) of [] \<Rightarrow> False
        | a # _ \<Rightarrow> success_status (da_HTTPStatus a))) (db_deliveries (dw_store (snd sample_round)))"
  by (rule deliveries_sound [OF sample_config sample_run [unfolded sample_fleet_def]])

lemma sample_settled: "list_all settled_row (db_deliveries (dw_store (snd sample_round))) \<and> length (db_deliveries (dw_store (snd sample_round))) = 1"
  by code_simp

text \<open>
  C5.  A settled delivery is final: once it succeeded or failed, its row never changes again, whatever
  the workers, stale ones included, do afterwards.
\<close>

theorem settled_final:
  assumes "fleet_config mx sv" and "fleet_run sv (fleet_start db n) (W, ph)" and "fleet_run sv (W, ph) (W', ph')"
    and "d \<in> set (db_deliveries (dw_store W))" and "settled_row d"
  shows "d \<in> set (db_deliveries (dw_store W'))"
proof -
  have "fleet_ok mx s \<and> d \<in> set (db_deliveries (dw_store (fst s)))" if "fleet_run sv (W, ph) s" for s
    using that
  proof induction
    case start
    show ?case using fleet_run_ok [OF assms(1,2) fleet_start_ok] assms(4) by simp
  next
    case (step s s')
    obtain V p V' p' where s: "s = (V, p)" "s' = (V', p')" by (cases s; cases s')
    have w: "worker_step sv (V, p) (V', p')" and I: "fleet_ok mx (V, p)" and d: "d \<in> set (db_deliveries (dw_store V))"
      using step s by simp_all
    show ?case using worker_step_ok [OF assms(1) w I] worker_step_settled [OF w I d assms(5)] by (simp add: s)
  qed
  from this [OF assms(3)] show ?thesis by simp
qed

theorem settled_final_witness:
  "hd (db_deliveries (dw_store (snd sample_round))) \<in> set (db_deliveries (dw_store (dw_step (snd sample_round))))"
proof (rule settled_final [OF sample_config sample_run [unfolded sample_fleet_def] fleet_run_one [OF worker_step.clock]])
  show "hd (db_deliveries (dw_store (snd sample_round))) \<in> set (db_deliveries (dw_store (snd sample_round)))"
    using sample_settled by (cases "db_deliveries (dw_store (snd sample_round))") simp_all
  then show "settled_row (hd (db_deliveries (dw_store (snd sample_round))))" using sample_settled by (simp add: list_all_iff)
qed

text \<open>
  C6.  What is sent is what happened: every request that any worker ever sent carries the id and the
  payload of one event of the outbox, and counts for the delivery of that event.
\<close>

theorem requests_faithful:
  assumes "fleet_config mx sv" and "fleet_run sv (fleet_start db n) (W, ph)"
  shows "list_all (\<lambda>(delivery, request, result). delivery = ''whd_'' @ sr_EventID request \<and>
    list_ex (\<lambda>me. me_ID me = sr_EventID request \<and> me_Payload me = sr_Payload request) (db_merchantEvents (dw_store W))) (dw_sent W)"
  using fleet_run_ok [OF assms fleet_start_ok]
  by (auto simp: fleet_ok_def sent_ok_def of_event_def list_all_iff list_ex_iff)

theorem requests_faithful_witness:
  "list_all (\<lambda>(delivery, request, result). delivery = ''whd_'' @ sr_EventID request \<and>
    list_ex (\<lambda>me. me_ID me = sr_EventID request \<and> me_Payload me = sr_Payload request)
      (db_merchantEvents (dw_store (snd sample_round)))) (dw_sent (snd sample_round))"
  by (rule requests_faithful [OF sample_config sample_run [unfolded sample_fleet_def]])

text \<open>
  C7.  \<open>RunOnce\<close> is a run of the worker: from idle to idle by the steps of the interleaving model, with
  at most a batch of jobs processed; so what holds of all interleavings holds of it.
\<close>

theorem RunOnce_refines:
  assumes "fleet_config mx sv" and "w \<noteq> []" and "ph w = Idle" and "fleet_run sv (fleet_start db n) (W, ph)"
  shows "fleet_run sv (W, ph) (snd (RunOnce (sv w) W), ph) \<and>
    (case fst (RunOnce (sv w) W) of Inl e \<Rightarrow> False | Inr (processed, err) \<Rightarrow> 0 \<le> processed \<and> processed \<le> max 0 (ds_batchSize (sv w)))"
  using RunOnce_path [of mx sv w ph W, OF assms(1-3) fleet_run_ok [OF assms(1,4) fleet_start_ok] prod.collapse [symmetric]] by auto

theorem RunOnce_refines_witness:
  "fleet_run sample_worker (snd sample_round, \<lambda>_. Idle) (snd (RunOnce (sample_worker ''w2'') (snd sample_round)), \<lambda>_. Idle) \<and>
    (case fst (RunOnce (sample_worker ''w2'') (snd sample_round)) of Inl e \<Rightarrow> False
     | Inr (processed, err) \<Rightarrow> 0 \<le> processed \<and> processed \<le> max 0 (ds_batchSize (sample_worker ''w2'')))"
  by (rule RunOnce_refines [OF sample_config _ _ sample_run [unfolded sample_fleet_def]]) simp_all

end
