(* ===== verification/Json.thy ===== *)
theory Json
  imports GoLib "HOL-Library.AList"
begin

text \<open>
  The decoding half of \<open>encoding/json\<close>, as the program uses it: \<open>json.Unmarshal\<close> and
  \<open>json.Decoder.Decode\<close> into structs, strings, integers, string maps and times.

  Decoding has two steps, as in Go.  The scanner finds one value of the JSON grammar; here it is a
  push-down automaton on tokens with an explicit stack, of at most 10000 open brackets, and its result is
  a tree in which string literals keep their raw text.  A decoder then stores the tree into a Go value: it
  takes the value as it was and returns the value with the tree stored, or \<open>None\<close> where Go reports an
  error.  \<open>null\<close> leaves a value as it is; of two equal keys of an object the later one is stored over the
  earlier one.

  The last section shows that a map of strings survives \<open>Marshal\<close> and \<open>Unmarshal\<close>.
\<close>

section \<open>Tokens\<close>

datatype token =
    TBeginObject | TEndObject | TBeginArray | TEndArray | TColon | TComma
  | TNull | TBool bool | TNumber string | TString string   \<comment> \<open>raw text\<close>

definition json_space :: "char \<Rightarrow> bool" where
  "json_space c \<longleftrightarrow> byte c \<in> {32, 9, 13, 10}"

definition is_digit :: "char \<Rightarrow> bool" where
  "is_digit c \<longleftrightarrow> 48 \<le> byte c \<and> byte c \<le> 57"

definition simple_escape :: "char \<Rightarrow> bool" where
  "simple_escape c \<longleftrightarrow> byte c \<in> {34, 92, 47, 98, 102, 110, 114, 116}"

definition hex4 :: "char \<Rightarrow> char \<Rightarrow> char \<Rightarrow> char \<Rightarrow> nat option" where
  "hex4 a b c d = (case (unhex a, unhex b, unhex c, unhex d) of
     (Some x, Some y, Some z, Some w) \<Rightarrow> Some (((x * 16 + y) * 16 + z) * 16 + w) | _ \<Rightarrow> None)"

text \<open>The raw text up to the closing quote, and what follows it.\<close>

fun scan_string :: "string \<Rightarrow> (string \<times> string) option" where
  "scan_string [] = None"
| "scan_string (c # s) =
     (if byte c = 34 then Some ([], s)
      else if byte c = 92 then
        (case s of
           [] \<Rightarrow> None
         | e # s' \<Rightarrow>
             if simple_escape e
             then map_option (\<lambda>(raw, r). (c # e # raw, r)) (scan_string s')
             else if byte e = 117 then
               (case s' of
                  h1 # h2 # h3 # h4 # s'' \<Rightarrow>
                    if hex4 h1 h2 h3 h4 \<noteq> None
                    then map_option (\<lambda>(raw, r). (c # e # h1 # h2 # h3 # h4 # raw, r)) (scan_string s'')
                    else None
                | _ \<Rightarrow> None)
             else None)
      else if byte c < 32 then None
      else map_option (\<lambda>(raw, r). (c # raw, r)) (scan_string s))"

definition number_char :: "char \<Rightarrow> bool" where
  "number_char c \<longleftrightarrow> is_digit c \<or> byte c \<in> {43, 45, 46, 69, 101}"

definition digits :: "string \<Rightarrow> bool" where
  "digits s \<longleftrightarrow> s \<noteq> [] \<and> list_all is_digit s"

definition valid_exponent :: "string \<Rightarrow> bool" where
  "valid_exponent s \<longleftrightarrow> (case s of
     [] \<Rightarrow> True
   | e # r \<Rightarrow> byte e \<in> {69, 101} \<and> (case r of [] \<Rightarrow> False | x # r' \<Rightarrow> if byte x \<in> {43, 45} then digits r' else digits r))"

definition valid_fraction :: "string \<Rightarrow> bool" where
  "valid_fraction s \<longleftrightarrow> (case s of
     [] \<Rightarrow> True
   | p # r \<Rightarrow> if byte p = 46 then is_digit (hd (r @ [p])) \<and> valid_exponent (dropWhile is_digit r) else valid_exponent s)"

definition valid_number :: "string \<Rightarrow> bool" where
  "valid_number s \<longleftrightarrow> (let u = (case s of c # r \<Rightarrow> if byte c = 45 then r else s | [] \<Rightarrow> []) in
     case u of [] \<Rightarrow> False
     | d # r \<Rightarrow> is_digit d \<and> valid_fraction (if byte d = 48 then r else dropWhile is_digit r))"

definition next_token :: "string \<Rightarrow> (token \<times> string) option" where
  "next_token s = (case dropWhile json_space s of
     [] \<Rightarrow> None
   | c # r \<Rightarrow>
       if c = CHR ''{'' then Some (TBeginObject, r)
       else if c = CHR ''}'' then Some (TEndObject, r)
       else if c = CHR ''['' then Some (TBeginArray, r)
       else if c = CHR '']'' then Some (TEndArray, r)
       else if c = CHR '':'' then Some (TColon, r)
       else if c = CHR '','' then Some (TComma, r)
       else if byte c = 34 then map_option (\<lambda>(raw, r'). (TString raw, r')) (scan_string r)
       else if starts_with ''null'' (c # r) then Some (TNull, drop 3 r)
       else if starts_with ''true'' (c # r) then Some (TBool True, drop 3 r)
       else if starts_with ''false'' (c # r) then Some (TBool False, drop 4 r)
       else if number_char c then
         (let n = takeWhile number_char (c # r) in
          if valid_number n then Some (TNumber n, dropWhile number_char (c # r)) else None)
       else None)"

lemma scan_string_shorter: "scan_string s = Some p \<Longrightarrow> length (snd p) < length s"
proof (induction s arbitrary: p rule: scan_string.induct)
  case (2 c s)
  note IH = 2(1,2,3)
  show ?case
  proof (cases "byte c = 92")
    case True
    then show ?thesis using 2(4) IH(1,2) by (simp split: if_splits list.splits prod.splits) (fastforce intro: less_SucI)+
  next
    case False
    then show ?thesis using 2(4) IH(3) by (auto split: if_splits intro: less_SucI)
  qed
qed simp

lemma next_token_shorter: "next_token s = Some (t, r) \<Longrightarrow> length r < length s"
proof -
  assume a: "next_token s = Some (t, r)"
  then obtain c u where d: "dropWhile json_space s = c # u" by (auto simp: next_token_def split: list.splits)
  then have "length (c # u) \<le> length s" by (metis length_dropWhile_le)
  moreover have "length r < length (c # u)"
  proof (cases "number_char c \<and> r = dropWhile number_char (c # u)")
    case True
    then show ?thesis using length_dropWhile_le [of number_char u] by simp
  next
    case False
    then show ?thesis
      using a d
      by (auto simp: next_token_def Let_def dest!: scan_string_shorter split: if_splits)
  qed
  ultimately show ?thesis by simp
qed

section \<open>Values\<close>

datatype jvalue =
  VNull | VBool bool | VNumber string | VString string | VArray "jvalue list" | VObject "(string \<times> jvalue) list"

datatype frame = FArray "jvalue list" | FObject "(string \<times> jvalue) list" string

datatype expect = ExpectValue | ExpectValueOrEnd | ExpectKey | ExpectKeyOrEnd | ExpectColon | ExpectComma

datatype outcome = Fail | Done jvalue | Next "frame list" expect

definition maxNestingDepth :: nat where
  "maxNestingDepth = 10000"

definition push :: "frame \<Rightarrow> frame list \<Rightarrow> expect \<Rightarrow> outcome" where
  "push f st ex = (if length st < maxNestingDepth then Next (f # st) ex else Fail)"

fun deliver :: "jvalue \<Rightarrow> frame list \<Rightarrow> outcome" where
  "deliver v [] = Done v"
| "deliver v (FArray vs # st) = Next (FArray (vs @ [v]) # st) ExpectComma"
| "deliver v (FObject kvs k # st) = Next (FObject (kvs @ [(k, v)]) [] # st) ExpectComma"

fun pop :: "frame list \<Rightarrow> outcome" where
  "pop (FArray vs # st) = deliver (VArray vs) st"
| "pop (FObject kvs k # st) = deliver (VObject kvs) st"
| "pop [] = Fail"

fun begin_value :: "frame list \<Rightarrow> token \<Rightarrow> outcome" where
  "begin_value st TBeginObject = push (FObject [] []) st ExpectKeyOrEnd"
| "begin_value st TBeginArray = push (FArray []) st ExpectValueOrEnd"
| "begin_value st TNull = deliver VNull st"
| "begin_value st (TBool b) = deliver (VBool b) st"
| "begin_value st (TNumber n) = deliver (VNumber n) st"
| "begin_value st (TString s) = deliver (VString s) st"
| "begin_value st _ = Fail"

fun key_of :: "frame list \<Rightarrow> token \<Rightarrow> outcome" where
  "key_of (FObject kvs _ # st) (TString s) = Next (FObject kvs s # st) ExpectColon"
| "key_of _ _ = Fail"

fun scan_step :: "frame list \<Rightarrow> expect \<Rightarrow> token \<Rightarrow> outcome" where
  "scan_step st ExpectValue t = begin_value st t"
| "scan_step st ExpectValueOrEnd t = (if t = TEndArray then pop st else begin_value st t)"
| "scan_step st ExpectKey t = key_of st t"
| "scan_step st ExpectKeyOrEnd t = (if t = TEndObject then pop st else key_of st t)"
| "scan_step st ExpectColon t = (if t = TColon then Next st ExpectValue else Fail)"
| "scan_step st ExpectComma t =
     (case st of
        FArray _ # _ \<Rightarrow> if t = TComma then Next st ExpectValue else if t = TEndArray then pop st else Fail
      | FObject _ _ # _ \<Rightarrow> if t = TComma then Next st ExpectKey else if t = TEndObject then pop st else Fail
      | [] \<Rightarrow> Fail)"

function scan :: "frame list \<Rightarrow> expect \<Rightarrow> string \<Rightarrow> (jvalue \<times> string) option" where
  "scan st ex s =
     (case next_token s of
        None \<Rightarrow> None
      | Some (t, r) \<Rightarrow>
          (case scan_step st ex t of
             Fail \<Rightarrow> None
           | Done v \<Rightarrow> Some (v, r)
           | Next st' ex' \<Rightarrow> scan st' ex' r))"
  by pat_completeness auto
termination by (relation "measure (\<lambda>(_, _, s). length s)") (auto dest: next_token_shorter)

declare scan.simps [simp del]

definition resume :: "outcome \<Rightarrow> string \<Rightarrow> (jvalue \<times> string) option" where
  "resume out r = (case out of Fail \<Rightarrow> None | Done v \<Rightarrow> Some (v, r) | Next st ex \<Rightarrow> scan st ex r)"

lemma scan_token: "next_token s = Some (t, r) \<Longrightarrow> scan st ex s = resume (scan_step st ex t) r"
  by (subst scan.simps) (simp add: resume_def)

text \<open>
  The value of a whole text (\<open>Unmarshal\<close>), and the first value of a stream (\<open>Decode\<close>), of which \<open>s\<close> are the
  bytes and \<open>eof\<close> says whether it ends there: what is neither bracketed nor followed by a byte waits for the end.
\<close>

definition parse_all :: "string \<Rightarrow> jvalue option" where
  "parse_all s = (case scan [] ExpectValue s of
     None \<Rightarrow> None | Some (v, r) \<Rightarrow> if list_all json_space r then Some v else None)"

definition closed :: "jvalue \<Rightarrow> bool" where
  "closed v \<longleftrightarrow> (case v of VArray _ \<Rightarrow> True | VObject _ \<Rightarrow> True | _ \<Rightarrow> False)"

definition parse_stream :: "bool \<Rightarrow> string \<Rightarrow> jvalue option" where
  "parse_stream eof s = (case scan [] ExpectValue s of
     None \<Rightarrow> None | Some (v, r) \<Rightarrow> if closed v \<or> r \<noteq> [] \<or> eof then Some v else None)"

section \<open>Strings\<close>

definition utf8_encode :: "nat \<Rightarrow> string" where
  "utf8_encode r = map char_of
     (if r < 128 then [r]
      else if r < 2048 then [192 + r div 64, 128 + r mod 64]
      else if r < 65536 then [224 + r div 4096, 128 + r div 64 mod 64, 128 + r mod 64]
      else [240 + r div 262144, 128 + r div 4096 mod 64, 128 + r div 64 mod 64, 128 + r mod 64])"

definition replacement :: string where
  "replacement = map char_of [239 :: nat, 191, 189]"

definition unescape :: "char \<Rightarrow> char" where
  "unescape e = (if byte e = 98 then char_of (8 :: nat) else if byte e = 102 then char_of (12 :: nat)
     else if byte e = 110 then char_of (10 :: nat) else if byte e = 114 then char_of (13 :: nat)
     else if byte e = 116 then char_of (9 :: nat) else e)"

text \<open>\<open>utf16.DecodeRune\<close> of a surrogate and the escape that follows it, if it is one.\<close>

definition surrogate_pair :: "nat \<Rightarrow> string \<Rightarrow> nat option" where
  "surrogate_pair r1 s = (case s of
     b # u # h1 # h2 # h3 # h4 # _ \<Rightarrow>
       if byte b = 92 \<and> byte u = 117 then
         (case hex4 h1 h2 h3 h4 of
            None \<Rightarrow> None
          | Some r2 \<Rightarrow> if r1 < 56320 \<and> 56320 \<le> r2 \<and> r2 < 57344
              then Some (65536 + (r1 - 55296) * 1024 + (r2 - 56320)) else None)
       else None
   | _ \<Rightarrow> None)"

text \<open>A string literal's value, from its raw text: escapes decoded, bytes that are not UTF-8 replaced.\<close>

function unquote :: "string \<Rightarrow> string" where
  "unquote [] = []"
| "unquote (c # s) =
     (if byte c = 92 then
        (case s of
           [] \<Rightarrow> []
         | e # s' \<Rightarrow>
             if byte e = 117 then
               (case hex4 (hd s') (s' ! 1) (s' ! 2) (s' ! 3) of
                  None \<Rightarrow> []
                | Some r \<Rightarrow>
                    if 55296 \<le> r \<and> r < 57344 then
                      (case surrogate_pair r (drop 4 s') of
                         Some r' \<Rightarrow> utf8_encode r' @ unquote (drop 10 s')
                       | None \<Rightarrow> replacement @ unquote (drop 4 s'))
                    else utf8_encode r @ unquote (drop 4 s'))
             else if simple_escape e then unescape e # unquote s' else [])
      else if byte c < 128 then c # unquote s
      else let n = rune_size (map byte (c # s)) in
        if n = 0 then replacement @ unquote s else take n (c # s) @ unquote (drop (n - 1) s))"
  by pat_completeness auto
termination by (relation "measure length") auto

declare unquote.simps(2) [simp del]

text \<open>Valid UTF-8.\<close>

function utf8_ok :: "string \<Rightarrow> bool" where
  "utf8_ok [] = True"
| "utf8_ok (c # s) =
     (if byte c < 128 then utf8_ok s
      else let n = rune_size (map byte (c # s)) in n \<noteq> 0 \<and> utf8_ok (drop (n - 1) s))"
  by pat_completeness auto
termination by (relation "measure length") auto

declare utf8_ok.simps(2) [simp del]

section \<open>Times\<close>

definition is_leap :: "int \<Rightarrow> bool" where
  "is_leap y \<longleftrightarrow> y mod 4 = 0 \<and> (y mod 100 \<noteq> 0 \<or> y mod 400 = 0)"

definition days_in :: "int \<Rightarrow> int \<Rightarrow> int" where
  "days_in y m = (if m = 2 then (if is_leap y then 29 else 28) else if m \<in> {4, 6, 9, 11} then 30 else 31)"

text \<open>The day number of a civil date (day 0 is 1 January of year 1).\<close>

definition day_number :: "int \<Rightarrow> int \<Rightarrow> int \<Rightarrow> int" where
  "day_number y m d = (let y' = (if m \<le> 2 then y - 1 else y); mp = (if m > 2 then m - 3 else m + 9) in
     365 * y' + y' div 4 - y' div 100 + y' div 400 + (153 * mp + 2) div 5 + d - 307)"

definition digit_value :: "char \<Rightarrow> int" where
  "digit_value c = int (byte c) - 48"

definition dec_value :: "string \<Rightarrow> int" where
  "dec_value s = foldl (\<lambda>a c. 10 * a + digit_value c) 0 s"

text \<open>\<open>getnum\<close>: two digits, or one when \<open>fixed\<close> is false and no second follows.\<close>

fun getnum :: "bool \<Rightarrow> string \<Rightarrow> (int \<times> string) option" where
  "getnum fixed [] = None"
| "getnum fixed (a # s) =
     (if \<not> is_digit a then None
      else case s of
        b # r \<Rightarrow> if is_digit b then Some (dec_value [a, b], r) else if fixed then None else Some (digit_value a, s)
      | [] \<Rightarrow> if fixed then None else Some (digit_value a, s))"

definition skip_char :: "char \<Rightarrow> string \<Rightarrow> string option" where
  "skip_char c s = (case s of x # r \<Rightarrow> if x = c then Some r else None | [] \<Rightarrow> None)"

text \<open>A fraction of a second after the seconds: at most nine digits count.\<close>

definition parse_fraction :: "string \<Rightarrow> int \<times> string" where
  "parse_fraction s = (case s of
     p # d # r \<Rightarrow>
       if (p = CHR ''.'' \<or> p = CHR '','') \<and> is_digit d then
         (let ds = takeWhile is_digit (d # r); n = take 9 ds
          in (dec_value n * 10 ^ (9 - length n), dropWhile is_digit (d # r)))
       else (0, s)
   | _ \<Rightarrow> (0, s))"

text \<open>The zone: \<open>Z\<close> or a signed offset, in seconds.\<close>

definition parse_zone :: "string \<Rightarrow> (int \<times> string) option" where
  "parse_zone s = (case s of
     [] \<Rightarrow> None
   | z # r \<Rightarrow>
       if z = CHR ''Z'' then Some (0, r)
       else if length s < 6 \<or> s ! 3 \<noteq> CHR '':'' then None
       else case (getnum True (take 2 r), getnum True (take 2 (drop 3 r))) of
         (Some (hr, _), Some (mm, _)) \<Rightarrow>
           if hr > 24 \<or> mm > 60 then None
           else if z = CHR ''+'' then Some ((hr * 60 + mm) * 60, drop 5 r)
           else if z = CHR ''-'' then Some (- ((hr * 60 + mm) * 60), drop 5 r)
           else None
       | _ \<Rightarrow> None)"

definition parse_year :: "string \<Rightarrow> (int \<times> string) option" where
  "parse_year s = (if length s < 4 \<or> \<not> list_all is_digit (take 4 s) then None else Some (dec_value (take 4 s), drop 4 s))"

text \<open>\<open>time.Parse(time.RFC3339, s)\<close>, as an instant.\<close>

definition parse_rfc3339 :: "string \<Rightarrow> Time option" where
  "parse_rfc3339 s =
     Option.bind (parse_year s) (\<lambda>(y, s). Option.bind (skip_char CHR ''-'' s) (\<lambda>s.
     Option.bind (getnum True s) (\<lambda>(m, s). if m < 1 \<or> 12 < m then None else Option.bind (skip_char CHR ''-'' s) (\<lambda>s.
     Option.bind (getnum True s) (\<lambda>(d, s). Option.bind (skip_char CHR ''T'' s) (\<lambda>s.
     Option.bind (getnum False s) (\<lambda>(h, s). if 24 \<le> h then None else Option.bind (skip_char CHR '':'' s) (\<lambda>s.
     Option.bind (getnum True s) (\<lambda>(mi, s). if 60 \<le> mi then None else Option.bind (skip_char CHR '':'' s) (\<lambda>s.
     Option.bind (getnum True s) (\<lambda>(sec, s). if 60 \<le> sec then None else
     (case parse_fraction s of (ns, s) \<Rightarrow>
     Option.bind (parse_zone s) (\<lambda>(zone, s).
       if s \<noteq> [] \<or> d < 1 \<or> days_in y m < d then None
       else Some ((day_number y m d * 86400 + h * 3600 + mi * 60 + sec - zone) * second + ns))))))))))))))"

section \<open>Decoders\<close>

type_synonym 'a decoder = "jvalue \<Rightarrow> 'a \<Rightarrow> 'a option"

definition dec_string :: "string decoder" where
  "dec_string v x = (case v of VNull \<Rightarrow> Some x | VString raw \<Rightarrow> Some (unquote raw) | _ \<Rightarrow> None)"

text \<open>\<open>strconv.ParseInt(s, 10, 64)\<close> on a number literal.\<close>

definition parse_int :: "string \<Rightarrow> int option" where
  "parse_int s = (case s of [] \<Rightarrow> None
     | c # r \<Rightarrow> if byte c = 45 then (if digits r then Some (- dec_value r) else None)
         else if digits s then Some (dec_value s) else None)"

definition dec_int64 :: "int decoder" where
  "dec_int64 v x = (case v of
     VNull \<Rightarrow> Some x
   | VNumber n \<Rightarrow> (case parse_int n of Some i \<Rightarrow> if fits64 i then Some i else None | None \<Rightarrow> None)
   | _ \<Rightarrow> None)"

definition dec_time :: "Time decoder" where
  "dec_time v x = (case v of VNull \<Rightarrow> Some x | VString raw \<Rightarrow> parse_rfc3339 raw | _ \<Rightarrow> None)"

fun dec_entries :: "(string \<times> jvalue) list \<Rightarrow> StringMap \<Rightarrow> StringMap option" where
  "dec_entries [] m = Some m"
| "dec_entries ((k, v) # kvs) m =
     (case dec_string v [] of None \<Rightarrow> None | Some x \<Rightarrow> dec_entries kvs (AList.update (unquote k) x m))"

definition dec_string_map :: "StringMap option decoder" where
  "dec_string_map v m = (case v of
     VNull \<Rightarrow> Some None
   | VObject kvs \<Rightarrow> map_option Some (dec_entries kvs (case m of None \<Rightarrow> [] | Some l \<Rightarrow> l))
   | _ \<Rightarrow> None)"

text \<open>
  A slice is decoded over the one before, element by element.  (The stale elements of a slice that an
  equal key shortened, which a third equal key could see, count as zero.)
\<close>

fun dec_elems :: "'a decoder \<Rightarrow> 'a \<Rightarrow> jvalue list \<Rightarrow> 'a list \<Rightarrow> 'a list option" where
  "dec_elems dec zero [] xs = Some []"
| "dec_elems dec zero (v # vs) xs =
     (case dec v (case xs of [] \<Rightarrow> zero | x # _ \<Rightarrow> x) of
        None \<Rightarrow> None | Some y \<Rightarrow> map_option ((#) y) (dec_elems dec zero vs (tl xs)))"

definition dec_list :: "'a decoder \<Rightarrow> 'a \<Rightarrow> 'a list decoder" where
  "dec_list dec zero v xs = (case v of VNull \<Rightarrow> Some [] | VArray vs \<Rightarrow> dec_elems dec zero vs xs | _ \<Rightarrow> None)"

text \<open>A struct: the field with the key's name, else the first that folds to it; \<open>strict\<close> refuses other keys.\<close>

definition field :: "('s \<Rightarrow> 'a) \<Rightarrow> ('a \<Rightarrow> 's \<Rightarrow> 's) \<Rightarrow> 'a decoder \<Rightarrow> 's decoder" where
  "field get put dec v x = map_option (\<lambda>y. put y x) (dec v (get x))"

definition find_field :: "(string \<times> 's decoder) list \<Rightarrow> string \<Rightarrow> 's decoder option" where
  "find_field fields k = (case map_of fields k of
     Some d \<Rightarrow> Some d | None \<Rightarrow> map_option snd (find (\<lambda>(n, _). EqualFold k n) fields))"

fun dec_fields :: "bool \<Rightarrow> (string \<times> 's decoder) list \<Rightarrow> (string \<times> jvalue) list \<Rightarrow> 's \<Rightarrow> 's option" where
  "dec_fields strict fields [] x = Some x"
| "dec_fields strict fields ((k, v) # kvs) x =
     (case find_field fields (unquote k) of
        None \<Rightarrow> if strict then None else dec_fields strict fields kvs x
      | Some d \<Rightarrow> (case d v x of None \<Rightarrow> None | Some y \<Rightarrow> dec_fields strict fields kvs y))"

definition dec_struct :: "bool \<Rightarrow> (string \<times> 's decoder) list \<Rightarrow> 's decoder" where
  "dec_struct strict fields v x =
     (case v of VNull \<Rightarrow> Some x | VObject kvs \<Rightarrow> dec_fields strict fields kvs x | _ \<Rightarrow> None)"

text \<open>\<open>json.Unmarshal\<close>, and \<open>Decode\<close> on a stream; on a \<open>http.MaxBytesReader\<close> the stream breaks after \<open>limit\<close> bytes.\<close>

definition Unmarshal :: "'a decoder \<Rightarrow> 'a \<Rightarrow> string \<Rightarrow> 'a option" where
  "Unmarshal dec zero s = Option.bind (parse_all s) (\<lambda>v. dec v zero)"

definition Decode :: "'a decoder \<Rightarrow> 'a \<Rightarrow> bool \<Rightarrow> string \<Rightarrow> 'a option" where
  "Decode dec zero eof s = Option.bind (parse_stream eof s) (\<lambda>v. dec v zero)"

definition DecodeMax :: "'a decoder \<Rightarrow> 'a \<Rightarrow> nat \<Rightarrow> string \<Rightarrow> 'a option" where
  "DecodeMax dec zero limit body = Decode dec zero (length body \<le> limit) (take limit body)"

section \<open>Marshalled strings\<close>

lemma map_option_id: "map_option (\<lambda>(a, b). (a, b)) x = x"
  by (cases x) auto

lemma scan_high:
  "list_all (\<lambda>c. 128 \<le> byte c) u \<Longrightarrow> scan_string (u @ t) = map_option (\<lambda>(raw, r). (u @ raw, r)) (scan_string t)"
  by (induction u) (simp_all add: option.map_ident option.map_comp comp_def split_def)

lemma hex4_byte: "b < 256 \<Longrightarrow> hex4 CHR ''0'' CHR ''0'' (hex_digit (b div 16)) (hex_digit (b mod 16)) = Some b"
proof -
  assume "b < 256"
  then have "b div 16 < 16" by (simp add: less_mult_imp_div_less)
  moreover have "unhex CHR ''0'' = Some 0" by (simp add: unhex_def)
  ultimately show ?thesis by (simp add: hex4_def unhex_hex_digit)
qed

lemma byte_char: "n < 256 \<Longrightarrow> byte (char_of n) = n"
  by (simp add: of_char_of take_bit_eq_mod)

lemma byte_eq_iff: "byte c = n \<Longrightarrow> c = char_of n"
  by (metis char_of_char)

lemma bs: "byte CHR 0x5C = 92" "byte CHR ''u'' = 117" "\<not> simple_escape CHR ''u''"
  by (simp_all add: simple_escape_def)

lemma json_escape_cases:
  fixes c :: char
  assumes "byte c < 128"
  obtains (plain) "json_escape c = [c]" "32 \<le> byte c" "byte c \<noteq> 34" "byte c \<noteq> 92"
    | (simple) e where "json_escape c = [CHR 0x5C, e]" "simple_escape e" "unescape e = c" "byte e \<noteq> 117"
    | (hex) "json_escape c = CHR 0x5C # ''u00'' @ hex_byte (byte c)"
proof (cases "byte c \<in> {34, 92, 8, 12, 10, 13, 9}")
  case True
  then have "\<exists>e. json_escape c = [CHR 0x5C, e] \<and> simple_escape e \<and> unescape e = c \<and> byte e \<noteq> 117"
    by (auto simp: json_escape_def simple_escape_def unescape_def Let_def dest!: byte_eq_iff)
  then show ?thesis using simple by blast
next
  case False
  then show ?thesis using plain hex by (cases "byte c < 32 \<or> byte c \<in> {60, 62, 38}") (auto simp: json_escape_def Let_def)
qed

lemma scan_escape:
  assumes "byte c < 128"
  shows "scan_string (json_escape c @ t) = map_option (\<lambda>(raw, r). (json_escape c @ raw, r)) (scan_string t)"
  using assms
proof (cases c rule: json_escape_cases)
  case plain
  then show ?thesis by simp
next
  case (simple e)
  then show ?thesis by simp
next
  case hex
  then show ?thesis using bs hex4_byte [of "byte c"] assms by (simp add: hex_byte_def)
qed

lemma unquote_escape:
  assumes "byte c < 128"
  shows "unquote (json_escape c @ t) = c # unquote t"
  using assms
proof (cases c rule: json_escape_cases)
  case plain
  then show ?thesis using assms by (simp add: unquote.simps)
next
  case (simple e)
  then show ?thesis by (simp add: unquote.simps)
next
  case hex
  then show ?thesis using bs hex4_byte [of "byte c"] assms by (simp add: hex_byte_def unquote.simps utf8_encode_def)
qed

lemma unquote_rune:
  assumes "\<not> byte c < 128" and "rune_size (map byte (c # s)) \<noteq> 0"
  shows "unquote (take (rune_size (map byte (c # s))) (c # s) @ t) = take (rune_size (map byte (c # s))) (c # s) @ unquote t"
proof -
  let ?n = "rune_size (map byte (c # s))"
  obtain m where n: "?n = Suc m" using assms(2) by (cases ?n) auto
  have len: "m \<le> length s" using rune_size_le [of "map byte (c # s)"] n by simp
  have "rune_size (map byte (take ?n (c # s) @ t)) = ?n"
    using rune_size_prefix [OF assms(2), of "map byte t"] by (simp only: take_map map_append)
  then have "rune_size (map byte (c # take m s @ t)) = Suc m" unfolding n by simp
  moreover have "byte c \<noteq> 92" using assms(1) by auto
  ultimately show ?thesis unfolding n using assms(1) len by (simp add: unquote.simps)
qed

definition piece :: "string \<Rightarrow> string \<Rightarrow> bool" where
  "piece p x \<longleftrightarrow> (\<forall>t. scan_string (p @ t) = map_option (\<lambda>(raw, r). (p @ raw, r)) (scan_string t)) \<and> (\<forall>t. unquote (p @ t) = x @ unquote t)"

lemma piece_u:
  assumes "hex4 a b x d = Some r" and "\<not> (55296 \<le> r \<and> r < 57344)"
  shows "piece [CHR 0x5C, CHR ''u'', a, b, x, d] (utf8_encode r)"
  using assms bs by (auto simp: piece_def unquote.simps)

lemma json_chars_step:
  obtains p x s' where "json_chars (c # s) = p @ json_chars s'" and "piece p x" and "length s' \<le> length s"
    and "utf8_ok (c # s) \<Longrightarrow> x @ s' = c # s \<and> utf8_ok s'"
proof -
  let ?n = "rune_size (map byte (c # s))"
  have sep: "?n = 3" if "take 3 (map byte (c # s)) = [226, 128, k]" "128 \<le> k" "k < 192" for k
    using that by (cases s; cases "tl s") (auto simp: cont_byte_def two_bytes_def three_bytes_def)
  have chars: "c # s = utf8_encode r @ drop 2 s" if "take 3 (map byte (c # s)) = [226, 128, k]" "r = 8064 + k" "k = 168 \<or> k = 169" for r k
    using that by (cases s; cases "tl s") (auto simp: utf8_encode_def byte_eq_iff)
  consider "byte c < 128" | "\<not> byte c < 128" "?n = 0"
    | k where "\<not> byte c < 128" "?n \<noteq> 0" "take 3 (map byte (c # s)) = [226, 128, k]" "k = 168 \<or> k = 169"
    | "\<not> byte c < 128" "?n \<noteq> 0" "take 3 (map byte (c # s)) \<noteq> [226, 128, 168]" "take 3 (map byte (c # s)) \<noteq> [226, 128, 169]" by blast
  then show thesis
  proof cases
    case 1
    then have "json_chars (c # s) = json_escape c @ json_chars s" by simp
    moreover have "piece (json_escape c) [c]" using 1 by (simp add: piece_def scan_escape unquote_escape)
    ultimately show thesis using that 1 by (auto simp: utf8_ok.simps(2))
  next
    case 2
    then have "json_chars (c # s) = (CHR 0x5C # ''ufffd'') @ json_chars s" by simp
    moreover have "hex4 CHR ''f'' CHR ''f'' CHR ''f'' CHR ''d'' = Some 65533" by (simp add: hex4_def unhex_def)
    ultimately show thesis using that [OF _ piece_u] 2 by (simp add: utf8_ok.simps(2))
  next
    case (3 k)
    then have "json_chars (c # s) = (CHR 0x5C # (if k = 168 then ''u2028'' else ''u2029'')) @ json_chars (drop 2 s)" by auto
    moreover have "hex4 CHR ''2'' CHR ''0'' CHR ''2'' CHR ''8'' = Some 8232" "hex4 CHR ''2'' CHR ''0'' CHR ''2'' CHR ''9'' = Some 8233"
      by (simp_all add: hex4_def unhex_def)
    then have "piece (CHR 0x5C # (if k = 168 then ''u2028'' else ''u2029'')) (utf8_encode (8064 + k))" using piece_u 3(4) by auto
    moreover have "utf8_encode (8064 + k) @ drop 2 s = c # s" using chars [OF 3(3) refl 3(4)] by simp
    moreover have "utf8_ok (c # s) \<Longrightarrow> utf8_ok (drop 2 s)" using 3 sep [OF 3(3)] by (auto simp: utf8_ok.simps(2))
    moreover have "length (drop 2 s) \<le> length s" by simp
    ultimately show thesis using that by blast
  next
    case 4
    let ?p = "take ?n (c # s)"
    have "json_chars (c # s) = ?p @ json_chars (drop (?n - 1) s)" using 4 by (simp only: json_chars.simps Let_def if_False)
    moreover have "list_all (\<lambda>c. 128 \<le> byte c) ?p"
      using rune_bytes [of "map byte (c # s)"] by (simp only: take_map list.pred_map comp_def)
    then have "piece ?p ?p" unfolding piece_def using scan_high unquote_rune [OF 4(1,2)] by blast
    moreover have "?p @ drop (?n - 1) s = c # s" using 4(2) by (cases ?n) auto
    moreover have "utf8_ok (c # s) \<Longrightarrow> utf8_ok (drop (?n - 1) s)" using 4 by (simp add: utf8_ok.simps(2) Let_def)
    ultimately show thesis using that by simp
  qed
qed

lemma json_chars_piece: "\<exists>x. piece (json_chars s) x \<and> (utf8_ok s \<longrightarrow> x = s)"
proof (induction s rule: length_induct)
  case (1 s)
  show ?case
  proof (cases s)
    case Nil
    then show ?thesis by (auto simp: piece_def option.map_id id_def [symmetric])
  next
    case (Cons c u)
    obtain p x s' where st: "json_chars (c # u) = p @ json_chars s'" "piece p x" "length s' \<le> length u"
      "utf8_ok (c # u) \<Longrightarrow> x @ s' = c # u \<and> utf8_ok s'" by (rule json_chars_step [of c u]) blast
    have "length s' < length s" using st(3) Cons by simp
    then obtain y where y: "piece (json_chars s') y" "utf8_ok s' \<longrightarrow> y = s'" using 1 by blast
    have "piece p x \<Longrightarrow> piece q y \<Longrightarrow> piece (p @ q) (x @ y)" for q by (auto simp: piece_def option.map_comp comp_def split_def)
    then have "piece (json_chars s) (x @ y)" unfolding Cons st(1) using st(2) y(1) by blast
    then show ?thesis using st(4) y(2) Cons by auto
  qed
qed

lemma scan_json_chars: "scan_string (json_chars s @ t) = map_option (\<lambda>(raw, r). (json_chars s @ raw, r)) (scan_string t)"
  using json_chars_piece by (auto simp: piece_def)

lemma unquote_json_chars: "utf8_ok s \<Longrightarrow> unquote (json_chars s) = s"
proof -
  assume "utf8_ok s"
  then have "piece (json_chars s) s" using json_chars_piece by blast
  then have "unquote (json_chars s @ []) = s @ unquote []" unfolding piece_def by blast
  then show ?thesis by simp
qed


section \<open>Objects of strings\<close>

lemma next_token_string: "next_token (json_string s @ t) = Some (TString (json_chars s), t)"
proof -
  have "dropWhile json_space (json_string s @ t) = json_string s @ t" by (simp add: json_string_def json_space_def)
  then show ?thesis by (simp add: next_token_def json_string_def scan_json_chars)
qed

lemma next_token_char:
  "next_token (CHR '':'' # t) = Some (TColon, t)" "next_token (CHR '','' # t) = Some (TComma, t)"
  "next_token (CHR ''{'' # t) = Some (TBeginObject, t)" "next_token (CHR ''}'' # t) = Some (TEndObject, t)"
  by (simp_all add: next_token_def json_space_def)

definition pair_text :: "string \<times> string \<Rightarrow> string" where
  "pair_text = (\<lambda>(k, v). json_string k @ '':'' @ json_string v)"

definition pair_value :: "string \<times> string \<Rightarrow> string \<times> jvalue" where
  "pair_value = (\<lambda>(k, v). (json_chars k, VString (json_chars v)))"

lemma scan_pair:
  assumes "ex = ExpectKey \<or> ex = ExpectKeyOrEnd"
  shows "scan (FObject kvs k # st) ex (pair_text kv @ t) = scan (FObject (kvs @ [pair_value kv]) [] # st) ExpectComma t"
proof -
  obtain a b where kv: "kv = (a, b)" by (cases kv)
  have "scan (FObject kvs k # st) ex (json_string a @ CHR '':'' # json_string b @ t) =
    scan (FObject kvs (json_chars a) # st) ExpectColon (CHR '':'' # json_string b @ t)"
    using assms by (subst scan_token [OF next_token_string]) (auto simp: resume_def)
  also have "\<dots> = scan (FObject kvs (json_chars a) # st) ExpectValue (json_string b @ t)"
    by (subst scan_token [OF next_token_char(1)]) (simp add: resume_def)
  also have "\<dots> = scan (FObject (kvs @ [(json_chars a, VString (json_chars b))]) [] # st) ExpectComma t"
    by (subst scan_token [OF next_token_string]) (simp add: resume_def)
  finally show ?thesis by (simp add: kv pair_text_def pair_value_def)
qed

lemma scan_pairs:
  "scan (FObject kvs k # st) ExpectComma (concat (map (\<lambda>y. CHR '','' # y) (map pair_text ps)) @ ''}'' @ t) =
   resume (deliver (VObject (kvs @ map pair_value ps)) st) t"
proof (induction ps arbitrary: kvs k)
  case Nil
  show ?case using scan_token [OF next_token_char(4)] by simp
next
  case (Cons p ps)
  show ?case using Cons scan_pair [of ExpectKey]
    by (simp add: scan_token [OF next_token_char(2)] resume_def [of "Next _ _"])
qed

lemma parse_braces:
  "scan [] ExpectValue (json_braces (map (\<lambda>(k, v). (k, json_string v)) ps)) = Some (VObject (map pair_value ps), [])"
proof -
  have braces: "json_braces (map (\<lambda>(k, v). (k, json_string v)) ps) = CHR ''{'' # json_sep (map pair_text ps) @ ''}'' @ []"
    by (simp add: json_braces_def pair_text_def split_def comp_def)
  have "scan [FObject [] []] ExpectKeyOrEnd (json_sep (map pair_text ps) @ ''}'' @ []) = Some (VObject (map pair_value ps), [])"
  proof (cases ps)
    case Nil
    then show ?thesis by (simp add: json_sep_def scan_token [OF next_token_char(4)] resume_def)
  next
    case (Cons p qs)
    have "scan [FObject [] []] ExpectKeyOrEnd (pair_text p @ concat (map (\<lambda>y. CHR '','' # y) (map pair_text qs)) @ ''}'' @ []) =
      resume (deliver (VObject ([pair_value p] @ map pair_value qs)) []) []"
      unfolding scan_pair [OF disjI2 [OF refl]] by (subst scan_pairs) simp
    then show ?thesis using Cons by (simp add: json_sep_def resume_def)
  qed
  then show ?thesis unfolding braces
    by (subst scan_token [OF next_token_char(3)]) (simp add: push_def maxNestingDepth_def resume_def)
qed

definition utf8_pairs :: "StringMap \<Rightarrow> bool" where
  "utf8_pairs ps \<longleftrightarrow> list_all (\<lambda>(k, v). utf8_ok k \<and> utf8_ok v) ps"

lemma dec_entries_pairs:
  "utf8_pairs ps \<Longrightarrow> dec_entries (map pair_value ps) m = Some (fold (\<lambda>(k, v). AList.update k v) ps m)"
  by (induction ps arbitrary: m) (auto simp: utf8_pairs_def pair_value_def dec_string_def unquote_json_chars)

lemma map_of_updates: "map_of (fold (\<lambda>(k, v). AList.update k v) ps m) = fold (\<lambda>(k, v) f. f(k \<mapsto> v)) ps (map_of m)"
  by (induction ps arbitrary: m) (auto simp: update_conv')

lemma fold_updates: "distinct (map fst ps) \<Longrightarrow> fold (\<lambda>(k, v) f. f(k \<mapsto> v)) ps f = f ++ map_of ps"
proof (induction ps arbitrary: f)
  case (Cons p ps)
  obtain a b where p: "p = (a, b)" by (cases p)
  have "a \<notin> dom (map_of ps)" using Cons.prems p by (simp add: dom_map_of_conv_image_fst)
  have "fold (\<lambda>(k, v) f. f(k \<mapsto> v)) (p # ps) f = f(a \<mapsto> b) ++ map_of ps"
    using Cons by (simp only: p fold_Cons comp_apply prod.case distinct.simps list.map)
  also have "\<dots> = (f ++ map_of ps)(a \<mapsto> b)" using \<open>a \<notin> dom (map_of ps)\<close> by (rule map_add_upd_left)
  finally show ?case by (simp only: p map_of.simps fst_conv snd_conv map_add_upd)
qed simp

text \<open>A map of strings that are valid UTF-8 survives \<open>Marshal\<close> and \<open>Unmarshal\<close>.\<close>

lemma string_map_roundtrip:
  assumes "utf8_pairs ps" and "distinct (map fst ps)"
  shows "\<exists>s ps'. Marshal (json_string_map (Some ps)) = Some s \<and> Unmarshal dec_string_map None s = Some (Some ps') \<and> map_of ps' = map_of ps"
proof -
  let ?qs = "sort_key fst ps"
  have those: "those_snd (map (\<lambda>(k, v). (k, Some (json_string v))) qs) = Some (map (\<lambda>(k, v). (k, json_string v)) qs)" for qs :: StringMap
    by (induction qs) auto
  have "(\<lambda>(k, v). (k, Marshal v)) \<circ> (\<lambda>(k, v). (k, JString v)) = (\<lambda>(k :: string, v). (k, Some (json_string v)))" by (simp add: fun_eq_iff)
  moreover have "sort_key fst (map (\<lambda>(k, v). (k, Some (json_string v))) ps) = map (\<lambda>(k, v). (k, Some (json_string v))) ?qs"
    using map_sort [of "\<lambda>(k, v). (k, Some (json_string v))" fst ps] by (simp add: split_def)
  ultimately have m: "Marshal (json_string_map (Some ps)) = Some (json_braces (map (\<lambda>(k, v). (k, json_string v)) ?qs))"
    by (simp add: json_string_map_def those)
  have "utf8_pairs ?qs" using assms(1) by (simp add: utf8_pairs_def list_all_iff)
  then have "Unmarshal dec_string_map None (json_braces (map (\<lambda>(k, v). (k, json_string v)) ?qs)) = Some (Some (fold (\<lambda>(k, v). AList.update k v) ?qs []))"
    by (simp add: Unmarshal_def parse_all_def parse_braces dec_string_map_def dec_entries_pairs)
  moreover have "distinct (map fst ?qs)" using assms(2) by (simp add: distinct_map inj_on_def)
  then have "map_of (fold (\<lambda>(k, v). AList.update k v) ?qs []) = map_of ?qs" by (simp add: map_of_updates fold_updates)
  moreover have "map_of ?qs = map_of ps"
    using assms(2) \<open>distinct (map fst ?qs)\<close> by (intro map_of_eqI) (auto simp: map_of_inject_set)
  ultimately show ?thesis using m by auto
qed

section \<open>Decoded strings are valid UTF-8\<close>

lemma rune_size_append: "rune_size bs \<noteq> 0 \<Longrightarrow> rune_size (bs @ t) = rune_size bs"
  by (cases bs rule: rune_size.cases) (auto split: list.splits if_splits)

lemma utf8_ok_rune:
  assumes "\<not> byte c < 128" and "rune_size (map byte (c # s)) = Suc (length s)"
  shows "utf8_ok ((c # s) @ t) = utf8_ok t"
proof -
  have "rune_size (map byte (c # s) @ map byte t) = Suc (length s)" using rune_size_append [of "map byte (c # s)" "map byte t"] assms(2) by simp
  then show ?thesis using assms(1) by (simp add: utf8_ok.simps(2))
qed

lemma sixbits: fixes r :: nat shows "r div 4096 = r div 64 div 64" "r div 262144 = r div 64 div 64 div 64"
  by (simp_all add: div_mult2_eq [symmetric])

lemma three_digits:
  fixes r :: nat
  assumes "2048 \<le> r" "r < 65536" "\<not> (55296 \<le> r \<and> r < 57344)"
  shows "three_bytes (224 + r div 4096) (128 + r div 64 mod 64) (128 + r mod 64)"
proof -
  define q where "q = r div 64"
  have q: "32 \<le> q" "q < 1024" "\<not> (864 \<le> q \<and> q < 896)" using assms unfolding q_def by auto
  have d: "q = q div 64 * 64 + q mod 64" "q mod 64 < 64" "r mod 64 < 64" by simp_all
  have "q div 64 \<le> 15" using q by auto
  moreover have "q div 64 = 0 \<longrightarrow> 32 \<le> q mod 64" using d q by linarith
  moreover have "q div 64 = 13 \<longrightarrow> q mod 64 \<le> 31" using d q by linarith
  ultimately show ?thesis using d unfolding sixbits q_def [symmetric] three_bytes_def cont_byte_def by linarith
qed

lemma four_digits:
  fixes r :: nat
  assumes "65536 \<le> r" "r < 1114112"
  shows "four_bytes (240 + r div 262144) (128 + r div 4096 mod 64) (128 + r div 64 mod 64) (128 + r mod 64)"
proof -
  define q where "q = r div 64 div 64"
  have q: "16 \<le> q" "q < 272" using assms unfolding q_def by auto
  have d: "q = q div 64 * 64 + q mod 64" "q mod 64 < 64" "r mod 64 < 64" "r div 64 mod 64 < 64" by simp_all
  have "q div 64 \<le> 4" using q by auto
  moreover have "q div 64 = 0 \<longrightarrow> 16 \<le> q mod 64" using d q by linarith
  moreover have "q div 64 = 4 \<longrightarrow> q mod 64 \<le> 15" using d q by linarith
  ultimately show ?thesis using d unfolding sixbits q_def [symmetric] four_bytes_def cont_byte_def by linarith
qed

lemma utf8_ok_bytes:
  assumes "rune_size bs = length bs" and "2 \<le> length bs" and "list_all (\<lambda>b. b < 256) bs"
  shows "utf8_ok (map char_of bs @ t) = utf8_ok t"
proof -
  obtain b cs where bs: "bs = b # cs" using assms(2) by (cases bs) auto
  have m: "map byte (map char_of bs) = bs" using assms(3) by (auto simp: list_all_iff byte_char intro: map_idI)
  have "128 \<le> b" using rune_bytes [of bs] assms(1,2) bs by simp
  then show ?thesis using utf8_ok_rune [of "char_of b" "map char_of cs" t] assms m bs by (simp add: byte_char)
qed

lemma utf8_ok_encode:
  assumes "r < 1114112" and "\<not> (55296 \<le> r \<and> r < 57344)"
  shows "utf8_ok (utf8_encode r @ t) = utf8_ok t"
proof -
  consider "r < 128" | "128 \<le> r" "r < 2048" | "2048 \<le> r" "r < 65536" | "65536 \<le> r" by linarith
  then show ?thesis
  proof cases
    case 1
    then show ?thesis by (simp add: utf8_encode_def utf8_ok.simps(2) byte_char)
  next
    case 2
    then have "two_bytes (192 + r div 64) (128 + r mod 64)" by (auto simp: two_bytes_def cont_byte_def)
    then show ?thesis using 2 utf8_ok_bytes [of "[192 + r div 64, 128 + r mod 64]" t]
      by (simp add: utf8_encode_def two_bytes_def cont_byte_def)
  next
    case 3
    then have t: "three_bytes (224 + r div 4096) (128 + r div 64 mod 64) (128 + r mod 64)" using three_digits assms(2) by blast
    then have "rune_size [224 + r div 4096, 128 + r div 64 mod 64, 128 + r mod 64] = 3" by (simp add: two_bytes_def)
    moreover have "list_all (\<lambda>b. b < 256) [224 + r div 4096, 128 + r div 64 mod 64, 128 + r mod 64]"
      using t by (simp add: three_bytes_def cont_byte_def)
    ultimately show ?thesis using 3 utf8_ok_bytes [of "[224 + r div 4096, 128 + r div 64 mod 64, 128 + r mod 64]" t]
      by (simp add: utf8_encode_def)
  next
    case 4
    then have t: "four_bytes (240 + r div 262144) (128 + r div 4096 mod 64) (128 + r div 64 mod 64) (128 + r mod 64)"
      using four_digits assms(1) by blast
    then have "rune_size [240 + r div 262144, 128 + r div 4096 mod 64, 128 + r div 64 mod 64, 128 + r mod 64] = 4"
      by (simp add: two_bytes_def three_bytes_def)
    moreover have "list_all (\<lambda>b. b < 256) [240 + r div 262144, 128 + r div 4096 mod 64, 128 + r div 64 mod 64, 128 + r mod 64]"
      using t by (simp add: four_bytes_def cont_byte_def)
    ultimately show ?thesis using 4 utf8_ok_bytes [of "[240 + r div 262144, 128 + r div 4096 mod 64, 128 + r div 64 mod 64, 128 + r mod 64]" t]
      by (simp add: utf8_encode_def)
  qed
qed

lemma replacement_rune: "replacement = utf8_encode 65533"
  by (simp add: replacement_def utf8_encode_def)

lemma unhex_less: "unhex c = Some n \<Longrightarrow> n < 16"
  by (auto simp: unhex_def Let_def split: if_splits)

lemma hex4_less: "hex4 a b c d = Some r \<Longrightarrow> r < 65536"
  by (auto simp: hex4_def dest!: unhex_less split: option.splits)

lemma utf8_ok_ascii: "byte c < 128 \<Longrightarrow> utf8_ok (c # s) = utf8_ok s"
  by (simp add: utf8_ok.simps(2))

lemma surrogate_pair_range: "surrogate_pair r s = Some r' \<Longrightarrow> 65536 \<le> r' \<and> r' < 1114112"
  by (auto simp: surrogate_pair_def split: list.splits if_splits option.splits)

lemma utf8_ok_take:
  assumes "\<not> byte c < 128" and "rune_size (map byte (c # s)) \<noteq> 0"
  shows "utf8_ok (take (rune_size (map byte (c # s))) (c # s) @ t) = utf8_ok t"
proof -
  let ?n = "rune_size (map byte (c # s))"
  obtain m where n: "?n = Suc m" using assms(2) by (cases ?n) auto
  have "m \<le> length s" using rune_size_le [of "map byte (c # s)"] n by simp
  moreover have "rune_size (map byte (take ?n (c # s))) = ?n"
    using rune_size_prefix [OF assms(2), of "[]"] by (simp only: take_map append_Nil2)
  ultimately show ?thesis using utf8_ok_rune [of c "take m s" t] assms(1) unfolding n by simp
qed

lemma unescape_ascii: "simple_escape e \<Longrightarrow> byte (unescape e) < 128"
  by (auto simp: simple_escape_def unescape_def byte_char)

lemma unquote_utf8: "utf8_ok (unquote s)"
proof (induction s rule: unquote.induct)
  case 1
  show ?case by simp
next
  case (2 c s)
  have rep: "utf8_ok (replacement @ t) = utf8_ok t" for t by (simp add: replacement_rune utf8_ok_encode)
  show ?case
  proof (cases "byte c = 92")
    case True
    show ?thesis
    proof (cases s)
      case Nil
      then show ?thesis using True by (simp add: unquote.simps(2))
    next
      case (Cons e s')
      note IH = 2(1-4) [OF True Cons]
      let ?h = "hex4 (hd s') (s' ! 1) (s' ! 2) (s' ! 3)"
      have enc: "utf8_ok (utf8_encode r @ t) = utf8_ok t" if "?h = Some r" "\<not> (55296 \<le> r \<and> r < 57344)" for r t
        using hex4_less [OF that(1)] that(2) by (simp add: utf8_ok_encode)
      have pair: "utf8_ok (utf8_encode r' @ t) = utf8_ok t" if "surrogate_pair r u = Some r'" for r u r' t
        using surrogate_pair_range [OF that] by (simp add: utf8_ok_encode)
      show ?thesis
        using True Cons IH by (auto simp: unquote.simps(2) rep enc pair utf8_ok_ascii unescape_ascii split: option.split)
    qed
  next
    case False
    show ?thesis
      using 2(5,6,7) False utf8_ok_take [of c s] by (simp add: unquote.simps(2) Let_def rep utf8_ok_ascii)
  qed
qed

lemma utf8_pairs_update:
  "utf8_pairs m \<Longrightarrow> utf8_ok k \<Longrightarrow> utf8_ok v \<Longrightarrow> utf8_pairs (AList.update k v m)"
  by (induction m) (auto simp: utf8_pairs_def)

lemma dec_entries_ok:
  "dec_entries kvs m = Some m' \<Longrightarrow> utf8_pairs m \<Longrightarrow> distinct (map fst m) \<Longrightarrow> utf8_pairs m' \<and> distinct (map fst m')"
proof (induction kvs m rule: dec_entries.induct)
  case (2 k v kvs m)
  from 2(2) obtain x where x: "dec_string v [] = Some x" "dec_entries kvs (AList.update (unquote k) x m) = Some m'"
    by (auto split: option.splits)
  have "utf8_ok x" using x(1) unquote_utf8 by (auto simp: dec_string_def split: jvalue.splits)
  then show ?case using 2(1) [OF x] 2(3,4) by (simp add: utf8_pairs_update unquote_utf8 distinct_update)
qed simp

lemma dec_string_map_ok:
  assumes "dec_string_map v m = Some (Some ps)" and "case m of None \<Rightarrow> True | Some l \<Rightarrow> utf8_pairs l \<and> distinct (map fst l)"
  shows "utf8_pairs ps \<and> distinct (map fst ps)"
  using assms by (cases v) (auto simp: dec_string_map_def utf8_pairs_def [of "[]"] split: option.splits dest!: dec_entries_ok)

end
