(* ===== verification/Aes.thy ===== *)
theory Aes
  imports Json "HOL-Library.Word"
begin

text \<open>
  AES-256 (\<open>crypto/aes\<close>) and Galois counter mode (\<open>crypto/cipher\<close>), as FIPS 197 and SP 800-38D define them,
  with a nonce of 12 bytes, a tag of 16 bytes and no additional data.

  A byte of the Go code is a \<open>nat\<close> below 256; inside the cipher it is an \<open>8 word\<close>.  A block is a list of
  16 bytes, column by column.
\<close>

unbundle bit_operations_syntax

section \<open>The field of 256 elements\<close>

definition xtime :: "8 word \<Rightarrow> 8 word" where
  "xtime a = (if bit a 7 then push_bit 1 a XOR 0x1B else push_bit 1 a)"

fun gf_mul :: "nat \<Rightarrow> 8 word \<Rightarrow> 8 word \<Rightarrow> 8 word" where
  "gf_mul 0 a b = 0"
| "gf_mul (Suc n) a b = (if bit b 0 then a else 0) XOR gf_mul n (xtime a) (drop_bit 1 b)"

definition gf_square :: "8 word \<Rightarrow> 8 word" where
  "gf_square a = gf_mul 8 a a"

text \<open>The inverse is the power 254: 2 + 4 + 8 + 16 + 32 + 64 + 128.\<close>

fun gf_powers :: "nat \<Rightarrow> 8 word \<Rightarrow> 8 word \<Rightarrow> 8 word" where
  "gf_powers 0 a r = r"
| "gf_powers (Suc n) a r = (let s = gf_square a in gf_powers n s (gf_mul 8 r s))"

definition gf_inverse :: "8 word \<Rightarrow> 8 word" where
  "gf_inverse a = gf_powers 7 a 1"

definition sbox :: "8 word \<Rightarrow> 8 word" where
  "sbox a = (let b = gf_inverse a in
     b XOR word_rotl 1 b XOR word_rotl 2 b XOR word_rotl 3 b XOR word_rotl 4 b XOR 0x63)"

section \<open>The key schedule\<close>

definition xor_words :: "8 word list \<Rightarrow> 8 word list \<Rightarrow> 8 word list" where
  "xor_words xs ys = map2 (XOR) xs ys"

fun rcon :: "nat \<Rightarrow> 8 word" where
  "rcon 0 = 1"
| "rcon (Suc n) = xtime (rcon n)"

text \<open>The words of the schedule, newest first; \<open>i\<close> is the number of the next one.\<close>

definition next_word :: "nat \<Rightarrow> 8 word list list \<Rightarrow> 8 word list" where
  "next_word i ws = (let temp = hd ws; old = ws ! 7 in
     xor_words old
       (if i mod 8 = 0 then xor_words (map sbox (rotate1 temp)) [rcon (i div 8 - 1), 0, 0, 0]
        else if i mod 8 = 4 then map sbox temp else temp))"

fun expand :: "nat \<Rightarrow> nat \<Rightarrow> 8 word list list \<Rightarrow> 8 word list list" where
  "expand 0 i ws = ws"
| "expand (Suc n) i ws = expand n (Suc i) (next_word i ws # ws)"

fun chunks :: "nat \<Rightarrow> 'a list \<Rightarrow> 'a list list" where
  "chunks n [] = []"
| "chunks n (x # xs) = (if n = 0 then [x # xs] else (x # take (n - 1) xs) # chunks n (drop (n - 1) xs))"

definition round_keys :: "8 word list \<Rightarrow> 8 word list list" where
  "round_keys key = chunks 16 (concat (rev (expand 52 8 (rev (chunks 4 key)))))"

section \<open>The cipher\<close>

definition shift_rows :: "8 word list \<Rightarrow> 8 word list" where
  "shift_rows s = map (\<lambda>i. s ! (i mod 4 + 4 * ((i div 4 + i mod 4) mod 4))) [0..<16]"

definition mix_column :: "8 word list \<Rightarrow> 8 word list" where
  "mix_column c = map (\<lambda>i. xtime (c ! i) XOR xtime (c ! ((i + 1) mod 4)) XOR c ! ((i + 1) mod 4) XOR
     c ! ((i + 2) mod 4) XOR c ! ((i + 3) mod 4)) [0..<4]"

definition mix_columns :: "8 word list \<Rightarrow> 8 word list" where
  "mix_columns s = concat (map mix_column (chunks 4 s))"

fun rounds :: "8 word list list \<Rightarrow> 8 word list \<Rightarrow> 8 word list" where
  "rounds [] s = s"
| "rounds [k] s = xor_words (shift_rows (map sbox s)) k"
| "rounds (k # ks) s = rounds ks (xor_words (mix_columns (shift_rows (map sbox s))) k)"

definition aes_block :: "8 word list list \<Rightarrow> 8 word list \<Rightarrow> 8 word list" where
  "aes_block ks s = rounds (tl ks) (xor_words s (hd ks))"

section \<open>Galois counter mode\<close>

text \<open>Big-endian bytes of a number.\<close>

fun word_bytes_be :: "nat \<Rightarrow> nat \<Rightarrow> 8 word list" where
  "word_bytes_be 0 x = []"
| "word_bytes_be (Suc n) x = word_of_nat (x div 256 ^ n) # word_bytes_be n x"

definition be_value :: "8 word list \<Rightarrow> nat" where
  "be_value bs = foldl (\<lambda>a b. 256 * a + unat b) 0 bs"

fun gcm_mul :: "nat \<Rightarrow> 128 word \<Rightarrow> 128 word \<Rightarrow> 128 word" where
  "gcm_mul 0 x v = 0"
| "gcm_mul (Suc n) x v = (if bit x n then v else 0) XOR
     gcm_mul n x (if bit v 0 then drop_bit 1 v XOR 0xE1000000000000000000000000000000 else drop_bit 1 v)"

definition pad_block :: "8 word list \<Rightarrow> 8 word list" where
  "pad_block b = b @ replicate (16 - length b) 0"

definition ghash :: "128 word \<Rightarrow> 8 word list list \<Rightarrow> 128 word" where
  "ghash h blocks = foldl (\<lambda>y b. gcm_mul 128 (y XOR word_of_nat (be_value b)) h) 0 blocks"

text \<open>The key stream: the blocks of the counter, from 2 on.\<close>

definition counter_block :: "8 word list \<Rightarrow> nat \<Rightarrow> 8 word list" where
  "counter_block nonce i = nonce @ word_bytes_be 4 (i mod 2 ^ 32)"

fun ctr :: "8 word list list \<Rightarrow> 8 word list \<Rightarrow> nat \<Rightarrow> 8 word list list \<Rightarrow> 8 word list list" where
  "ctr ks nonce i [] = []"
| "ctr ks nonce i (b # bs) = xor_words b (take (length b) (aes_block ks (counter_block nonce i))) # ctr ks nonce (Suc i) bs"

definition gcm_crypt :: "8 word list list \<Rightarrow> 8 word list \<Rightarrow> 8 word list \<Rightarrow> 8 word list" where
  "gcm_crypt ks nonce text = concat (ctr ks nonce 2 (chunks 16 text))"

definition gcm_tag :: "8 word list list \<Rightarrow> 8 word list \<Rightarrow> 8 word list \<Rightarrow> 8 word list" where
  "gcm_tag ks nonce c =
     (let h = word_of_nat (be_value (aes_block ks (replicate 16 0)));
          s = ghash h (map pad_block (chunks 16 c) @ [word_bytes_be 8 0 @ word_bytes_be 8 (8 * length c)])
      in xor_words (word_bytes_be 16 (unat s)) (aes_block ks (counter_block nonce 1)))"

definition gcm_Seal :: "nat list \<Rightarrow> nat list \<Rightarrow> nat list \<Rightarrow> nat list" where
  "gcm_Seal key nonce plaintext =
     (let ks = round_keys (map word_of_nat key); n = map word_of_nat nonce;
          c = gcm_crypt ks n (map word_of_nat plaintext)
      in map unat (c @ gcm_tag ks n c))"

definition gcm_Open :: "nat list \<Rightarrow> nat list \<Rightarrow> nat list \<Rightarrow> nat list option" where
  "gcm_Open key nonce sealed =
     (let ks = round_keys (map word_of_nat key); n = map word_of_nat nonce; s = map word_of_nat sealed; k = length s - 16
      in if length s < 16 then None
         else if gcm_tag ks n (take k s) \<noteq> drop k s then None
         else Some (map unat (gcm_crypt ks n (take k s))))"

section \<open>Lengths\<close>

lemma length_xor_words [simp]: "length (xor_words xs ys) = min (length xs) (length ys)"
  by (simp add: xor_words_def)

lemma xor_xor: "length xs \<le> length ys \<Longrightarrow> xor_words (xor_words xs ys) ys = xs"
  by (rule nth_equalityI) (simp_all add: xor_words_def xor.assoc)

lemma length_word_bytes_be [simp]: "length (word_bytes_be n x) = n"
  by (induction n x rule: word_bytes_be.induct) simp_all

lemma concat_chunks: "0 < n \<Longrightarrow> concat (chunks n xs) = xs"
  by (induction n xs rule: chunks.induct) simp_all

lemma chunks_le: "0 < n \<Longrightarrow> c \<in> set (chunks n xs) \<Longrightarrow> length c \<le> n"
  by (induction n xs rule: chunks.induct) auto

lemma chunks_eq:
  assumes "0 < n" and "n dvd length xs" and "c \<in> set (chunks n xs)"
  shows "length c = n"
  using assms
proof (induction n xs rule: chunks.induct)
  case (2 n x xs)
  have le: "n \<le> Suc (length xs)" using 2(2,3) by (simp add: dvd_imp_le)
  have "n dvd length (drop (n - 1) xs)"
  proof -
    have "length (drop (n - 1) xs) = Suc (length xs) - n" using 2(2) by simp
    then show ?thesis using 2(3) by (simp add: dvd_diff_nat)
  qed
  then show ?case using 2 le by auto
qed simp

lemma length_mix_columns: "length s = 16 \<Longrightarrow> length (mix_columns s) = 16"
proof -
  assume s: "length s = 16"
  have "length (concat (map mix_column cs)) = length (concat cs)" if "\<forall>c\<in>set cs. length c = 4" for cs
    using that by (induction cs) (auto simp: mix_column_def)
  moreover have "\<forall>c\<in>set (chunks 4 s). length c = 4" using chunks_eq [of 4 s] s by simp
  ultimately show ?thesis using concat_chunks [of 4 s] s by (simp add: mix_columns_def)
qed

lemma length_rounds: "\<forall>k\<in>set ks. length k = 16 \<Longrightarrow> length s = 16 \<Longrightarrow> length (rounds ks s) = 16"
  by (induction ks s rule: rounds.induct) (simp_all add: shift_rows_def length_mix_columns)

definition schedule_ok :: "8 word list list \<Rightarrow> bool" where
  "schedule_ok ks \<longleftrightarrow> ks \<noteq> [] \<and> (\<forall>k\<in>set ks. length k = 16)"

lemma length_aes_block:
  assumes "schedule_ok ks" and "length s = 16"
  shows "length (aes_block ks s) = 16"
  using assms by (cases ks) (simp_all add: schedule_ok_def aes_block_def length_rounds)

lemma length_next_word:
  assumes "length (hd ws) = 4" and "length (ws ! 7) = 4"
  shows "length (next_word i ws) = 4"
proof -
  have "length (map sbox (rotate1 (hd ws))) = 4" "length (map sbox (hd ws)) = 4" using assms by simp_all
  moreover have "length [rcon (i div 8 - 1), 0, 0, 0] = 4" by simp
  ultimately have "length (if i mod 8 = 0 then xor_words (map sbox (rotate1 (hd ws))) [rcon (i div 8 - 1), 0, 0, 0]
      else if i mod 8 = 4 then map sbox (hd ws) else hd ws) = 4"
    using assms(1) by simp
  then show ?thesis using assms(2) by (simp only: next_word_def Let_def length_xor_words min.idem)
qed

lemma next_word_4: assumes "\<forall>w\<in>set ws. length w = 4" "8 \<le> length ws" shows "length (next_word i ws) = 4"
proof -
  have ne: "ws \<noteq> []" using assms(2) by auto
  then have h: "hd ws \<in> set ws" by simp
  have l: "7 < length ws" using assms(2) by linarith
  then have s: "ws ! 7 \<in> set ws" by (rule nth_mem)
  show ?thesis by (rule length_next_word) (use h s assms(1) in blast)+
qed
lemma expand_words:
  "\<forall>w\<in>set ws. length w = 4 \<Longrightarrow> 8 \<le> length ws \<Longrightarrow>
   (\<forall>w\<in>set (expand n i ws). length w = 4) \<and> length (expand n i ws) = n + length ws"
proof (induction n arbitrary: i ws)
  case (Suc n)
  let ?ws = "next_word i ws # ws"
  have "\<forall>w\<in>set ?ws. length w = 4" unfolding list.set ball_simps using next_word_4 [OF Suc.prems] Suc.prems(1) by blast
  moreover have "8 \<le> length ?ws" using Suc.prems(2) by (simp only: list.size)
  ultimately have IH: "(\<forall>w\<in>set (expand n (Suc i) ?ws). length w = 4) \<and> length (expand n (Suc i) ?ws) = n + length ?ws" by (rule Suc.IH)
  have "n + length ?ws = Suc n + length ws" by (simp only: list.size add_Suc add_Suc_right add_0_right)
  then show ?case using IH unfolding expand.simps(2) by argo
qed (simp only: expand.simps add_0)

lemma length_chunks: "0 < n \<Longrightarrow> length xs = k * n \<Longrightarrow> length (chunks n xs) = k"
proof (induction n xs arbitrary: k rule: chunks.induct)
  case (2 n x xs)
  then obtain j where k: "k = Suc j" by (cases k) auto
  then have "length (drop (n - 1) xs) = j * n" using 2(2,3) by simp
  then show ?case using 2 k by simp
qed simp

lemma round_keys_ok:
  assumes "length key = 32"
  shows "schedule_ok (round_keys key)"
proof -
  let ?ws = "expand 52 8 (rev (chunks 4 key))"
  have "\<forall>w\<in>set (rev (chunks 4 key)). length w = 4" "length (rev (chunks 4 key)) = 8"
    using chunks_eq [of 4 key] length_chunks [of 4 key 8] assms by simp_all
  from expand_words [OF this(1), of 52 8] this(2) have "\<forall>w\<in>set ?ws. length w = 4" "length ?ws = 60" by simp_all
  moreover have "length (concat ws) = 4 * length ws" if "\<forall>w\<in>set ws. length w = 4" for ws :: "8 word list list"
    using that by (induction ws) simp_all
  ultimately have len: "length (concat (rev ?ws)) = 240" by simp
  show ?thesis unfolding schedule_ok_def round_keys_def
    using chunks_eq [of 16 "concat (rev ?ws)"] length_chunks [of 16 "concat (rev ?ws)" 15] len by auto
qed

section \<open>Open undoes Seal\<close>

lemma ctr_shape:
  assumes "schedule_ok ks" and "length nonce = 12"
  shows "\<forall>b\<in>set bs. length b \<le> 16 \<Longrightarrow> map length (ctr ks nonce i bs) = map length bs \<and> ctr ks nonce i (ctr ks nonce i bs) = bs"
proof (induction bs arbitrary: i)
  case (Cons b bs)
  have "length (aes_block ks (counter_block nonce i)) = 16" using length_aes_block [OF assms(1)] assms(2) by (simp add: counter_block_def)
  then show ?case using Cons xor_xor by simp
qed simp

lemma chunks_shape: "0 < n \<Longrightarrow> map length bs = map length (chunks n xs) \<Longrightarrow> chunks n (concat bs) = bs"
proof (induction n xs arbitrary: bs rule: chunks.induct)
  case (2 n x xs)
  then obtain b bs' where bs: "bs = b # bs'" "length b = Suc (length (take (n - 1) xs))" "map length bs' = map length (chunks n (drop (n - 1) xs))"
    by (cases bs) auto
  obtain y b' where b: "b = y # b'" "length b' = min (n - 1) (length xs)" using bs(2) by (cases b) auto
  have IH: "chunks n (concat bs') = bs'" using 2 bs(3) by simp
  show ?case
  proof (cases "n - 1 \<le> length xs")
    case True
    then show ?thesis using IH b bs(1) 2(2) by simp
  next
    case False
    then have "bs' = []" using bs(3) by simp
    then show ?thesis using b bs(1) 2(2) False by simp
  qed
qed simp

lemma gcm_crypt_twice:
  assumes "schedule_ok ks" and "length nonce = 12"
  shows "gcm_crypt ks nonce (gcm_crypt ks nonce t) = t"
proof -
  have "\<forall>b\<in>set (chunks 16 t). length b \<le> 16" by (intro ballI chunks_le) simp_all
  note c = ctr_shape [OF assms this, of 2]
  have "chunks 16 (gcm_crypt ks nonce t) = ctr ks nonce 2 (chunks 16 t)"
    unfolding gcm_crypt_def using c by (intro chunks_shape) auto
  then show ?thesis using c concat_chunks [of 16 t] by (simp add: gcm_crypt_def)
qed

lemma length_gcm_tag: "schedule_ok ks \<Longrightarrow> length nonce = 12 \<Longrightarrow> length (gcm_tag ks nonce c) = 16"
  using length_aes_block [of ks "counter_block nonce 1"] by (simp add: gcm_tag_def Let_def counter_block_def)

lemma unat_bytes: "list_all (\<lambda>b. b < 256) p \<Longrightarrow> map unat (map word_of_nat p :: 8 word list) = p"
  by (induction p) (simp_all add: unat_of_nat)

lemma word_bytes: "map word_of_nat (map unat bs) = bs" for bs :: "8 word list"
  by (induction bs) simp_all

theorem gcm_Open_Seal:
  assumes "length key = 32" and "length nonce = 12" and "list_all (\<lambda>b. b < 256) p"
  shows "gcm_Open key nonce (gcm_Seal key nonce p) = Some p"
proof -
  define ks where "ks = round_keys (map word_of_nat key)"
  define n :: "8 word list" where "n = map word_of_nat nonce"
  define c where "c = gcm_crypt ks n (map word_of_nat p)"
  have ks: "schedule_ok ks" unfolding ks_def using assms(1) by (intro round_keys_ok) simp
  have n: "length n = 12" by (simp add: n_def assms(2))
  have tag: "length (gcm_tag ks n c) = 16" by (rule length_gcm_tag [OF ks n])
  have sealed: "map word_of_nat (gcm_Seal key nonce p) = c @ gcm_tag ks n c"
    unfolding gcm_Seal_def Let_def ks_def [symmetric] n_def [symmetric] c_def [symmetric] by (rule word_bytes)
  have "gcm_crypt ks n c = map word_of_nat p" unfolding c_def by (rule gcm_crypt_twice [OF ks n])
  then show ?thesis
    unfolding gcm_Open_def Let_def ks_def [symmetric] n_def [symmetric] sealed
    using tag unat_bytes [OF assms(3)] by simp
qed

lemma gcm_Seal_bytes: "list_all (\<lambda>b. b < 256) (gcm_Seal key nonce p)"
proof -
  have "unat b < 256" for b :: "8 word" using unsigned_less [of b] by simp
  then show ?thesis by (simp add: gcm_Seal_def Let_def list_all_iff ball_Un)
qed

end
