(* ===== verification/Secretbox.thy ===== *)
theory Secretbox
  imports Aes Domain
begin

text \<open>
  The secret box (\<open>internal/secretbox\<close>): AES-256-GCM behind base64 text with a version prefix.

  \<open>cipher.AEAD\<close> is an interface; the record \<open>Aead\<close> is its value, with the nonce size, \<open>Seal\<close> and
  \<open>Open\<close> without additional data.  What the box relies on is the locale \<open>aead\<close>, \<open>Open\<close> undoes \<open>Seal\<close>,
  which the cipher of theory Aes provides (\<open>gcm\<close>).
\<close>

section \<open>encoding/base64\<close>

definition StdAlphabet :: string where
  "StdAlphabet = ''ABCDEFGHIJKLMNOPQRSTUVWXYZabcdefghijklmnopqrstuvwxyz0123456789+/''"

definition URLAlphabet :: string where
  "URLAlphabet = ''ABCDEFGHIJKLMNOPQRSTUVWXYZabcdefghijklmnopqrstuvwxyz0123456789-_''"

fun index_of :: "string \<Rightarrow> char \<Rightarrow> nat option" where
  "index_of [] c = None"
| "index_of (x # xs) c = (if x = c then Some 0 else map_option Suc (index_of xs c))"

text \<open>Six bits to a character; without padding (\<open>RawURLEncoding\<close>).\<close>

fun b64_encode :: "string \<Rightarrow> nat list \<Rightarrow> string" where
  "b64_encode abc [] = []"
| "b64_encode abc [a] = [abc ! (a div 4), abc ! (a mod 4 * 16)]"
| "b64_encode abc [a, b] = [abc ! (a div 4), abc ! (a mod 4 * 16 + b div 16), abc ! (b mod 16 * 4)]"
| "b64_encode abc (a # b # c # bs) = abc ! (a div 4) # abc ! (a mod 4 * 16 + b div 16) # abc ! (b mod 16 * 4 + c div 64) #
     abc ! (c mod 64) # b64_encode abc bs"

text \<open>
  Decoding skips line breaks and does not look at the bits that do not make a byte.  With \<open>pad\<close>, the last
  two or three characters of a quantum are followed by \<open>=\<close>; without it they end the text.
\<close>

fun b64_quanta :: "bool \<Rightarrow> string \<Rightarrow> string \<Rightarrow> nat list option" where
  "b64_quanta pad abc [] = Some []"
| "b64_quanta pad abc [p] = None"
| "b64_quanta pad abc [p, q] =
     (if pad then None
      else case (index_of abc p, index_of abc q) of
        (Some x, Some y) \<Rightarrow> Some [x * 4 + y div 16] | _ \<Rightarrow> None)"
| "b64_quanta pad abc [p, q, r] =
     (if pad then None
      else case (index_of abc p, index_of abc q, index_of abc r) of
        (Some x, Some y, Some z) \<Rightarrow> Some [x * 4 + y div 16, y mod 16 * 16 + z div 4] | _ \<Rightarrow> None)"
| "b64_quanta pad abc (p # q # r # s # t) =
     (case (index_of abc p, index_of abc q) of
        (Some x, Some y) \<Rightarrow>
          if pad \<and> r = CHR ''='' then
            (if s = CHR ''='' \<and> t = [] then Some [x * 4 + y div 16] else None)
          else (case index_of abc r of
            None \<Rightarrow> None
          | Some z \<Rightarrow>
              if pad \<and> s = CHR ''='' then
                (if t = [] then Some [x * 4 + y div 16, y mod 16 * 16 + z div 4] else None)
              else (case index_of abc s of
                None \<Rightarrow> None
              | Some w \<Rightarrow> map_option (\<lambda>bs. [x * 4 + y div 16, y mod 16 * 16 + z div 4, z mod 4 * 64 + w] @ bs)
                  (b64_quanta pad abc t)))
      | _ \<Rightarrow> None)"

definition b64_decode :: "bool \<Rightarrow> string \<Rightarrow> string \<Rightarrow> nat list option" where
  "b64_decode pad abc s = b64_quanta pad abc (filter (\<lambda>c. byte c \<noteq> 10 \<and> byte c \<noteq> 13) s)"

abbreviation StdEncoding_DecodeString :: "string \<Rightarrow> nat list option" where
  "StdEncoding_DecodeString \<equiv> b64_decode True StdAlphabet"

abbreviation RawURLEncoding_EncodeToString :: "nat list \<Rightarrow> string" where
  "RawURLEncoding_EncodeToString \<equiv> b64_encode URLAlphabet"

abbreviation RawURLEncoding_DecodeString :: "string \<Rightarrow> nat list option" where
  "RawURLEncoding_DecodeString \<equiv> b64_decode False URLAlphabet"

lemma index_of_nth: "distinct abc \<Longrightarrow> i < length abc \<Longrightarrow> index_of abc (abc ! i) = Some i"
  by (induction abc arbitrary: i) (auto simp: nth_Cons split: nat.splits)

lemma two_digits: "(y :: nat) < k \<Longrightarrow> (x * k + y) div k = x \<and> (x * k + y) mod k = y"
  by simp

lemma sextets:
  fixes a b c :: nat
  assumes "a < 256" "b < 256" "c < 256"
  shows "a div 4 < 64" "a mod 4 * 16 + b div 16 < 64" "b mod 16 * 4 + c div 64 < 64" "c mod 64 < 64"
    "a div 4 * 4 + (a mod 4 * 16 + b div 16) div 16 = a"
    "(a mod 4 * 16 + b div 16) mod 16 * 16 + (b mod 16 * 4 + c div 64) div 4 = b"
    "(b mod 16 * 4 + c div 64) mod 4 * 64 + c mod 64 = c"
proof -
  have d: "b div 16 < 16" "c div 64 < 4" "a mod 4 < 4" "b mod 16 < 16" using assms by auto
  show "a div 4 < 64" "c mod 64 < 64" using assms by auto
  show "a mod 4 * 16 + b div 16 < 64" "b mod 16 * 4 + c div 64 < 64" using d by linarith+
  show "a div 4 * 4 + (a mod 4 * 16 + b div 16) div 16 = a"
    "(a mod 4 * 16 + b div 16) mod 16 * 16 + (b mod 16 * 4 + c div 64) div 4 = b"
    "(b mod 16 * 4 + c div 64) mod 4 * 64 + c mod 64 = c"
    using two_digits [OF d(1), of "a mod 4"] two_digits [OF d(2), of "b mod 16"] by simp_all
qed

lemma b64_quanta_encode:
  assumes "distinct abc" and "length abc = 64" and "list_all (\<lambda>b. b < 256) bs"
  shows "b64_quanta False abc (b64_encode abc bs) = Some bs"
  using assms
proof (induction abc bs rule: b64_encode.induct)
  case (2 abc a)
  then show ?case using sextets [of a 0 0] by (simp add: index_of_nth)
next
  case (3 abc a b)
  then show ?case using sextets [of a b 0] by (simp add: index_of_nth)
next
  case (4 abc a b c bs)
  then have "b div 16 < 16" "c div 64 < 4" by auto
  then show ?case using 4 sextets [of a b c] by (simp add: index_of_nth)
qed simp

lemma b64_encode_chars: "length abc = 64 \<Longrightarrow> list_all (\<lambda>b. b < 256) bs \<Longrightarrow> set (b64_encode abc bs) \<subseteq> set abc"
proof (induction abc bs rule: b64_encode.induct)
  case (2 abc a)
  then show ?case using sextets [of a 0 0] by simp
next
  case (3 abc a b)
  then show ?case using sextets [of a b 0] by simp
next
  case (4 abc a b c bs)
  then show ?case using sextets [of a b c] by simp
qed simp

lemma URLAlphabet: "distinct URLAlphabet" "length URLAlphabet = 64" "list_all (\<lambda>c. byte c \<noteq> 10 \<and> byte c \<noteq> 13) URLAlphabet"
  by (simp_all add: URLAlphabet_def)

lemma RawURLEncoding_roundtrip:
  assumes "list_all (\<lambda>b. b < 256) bs"
  shows "RawURLEncoding_DecodeString (RawURLEncoding_EncodeToString bs) = Some bs"
proof -
  have "byte c \<noteq> 10 \<and> byte c \<noteq> 13" if "c \<in> set (b64_encode URLAlphabet bs)" for c
    using b64_encode_chars [OF URLAlphabet(2) assms] URLAlphabet(3) that unfolding list_all_iff by blast
  then have "filter (\<lambda>c. byte c \<noteq> 10 \<and> byte c \<noteq> 13) (b64_encode URLAlphabet bs) = b64_encode URLAlphabet bs"
    by (simp add: filter_id_conv)
  then show ?thesis using b64_quanta_encode [OF URLAlphabet(1,2) assms] by (simp add: b64_decode_def)
qed

section \<open>The box\<close>

record Aead =
  ae_NonceSize :: nat
  ae_Seal :: "nat list \<Rightarrow> nat list \<Rightarrow> nat list"
  ae_Open :: "nat list \<Rightarrow> nat list \<Rightarrow> nat list option"

record Box =
  bx_aead :: "Aead option"

definition versionPrefix :: string where
  "versionPrefix = ''v1.''"

text \<open>\<open>cipher.NewGCM\<close> of \<open>aes.NewCipher\<close>; neither fails on a key of 32 bytes.\<close>

definition gcm_aead :: "nat list \<Rightarrow> Aead" where
  "gcm_aead key = \<lparr>ae_NonceSize = 12, ae_Seal = gcm_Seal key, ae_Open = gcm_Open key\<rparr>"

definition NewBox :: "nat list \<Rightarrow> go_error + Box" where
  "NewBox key = (if length key \<noteq> 32 then Inl (Errorf ''secretbox key must be exactly 32 bytes'')
     else Inr \<lparr>bx_aead = Some (gcm_aead key)\<rparr>)"

definition NewBase64 :: "string \<Rightarrow> go_error + Box" where
  "NewBase64 encoded = (case StdEncoding_DecodeString (TrimSpace encoded) of
     None \<Rightarrow> Inl (Wrapf ''decode secretbox key'' (Errorf ''illegal base64 data''))
   | Some key \<Rightarrow> NewBox key)"

text \<open>\<open>random\<close> is what \<open>rand.Reader\<close> gives: an error, or as many bytes as asked for.\<close>

definition Encrypt :: "Box \<Rightarrow> (nat \<Rightarrow> go_error + nat list) \<Rightarrow> nat list \<Rightarrow> go_error + string" where
  "Encrypt b random plaintext = (case bx_aead b of
     None \<Rightarrow> Inl (Errorf ''secretbox is not configured'')
   | Some aead \<Rightarrow> (case random (ae_NonceSize aead) of
       Inl err \<Rightarrow> Inl (Wrapf ''generate nonce'' err)
     | Inr nonce \<Rightarrow> Inr (versionPrefix @ RawURLEncoding_EncodeToString (nonce @ ae_Seal aead nonce plaintext))))"

definition Decrypt :: "Box \<Rightarrow> string \<Rightarrow> go_error + nat list" where
  "Decrypt b ciphertext = (case bx_aead b of
     None \<Rightarrow> Inl (Errorf ''secretbox is not configured'')
   | Some aead \<Rightarrow>
       if \<not> starts_with versionPrefix ciphertext then Inl ErrInvalidCiphertext
       else (case RawURLEncoding_DecodeString (drop (length versionPrefix) ciphertext) of
         None \<Rightarrow> Inl ErrInvalidCiphertext
       | Some payload \<Rightarrow>
           if length payload < ae_NonceSize aead then Inl ErrInvalidCiphertext
           else (case ae_Open aead (take (ae_NonceSize aead) payload) (drop (ae_NonceSize aead) payload) of
             None \<Rightarrow> Inl ErrInvalidCiphertext
           | Some plaintext \<Rightarrow> Inr plaintext)))"

text \<open>What the box asks of the AEAD of a key, and what it gives: \<open>Decrypt\<close> undoes \<open>Encrypt\<close>.\<close>

locale aead =
  fixes a :: "nat list \<Rightarrow> Aead"
  assumes opens: "length key = 32 \<Longrightarrow> length nonce = ae_NonceSize (a key) \<Longrightarrow> list_all (\<lambda>b. b < 256) p \<Longrightarrow>
      ae_Open (a key) nonce (ae_Seal (a key) nonce p) = Some p"
    and bytes: "list_all (\<lambda>b. b < 256) (ae_Seal (a key) nonce p)"
begin

lemma decrypt_encrypt:
  assumes "length key = 32" and "random (ae_NonceSize (a key)) = Inr nonce" and "length nonce = ae_NonceSize (a key)"
    and "list_all (\<lambda>b. b < 256) nonce" and "list_all (\<lambda>b. b < 256) p"
  shows "\<exists>c. Encrypt \<lparr>bx_aead = Some (a key)\<rparr> random p = Inr c \<and> Decrypt \<lparr>bx_aead = Some (a key)\<rparr> c = Inr p"
proof -
  have "list_all (\<lambda>b. b < 256) (nonce @ ae_Seal (a key) nonce p)" using assms(4) bytes by simp
  from RawURLEncoding_roundtrip [OF this] show ?thesis
    using assms(2,3) opens [OF assms(1,3,5)] by (simp add: Encrypt_def Decrypt_def versionPrefix_def starts_with_def)
qed

end

interpretation gcm: aead gcm_aead
  by unfold_locales (simp_all add: gcm_aead_def gcm_Open_Seal gcm_Seal_bytes)

text \<open>A source that gives as many bytes as asked for.\<close>

definition fills :: "(nat \<Rightarrow> go_error + nat list) \<Rightarrow> bool" where
  "fills random \<longleftrightarrow> (case random 12 of Inl e \<Rightarrow> False | Inr bs \<Rightarrow> length bs = 12 \<and> list_all (\<lambda>b. b < 256) bs)"

lemma box_roundtrip:
  assumes "NewBase64 encoded = Inr b" and "fills random" and "list_all (\<lambda>b. b < 256) p"
  shows "\<exists>c. Encrypt b random p = Inr c \<and> Decrypt b c = Inr p"
proof -
  obtain key where key: "length key = 32" "b = \<lparr>bx_aead = Some (gcm_aead key)\<rparr>"
    using assms(1) by (auto simp: NewBase64_def NewBox_def split: option.splits if_splits)
  obtain nonce where nonce: "random 12 = Inr nonce" "length nonce = 12" "list_all (\<lambda>b. b < 256) nonce"
    using assms(2) by (auto simp: fills_def split: sum.splits)
  have size: "ae_NonceSize (gcm_aead key) = 12" by (simp add: gcm_aead_def)
  show ?thesis unfolding key(2)
    using gcm.decrypt_encrypt [OF key(1), unfolded size] nonce assms(3) by blast
qed

end
