(* ===== verification/Woovi.thy ===== *)
theory Woovi
  imports Secretbox Provider Webhook
begin

text \<open>
  The Woovi connector (\<open>provider/woovi/woovi.go\<close>): the factory with its credential check, Pix creation,
  reconciliation, and the provider's signed webhooks with the cache of public keys.

  The provider answers through \<open>http.Client\<close>: \<open>ProviderClient\<close> says which URLs make a request, and for the
  n-th interaction what an exchange gives, an error or a response whose body may break off.  An RSA key
  is its modulus and exponent; \<open>pem.Decode\<close> with \<open>x509.ParsePKIXPublicKey\<close> is the parameter
  \<open>parseKey\<close>.  The key cache is shared by the connectors of a factory: \<open>ParseWebhook\<close> takes it and
  returns it.
\<close>

section \<open>crypto/rsa\<close>

type_synonym RSAKey = "nat \<times> nat"   \<comment> \<open>modulus, exponent\<close>

fun mod_pow :: "nat \<Rightarrow> nat \<Rightarrow> nat \<Rightarrow> nat" where
  "mod_pow b e m = (if e = 0 then 1 mod m
     else (let h = mod_pow (b * b mod m) (e div 2) m in if e mod 2 = 1 then b * h mod m else h))"

declare mod_pow.simps [simp del]

definition bytes_value :: "nat list \<Rightarrow> nat" where
  "bytes_value bs = foldl (\<lambda>a b. 256 * a + b) 0 bs"

fun value_bytes :: "nat \<Rightarrow> nat \<Rightarrow> nat list" where
  "value_bytes 0 x = []"
| "value_bytes (Suc n) x = value_bytes n (x div 256) @ [x mod 256]"

fun byte_length :: "nat \<Rightarrow> nat" where
  "byte_length x = (if x = 0 then 0 else Suc (byte_length (x div 256)))"

declare byte_length.simps [simp del]

definition sha256_prefix :: "nat list" where
  "sha256_prefix = [48, 49, 48, 13, 6, 9, 96, 134, 72, 1, 101, 3, 4, 2, 1, 5, 0, 4, 32]"

text \<open>\<open>VerifyPKCS1v15\<close> with SHA-256; keys of less than 1024 bits are refused.\<close>

definition VerifyPKCS1v15 :: "RSAKey \<Rightarrow> nat list \<Rightarrow> nat list \<Rightarrow> bool" where
  "VerifyPKCS1v15 key digest signature = (case key of (n, e) \<Rightarrow>
     let k = byte_length n; t = sha256_prefix @ digest in
     2 ^ 1023 \<le> n \<and> length t + 11 \<le> k \<and> length signature = k \<and> bytes_value signature < n \<and>
     value_bytes k (mod_pow (bytes_value signature) e n) = [0, 1] @ replicate (k - length t - 3) 255 @ [0] @ t)"

section \<open>The HTTP client\<close>

record HTTPResponse =
  rp_StatusCode :: int
  rp_Body :: string
  rp_Broken :: bool   \<comment> \<open>reading past the body fails\<close>

record ProviderClient =
  cl_NewRequest :: "string \<Rightarrow> bool"
  cl_Do :: "nat \<Rightarrow> HTTPRequest \<Rightarrow> string + HTTPResponse"

text \<open>\<open>io.ReadAll(io.LimitReader(body, 1<<20))\<close>\<close>

definition bodyLimit :: nat where
  "bodyLimit = 1048576"

definition ReadAll :: "HTTPResponse \<Rightarrow> string option" where
  "ReadAll r = (if rp_Broken r \<and> length (rp_Body r) < bodyLimit then None else Some (take bodyLimit (rp_Body r)))"

section \<open>The factory\<close>

definition Key :: string where
  "Key = ''woovi''"

record WooviOptions =
  wo_Credentials :: "(nat \<Rightarrow> string \<Rightarrow> go_error + string) option"
  wo_Cipher :: "(string \<Rightarrow> go_error + nat list) option"
  wo_HTTPClient :: "ProviderClient option"
  wo_ProductionBaseURL :: string
  wo_SandboxBaseURL :: string
  wo_KeyCacheTTL :: Duration

record Factory =
  wf_credentials :: "nat \<Rightarrow> string \<Rightarrow> go_error + string"
  wf_cipher :: "string \<Rightarrow> go_error + nat list"
  wf_client :: ProviderClient
  wf_production :: string
  wf_sandbox :: string
  wf_ttl :: Duration

definition TrimRight :: "string \<Rightarrow> char \<Rightarrow> string" where
  "TrimRight s c = rev (dropWhile (\<lambda>x. x = c) (rev s))"

definition NewFactory :: "ProviderClient \<Rightarrow> WooviOptions \<Rightarrow> go_error + Factory" where
  "NewFactory defaultClient opts = (case (wo_Credentials opts, wo_Cipher opts) of
     (Some credentials, Some cipher) \<Rightarrow>
       (let production = TrimRight (wo_ProductionBaseURL opts) CHR ''/'';
            sandbox = TrimRight (wo_SandboxBaseURL opts) CHR ''/''
        in Inr \<lparr>wf_credentials = credentials, wf_cipher = cipher,
             wf_client = (case wo_HTTPClient opts of None \<Rightarrow> defaultClient | Some client \<Rightarrow> client),
             wf_production = (if production = [] then ''https://api.woovi.com'' else production),
             wf_sandbox = (if sandbox = [] then ''https://api.woovi-sandbox.com'' else sandbox),
             wf_ttl = (if wo_KeyCacheTTL opts \<le> 0 then hour else wo_KeyCacheTTL opts)\<rparr>)
   | _ \<Rightarrow> Inl (Errorf ''woovi credential reader and cipher are required''))"

definition baseURL :: "Factory \<Rightarrow> Environment \<Rightarrow> string" where
  "baseURL f environment = (if environment = EnvironmentLive then wf_production f else wf_sandbox f)"

definition wooviManifest :: Manifest where
  "wooviManifest = \<lparr>mf_Key = Key, mf_DisplayName = ''Woovi'', mf_Version = ''1.0.0'',
     mf_Capabilities = [CapabilityPaymentCreate, CapabilityPixCreate, CapabilityPaymentQuery, CapabilityCreateReconcile,
       CapabilityWebhook], mf_CredentialTypes = [''app_id'']\<rparr>"

definition credential :: "StringMap \<Rightarrow> string \<Rightarrow> string" where
  "credential credentials k = (case map_of credentials k of None \<Rightarrow> [] | Some v \<Rightarrow> v)"

definition ValidateCredentials :: "Factory \<Rightarrow> nat \<Rightarrow> Environment \<Rightarrow> StringMap \<Rightarrow> go_error option" where
  "ValidateCredentials f n environment credentials =
     (let appID = TrimSpace (credential credentials ''app_id''); url = baseURL f environment @ ''/api/v1/company'' in
      if appID = [] then Some ErrInvalidCredentials
      else if \<not> cl_NewRequest (wf_client f) url then Some ErrCredentialValidationUnavailable
      else case cl_Do (wf_client f) n \<lparr>hq_Method = ''GET'', hq_URL = url,
          hq_Header = [(''Authorization'', appID), (''Accept'', ''application/json'')], hq_Body = []\<rparr> of
        Inl err \<Rightarrow> Some (Wrapf err ErrCredentialValidationUnavailable)
      | Inr response \<Rightarrow>
          if 200 \<le> rp_StatusCode response \<and> rp_StatusCode response < 300 then None
          else if rp_StatusCode response = 429 \<or> rp_StatusCode response \<ge> 500
          then Some (Wrapf (''http_'' @ Itoa (rp_StatusCode response)) ErrCredentialValidationUnavailable)
          else Some ErrInvalidCredentials)"

record WooviConnector =
  wc_appID :: string
  wc_baseURL :: string
  wc_client :: ProviderClient
  wc_ttl :: Duration

definition ConnectorFor :: "Factory \<Rightarrow> nat \<Rightarrow> ProviderConnection \<Rightarrow> go_error + WooviConnector" where
  "ConnectorFor f n connection = (case wf_credentials f n (pc_ID connection) of
     Inl err \<Rightarrow> Inl err
   | Inr ciphertext \<Rightarrow> (case wf_cipher f ciphertext of
       Inl err \<Rightarrow> Inl (Wrapf ''decrypt woovi credentials'' err)
     | Inr plaintext \<Rightarrow> (case Unmarshal dec_string_map None (map char_of plaintext) of
         None \<Rightarrow> Inl (Wrapf ''decode woovi credentials'' (Errorf ''json''))
       | Some credentials \<Rightarrow>
           (let appID = TrimSpace (credential (case credentials of None \<Rightarrow> [] | Some m \<Rightarrow> m) ''app_id'') in
            if appID = [] then Inl ErrInvalidCredentials
            else Inr \<lparr>wc_appID = appID, wc_baseURL = baseURL f (pc_Environment connection), wc_client = wf_client f,
              wc_ttl = wf_ttl f\<rparr>))))"

section \<open>Charges\<close>

definition authorize :: "WooviConnector \<Rightarrow> (string \<times> string) list" where
  "authorize a = [(''Authorization'', wc_appID a), (''Accept'', ''application/json''), (''Content-Type'', ''application/json'')]"

record Charge =
  ch_Identifier :: string
  ch_CorrelationID :: string
  ch_Status :: string
  ch_BRCode :: string
  ch_ExpiresDate :: Time

record ChargeEnvelope =
  ce_Charge :: Charge
  ce_BRCode :: string

definition zeroCharge :: Charge where
  "zeroCharge = \<lparr>ch_Identifier = [], ch_CorrelationID = [], ch_Status = [], ch_BRCode = [], ch_ExpiresDate = 0\<rparr>"

definition dec_charge :: "Charge decoder" where
  "dec_charge = dec_struct False
     [(''identifier'', field ch_Identifier (\<lambda>x c. c\<lparr>ch_Identifier := x\<rparr>) dec_string),
      (''correlationID'', field ch_CorrelationID (\<lambda>x c. c\<lparr>ch_CorrelationID := x\<rparr>) dec_string),
      (''status'', field ch_Status (\<lambda>x c. c\<lparr>ch_Status := x\<rparr>) dec_string),
      (''brCode'', field ch_BRCode (\<lambda>x c. c\<lparr>ch_BRCode := x\<rparr>) dec_string),
      (''expiresDate'', field ch_ExpiresDate (\<lambda>x c. c\<lparr>ch_ExpiresDate := x\<rparr>) dec_time)]"

definition decodeCharge :: "string \<Rightarrow> ChargeEnvelope option" where
  "decodeCharge body = Unmarshal (dec_struct False
     [(''charge'', field ce_Charge (\<lambda>x e. e\<lparr>ce_Charge := x\<rparr>) dec_charge),
      (''brCode'', field ce_BRCode (\<lambda>x e. e\<lparr>ce_BRCode := x\<rparr>) dec_string)])
     \<lparr>ce_Charge = zeroCharge, ce_BRCode = []\<rparr> body"

definition copyPaste :: "ChargeEnvelope \<Rightarrow> string" where
  "copyPaste envelope = (if ch_BRCode (ce_Charge envelope) \<noteq> [] then ch_BRCode (ce_Charge envelope) else ce_BRCode envelope)"

definition chargePayload :: "CreateRequest \<Rightarrow> json" where
  "chargePayload request = JObject ([(''correlationID'', JString (cq_AttemptID request)), (''value'', JInt (cq_Amount request))] @
     (if cq_MerchantOrderID request = [] then [] else [(''comment'', JString (cq_MerchantOrderID request))]))"

definition createFailed :: "CreateOutcomeKind \<Rightarrow> string \<Rightarrow> CreateOutcome" where
  "createFailed kind code = \<lparr>co_Kind = kind, co_ProviderPaymentID = [], co_Pix = None, co_FailureCode = code\<rparr>"

definition classifyCreateStatus :: "int \<Rightarrow> CreateOutcome" where
  "classifyCreateStatus status =
     (if status \<in> {401, 403, 404} then createFailed CreateFailedTerminal (''woovi_http_'' @ Itoa status)
      else createFailed CreateUnknown (''woovi_http_'' @ Itoa status @ ''_unknown''))"

definition createHTTPRequest :: "WooviConnector \<Rightarrow> CreateRequest \<Rightarrow> HTTPRequest" where
  "createHTTPRequest a request = \<lparr>hq_Method = ''POST'', hq_URL = wc_baseURL a @ ''/api/v1/charge'', hq_Header = authorize a,
     hq_Body = (case Marshal (chargePayload request) of None \<Rightarrow> [] | Some payload \<Rightarrow> payload)\<rparr>"

definition CreatePix :: "WooviConnector \<Rightarrow> nat \<Rightarrow> CreateRequest \<Rightarrow> CreateOutcome" where
  "CreatePix a n request =
     (if \<not> cl_NewRequest (wc_client a) (wc_baseURL a @ ''/api/v1/charge'')
      then createFailed CreateFailedTerminal ''woovi_request_build_failed''
      else case cl_Do (wc_client a) n (createHTTPRequest a request) of
        Inl err \<Rightarrow> createFailed CreateUnknown ''woovi_transport_unknown''
      | Inr response \<Rightarrow> (case ReadAll response of
          None \<Rightarrow> createFailed CreateUnknown ''woovi_response_read_unknown''
        | Some body \<Rightarrow>
            if rp_StatusCode response < 200 \<or> rp_StatusCode response \<ge> 300 then classifyCreateStatus (rp_StatusCode response)
            else (case decodeCharge body of
              None \<Rightarrow> createFailed CreateUnknown ''woovi_response_ambiguous''
            | Some charge \<Rightarrow>
                if ch_Identifier (ce_Charge charge) = [] \<or> copyPaste charge = []
                then createFailed CreateUnknown ''woovi_response_ambiguous''
                else \<lparr>co_Kind = CreateSucceeded, co_ProviderPaymentID = ch_Identifier (ce_Charge charge),
                  co_Pix = Some \<lparr>px_CopyPaste = copyPaste charge, px_ExpiresAt = ch_ExpiresDate (ce_Charge charge)\<rparr>,
                  co_FailureCode = []\<rparr>)))"

definition reconcileFailed :: "ReconcileOutcomeKind \<Rightarrow> string \<Rightarrow> string \<Rightarrow> ReconcileOutcome" where
  "reconcileFailed kind providerPaymentID code =
     \<lparr>ro_Kind = kind, ro_ProviderPaymentID = providerPaymentID, ro_Pix = None, ro_FailureCode = code\<rparr>"

text \<open>\<open>url.PathEscape\<close>\<close>

definition path_safe :: "char \<Rightarrow> bool" where
  "path_safe c \<longleftrightarrow> is_digit c \<or> 97 \<le> byte c \<and> byte c \<le> 122 \<or> 65 \<le> byte c \<and> byte c \<le> 90 \<or>
     c \<in> set ''-_.~$&+:=@''"

definition upper_hex :: "nat \<Rightarrow> char" where
  "upper_hex n = (if n < 10 then char_of (48 + n) else char_of (55 + n))"

definition PathEscape :: "string \<Rightarrow> string" where
  "PathEscape s = concat (map (\<lambda>c. if path_safe c then [c] else [CHR ''%'', upper_hex (byte c div 16), upper_hex (byte c mod 16)]) s)"

definition Reconcile :: "WooviConnector \<Rightarrow> nat \<Rightarrow> ReconcileRequest \<Rightarrow> ReconcileOutcome" where
  "Reconcile a n request =
     (let endpoint = wc_baseURL a @ ''/api/v1/charge/'' @ PathEscape (rq_AttemptID request) in
      if \<not> cl_NewRequest (wc_client a) endpoint then reconcileFailed ReconcileTerminal [] ''woovi_request_build_failed''
      else case cl_Do (wc_client a) n \<lparr>hq_Method = ''GET'', hq_URL = endpoint, hq_Header = authorize a, hq_Body = []\<rparr> of
        Inl err \<Rightarrow> reconcileFailed ReconcileUnknown [] ''woovi_reconcile_transport''
      | Inr response \<Rightarrow> (case ReadAll response of
          None \<Rightarrow> reconcileFailed ReconcileUnknown [] ''woovi_reconcile_read''
        | Some body \<Rightarrow>
            if rp_StatusCode response = 404 then reconcileFailed ReconcileUnknown [] ''woovi_charge_not_found_unconfirmed''
            else if rp_StatusCode response = 401 \<or> rp_StatusCode response = 403
            then reconcileFailed ReconcileTerminal [] ''woovi_reconcile_auth''
            else if rp_StatusCode response < 200 \<or> rp_StatusCode response \<ge> 300
            then reconcileFailed ReconcileUnknown [] (''woovi_reconcile_http_'' @ Itoa (rp_StatusCode response))
            else (case decodeCharge body of
              None \<Rightarrow> reconcileFailed ReconcileUnknown [] ''woovi_reconcile_ambiguous''
            | Some charge \<Rightarrow>
                (let identifier = ch_Identifier (ce_Charge charge) in
                 if identifier = [] then reconcileFailed ReconcileUnknown [] ''woovi_reconcile_ambiguous''
                 else if ToUpper (ch_Status (ce_Charge charge)) = ''EXPIRED''
                 then reconcileFailed ReconcileTerminal identifier ''woovi_charge_expired''
                 else if copyPaste charge = [] then reconcileFailed ReconcileUnknown identifier ''woovi_reconcile_missing_brcode''
                 else \<lparr>ro_Kind = ReconcileCreated, ro_ProviderPaymentID = identifier,
                   ro_Pix = Some \<lparr>px_CopyPaste = copyPaste charge, px_ExpiresAt = ch_ExpiresDate (ce_Charge charge)\<rparr>,
                   ro_FailureCode = []\<rparr>))))"

section \<open>Webhooks\<close>

fun headerValue :: "(string \<times> string list) list \<Rightarrow> string \<Rightarrow> string" where
  "headerValue [] name = []"
| "headerValue ((k, values) # headers) name =
     (if EqualFold k name \<and> values \<noteq> [] then hd values else headerValue headers name)"

record cachedKeys =
  ck_keys :: "RSAKey list"
  ck_expiresAt :: Time

type_synonym publicKeyCache = "string \<rightharpoonup> cachedKeys"

definition dec_keyEnvelope :: "string list decoder" where
  "dec_keyEnvelope = dec_struct False
     [(''public_keys'', dec_list (dec_struct False [(''key'', dec_string)]) [])]"

text \<open>\<open>Decode\<close> on \<open>io.LimitReader(response.Body, 1<<20)\<close>: the limit looks like the end of the body.\<close>

definition decodeKeys :: "HTTPResponse \<Rightarrow> string list option" where
  "decodeKeys r = Decode dec_keyEnvelope [] (\<not> rp_Broken r \<or> bodyLimit \<le> length (rp_Body r)) (take bodyLimit (rp_Body r))"

definition stale_or :: "RSAKey list \<Rightarrow> go_error \<Rightarrow> go_error + RSAKey list" where
  "stale_or stale err = (if stale \<noteq> [] then Inr stale else Inl err)"

definition getKeys ::
  "(string \<Rightarrow> RSAKey option) \<Rightarrow> WooviConnector \<Rightarrow> nat \<Rightarrow> Time \<Rightarrow> publicKeyCache \<Rightarrow> (go_error + RSAKey list) \<times> publicKeyCache" where
  "getKeys parseKey a n now cache =
     (let base = wc_baseURL a; url = base @ ''/api/v1/webhook/public-keys'';
          stale = (case cache base of None \<Rightarrow> [] | Some entry \<Rightarrow> ck_keys entry) in
      if (case cache base of None \<Rightarrow> False | Some entry \<Rightarrow> now < ck_expiresAt entry) then (Inr stale, cache)
      else if \<not> cl_NewRequest (wc_client a) url then (Inl (Errorf ''invalid url''), cache)
      else case cl_Do (wc_client a) n \<lparr>hq_Method = ''GET'', hq_URL = url, hq_Header = [], hq_Body = []\<rparr> of
        Inl err \<Rightarrow> (stale_or stale (Errorf err), cache)
      | Inr response \<Rightarrow>
          if rp_StatusCode response < 200 \<or> rp_StatusCode response \<ge> 300
          then (stale_or stale (Errorf (''public keys http status '' @ Itoa (rp_StatusCode response))), cache)
          else (case decodeKeys response of
            None \<Rightarrow> (stale_or stale (Errorf ''json''), cache)
          | Some items \<Rightarrow>
              (let keys = List.map_filter parseKey items in
               if keys = [] then (stale_or stale (Errorf ''no usable woovi webhook public key''), cache)
               else (Inr keys, cache(base \<mapsto> \<lparr>ck_keys = keys, ck_expiresAt = now + wc_ttl a\<rparr>)))))"

definition verifySignature :: "RSAKey list \<Rightarrow> string \<Rightarrow> string \<Rightarrow> bool" where
  "verifySignature keys body encoded = (case StdEncoding_DecodeString encoded of
     None \<Rightarrow> False
   | Some signature \<Rightarrow> list_ex (\<lambda>key. VerifyPKCS1v15 key (Sum256 (map byte body)) signature) keys)"

record WebhookPayload =
  wp_Event :: string
  wp_Charge :: Charge

definition decodeWebhook :: "string \<Rightarrow> WebhookPayload option" where
  "decodeWebhook body = Unmarshal (dec_struct False
     [(''event'', field wp_Event (\<lambda>x p. p\<lparr>wp_Event := x\<rparr>) dec_string),
      (''charge'', field wp_Charge (\<lambda>x p. p\<lparr>wp_Charge := x\<rparr>) (dec_struct False
        [(''identifier'', field ch_Identifier (\<lambda>x c. c\<lparr>ch_Identifier := x\<rparr>) dec_string),
         (''correlationID'', field ch_CorrelationID (\<lambda>x c. c\<lparr>ch_CorrelationID := x\<rparr>) dec_string),
         (''status'', field ch_Status (\<lambda>x c. c\<lparr>ch_Status := x\<rparr>) dec_string)]))])
     \<lparr>wp_Event = [], wp_Charge = zeroCharge\<rparr> body"

definition ParseWebhook ::
  "(string \<Rightarrow> RSAKey option) \<Rightarrow> WooviConnector \<Rightarrow> nat \<Rightarrow> Time \<Rightarrow> publicKeyCache \<Rightarrow> WebhookRequest \<Rightarrow>
   (go_error + WebhookEvent) \<times> publicKeyCache" where
  "ParseWebhook parseKey a n now cache request =
     (let signature = headerValue (wr_Headers request) ''x-webhook-signature'' in
      if signature = [] then (Inl ErrInvalidWebhookSignature, cache)
      else case getKeys parseKey a n now cache of
        (Inl err, cache) \<Rightarrow> (Inl (Wrapf ''load woovi webhook keys'' err), cache)
      | (Inr keys, cache) \<Rightarrow>
          if \<not> verifySignature keys (wr_Body request) signature then (Inl ErrInvalidWebhookSignature, cache)
          else (case decodeWebhook (wr_Body request) of
            None \<Rightarrow> (Inl ErrUnsupportedWebhook, cache)
          | Some payload \<Rightarrow>
              if wp_Event payload \<noteq> ''OPENPIX:CHARGE_COMPLETED'' \<or> ch_Identifier (wp_Charge payload) = []
              then (Inl ErrUnsupportedWebhook, cache)
              else (Inr \<lparr>we_ExternalEventID = ''woovi:charge_completed:'' @ ch_Identifier (wp_Charge payload),
                we_Type = ''payment.paid'', we_ProviderPaymentID = ch_Identifier (wp_Charge payload)\<rparr>, cache)))"

section \<open>As a connector and an integration\<close>

text \<open>
  What the rest of the program sees: \<open>clock\<close> and \<open>caches\<close> give the time and the content of the key cache at
  the n-th interaction.
\<close>

record WooviEnv =
  wv_parseKey :: "string \<Rightarrow> RSAKey option"
  wv_clock :: "nat \<Rightarrow> Time"
  wv_caches :: "nat \<Rightarrow> publicKeyCache"

definition woovi_connector :: "WooviEnv \<Rightarrow> WooviConnector \<Rightarrow> Connector" where
  "woovi_connector env a = \<lparr>cn_Manifest = wooviManifest, cn_CreatePix = CreatePix a, cn_Reconcile = Reconcile a,
     cn_ParseWebhook = Some (\<lambda>n request. fst (ParseWebhook (wv_parseKey env) a n (wv_clock env n) (wv_caches env n) request))\<rparr>"

definition woovi_integration :: "WooviEnv \<Rightarrow> Factory \<Rightarrow> ConnectorIntegration" where
  "woovi_integration env f = \<lparr>ci_ConnectorFor = (\<lambda>n connection. map_sum id (woovi_connector env) (ConnectorFor f n connection)),
     ci_ValidateCredentials = ValidateCredentials f, ci_Manifest = wooviManifest\<rparr>"

section \<open>What the connector promises\<close>

lemma CreatePix_kinds: "co_Kind (CreatePix a n request) \<in> {CreateSucceeded, CreateFailedTerminal, CreateUnknown}"
  by (simp add: CreatePix_def createFailed_def classifyCreateStatus_def split: sum.split option.split)

lemma Reconcile_kinds: "ro_Kind (Reconcile a n request) \<in> {ReconcileCreated, ReconcileTerminal, ReconcileUnknown}"
  by (simp add: Reconcile_def reconcileFailed_def Let_def split: sum.split option.split)

text \<open>The answer of the provider to a request: a status, and the body as far as it is read.\<close>

definition answer :: "WooviConnector \<Rightarrow> nat \<Rightarrow> HTTPRequest \<Rightarrow> (int \<times> string) option" where
  "answer a n request = (if \<not> cl_NewRequest (wc_client a) (hq_URL request) then None
     else case cl_Do (wc_client a) n request of
       Inl err \<Rightarrow> None
     | Inr response \<Rightarrow> map_option (\<lambda>body. (rp_StatusCode response, body)) (ReadAll response))"

definition charge_of :: "(int \<times> string) option \<Rightarrow> ChargeEnvelope option" where
  "charge_of ans = (case ans of
     None \<Rightarrow> None
   | Some (status, body) \<Rightarrow> if 200 \<le> status \<and> status < 300 then
       (case decodeCharge body of None \<Rightarrow> None | Some charge \<Rightarrow> if ch_Identifier (ce_Charge charge) = [] then None else Some charge)
       else None)"

definition reconcileRequest :: "WooviConnector \<Rightarrow> ReconcileRequest \<Rightarrow> HTTPRequest" where
  "reconcileRequest a request = \<lparr>hq_Method = ''GET'', hq_URL = wc_baseURL a @ ''/api/v1/charge/'' @ PathEscape (rq_AttemptID request),
     hq_Header = authorize a, hq_Body = []\<rparr>"


end
