(* ===== verification/Charging.thy ===== *)
theory Charging
  imports Production Woovi
begin

text \<open>
  Production with its real connector: the orchestration service over PostgreSQL with Woovi as the only
  registered integration (\<open>cmd/api/main.go\<close>).

  \<open>from_registry\<close> says that the logged outcomes are answers of connectors the registry resolved; every
  operation of the service keeps it (interpretation \<open>logs\<close>), so it holds on every run.  Woovi never clears an attempt
  (theory Woovi), so in production no payment is ever charged twice, for want of a second attempt.
\<close>

section \<open>Outcomes come from the registry\<close>

definition from_registry :: "Registry \<Rightarrow> ProviderCall list \<Rightarrow> bool" where
  "from_registry r calls \<longleftrightarrow> list_all (\<lambda>call. case call of
     CallCreate conn request out \<Rightarrow> \<exists>n m k. rg_Resolve r n conn = Inr k \<and> out = cn_CreatePix k m request
   | CallReconcile conn request out \<Rightarrow> \<exists>n m k. rg_Resolve r n conn = Inr k \<and> out = cn_Reconcile k m request) calls"

interpretation logs: service_relation "\<lambda>w w'. from_registry (sv_providers sv) (w_calls w) \<longrightarrow> from_registry (sv_providers sv) (w_calls w')" sv
  for sv
  by unfold_locales
    (auto simp: along_def run_store_def step_tick_def callCreatePix_def callReconcile_def Let_def from_registry_def split: prod.split)

lemma reachable_logs:
  "reachable sv admin w0 w \<Longrightarrow> from_registry (sv_providers sv) (w_calls w0) \<Longrightarrow> from_registry (sv_providers sv) (w_calls w)"
  using logs.along_reachable [of sv admin w0 w] by simp

section \<open>Woovi never clears an attempt\<close>

definition woovi_registry :: "WooviEnv \<Rightarrow> Factory \<Rightarrow> Registry" where
  "woovi_registry env f = ConnectorRegistry_registry [(Key, woovi_integration env f)]"

lemma woovi_resolves: "rg_Resolve (woovi_registry env f) n conn = Inr k \<Longrightarrow> \<exists>a. k = woovi_connector env a"
  by (auto simp: woovi_registry_def ConnectorRegistry_registry_def ConnectorRegistry_Resolve_def woovi_integration_def
      map_sum_def split: if_splits sum.splits)

lemma woovi_never_clears: "from_registry (woovi_registry env f) calls \<Longrightarrow> \<not> cleared calls aid"
proof -
  assume r: "from_registry (woovi_registry env f) calls"
  have "\<not> clears aid call" if mem: "call \<in> set calls" for call
  proof (cases call)
    case (CallCreate conn request out)
    then obtain n m k where k: "rg_Resolve (woovi_registry env f) n conn = Inr k" "out = cn_CreatePix k m request"
      using bspec [OF r [unfolded from_registry_def list_all_iff] mem] by auto
    obtain a where "k = woovi_connector env a" using woovi_resolves [OF k(1)] by blast
    then have "out = CreatePix a m request" using k(2) by (simp add: woovi_connector_def)
    then show ?thesis using CreatePix_kinds [of a m request] CallCreate by auto
  next
    case (CallReconcile conn request out)
    then obtain n m k where k: "rg_Resolve (woovi_registry env f) n conn = Inr k" "out = cn_Reconcile k m request"
      using bspec [OF r [unfolded from_registry_def list_all_iff] mem] by auto
    obtain a where "k = woovi_connector env a" using woovi_resolves [OF k(1)] by blast
    then have "out = Reconcile a m request" using k(2) by (simp add: woovi_connector_def)
    then show ?thesis using Reconcile_kinds [of a m request] CallReconcile by auto
  qed
  then show ?thesis by (simp add: cleared_def list_ex_iff)
qed

lemma uncleared_creates: "safe_trace calls \<Longrightarrow> (\<And>aid. \<not> cleared calls aid) \<Longrightarrow> length (creates_for pid calls) \<le> 1"
proof (induction pid calls rule: creates_for.induct)
  case (2 pid c request out calls)
  have no: "\<not> cleared calls aid" for aid using 2(3) [of aid] by (simp add: cleared_def)
  then have "creates_for (cq_PaymentIntentID request) calls = []" using 2(2) by (cases "creates_for (cq_PaymentIntentID request) calls") auto
  then show ?case using 2 no by auto
next
  case (3 pid c request out calls)
  then show ?case by (auto simp: cleared_def)
qed simp

lemma uncleared_attempts:
  assumes l: "list_ok v pid" and t: "trace_ok v calls" and no: "\<And>aid. \<not> cleared calls aid"
  shows "length (v_attIDs v pid) \<le> 1"
proof (rule ccontr)
  assume "\<not> length (v_attIDs v pid) \<le> 1"
  then obtain i j r where ids: "v_attIDs v pid = i # j # r" by (metis One_nat_def le_Suc_eq length_Cons list.exhaust list.size(3) zero_le_one)
  obtain a where a: "v_att v i = Some a" using l ids by (auto simp: list_ok_def)
  then have "a \<in> set (butlast (atts v pid))" by (simp add: atts_def ids)
  then have "aa_Status a = AttemptStatusFailedSafe" using l by (simp add: list_ok_def)
  then show False using t a no by (auto simp: trace_ok_def)
qed

lemma single_not_recovered: "rec_ok as rs p \<Longrightarrow> length as \<le> 1 \<Longrightarrow> \<not> ap_Recovered p \<and> ap_RecoveredAmount p = 0"
  by (cases as) (auto simp: rec_ok_def recovery_for_def)

section \<open>Properties\<close>

text \<open>A factory and a request for the witness: every exchange ends with status 500.\<close>

definition sample_factory :: Factory where
  "sample_factory = \<lparr>wf_credentials = (\<lambda>_ _. Inr ''sealed''), wf_cipher = (\<lambda>_. Inr (map byte (json_braces [(''app_id'', json_string ''app'')]))),
     wf_client = \<lparr>cl_NewRequest = (\<lambda>_. True), cl_Do = (\<lambda>_ _. Inr \<lparr>rp_StatusCode = 500, rp_Body = [], rp_Broken = False\<rparr>)\<rparr>,
     wf_production = ''https://api.woovi.com'', wf_sandbox = ''https://api.woovi-sandbox.com'', wf_ttl = hour\<rparr>"

definition sample_env :: WooviEnv where
  "sample_env = \<lparr>wv_parseKey = (\<lambda>_. None), wv_clock = (\<lambda>n. int n * second), wv_caches = (\<lambda>_. Map.empty)\<rparr>"

definition woovi_service :: "PgDB Service" where
  "woovi_service = demo_pg_service\<lparr>sv_providers := woovi_registry sample_env sample_factory\<rparr>"

definition woovi_created :: "PgDB world" where
  "woovi_created = snd (CreatePayment woovi_service demo_request ((pg_start 0)\<lparr>w_store :=
     empty_db\<lparr>db_connections := [(demo_connection ''a'' 1 CircuitClosed)\<lparr>pc_ProviderKey := Key\<rparr>]\<rparr>\<rparr>))"

lemma woovi_run: "pg_run demo_lib (\<lambda>_. hd) demo_telemetry woovi_service woovi_created"
proof -
  let ?db = "empty_db\<lparr>db_connections := [(demo_connection ''a'' 1 CircuitClosed)\<lparr>pc_ProviderKey := Key\<rparr>]\<rparr>"
  have "service_step woovi_service pg_admin (pg_start 0) ((pg_start 0)\<lparr>w_store := ?db\<rparr>)"
    by (rule service_step.administer) (simp add: pg_admin_def same_core_def pg_start_def empty_db_def)
  then have "reachable woovi_service pg_admin (pg_start 0) ((pg_start 0)\<lparr>w_store := ?db\<rparr>)"
    by (rule reachable.step [OF reachable.start])
  then have "reachable woovi_service pg_admin (pg_start 0) woovi_created"
    unfolding woovi_created_def by (rule reachable.step [OF _ service_step.create])
  moreover have "no_collision woovi_service w" for w
    by (simp add: no_collision_def woovi_service_def demo_pg_service_def NewService_def demo_ids_unique)
  moreover have "pg_service demo_lib (\<lambda>_. hd) demo_telemetry woovi_service"
    using demo_pg_service by (simp add: pg_service_def woovi_service_def)
  ultimately show ?thesis unfolding pg_run_def by blast
qed

lemma pg_run_logs:
  assumes "pg_run lib percentile_cont opts sv w"
  shows "from_registry (sv_providers sv) (w_calls w)"
proof -
  obtain n where "reachable sv pg_admin (pg_start n) w" using assms by (auto simp: pg_run_def)
  then show ?thesis by (rule reachable_logs) (simp add: pg_start_def from_registry_def)
qed

text \<open>A run in which no provider cleared an attempt.\<close>

lemma uncleared_once:
  assumes "pg_run lib percentile_cont opts sv w" and no: "\<And>aid. \<not> cleared (w_calls w) aid"
  shows "length (creates_for pid (w_calls w)) \<le> 1 \<and>
    length (filter (\<lambda>a. pa_PaymentIntentID a = pid) (db_attempts (w_store w))) \<le> 1 \<and>
    (case find (\<lambda>p. pi_ID p = pid) (db_payments (w_store w)) of None \<Rightarrow> True | Some p \<Rightarrow> \<not> pi_Recovered p \<and> pi_RecoveredAmount p = 0)"
proof -
  let ?v = "pg_view (w_store w)"
  note I = pg_run_inv [OF assms(1)]
  have T: "trace_ok ?v (w_calls w)" by (rule invD(9) [OF I])
  have one: "length (v_attIDs ?v pid) \<le> 1" by (rule uncleared_attempts [OF invD(2) [OF I] T no])
  have "length (creates_for pid (w_calls w)) \<le> 1"
    using T no by (intro uncleared_creates) (simp_all add: trace_ok_def)
  moreover have "length (filter (\<lambda>a. pa_PaymentIntentID a = pid) (db_attempts (w_store w))) \<le> 1"
    using one by (simp add: pg_view_def attempts_of_def)
  moreover have "\<not> pi_Recovered p \<and> pi_RecoveredAmount p = 0" if "find (\<lambda>p. pi_ID p = pid) (db_payments (w_store w)) = Some p" for p
  proof -
    have "v_pay ?v pid = Some (abs_pay pix_row p)" using that by (simp add: pg_view_pay)
    from single_not_recovered [OF invD(5) [OF I this]] one show ?thesis by (simp add: atts_def abs_pay_def)
  qed
  ultimately show ?thesis by (simp split: option.split)
qed

text \<open>
  With Woovi as the only provider, as the program is wired, a payment is never charged twice: in every
  production run at most one Pix creation is ever requested for a payment, it has at most one attempt,
  no matter how often it is retried or reconciled, and it is never counted as recovered.
\<close>

lemma woovi_charges_once:
  assumes "pg_run lib percentile_cont opts sv w" and "sv_providers sv = woovi_registry env f"
  shows "length (creates_for pid (w_calls w)) \<le> 1 \<and>
    length (filter (\<lambda>a. pa_PaymentIntentID a = pid) (db_attempts (w_store w))) \<le> 1 \<and>
    (case find (\<lambda>p. pi_ID p = pid) (db_payments (w_store w)) of None \<Rightarrow> True | Some p \<Rightarrow> \<not> pi_Recovered p \<and> pi_RecoveredAmount p = 0)"
  using pg_run_logs [OF assms(1)] woovi_never_clears assms(2) by (intro uncleared_once [OF assms(1)]) simp

end
