(* ===== verification/Connections.thy ===== *)
theory Connections
  imports Charging
begin

text \<open>
  Provider connections: the service that a merchant configures its providers with
  (\<open>providerconnections/service.go\<close>), over any store, and the statements of
  \<open>store/postgres/provider_connections.go\<close>.

  The world is that of theory Orchestration; the validator and the cipher answer as functions of the tick.
  The property takes the service as \<open>cmd/api/main.go\<close> wires it: the PostgreSQL store, the registry with
  Woovi, and the box of the master key on both sides.
\<close>

section \<open>The service\<close>

record 's ConnectionStore =
  CreateProviderConnectionWithCredentials :: "ProviderConnection \<Rightarrow> string \<Rightarrow> Time \<Rightarrow> ('s, go_error, unit) prog"
  ct_ListProviderConnections :: "string \<Rightarrow> ('s, go_error, ProviderConnection list) prog"
  DisableProviderConnection :: "string \<Rightarrow> string \<Rightarrow> Environment \<Rightarrow> Time \<Rightarrow> ('s, go_error, unit) prog"

type_synonym Validator = "nat \<Rightarrow> string \<Rightarrow> Environment \<Rightarrow> StringMap \<Rightarrow> go_error option"

type_synonym ConnectionCipher = "nat \<Rightarrow> nat list \<Rightarrow> go_error + string"

record 's ConnectionService =
  pcs_store :: "'s ConnectionStore"
  pcs_validator :: Validator
  pcs_cipher :: ConnectionCipher
  pcs_clock :: "nat \<Rightarrow> Time"
  pcs_ids :: "nat \<Rightarrow> string \<Rightarrow> string"

record 's ConnectionOptions =
  po_Store :: "'s ConnectionStore option"
  po_Validator :: "Validator option"
  po_Cipher :: "ConnectionCipher option"
  po_Clock :: "(nat \<Rightarrow> Time) option"
  po_IDs :: "(nat \<Rightarrow> string \<Rightarrow> string) option"

definition connectionIDs_New :: "(nat \<Rightarrow> nat list) \<Rightarrow> nat \<Rightarrow> string \<Rightarrow> string" where
  "connectionIDs_New random n prefix = prefix @ ''_'' @ EncodeToString (random n)"

definition NewConnections ::
  "(nat \<Rightarrow> Time) \<Rightarrow> (nat \<Rightarrow> nat list) \<Rightarrow> 's ConnectionOptions \<Rightarrow> go_error + 's ConnectionService" where
  "NewConnections realClock random opts = (case (po_Store opts, po_Validator opts, po_Cipher opts) of
     (Some store, Some validator, Some cipher) \<Rightarrow>
       Inr \<lparr>pcs_store = store, pcs_validator = validator, pcs_cipher = cipher,
         pcs_clock = (case po_Clock opts of None \<Rightarrow> realClock | Some c \<Rightarrow> c),
         pcs_ids = (case po_IDs opts of None \<Rightarrow> connectionIDs_New random | Some i \<Rightarrow> i)\<rparr>
   | _ \<Rightarrow> Inl (Errorf ''provider connection store, validator and cipher are required''))"

record ConnectRequest =
  nr_WorkspaceID :: string
  nr_Environment :: Environment
  nr_ProviderKey :: string
  nr_Priority :: int
  nr_Credentials :: "StringMap option"

definition cloneCredentials :: "StringMap option \<Rightarrow> StringMap" where
  "cloneCredentials credentials = (case credentials of None \<Rightarrow> [] | Some m \<Rightarrow> map (\<lambda>(k, v). (k, v)) m)"

definition pcs_validate :: "'s ConnectionService \<Rightarrow> string \<Rightarrow> Environment \<Rightarrow> StringMap \<Rightarrow> ('s, unit) orch" where
  "pcs_validate sv providerKey environment credentials w =
     ((case pcs_validator sv (w_tick w) providerKey environment credentials of None \<Rightarrow> Inr () | Some err \<Rightarrow> Inl err), step_tick w)"

definition pcs_encrypt :: "'s ConnectionService \<Rightarrow> nat list \<Rightarrow> ('s, string) orch" where
  "pcs_encrypt sv plaintext w = (pcs_cipher sv (w_tick w) plaintext, step_tick w)"

definition pcs_now :: "'s ConnectionService \<Rightarrow> ('s, Time) orch" where
  "pcs_now sv w = (Inr (pcs_clock sv (w_tick w)), step_tick w)"

definition pcs_newID :: "'s ConnectionService \<Rightarrow> string \<Rightarrow> ('s, string) orch" where
  "pcs_newID sv prefix w = (Inr (pcs_ids sv (w_tick w) prefix), step_tick w)"

definition newConnection :: "string \<Rightarrow> string \<Rightarrow> string \<Rightarrow> Environment \<Rightarrow> int \<Rightarrow> ProviderConnection" where
  "newConnection i workspaceID providerKey environment priority = \<lparr>pc_ID = i, pc_WorkspaceID = workspaceID,
     pc_ProviderKey = providerKey, pc_Environment = environment, pc_Enabled = True, pc_CredentialsValid = True,
     pc_Circuit = CircuitClosed, pc_CircuitOpenedAt = None, pc_Priority = priority\<rparr>"

definition storeConnection ::
  "'s ConnectionService \<Rightarrow> ConnectRequest \<Rightarrow> string \<Rightarrow> string \<Rightarrow> nat list \<Rightarrow> ('s, ProviderConnection) orch" where
  "storeConnection sv req workspaceID providerKey plaintext =
     bindE (tryE (pcs_encrypt sv plaintext)) (\<lambda>encrypted. case encrypted of
       Inl err \<Rightarrow> throwE (Wrapf ''encrypt provider credentials'' err)
     | Inr ciphertext \<Rightarrow>
         bindE (pcs_now sv) (\<lambda>now.
         bindE (pcs_newID sv ''pc'') (\<lambda>i.
         let connection = newConnection i workspaceID providerKey (nr_Environment req) (nr_Priority req) in
         bindE (run_store (CreateProviderConnectionWithCredentials (pcs_store sv) connection ciphertext now)) (\<lambda>_.
         returnE connection))))"

definition Connect :: "'s ConnectionService \<Rightarrow> ConnectRequest \<Rightarrow> ('s, ProviderConnection) orch" where
  "Connect sv req =
     (let workspaceID = TrimSpace (nr_WorkspaceID req); providerKey = ToLower (TrimSpace (nr_ProviderKey req)) in
      if workspaceID = [] \<or> providerKey = [] \<or> nr_Priority req < 0
      then throwE (Errorf ''invalid provider connection request'')
      else if nr_Environment req \<noteq> EnvironmentTest \<and> nr_Environment req \<noteq> EnvironmentLive
      then throwE (Errorf ''invalid provider environment'')
      else bindE (pcs_validate sv providerKey (nr_Environment req) (cloneCredentials (nr_Credentials req))) (\<lambda>_.
      case Marshal (json_string_map (nr_Credentials req)) of
        None \<Rightarrow> throwE (Wrapf ''marshal provider credentials'' (Errorf ''json: unsupported value''))
      | Some plaintext \<Rightarrow> storeConnection sv req workspaceID providerKey (map byte plaintext)))"

definition ListConnections :: "'s ConnectionService \<Rightarrow> string \<Rightarrow> Environment \<Rightarrow> ('s, ProviderConnection list) orch" where
  "ListConnections sv workspaceID environment =
     bindE (run_store (ct_ListProviderConnections (pcs_store sv) workspaceID)) (\<lambda>connections.
     returnE (filter (\<lambda>c. pc_Environment c = environment) connections))"

definition DisableConnection :: "'s ConnectionService \<Rightarrow> string \<Rightarrow> string \<Rightarrow> Environment \<Rightarrow> ('s, unit) orch" where
  "DisableConnection sv workspaceID connectionID environment = bindE (pcs_now sv) (\<lambda>now.
     run_store (DisableProviderConnection (pcs_store sv) workspaceID connectionID environment now))"

lemma cloneCredentials_Some [simp]: "cloneCredentials (Some m) = m"
  by (simp add: cloneCredentials_def split_def)

section \<open>The statements (provider_connections.go)\<close>

definition insertConnection :: "ProviderConnection \<Rightarrow> unit sql" where
  "insertConnection connection = statement (Wrapf ''insert provider connection'') (\<lambda>db.
     if exists_connection db (pc_ID connection) \<or> pc_Environment connection \<notin> {EnvironmentTest, EnvironmentLive} \<or>
        pc_Circuit connection \<notin> {CircuitClosed, CircuitOpen, CircuitHalfOpen} \<or>
        pc_Priority connection < 0 \<or> 2 ^ 31 \<le> pc_Priority connection
     then constraint (Wrapf ''insert provider connection'') db
     else (Inr (), db\<lparr>db_connections := db_connections db @ [connection\<lparr>pc_CircuitOpenedAt := None\<rparr>]\<rparr>))"

definition insertCredentials :: "string \<Rightarrow> string \<Rightarrow> unit sql" where
  "insertCredentials connectionID ciphertext = statement (Wrapf ''insert provider credentials'') (\<lambda>db.
     if map_of (db_credentials db) connectionID \<noteq> None \<or> \<not> exists_connection db connectionID
     then constraint (Wrapf ''insert provider credentials'') db
     else (Inr (), db\<lparr>db_credentials := db_credentials db @ [(connectionID, ciphertext)]\<rparr>))"

definition pg_CreateProviderConnectionWithCredentials :: "ProviderConnection \<Rightarrow> string \<Rightarrow> Time \<Rightarrow> unit sql" where
  "pg_CreateProviderConnectionWithCredentials connection ciphertext validatedAt =
     transaction (Wrapf ''begin provider connection transaction'') (Wrapf ''commit provider connection'')
       (bindE (insertConnection connection) (\<lambda>_. insertCredentials (pc_ID connection) ciphertext))"

definition pg_GetProviderCredentialCiphertext :: "string \<Rightarrow> string sql" where
  "pg_GetProviderCredentialCiphertext connectionID = statement id (\<lambda>db.
     mapNotFound (map_of (db_credentials db) connectionID) db)"

definition pg_DisableProviderConnection :: "string \<Rightarrow> string \<Rightarrow> Environment \<Rightarrow> Time \<Rightarrow> unit sql" where
  "pg_DisableProviderConnection workspaceID connectionID environment updatedAt =
     statement (Wrapf ''disable provider connection'') (\<lambda>db.
       let here = (\<lambda>c. pc_ID c = connectionID \<and> pc_WorkspaceID c = workspaceID \<and> pc_Environment c = environment) in
       if \<not> list_ex here (db_connections db) then (Inl ErrNotFound, db)
       else (Inr (), db\<lparr>db_connections := update_first here (\<lambda>c. c\<lparr>pc_Enabled := False\<rparr>) (db_connections db)\<rparr>))"

definition pg_connections :: "PgDB ConnectionStore" where
  "pg_connections = \<lparr>CreateProviderConnectionWithCredentials = pg_CreateProviderConnectionWithCredentials,
     ct_ListProviderConnections = pg_ListProviderConnections,
     DisableProviderConnection = pg_DisableProviderConnection\<rparr>"

section \<open>What the service asks of its store\<close>

text \<open>\<open>saved s i\<close> is the connection \<open>i\<close> and its ciphertext; \<open>ok\<close> is an invariant of the store.\<close>

locale connection_store =
  fixes store :: "'s ConnectionStore"
    and ok :: "'s \<Rightarrow> bool"
    and saved :: "'s \<Rightarrow> string \<Rightarrow> ProviderConnection option \<times> string option"
  assumes create: "ok s \<Longrightarrow> pc_CircuitOpenedAt c = None \<Longrightarrow>
      CreateProviderConnectionWithCredentials store c ct t s = (Inr u, s') \<Longrightarrow>
      ok s' \<and> saved s (pc_ID c) = (None, None) \<and> saved s' = (saved s)(pc_ID c := (Some c, Some ct))"
    and create_error: "ok s \<Longrightarrow> CreateProviderConnectionWithCredentials store c ct t s = (Inl e, s') \<Longrightarrow> ok s' \<and> saved s' = saved s"
    and disable: "ok s \<Longrightarrow> DisableProviderConnection store ws i env t s = (Inr u, s') \<Longrightarrow>
      ok s' \<and> (\<exists>c ct. saved s i = (Some c, ct) \<and> pc_WorkspaceID c = ws \<and> pc_Environment c = env \<and>
        saved s' = (saved s)(i := (Some (c\<lparr>pc_Enabled := False\<rparr>), ct)))"
    and disable_error: "ok s \<Longrightarrow> DisableProviderConnection store ws i env t s = (Inl e, s') \<Longrightarrow> ok s' \<and> saved s' = saved s"
begin

lemma connect_saves:
  assumes "pcs_store sv = store" and "ok (w_store w)" and "Connect sv req w = (Inr c, w')"
  obtains plaintext ct where
    "pcs_validator sv (w_tick w) (pc_ProviderKey c) (nr_Environment req) (cloneCredentials (nr_Credentials req)) = None"
    and "Marshal (json_string_map (nr_Credentials req)) = Some plaintext"
    and "pcs_cipher sv (Suc (w_tick w)) (map byte plaintext) = Inr ct"
    and "c = newConnection (pc_ID c) (TrimSpace (nr_WorkspaceID req)) (ToLower (TrimSpace (nr_ProviderKey req)))
      (nr_Environment req) (nr_Priority req)"
    and "saved (w_store w) (pc_ID c) = (None, None)"
    and "saved (w_store w') = (saved (w_store w))(pc_ID c := (Some c, Some ct))"
    and "ok (w_store w')"
    and "w_calls w' = w_calls w"
proof -
  let ?ws = "TrimSpace (nr_WorkspaceID req)" and ?key = "ToLower (TrimSpace (nr_ProviderKey req))"
  from assms(3) obtain plaintext w1 where v: "pcs_validator sv (w_tick w) ?key (nr_Environment req) (cloneCredentials (nr_Credentials req)) = None"
    and p: "Marshal (json_string_map (nr_Credentials req)) = Some plaintext"
    and s: "storeConnection sv req ?ws ?key (map byte plaintext) (step_tick w) = (Inr c, w')"
    by (auto simp: Connect_def Let_def pcs_validate_def throwE_def elim!: bindE_InrE split: if_splits option.splits)
  from s obtain ct where e: "pcs_cipher sv (Suc (w_tick w)) (map byte plaintext) = Inr ct"
    by (cases "pcs_cipher sv (Suc (w_tick w)) (map byte plaintext)")
      (auto simp: storeConnection_def bindE_def tryE_def pcs_encrypt_def step_tick_def throwE_def)
  from s e obtain i now s' u where c: "c = newConnection i ?ws ?key (nr_Environment req) (nr_Priority req)"
    and st: "CreateProviderConnectionWithCredentials store c ct now (w_store w) = (Inr u, s')" and w': "w_store w' = s'" "w_calls w' = w_calls w"
    by (auto simp: storeConnection_def bindE_def tryE_def pcs_encrypt_def step_tick_def pcs_now_def pcs_newID_def run_store_def
        returnE_def assms(1) Let_def split: sum.splits prod.splits)
  have "pc_CircuitOpenedAt c = None" by (simp add: c newConnection_def)
  from create [OF assms(2) this st] show thesis
    using that [of plaintext ct] v p e c w' by (simp add: newConnection_def)
qed

lemma connect_error:
  assumes "pcs_store sv = store" and "ok (w_store w)" and "Connect sv req w = (Inl e, w')"
  shows "ok (w_store w') \<and> saved (w_store w') = saved (w_store w) \<and> w_calls w' = w_calls w"
proof -
  let ?R = "\<lambda>_ w'. ok (w_store w') \<and> saved (w_store w') = saved (w_store w) \<and> w_calls w' = w_calls w"
  have create: "wp (run_store (CreateProviderConnectionWithCredentials store c ct t)) (\<lambda>x. wp (returnE y) (\<lambda>_ _. True) ?R) ?R w1"
    if "w_store w1 = w_store w" "w_calls w1 = w_calls w" for c ct t y w1
    using create_error [of "w_store w1"] assms(2) that
    by (auto simp: wp_def run_store_def returnE_def split: prod.split sum.split)
  have "wp (Connect sv req) (\<lambda>_ _. True) ?R w"
    unfolding Connect_def storeConnection_def Let_def
    by (auto simp: wp_simps wp_def [of "pcs_validate sv _ _ _"] wp_def [of "pcs_encrypt sv _"] wp_def [of "pcs_now sv"]
        wp_def [of "pcs_newID sv _"] pcs_validate_def pcs_encrypt_def pcs_now_def pcs_newID_def step_tick_def assms
        intro!: create split: option.split sum.split)
  then show ?thesis using assms(3) by (rule wp_Inl)
qed

lemma disable_own:
  assumes "pcs_store sv = store" and "ok (w_store w)" and "DisableConnection sv ws i env w = (r, w')"
  shows "ok (w_store w') \<and> (case r of Inl e \<Rightarrow> saved (w_store w') = saved (w_store w)
    | Inr u \<Rightarrow> \<exists>c ct. saved (w_store w) i = (Some c, ct) \<and> pc_WorkspaceID c = ws \<and> pc_Environment c = env \<and>
        saved (w_store w') = (saved (w_store w))(i := (Some (c\<lparr>pc_Enabled := False\<rparr>), ct)))"
proof -
  from assms(3) obtain t where "DisableProviderConnection store ws i env t (w_store w) = (r, w_store w')"
    by (auto simp: DisableConnection_def bindE_def pcs_now_def run_store_def step_tick_def assms(1) split: prod.splits)
  then show ?thesis
    using disable [OF assms(2), of ws i env t _ "w_store w'"] disable_error [OF assms(2), of ws i env t _ "w_store w'"]
    by (cases r) auto
qed

end

definition pg_saved :: "PgDB \<Rightarrow> string \<Rightarrow> ProviderConnection option \<times> string option" where
  "pg_saved db i = (find (\<lambda>c. pc_ID c = i) (db_connections db), map_of (db_credentials db) i)"

definition connection_keys :: "PgDB \<Rightarrow> bool" where
  "connection_keys db \<longleftrightarrow> distinct (map pc_ID (db_connections db))"

lemma pg_saved_cong:
  assumes "tables db' = tables db"
  shows "pg_saved db' = pg_saved db" and "connection_keys db' = connection_keys db"
  using tables_eqD(1,2) [OF assms] by (simp_all add: pg_saved_def connection_keys_def fun_eq_iff)

lemma pg_saved_faults [simp]: "pg_saved (db\<lparr>db_faults := fs\<rparr>) = pg_saved db" "connection_keys (db\<lparr>db_faults := fs\<rparr>) = connection_keys db"
  by (rule pg_saved_cong, simp)+

lemma insertConnection_value:
  assumes "insertConnection c db = (Inr u, db')" and "pc_CircuitOpenedAt c = None"
  shows "\<not> exists_connection db (pc_ID c)" and "db_connections db' = db_connections db @ [c]"
    and "db_credentials db' = db_credentials db"
proof -
  have [simp]: "c\<lparr>pc_CircuitOpenedAt := None\<rparr> = c" using assms(2) by simp
  note st = statement_Inr [OF assms(1) [unfolded insertConnection_def]]
  show "\<not> exists_connection db (pc_ID c)" "db_connections db' = db_connections db @ [c]" "db_credentials db' = db_credentials db"
    using st by (auto simp: constraint_def throwE_def exists_connection_def split: if_splits)
qed

lemma insertCredentials_value:
  assumes "insertCredentials i ct db = (Inr u, db')"
  shows "map_of (db_credentials db) i = None" and "db_credentials db' = db_credentials db @ [(i, ct)]"
    and "db_connections db' = db_connections db"
  using statement_Inr [OF assms [unfolded insertCredentials_def]]
  by (auto simp: constraint_def throwE_def split: if_splits)

lemma pg_create_saved:
  assumes "connection_keys db" and "pc_CircuitOpenedAt c = None"
    and "pg_CreateProviderConnectionWithCredentials c ct t db = (Inr u, db')"
  shows "connection_keys db' \<and> pg_saved db (pc_ID c) = (None, None) \<and> pg_saved db' = (pg_saved db)(pc_ID c := (Some c, Some ct))"
proof -
  obtain fs fs' db2 where m: "bindE (insertConnection c) (\<lambda>_. insertCredentials (pc_ID c) ct) (db\<lparr>db_faults := fs\<rparr>) = (Inr u, db2)"
    and db': "db' = db2\<lparr>db_faults := fs'\<rparr>"
    using assms(3) unfolding pg_CreateProviderConnectionWithCredentials_def by (rule transaction_Inr)
  from m obtain x db1 where m1: "insertConnection c (db\<lparr>db_faults := fs\<rparr>) = (Inr x, db1)" and m2: "insertCredentials (pc_ID c) ct db1 = (Inr u, db2)"
    by (rule bindE_InrE)
  have con: "db_connections db' = db_connections db @ [c]" and cred: "db_credentials db' = db_credentials db @ [(pc_ID c, ct)]"
    and no: "map_of (db_credentials db) (pc_ID c) = None" and new: "pc_ID c \<notin> pc_ID ` set (db_connections db)"
    using insertConnection_value [OF m1 assms(2)] insertCredentials_value [OF m2]
    by (auto simp: db' exists_connection_def list_ex_iff)
  have none: "find (\<lambda>x. pc_ID x = pc_ID c) (db_connections db) = None"
    using insertConnection_value(1) [OF m1 assms(2)] by (simp add: find_None_ex exists_connection_def)
  have "find (\<lambda>x. pc_ID x = i) (db_connections db @ [c]) =
      (if i = pc_ID c then Some c else find (\<lambda>x. pc_ID x = i) (db_connections db))" for i
    using none by (cases "i = pc_ID c") (simp_all add: find_append split: option.split)
  moreover have "map_of (db_credentials db @ [(pc_ID c, ct)]) i = (if i = pc_ID c then Some ct else map_of (db_credentials db) i)" for i
    using no by (simp add: map_add_def split: option.split)
  ultimately show ?thesis
    using assms(1) no new none by (simp add: pg_saved_def connection_keys_def fun_eq_iff con cred)
qed

lemma pg_disable_saved:
  assumes "connection_keys db" and "pg_DisableProviderConnection ws i env t db = (Inr u, db')"
  shows "connection_keys db' \<and> (\<exists>c ct. pg_saved db i = (Some c, ct) \<and> pc_WorkspaceID c = ws \<and> pc_Environment c = env \<and>
    pg_saved db' = (pg_saved db)(i := (Some (c\<lparr>pc_Enabled := False\<rparr>), ct)))"
proof -
  let ?here = "\<lambda>c. pc_ID c = i \<and> pc_WorkspaceID c = ws \<and> pc_Environment c = env"
  have some: "list_ex ?here (db_connections db)"
    and con: "db_connections db' = update_first ?here (\<lambda>c. c\<lparr>pc_Enabled := False\<rparr>) (db_connections db)"
    and cred: "db_credentials db' = db_credentials db"
    using statement_Inr [OF assms(2) [unfolded pg_DisableProviderConnection_def]] by (auto simp: Let_def split: if_splits)
  then obtain c where c: "c \<in> set (db_connections db)" "?here c" by (auto simp: list_ex_iff)
  have d: "distinct (map pc_ID (db_connections db))" using assms(1) by (simp add: connection_keys_def)
  have here: "?here x \<longleftrightarrow> pc_ID x = i" if "x \<in> set (db_connections db)" for x
    using c that d by (metis (mono_tags, lifting) distinct_map inj_on_eq_iff)
  have same: "update_first ?here f xs = update_first (\<lambda>x. pc_ID x = i) f xs" if "set xs \<subseteq> set (db_connections db)" for xs f
    using that here by (induction xs) auto
  obtain c' where c': "find (\<lambda>x. pc_ID x = i) (db_connections db) = Some c'"
    using c by (cases "find (\<lambda>x. pc_ID x = i) (db_connections db)") (auto simp: find_None_iff)
  then have own: "?here c'" using here find_Some_iff2 [OF c'] by blast
  have "map pc_ID (db_connections db') = map pc_ID (db_connections db)" unfolding con by (rule update_first_map) simp
  then have keys: "connection_keys db'" using d by (simp add: connection_keys_def)
  have "pg_saved db' j = ((pg_saved db)(i := (Some (c'\<lparr>pc_Enabled := False\<rparr>), map_of (db_credentials db) i))) j" for j
    using c' by (simp add: pg_saved_def con cred same find_update_key [where key = pc_ID] option.map_ident)
  moreover have "pg_saved db i = (Some c', map_of (db_credentials db) i)" using c' by (simp add: pg_saved_def)
  ultimately show ?thesis using keys own by blast
qed

interpretation pg_con: connection_store pg_connections connection_keys pg_saved
proof
  fix s s' :: PgDB and c ct t u e ws i env
  show "connection_keys s \<Longrightarrow> pc_CircuitOpenedAt c = None \<Longrightarrow>
      CreateProviderConnectionWithCredentials pg_connections c ct t s = (Inr u, s') \<Longrightarrow>
      connection_keys s' \<and> pg_saved s (pc_ID c) = (None, None) \<and> pg_saved s' = (pg_saved s)(pc_ID c := (Some c, Some ct))"
    by (simp add: pg_connections_def pg_create_saved)
  have "keeps_tables (pg_CreateProviderConnectionWithCredentials c ct t)"
    unfolding pg_CreateProviderConnectionWithCredentials_def by (rule keeps_transaction)
  then show "connection_keys s \<Longrightarrow> CreateProviderConnectionWithCredentials pg_connections c ct t s = (Inl e, s') \<Longrightarrow>
      connection_keys s' \<and> pg_saved s' = pg_saved s"
    unfolding keeps_tables_def using pg_saved_cong [of s' s] by (simp add: pg_connections_def)
  show "connection_keys s \<Longrightarrow> DisableProviderConnection pg_connections ws i env t s = (Inr u, s') \<Longrightarrow>
      connection_keys s' \<and> (\<exists>c ct. pg_saved s i = (Some c, ct) \<and> pc_WorkspaceID c = ws \<and> pc_Environment c = env \<and>
        pg_saved s' = (pg_saved s)(i := (Some (c\<lparr>pc_Enabled := False\<rparr>), ct)))"
    by (simp add: pg_connections_def pg_disable_saved)
  have "keeps_tables (pg_DisableProviderConnection ws i env t)"
    unfolding pg_DisableProviderConnection_def by (rule keeps_statement) (auto simp: keeps_tables_def Let_def split: if_splits)
  then show "connection_keys s \<Longrightarrow> DisableProviderConnection pg_connections ws i env t s = (Inl e, s') \<Longrightarrow>
      connection_keys s' \<and> pg_saved s' = pg_saved s"
    unfolding keeps_tables_def using pg_saved_cong [of s' s] by (simp add: pg_connections_def)
qed

section \<open>Credentials from the merchant to the connector\<close>

text \<open>The options of \<open>cmd/api/main.go\<close>; \<open>entropy n\<close> is the random source at the n-th interaction.\<close>

definition main_connections ::
  "Box \<Rightarrow> (nat \<Rightarrow> nat \<Rightarrow> go_error + nat list) \<Rightarrow> WooviEnv \<Rightarrow> Factory \<Rightarrow> PgDB ConnectionOptions" where
  "main_connections box entropy env f = \<lparr>po_Store = Some pg_connections,
     po_Validator = Some (ConnectorRegistry_ValidateCredentials [(Key, woovi_integration env f)]),
     po_Cipher = Some (\<lambda>n plaintext. Encrypt box (entropy n) plaintext), po_Clock = None, po_IDs = None\<rparr>"

text \<open>The factory's credential reader is the store (here without a failing statement).\<close>

definition reads_from :: "PgDB \<Rightarrow> Factory \<Rightarrow> Factory" where
  "reads_from db f = f\<lparr>wf_credentials := \<lambda>n i. fst (pg_GetProviderCredentialCiphertext i (db\<lparr>db_faults := []\<rparr>))\<rparr>"

lemma string_bytes: "map char_of (map byte s) = s"
  by (induction s) simp_all

lemma byte_range: "list_all (\<lambda>b. b < 256) (map byte s)"
  by (simp add: list_all_iff)

lemma connector_reads:
  assumes "map_of (db_credentials db) (pc_ID c) = Some ct" and "wf_cipher f ct = Inr (map byte s)"
    and "Unmarshal dec_string_map None s = Some (Some ps')" and "TrimSpace (credential ps' ''app_id'') \<noteq> []"
  shows "ConnectorFor (reads_from db f) n c = Inr \<lparr>wc_appID = TrimSpace (credential ps' ''app_id''),
    wc_baseURL = baseURL f (pc_Environment c), wc_client = wf_client f, wc_ttl = wf_ttl f\<rparr>"
proof -
  have "fst (pg_GetProviderCredentialCiphertext (pc_ID c) (db\<lparr>db_faults := []\<rparr>)) = Inr ct"
    using assms(1) by (simp add: pg_GetProviderCredentialCiphertext_def statement_no_faults mapNotFound_def returnE_def)
  then show ?thesis
    using assms(2,3,4) by (simp add: ConnectorFor_def reads_from_def string_bytes baseURL_def Let_def)
qed

text \<open>
  C15.  Credentials survive the way from the merchant to the connector: when \<open>Connect\<close> succeeds, the provider
  has accepted the credentials, exactly one enabled connection with a fresh id is added for the workspace
  and the environment of the request, nothing else of the connections changes, and the connector that the
  factory builds for it from the encrypted row carries the merchant's app id and talks to the provider
  of that environment; when \<open>Connect\<close> fails, no connection and no credential is stored.
\<close>

theorem connect_roundtrip:
  assumes "NewBase64 masterKey = Inr box" and "\<And>n. fills (entropy n)" and "wf_cipher f = Decrypt box"
    and "NewConnections clock random (main_connections box entropy env f) = Inr sv"
    and "nr_Credentials req = Some ps" and "utf8_pairs ps" and "distinct (map fst ps)"
    and "connection_keys (w_store w)"
  shows "case Connect sv req w of
      (Inl e, w') \<Rightarrow> pg_saved (w_store w') = pg_saved (w_store w)
    | (Inr c, w') \<Rightarrow>
        ValidateCredentials f (w_tick w) (nr_Environment req) ps = None \<and>
        pg_saved (w_store w) (pc_ID c) = (None, None) \<and>
        (\<exists>ct. pg_saved (w_store w') = (pg_saved (w_store w))(pc_ID c := (Some c, Some ct))) \<and>
        pc_WorkspaceID c = TrimSpace (nr_WorkspaceID req) \<and> pc_Environment c = nr_Environment req \<and> pc_Enabled c \<and>
        ConnectorFor (reads_from (w_store w') f) n c = Inr \<lparr>wc_appID = TrimSpace (credential ps ''app_id''),
          wc_baseURL = baseURL f (nr_Environment req), wc_client = wf_client f, wc_ttl = wf_ttl f\<rparr>"
proof -
  have sv: "pcs_store sv = pg_connections" "pcs_validator sv = ConnectorRegistry_ValidateCredentials [(Key, woovi_integration env f)]"
    "pcs_cipher sv = (\<lambda>n. Encrypt box (entropy n))"
    using assms(4) by (auto simp: NewConnections_def main_connections_def)
  show ?thesis
  proof (cases "fst (Connect sv req w)")
    case (Inl e)
    then obtain w' where "Connect sv req w = (Inl e, w')" by (metis prod.collapse)
    then show ?thesis using pg_con.connect_error [OF sv(1) assms(8)] by simp
  next
    case (Inr c)
    then obtain w' where run: "Connect sv req w = (Inr c, w')" by (metis prod.collapse)
    obtain s ct where
      valid: "ConnectorRegistry_ValidateCredentials [(Key, woovi_integration env f)] (w_tick w) (pc_ProviderKey c) (nr_Environment req) ps = None"
      and s: "Marshal (json_string_map (Some ps)) = Some s" and ct: "Encrypt box (entropy (Suc (w_tick w))) (map byte s) = Inr ct"
      and c: "c = newConnection (pc_ID c) (TrimSpace (nr_WorkspaceID req)) (ToLower (TrimSpace (nr_ProviderKey req)))
        (nr_Environment req) (nr_Priority req)"
      and new: "pg_saved (w_store w) (pc_ID c) = (None, None)"
      and saved: "pg_saved (w_store w') = (pg_saved (w_store w))(pc_ID c := (Some c, Some ct))"
      by (rule pg_con.connect_saves [OF sv(1) assms(8) run, unfolded sv assms(5) cloneCredentials_Some]) (rule that; assumption)
    have valid: "ValidateCredentials f (w_tick w) (nr_Environment req) ps = None"
      using valid by (simp add: ConnectorRegistry_ValidateCredentials_def woovi_integration_def split: if_splits)
    then have app: "TrimSpace (credential ps ''app_id'') \<noteq> []" by (auto simp: ValidateCredentials_def)
    obtain ps' where ps': "Unmarshal dec_string_map None s = Some (Some ps')" "map_of ps' = map_of ps"
      using string_map_roundtrip [OF assms(6,7)] s by auto
    have same: "credential ps' = credential ps" by (simp add: credential_def fun_eq_iff ps'(2))
    have open_box: "wf_cipher f ct = Inr (map byte s)"
      using box_roundtrip [OF assms(1,2) byte_range [of s], of "Suc (w_tick w)"] ct assms(3) by simp
    have row: "map_of (db_credentials (w_store w')) (pc_ID c) = Some ct"
      using fun_cong [OF saved, of "pc_ID c"] by (simp add: pg_saved_def)
    have "pc_WorkspaceID c = TrimSpace (nr_WorkspaceID req)" "pc_Environment c = nr_Environment req" "pc_Enabled c"
      by (subst c, simp add: newConnection_def)+
    then show ?thesis
      using run valid new saved connector_reads [OF row open_box ps'(1), of n] app by (auto simp: same)
  qed
qed

definition sample_key :: string where
  "sample_key = replicate 43 CHR ''A'' @ ''=''"

definition sample_box :: Box where
  "sample_box = \<lparr>bx_aead = Some (gcm_aead (replicate 32 0))\<rparr>"

lemma sample_box: "NewBase64 sample_key = Inr sample_box"
proof -
  have "StdEncoding_DecodeString (TrimSpace sample_key) = Some (replicate 32 0)" by code_simp
  then show ?thesis by (simp add: NewBase64_def NewBox_def sample_box_def)
qed

definition open_factory :: Factory where
  "open_factory = sample_factory\<lparr>wf_cipher := Decrypt sample_box,
     wf_client := \<lparr>cl_NewRequest = (\<lambda>_. True), cl_Do = (\<lambda>_ _. Inr \<lparr>rp_StatusCode = 200, rp_Body = [], rp_Broken = False\<rparr>)\<rparr>\<rparr>"

definition sample_connect :: ConnectRequest where
  "sample_connect = \<lparr>nr_WorkspaceID = ''ws'', nr_Environment = EnvironmentTest, nr_ProviderKey = '' Woovi'', nr_Priority = 1,
     nr_Credentials = Some [(''app_id'', ''secret'')]\<rparr>"

definition sample_entropy :: "nat \<Rightarrow> nat \<Rightarrow> go_error + nat list" where
  "sample_entropy n k = Inr (replicate k 0)"

definition sample_connections :: "PgDB ConnectionService" where
  "sample_connections = \<lparr>pcs_store = pg_connections,
     pcs_validator = ConnectorRegistry_ValidateCredentials [(Key, woovi_integration sample_env open_factory)],
     pcs_cipher = (\<lambda>n. Encrypt sample_box (sample_entropy n)), pcs_clock = (\<lambda>n. int n * second), pcs_ids = connectionIDs_New (\<lambda>n. [n])\<rparr>"

theorem connect_roundtrip_witness:
  "case Connect sample_connections sample_connect (pg_start 0) of
      (Inl e, w') \<Rightarrow> pg_saved (w_store w') = pg_saved (w_store (pg_start 0))
    | (Inr c, w') \<Rightarrow>
        ValidateCredentials open_factory (w_tick (pg_start 0)) (nr_Environment sample_connect) [(''app_id'', ''secret'')] = None \<and>
        pg_saved (w_store (pg_start 0)) (pc_ID c) = (None, None) \<and>
        (\<exists>ct. pg_saved (w_store w') = (pg_saved (w_store (pg_start 0)))(pc_ID c := (Some c, Some ct))) \<and>
        pc_WorkspaceID c = TrimSpace (nr_WorkspaceID sample_connect) \<and> pc_Environment c = nr_Environment sample_connect \<and> pc_Enabled c \<and>
        ConnectorFor (reads_from (w_store w') open_factory) 0 c = Inr \<lparr>wc_appID = TrimSpace (credential [(''app_id'', ''secret'')] ''app_id''),
          wc_baseURL = baseURL open_factory (nr_Environment sample_connect), wc_client = wf_client open_factory, wc_ttl = wf_ttl open_factory\<rparr>"
proof (rule connect_roundtrip [OF sample_box])
  show "NewConnections (\<lambda>n. int n * second) (\<lambda>n. [n]) (main_connections sample_box sample_entropy sample_env open_factory) = Inr sample_connections"
    by (simp add: NewConnections_def main_connections_def sample_connections_def)
  show "utf8_pairs [(''app_id'', ''secret'')]" by code_simp
qed (simp_all add: list_all_iff fills_def sample_entropy_def open_factory_def sample_connect_def pg_start_def empty_db_def connection_keys_def)

end
