(* ===== verification/Http.thy ===== *)
theory Http
  imports Connections PgDelivery
begin

text \<open>
  The HTTP API (\<open>internal/httpapi\<close>) over any services: authentication, the handlers of the four groups
  of routes, health checks, and the mux that dispatches to them.

  A handler is a \<open>prog\<close> that returns a response; an error of it is a panic, which the server recovers
  from by closing the connection.  The services are records of
  operations over a state \<open>'w\<close>; \<open>None\<close> is a nil interface.  Of \<open>http.ServeMux\<close> the model has what
  these routes use: a pattern is a method and path segments, one of which may be a wildcard.  A request is
  given with the segments of its path, unescaped; a path that is not clean is redirected by the mux
  before any of this code runs.  Response times are written in UTC.
\<close>

section \<open>API keys (authn, store/postgres/api_keys.go)\<close>

record Principal =
  pn_APIKeyID :: string
  pn_WorkspaceID :: string
  pn_Environment :: Environment

definition pg_ResolveAPIKey :: "string \<Rightarrow> Principal sql" where
  "pg_ResolveAPIKey token =
     (if token = [] then throwE ErrUnauthorized
      else statement id (\<lambda>db.
        case find (\<lambda>k. ak_SecretHash k = Sum256 (map byte token) \<and> ak_Active k) (db_apiKeys db) of
          None \<Rightarrow> throwE ErrUnauthorized db
        | Some k \<Rightarrow> returnE \<lparr>pn_APIKeyID = ak_ID k, pn_WorkspaceID = ak_WorkspaceID k, pn_Environment = ak_Environment k\<rparr> db))"

section \<open>Requests and responses\<close>

record HttpRequest =
  hr_Method :: string
  hr_Path :: "string list"
  hr_Header :: "(string \<times> string list) list"   \<comment> \<open>canonical names\<close>
  hr_Body :: string
  hr_Broken :: bool   \<comment> \<open>the body breaks off\<close>
  hr_PathValues :: "(string \<times> string) list"   \<comment> \<open>set by the mux\<close>

record Response =
  rs_Status :: int
  rs_Header :: "(string \<times> string) list"
  rs_Body :: string

type_synonym ('w, 'a) request_prog = "('w, go_error, 'a) prog"

type_synonym 'w handler = "HttpRequest \<Rightarrow> ('w, Response) request_prog"

definition header_Get :: "HttpRequest \<Rightarrow> string \<Rightarrow> string" where
  "header_Get r name = (case map_of (hr_Header r) name of Some (v # _) \<Rightarrow> v | _ \<Rightarrow> [])"

definition PathValue :: "HttpRequest \<Rightarrow> string \<Rightarrow> string" where
  "PathValue r name = (case map_of (hr_PathValues r) name of None \<Rightarrow> [] | Some v \<Rightarrow> v)"

text \<open>\<open>Decode\<close> on \<open>http.MaxBytesReader\<close>, and \<open>io.ReadAll\<close> of one.\<close>

definition decodeBody :: "'a decoder \<Rightarrow> 'a \<Rightarrow> nat \<Rightarrow> HttpRequest \<Rightarrow> 'a option" where
  "decodeBody dec zero limit r = Decode dec zero (\<not> hr_Broken r \<and> length (hr_Body r) \<le> limit) (take limit (hr_Body r))"

definition readBody :: "nat \<Rightarrow> HttpRequest \<Rightarrow> string option" where
  "readBody limit r = (if hr_Broken r \<or> limit < length (hr_Body r) then None else Some (hr_Body r))"

text \<open>\<open>json.Encoder.Encode\<close> adds a line break; when the value has no encoding nothing is written.\<close>

definition writeJSON :: "int \<Rightarrow> json \<Rightarrow> Response" where
  "writeJSON status payload = \<lparr>rs_Status = status, rs_Header = [(''Content-Type'', ''application/json; charset=utf-8'')],
     rs_Body = (case Marshal payload of None \<Rightarrow> [] | Some s \<Rightarrow> s @ [CHR 0x0A])\<rparr>"

definition string_object :: "(string \<times> string) list \<Rightarrow> json" where
  "string_object kvs = JMap (map (\<lambda>(k, v). (k, JString v)) kvs)"

definition writeAPIError :: "int \<Rightarrow> string \<Rightarrow> string \<Rightarrow> Response" where
  "writeAPIError status code message = writeJSON status (JMap [(''error'', string_object [(''code'', code), (''message'', message)])])"

definition noContent :: Response where
  "noContent = \<lparr>rs_Status = 204, rs_Header = [], rs_Body = []\<rparr>"

text \<open>A service call and what the handler makes of its error.\<close>

definition answer_with :: "('w, 'a) request_prog \<Rightarrow> (go_error \<Rightarrow> Response) \<Rightarrow> ('a \<Rightarrow> Response) \<Rightarrow> ('w, Response) request_prog" where
  "answer_with call failed done = bindE (tryE call) (\<lambda>r. case r of Inl err \<Rightarrow> returnE (failed err) | Inr x \<Rightarrow> returnE (done x))"

section \<open>Authentication (payments.go)\<close>

text \<open>\<open>strings.Fields\<close>: the texts between runs of space runes.\<close>

definition space_at :: "string \<Rightarrow> string option" where
  "space_at s = find (\<lambda>p. p \<noteq> [] \<and> starts_with p s) space_runes"

function fields_from :: "string \<Rightarrow> string \<Rightarrow> string list" where
  "fields_from word s = (case s of
     [] \<Rightarrow> if word = [] then [] else [word]
   | c # t \<Rightarrow> (case space_at s of
       Some p \<Rightarrow> (if word = [] then [] else [word]) @ fields_from [] (drop (length p) s)
     | None \<Rightarrow> fields_from (word @ [c]) t))"
  by pat_completeness auto
termination
proof (relation "measure (\<lambda>(word, s). length s)", simp)
  fix word s :: string and c t p assume s: "s = c # t" and p: "space_at s = Some p"
  from p have "p \<noteq> []" by (auto simp: space_at_def find_Some_iff)
  then show "(([], drop (length p) s), (word, s)) \<in> measure (\<lambda>(word, s). length s)" using s by simp
qed simp

declare fields_from.simps [simp del]

definition Fields :: "string \<Rightarrow> string list" where
  "Fields s = fields_from [] s"

definition bearerToken :: "string \<Rightarrow> string" where
  "bearerToken value = (case Fields value of [scheme, token] \<Rightarrow> if EqualFold scheme ''Bearer'' then token else [] | _ \<Rightarrow> [])"

type_synonym 'w resolver = "string \<Rightarrow> ('w, Principal) request_prog"

definition authorize :: "'w resolver \<Rightarrow> (HttpRequest \<Rightarrow> Principal \<Rightarrow> ('w, Response) request_prog) \<Rightarrow> 'w handler" where
  "authorize resolver next r =
     (let token = bearerToken (header_Get r ''Authorization'') in
      if token = [] then returnE (writeAPIError 401 ''unauthorized'' ''valid bearer API key required'')
      else bindE (tryE (resolver token)) (\<lambda>resolved. case resolved of
        Inl err \<Rightarrow> returnE (if errors_Is err ErrUnauthorized
          then writeAPIError 401 ''unauthorized'' ''valid bearer API key required''
          else writeAPIError 500 ''internal_error'' ''authentication unavailable'')
      | Inr who \<Rightarrow> next r who))"

section \<open>Payments (payments.go)\<close>

record 'w PaymentService =
  hp_CreatePayment :: "CreatePaymentRequest \<Rightarrow> ('w, PaymentIntent) request_prog"
  hp_GetPayment :: "string \<Rightarrow> Environment \<Rightarrow> string \<Rightarrow> ('w, PaymentIntent) request_prog"
  hp_ListPaymentAttempts :: "string \<Rightarrow> Environment \<Rightarrow> string \<Rightarrow> ('w, PaymentAttempt list) request_prog"

record createPaymentBody =
  cb_MerchantOrderID :: string
  cb_Amount :: int
  cb_Currency :: string
  cb_Metadata :: "StringMap option"

definition dec_createPaymentBody :: "createPaymentBody decoder" where
  "dec_createPaymentBody = dec_struct True
     [(''merchant_order_id'', field cb_MerchantOrderID (\<lambda>x b. b\<lparr>cb_MerchantOrderID := x\<rparr>) dec_string),
      (''amount'', field cb_Amount (\<lambda>x b. b\<lparr>cb_Amount := x\<rparr>) dec_int64),
      (''currency'', field cb_Currency (\<lambda>x b. b\<lparr>cb_Currency := x\<rparr>) dec_string),
      (''metadata'', field cb_Metadata (\<lambda>x b. b\<lparr>cb_Metadata := x\<rparr>) dec_string_map)]"

definition decodeCreatePayment :: "HttpRequest \<Rightarrow> createPaymentBody option" where
  "decodeCreatePayment r = decodeBody dec_createPaymentBody
     \<lparr>cb_MerchantOrderID = [], cb_Amount = 0, cb_Currency = [], cb_Metadata = None\<rparr> 65536 r"

definition attempt_status_text :: "AttemptStatus \<Rightarrow> string" where
  "attempt_status_text s = (case s of
     AttemptStatusCreated \<Rightarrow> ''created'' | AttemptStatusRequesting \<Rightarrow> ''requesting'' | AttemptStatusSucceeded \<Rightarrow> ''succeeded''
   | AttemptStatusFailedSafe \<Rightarrow> ''failed_safe'' | AttemptStatusFailedTerminal \<Rightarrow> ''failed_terminal'' | AttemptStatusUnknown \<Rightarrow> ''unknown'')"

definition omit_empty :: "string \<Rightarrow> string \<Rightarrow> (string \<times> json) list" where
  "omit_empty k s = (if s = [] then [] else [(k, JString s)])"

definition toPaymentResponse :: "PaymentIntent \<Rightarrow> json" where
  "toPaymentResponse p = JObject (
     [(''id'', JString (pi_ID p)), (''merchant_order_id'', JString (pi_MerchantOrderID p)), (''amount'', JInt (pi_Amount p)),
      (''currency'', JString (pi_Currency p)), (''status'', JString (payment_status_text (pi_Status p)))] @
     (case pi_Pix p of None \<Rightarrow> []
      | Some pix \<Rightarrow> [(''pix'', JObject [(''copy_paste'', JString (px_CopyPaste pix)), (''expires_at'', JTime (px_ExpiresAt pix))])]) @
     [(''recovered'', JBool (pi_Recovered p)), (''recovered_amount'', JInt (pi_RecoveredAmount p))] @
     omit_empty ''failure_code'' (pi_FailureCode p) @
     (case pi_Metadata p of None \<Rightarrow> [] | Some m \<Rightarrow> if m = [] then [] else [(''metadata'', json_string_map (Some m))]) @
     [(''created_at'', JTime (pi_CreatedAt p)), (''updated_at'', JTime (pi_UpdatedAt p))] @
     (case pi_PaidAt p of None \<Rightarrow> [] | Some t \<Rightarrow> [(''paid_at'', JTime t)]))"

definition toAttemptResponse :: "PaymentAttempt \<Rightarrow> json" where
  "toAttemptResponse a = JObject (
     [(''id'', JString (pa_ID a)), (''provider_connection_id'', JString (pa_ProviderConnectionID a)),
      (''sequence'', JInt (pa_Sequence a)), (''status'', JString (attempt_status_text (pa_Status a)))] @
     omit_empty ''failure_code'' (pa_FailureCode a) @
     [(''created_at'', JTime (pa_CreatedAt a)), (''updated_at'', JTime (pa_UpdatedAt a))])"

definition writePaymentError :: "go_error \<Rightarrow> Response" where
  "writePaymentError err =
     (if errors_Is err ErrNotFound then writeAPIError 404 ''not_found'' ''payment not found''
      else if errors_Is err ErrIdempotencyConflict
      then writeAPIError 409 ''idempotency_conflict'' ''Idempotency-Key was already used with a different request''
      else if errors_Is err ErrNoEligibleProvider
      then writeAPIError 503 ''no_eligible_provider'' ''no payment provider is currently eligible''
      else writeAPIError 500 ''internal_error'' ''request could not be completed'')"

definition createPaymentRequest :: "Principal \<Rightarrow> string \<Rightarrow> createPaymentBody \<Rightarrow> CreatePaymentRequest" where
  "createPaymentRequest who idempotencyKey body = \<lparr>cr_WorkspaceID = pn_WorkspaceID who,
     cr_IdempotencyKey = idempotencyKey, cr_MerchantOrderID = cb_MerchantOrderID body, cr_Amount = cb_Amount body,
     cr_Currency = cb_Currency body, cr_Metadata = cb_Metadata body, cr_Environment = pn_Environment who\<rparr>"

definition handleCreatePayment :: "'w PaymentService \<Rightarrow> HttpRequest \<Rightarrow> Principal \<Rightarrow> ('w, Response) request_prog" where
  "handleCreatePayment service r who =
     (let idempotencyKey = TrimSpace (header_Get r ''Idempotency-Key'') in
      if idempotencyKey = [] \<or> length idempotencyKey > 255
      then returnE (writeAPIError 400 ''invalid_idempotency_key'' ''Idempotency-Key is required and must be at most 255 characters'')
      else case decodeCreatePayment r of
        None \<Rightarrow> returnE (writeAPIError 400 ''invalid_request'' ''request body must be valid JSON'')
      | Some body \<Rightarrow>
          (let body = body\<lparr>cb_MerchantOrderID := TrimSpace (cb_MerchantOrderID body),
                cb_Currency := ToUpper (TrimSpace (cb_Currency body))\<rparr> in
           if cb_MerchantOrderID body = [] \<or> length (cb_MerchantOrderID body) > 255
           then returnE (writeAPIError 400 ''invalid_merchant_order_id'' ''merchant_order_id is required and must be at most 255 characters'')
           else if cb_Amount body \<le> 0
           then returnE (writeAPIError 400 ''invalid_amount'' ''amount must be a positive integer in centavos'')
           else if cb_Currency body \<noteq> ''BRL''
           then returnE (writeAPIError 400 ''unsupported_currency'' ''Pix v1 supports BRL only'')
           else answer_with (hp_CreatePayment service (createPaymentRequest who idempotencyKey body)) writePaymentError
             (\<lambda>intent. writeJSON (if pi_Status intent = PaymentStatusReconciling then 202 else 200) (toPaymentResponse intent))))"

definition handleGetPayment :: "'w PaymentService \<Rightarrow> HttpRequest \<Rightarrow> Principal \<Rightarrow> ('w, Response) request_prog" where
  "handleGetPayment service r who =
     answer_with (hp_GetPayment service (pn_WorkspaceID who) (pn_Environment who) (PathValue r ''id''))
       writePaymentError (\<lambda>intent. writeJSON 200 (toPaymentResponse intent))"

definition handleListAttempts :: "'w PaymentService \<Rightarrow> HttpRequest \<Rightarrow> Principal \<Rightarrow> ('w, Response) request_prog" where
  "handleListAttempts service r who =
     answer_with (hp_ListPaymentAttempts service (pn_WorkspaceID who) (pn_Environment who) (PathValue r ''id''))
       writePaymentError (\<lambda>attempts. writeJSON 200 (JMap [(''data'', JList (map toAttemptResponse attempts))]))"

section \<open>Provider webhooks (provider_webhooks.go)\<close>

type_synonym 'w ProviderWebhookService = "string \<Rightarrow> WebhookRequest \<Rightarrow> ('w, PaymentIntent) request_prog"

definition writeWebhookError :: "go_error \<Rightarrow> Response" where
  "writeWebhookError err =
     (if errors_Is err ErrInvalidWebhookSignature then writeAPIError 401 ''invalid_webhook_signature'' ''webhook signature is invalid''
      else if errors_Is err ErrUnsupportedWebhook then writeAPIError 400 ''unsupported_webhook'' ''webhook event is not supported''
      else if errors_Is err ErrNotFound then writeAPIError 404 ''not_found'' ''provider connection or payment attempt was not found''
      else if errors_Is err ErrInvalidTransition
      then writeAPIError 409 ''event_conflict'' ''webhook is not valid for the current payment state''
      else writeAPIError 500 ''internal_error'' ''webhook could not be processed'')"

definition handleProviderWebhook :: "'w ProviderWebhookService \<Rightarrow> 'w handler" where
  "handleProviderWebhook service r =
     (let connectionID = PathValue r ''connection_id'' in
      if connectionID = [] then returnE (writeAPIError 400 ''invalid_connection'' ''provider connection is required'')
      else case readBody 1048576 r of
        None \<Rightarrow> returnE (writeAPIError 400 ''invalid_webhook'' ''webhook body is invalid or too large'')
      | Some body \<Rightarrow> answer_with (service connectionID \<lparr>wr_Headers = hr_Header r, wr_Body = body\<rparr>) writeWebhookError
          (\<lambda>_. writeJSON 200 (string_object [(''status'', ''ok'')])))"

section \<open>Provider connections (provider_connections.go)\<close>

record 'w ProviderConnectionService =
  hc_Connect :: "ConnectRequest \<Rightarrow> ('w, ProviderConnection) request_prog"
  hc_List :: "string \<Rightarrow> Environment \<Rightarrow> ('w, ProviderConnection list) request_prog"
  hc_Disable :: "string \<Rightarrow> string \<Rightarrow> Environment \<Rightarrow> ('w, unit) request_prog"

record connectProviderBody =
  kb_ProviderKey :: string
  kb_Priority :: int
  kb_Credentials :: "StringMap option"

definition dec_connectProviderBody :: "connectProviderBody decoder" where
  "dec_connectProviderBody = dec_struct True
     [(''provider_key'', field kb_ProviderKey (\<lambda>x b. b\<lparr>kb_ProviderKey := x\<rparr>) dec_string),
      (''priority'', field kb_Priority (\<lambda>x b. b\<lparr>kb_Priority := x\<rparr>) dec_int64),
      (''credentials'', field kb_Credentials (\<lambda>x b. b\<lparr>kb_Credentials := x\<rparr>) dec_string_map)]"

definition circuit_text :: "CircuitState \<Rightarrow> string" where
  "circuit_text c = (case c of CircuitClosed \<Rightarrow> ''closed'' | CircuitOpen \<Rightarrow> ''open'' | CircuitHalfOpen \<Rightarrow> ''half_open'' | CircuitOther s \<Rightarrow> s)"

definition toProviderConnectionResponse :: "ProviderConnection \<Rightarrow> json" where
  "toProviderConnectionResponse c = JObject
     [(''id'', JString (pc_ID c)), (''provider_key'', JString (pc_ProviderKey c)),
      (''environment'', JString (environment_text (pc_Environment c))), (''enabled'', JBool (pc_Enabled c)),
      (''credentials_valid'', JBool (pc_CredentialsValid c)), (''circuit_state'', JString (circuit_text (pc_Circuit c))),
      (''priority'', JInt (pc_Priority c))]"

definition writeProviderConnectionError :: "go_error \<Rightarrow> Response" where
  "writeProviderConnectionError err =
     (if errors_Is err ErrNotFound then writeAPIError 404 ''not_found'' ''provider connection not found''
      else if errors_Is err ErrInvalidCredentials
      then writeAPIError 400 ''invalid_provider_credentials'' ''provider credentials could not be validated''
      else if errors_Is err ErrCredentialValidationUnavailable
      then writeAPIError 503 ''provider_validation_unavailable'' ''provider credential validation is temporarily unavailable''
      else writeAPIError 400 ''invalid_provider_connection'' ''provider connection could not be configured'')"

definition connectRequest :: "Principal \<Rightarrow> connectProviderBody \<Rightarrow> ConnectRequest" where
  "connectRequest who body = \<lparr>nr_WorkspaceID = pn_WorkspaceID who, nr_Environment = pn_Environment who,
     nr_ProviderKey = kb_ProviderKey body, nr_Priority = kb_Priority body, nr_Credentials = kb_Credentials body\<rparr>"

definition handleConnectProvider :: "'w ProviderConnectionService \<Rightarrow> HttpRequest \<Rightarrow> Principal \<Rightarrow> ('w, Response) request_prog" where
  "handleConnectProvider service r who =
     (case decodeBody dec_connectProviderBody \<lparr>kb_ProviderKey = [], kb_Priority = 0, kb_Credentials = None\<rparr> 32768 r of
        None \<Rightarrow> returnE (writeAPIError 400 ''invalid_request'' ''request body must be valid JSON'')
      | Some body \<Rightarrow>
          (let body = body\<lparr>kb_ProviderKey := ToLower (TrimSpace (kb_ProviderKey body))\<rparr> in
           if kb_ProviderKey body = [] \<or> kb_Priority body < 0 \<or> kb_Credentials body \<in> {None, Some []}
           then returnE (writeAPIError 400 ''invalid_provider_connection''
             ''provider_key, non-negative priority and credentials are required'')
           else answer_with (hc_Connect service (connectRequest who body)) writeProviderConnectionError
             (\<lambda>connection. writeJSON 201 (toProviderConnectionResponse connection))))"

definition handleListProviders :: "'w ProviderConnectionService \<Rightarrow> HttpRequest \<Rightarrow> Principal \<Rightarrow> ('w, Response) request_prog" where
  "handleListProviders service r who =
     answer_with (hc_List service (pn_WorkspaceID who) (pn_Environment who)) writeProviderConnectionError
       (\<lambda>connections. writeJSON 200 (JMap [(''data'', JList (map toProviderConnectionResponse connections))]))"

definition handleDisableProvider :: "'w ProviderConnectionService \<Rightarrow> HttpRequest \<Rightarrow> Principal \<Rightarrow> ('w, Response) request_prog" where
  "handleDisableProvider service r who =
     answer_with (hc_Disable service (pn_WorkspaceID who) (PathValue r ''id'') (pn_Environment who)) writeProviderConnectionError
       (\<lambda>_. noContent)"

section \<open>The webhook endpoint (webhook_endpoints.go)\<close>

record 'w MerchantWebhookService =
  hm_SetEndpoint :: "string \<Rightarrow> Environment \<Rightarrow> string \<Rightarrow> string \<Rightarrow> ('w, Endpoint) request_prog"
  hm_GetEndpoint :: "string \<Rightarrow> Environment \<Rightarrow> ('w, Endpoint) request_prog"
  hm_DisableEndpoint :: "string \<Rightarrow> Environment \<Rightarrow> ('w, unit) request_prog"

record webhookEndpointBody =
  eb_URL :: string
  eb_SigningSecret :: string

definition dec_webhookEndpointBody :: "webhookEndpointBody decoder" where
  "dec_webhookEndpointBody = dec_struct True
     [(''url'', field eb_URL (\<lambda>x b. b\<lparr>eb_URL := x\<rparr>) dec_string),
      (''signing_secret'', field eb_SigningSecret (\<lambda>x b. b\<lparr>eb_SigningSecret := x\<rparr>) dec_string)]"

definition toWebhookEndpointResponse :: "Endpoint \<Rightarrow> json" where
  "toWebhookEndpointResponse e = JObject
     [(''id'', JString (en_ID e)), (''url'', JString (en_URL e)), (''environment'', JString (environment_text (en_Environment e))),
      (''enabled'', JBool (en_Enabled e)), (''created_at'', JTime (en_CreatedAt e)), (''updated_at'', JTime (en_UpdatedAt e))]"

definition writeEndpointError :: "string \<Rightarrow> go_error \<Rightarrow> Response" where
  "writeEndpointError message err =
     (if errors_Is err ErrNotFound then writeAPIError 404 ''not_found'' ''webhook endpoint not found''
      else writeAPIError 500 ''internal_error'' message)"

definition handlePutWebhookEndpoint :: "'w MerchantWebhookService \<Rightarrow> HttpRequest \<Rightarrow> Principal \<Rightarrow> ('w, Response) request_prog" where
  "handlePutWebhookEndpoint service r who =
     (case decodeBody dec_webhookEndpointBody \<lparr>eb_URL = [], eb_SigningSecret = []\<rparr> 16384 r of
        None \<Rightarrow> returnE (writeAPIError 400 ''invalid_request'' ''request body must be valid JSON'')
      | Some body \<Rightarrow>
          if length (eb_SigningSecret body) < 32 \<or> length (eb_SigningSecret body) > 512
          then returnE (writeAPIError 400 ''invalid_signing_secret'' ''signing_secret must be between 32 and 512 bytes'')
          else answer_with
            (hm_SetEndpoint service (pn_WorkspaceID who) (pn_Environment who) (TrimSpace (eb_URL body)) (eb_SigningSecret body))
            (\<lambda>err. if errors_Is err ErrInvalidEndpoint
               then writeAPIError 400 ''invalid_webhook_url'' ''webhook url is invalid or not allowed''
               else writeAPIError 500 ''internal_error'' ''webhook endpoint could not be saved'')
            (\<lambda>endpoint. writeJSON 200 (toWebhookEndpointResponse endpoint)))"

definition handleGetWebhookEndpoint :: "'w MerchantWebhookService \<Rightarrow> HttpRequest \<Rightarrow> Principal \<Rightarrow> ('w, Response) request_prog" where
  "handleGetWebhookEndpoint service r who =
     answer_with (hm_GetEndpoint service (pn_WorkspaceID who) (pn_Environment who))
       (writeEndpointError ''webhook endpoint could not be loaded'') (\<lambda>endpoint. writeJSON 200 (toWebhookEndpointResponse endpoint))"

definition handleDeleteWebhookEndpoint :: "'w MerchantWebhookService \<Rightarrow> HttpRequest \<Rightarrow> Principal \<Rightarrow> ('w, Response) request_prog" where
  "handleDeleteWebhookEndpoint service r who =
     answer_with (hm_DisableEndpoint service (pn_WorkspaceID who) (pn_Environment who))
       (writeEndpointError ''webhook endpoint could not be disabled'') (\<lambda>_. noContent)"

section \<open>The mux and the server (server.go)\<close>

datatype segment = Literal string | Wildcard string

record 'w route =
  rt_Method :: "string option"
  rt_Pattern :: "segment list"
  rt_Handler :: "'w handler"

fun match_path :: "segment list \<Rightarrow> string list \<Rightarrow> (string \<times> string) list option" where
  "match_path [] [] = Some []"
| "match_path (Literal s # ps) (t # ts) = (if s = t then match_path ps ts else None)"
| "match_path (Wildcard n # ps) (t # ts) = (if t = [] then None else map_option ((#) (n, t)) (match_path ps ts))"
| "match_path _ _ = None"

definition on_path :: "HttpRequest \<Rightarrow> 'w route \<Rightarrow> bool" where
  "on_path r rt \<longleftrightarrow> match_path (rt_Pattern rt) (hr_Path r) \<noteq> None"

definition on_method :: "HttpRequest \<Rightarrow> 'w route \<Rightarrow> bool" where
  "on_method r rt \<longleftrightarrow> (case rt_Method rt of None \<Rightarrow> True
     | Some m \<Rightarrow> m = hr_Method r \<or> m = ''GET'' \<and> hr_Method r = ''HEAD'')"

definition plainError :: "int \<Rightarrow> (string \<times> string) list \<Rightarrow> string \<Rightarrow> Response" where
  "plainError status header message = \<lparr>rs_Status = status,
     rs_Header = header @ [(''Content-Type'', ''text/plain; charset=utf-8''), (''X-Content-Type-Options'', ''nosniff'')],
     rs_Body = message @ [CHR 0x0A]\<rparr>"

definition allowed_methods :: "HttpRequest \<Rightarrow> 'w route list \<Rightarrow> string list" where
  "allowed_methods r routes = sort (remdups (concat (map (\<lambda>rt. case rt_Method rt of None \<Rightarrow> []
     | Some m \<Rightarrow> if m = ''GET'' then [''GET'', ''HEAD''] else [m]) (filter (on_path r) routes))))"

definition join_comma :: "string list \<Rightarrow> string" where
  "join_comma xs = (case xs of [] \<Rightarrow> [] | x # ys \<Rightarrow> x @ concat (map (\<lambda>y. '', '' @ y) ys))"

definition ServeHTTP :: "'w route list \<Rightarrow> 'w handler" where
  "ServeHTTP routes r = (case find (\<lambda>rt. on_path r rt \<and> on_method r rt) routes of
     Some rt \<Rightarrow> bindE (rt_Handler rt (r\<lparr>hr_PathValues := the (match_path (rt_Pattern rt) (hr_Path r))\<rparr>)) (\<lambda>response.
       returnE (if hr_Method r = ''HEAD'' then response\<lparr>rs_Body := []\<rparr> else response))
   | None \<Rightarrow> returnE (if allowed_methods r routes = [] then plainError 404 [] ''404 page not found''
       else plainError 405 [(''Allow'', join_comma (allowed_methods r routes))] ''Method Not Allowed''))"

record 'w HttpOptions =
  so_Database :: "('w, go_error option) request_prog option"
  so_Payments :: "'w PaymentService option"
  so_ProviderWebhooks :: "'w ProviderWebhookService option"
  so_MerchantWebhooks :: "'w MerchantWebhookService option"
  so_ProviderConnections :: "'w ProviderConnectionService option"
  so_APIKeys :: "'w resolver option"

definition methodNotAllowed :: Response where
  "methodNotAllowed = (let response = writeJSON 405 (string_object [(''error'', ''method_not_allowed'')]) in
     response\<lparr>rs_Header := (''Allow'', ''GET'') # rs_Header response\<rparr>)"

definition handleHealthz :: "'w handler" where
  "handleHealthz r = returnE (if hr_Method r \<noteq> ''GET'' then methodNotAllowed else writeJSON 200 (string_object [(''status'', ''ok'')]))"

definition handleReadyz :: "('w, go_error option) request_prog option \<Rightarrow> 'w handler" where
  "handleReadyz database r =
     (if hr_Method r \<noteq> ''GET'' then returnE methodNotAllowed
      else case database of
        None \<Rightarrow> returnE (writeJSON 503 (string_object [(''status'', ''unavailable''), (''database'', ''not_configured'')]))
      | Some ping \<Rightarrow> bindE ping (\<lambda>err. returnE (if err \<noteq> None
          then writeJSON 503 (string_object [(''status'', ''unavailable''), (''database'', ''unreachable'')])
          else writeJSON 200 (string_object [(''status'', ''ready''), (''database'', ''ok'')]))))"

definition handle_route :: "string option \<Rightarrow> segment list \<Rightarrow> 'w handler \<Rightarrow> 'w route" where
  "handle_route method pattern h = \<lparr>rt_Method = method, rt_Pattern = pattern, rt_Handler = h\<rparr>"

definition v1 :: "string \<Rightarrow> segment list" where
  "v1 name = [Literal ''v1'', Literal name]"

definition paymentRoutes :: "'w HttpOptions \<Rightarrow> 'w route list" where
  "paymentRoutes opts = (case (so_Payments opts, so_APIKeys opts) of
     (Some payments, Some keys) \<Rightarrow>
       [handle_route (Some ''POST'') (v1 ''payment_intents'') (authorize keys (handleCreatePayment payments)),
        handle_route (Some ''GET'') (v1 ''payment_intents'' @ [Wildcard ''id'']) (authorize keys (handleGetPayment payments)),
        handle_route (Some ''GET'') (v1 ''payment_intents'' @ [Wildcard ''id'', Literal ''attempts''])
          (authorize keys (handleListAttempts payments))]
   | _ \<Rightarrow> [])"

definition providerWebhookRoutes :: "'w HttpOptions \<Rightarrow> 'w route list" where
  "providerWebhookRoutes opts = (case so_ProviderWebhooks opts of
     None \<Rightarrow> []
   | Some service \<Rightarrow> [handle_route (Some ''POST'') (v1 ''provider_webhooks'' @ [Wildcard ''connection_id'']) (handleProviderWebhook service)])"

definition merchantWebhookRoutes :: "'w HttpOptions \<Rightarrow> 'w route list" where
  "merchantWebhookRoutes opts = (case (so_MerchantWebhooks opts, so_APIKeys opts) of
     (Some service, Some keys) \<Rightarrow>
       [handle_route (Some ''PUT'') (v1 ''webhook_endpoint'') (authorize keys (handlePutWebhookEndpoint service)),
        handle_route (Some ''GET'') (v1 ''webhook_endpoint'') (authorize keys (handleGetWebhookEndpoint service)),
        handle_route (Some ''DELETE'') (v1 ''webhook_endpoint'') (authorize keys (handleDeleteWebhookEndpoint service))]
   | _ \<Rightarrow> [])"

definition providerConnectionRoutes :: "'w HttpOptions \<Rightarrow> 'w route list" where
  "providerConnectionRoutes opts = (case (so_ProviderConnections opts, so_APIKeys opts) of
     (Some service, Some keys) \<Rightarrow>
       [handle_route (Some ''POST'') (v1 ''provider_connections'') (authorize keys (handleConnectProvider service)),
        handle_route (Some ''GET'') (v1 ''provider_connections'') (authorize keys (handleListProviders service)),
        handle_route (Some ''DELETE'') (v1 ''provider_connections'' @ [Wildcard ''id'']) (authorize keys (handleDisableProvider service))]
   | _ \<Rightarrow> [])"

definition NewServer :: "'w HttpOptions \<Rightarrow> 'w handler" where
  "NewServer opts = ServeHTTP (
     [handle_route None [Literal ''healthz''] handleHealthz, handle_route None [Literal ''readyz''] (handleReadyz (so_Database opts))] @
     paymentRoutes opts @ providerWebhookRoutes opts @ merchantWebhookRoutes opts @ providerConnectionRoutes opts)"

end
