(* ===== verification/Startup.thy ===== *)
theory Startup
  imports Http
begin

text \<open>
  Configuration (\<open>internal/config\<close>) and the wiring of \<open>cmd/api/main.go\<close>: what is started for an
  environment, and the loop of the webhook worker.

  \<open>Launch\<close> builds the server's options and the worker as \<open>main\<close> does, or gives the error it exits with.
  What it takes from the system is \<open>MainEnv\<close>: whether the database opens, clock and random bytes by
  interaction, the HTTP clients.  A connection's credentials are read by the connector through the
  store, outside the operation that resolved it (\<open>mv_credentials\<close>).
\<close>

section \<open>Configuration (config.go)\<close>

record Config =
  cf_AppEnv :: string
  cf_HTTPAddr :: string
  cf_LogLevel :: string
  cf_DatabaseURL :: string
  cf_DatabaseConnectTimeout :: Duration
  cf_ShutdownTimeout :: Duration
  cf_WebhookSecretMasterKey :: string
  cf_WebhookWorkerInterval :: Duration
  cf_WebhookHTTPTimeout :: Duration
  cf_ProviderCredentialsMasterKey :: string
  cf_ProviderHTTPTimeout :: Duration

text \<open>\<open>time.ParseDuration\<close>.\<close>

definition unit_ns :: "(string \<times> int) list" where
  "unit_ns = [(''ns'', 1), (''us'', 1000), (map char_of [194 :: nat, 181, 115], 1000), (map char_of [206 :: nat, 188, 115], 1000),
     (''ms'', 1000000), (''s'', 1000000000), (''m'', 60000000000), (''h'', 3600000000000)]"

fun leadingInt :: "string \<Rightarrow> int \<Rightarrow> (int \<times> string) option" where
  "leadingInt [] x = Some (x, [])"
| "leadingInt (c # s) x =
     (if \<not> is_digit c then Some (x, c # s)
      else if x > 2 ^ 63 div 10 \<or> x * 10 + digit_value c > 2 ^ 63 then None
      else leadingInt s (x * 10 + digit_value c))"

text \<open>The digits of a fraction up to the first that overflows, and the power of ten of their number.\<close>

fun leadingFraction :: "string \<Rightarrow> int \<Rightarrow> float64 \<Rightarrow> bool \<Rightarrow> int \<times> float64 \<times> string" where
  "leadingFraction [] x scale overflow = (x, scale, [])"
| "leadingFraction (c # s) x scale overflow =
     (if \<not> is_digit c then (x, scale, c # s)
      else if overflow \<or> x > (2 ^ 63 - 1) div 10 \<or> x * 10 + digit_value c > 2 ^ 63 then leadingFraction s x scale True
      else leadingFraction s (x * 10 + digit_value c) (fmul scale 10) False)"

definition unit_char :: "char \<Rightarrow> bool" where
  "unit_char c \<longleftrightarrow> c \<noteq> CHR ''.'' \<and> \<not> is_digit c"

definition fraction_part :: "string \<Rightarrow> int \<times> float64 \<times> string" where
  "fraction_part s = (case s of
     c # r \<Rightarrow> if c = CHR ''.'' then leadingFraction r 0 1 False else (0, 1, s)
   | [] \<Rightarrow> (0, 1, s))"

text \<open>One number with its unit: the nanoseconds, and the rest.\<close>

definition parse_unit :: "int \<Rightarrow> int \<Rightarrow> float64 \<Rightarrow> string \<Rightarrow> (int \<times> string) option" where
  "parse_unit v f scale s = (case map_of unit_ns (takeWhile unit_char s) of
     None \<Rightarrow> None
   | Some u \<Rightarrow>
       if v > 2 ^ 63 div u then None
       else (let d = v * u + (if f > 0 then \<lfloor>fmul (fint f) (fdiv (fint u) scale)\<rfloor> else 0) in
         if d > 2 ^ 63 then None else Some (d, dropWhile unit_char s)))"

definition parse_part :: "string \<Rightarrow> (int \<times> string) option" where
  "parse_part s = (case leadingInt s 0 of
     None \<Rightarrow> None
   | Some (v, s1) \<Rightarrow> (case fraction_part s1 of (f, scale, s2) \<Rightarrow>
       let pre = (s1 \<noteq> s); post = (length s2 + 1 < length s1)
       in if \<not> pre \<and> \<not> post then None else parse_unit v f scale s2))"

lemma leadingInt_shorter: "leadingInt s x = Some (v, r) \<Longrightarrow> length r \<le> length s"
  by (induction s x rule: leadingInt.induct) (auto split: if_splits)

lemma leadingFraction_shorter: "leadingFraction s x k ov = (f, sc, r) \<Longrightarrow> length r \<le> length s"
  by (induction s x k ov rule: leadingFraction.induct) (auto split: if_splits)

lemma fraction_part_shorter: "fraction_part s = (f, sc, r) \<Longrightarrow> length r \<le> length s"
  by (auto simp: fraction_part_def split: list.splits if_splits dest: leadingFraction_shorter)

lemma parse_unit_shorter: "parse_unit v f sc s = Some (d, r) \<Longrightarrow> length r < length s"
proof -
  assume a: "parse_unit v f sc s = Some (d, r)"
  then have "map_of unit_ns (takeWhile unit_char s) \<noteq> None" by (auto simp: parse_unit_def split: option.splits)
  then have "takeWhile unit_char s \<noteq> []" by (auto simp: unit_ns_def)
  moreover have "r = dropWhile unit_char s" using a by (auto simp: parse_unit_def Let_def split: option.splits if_splits)
  ultimately show ?thesis by (cases s) (auto split: if_splits intro: le_imp_less_Suc length_dropWhile_le)
qed

lemma parse_part_shorter:
  assumes "parse_part s = Some (d, r)"
  shows "length r < length s"
proof -
  obtain v s1 where 1: "leadingInt s 0 = Some (v, s1)" using assms by (auto simp: parse_part_def split: option.splits)
  obtain f sc s2 where 2: "fraction_part s1 = (f, sc, s2)" by (cases "fraction_part s1")
  have "parse_unit v f sc s2 = Some (d, r)" using assms by (simp add: parse_part_def 1 2 Let_def split: if_splits)
  from parse_unit_shorter [OF this] fraction_part_shorter [OF 2] leadingInt_shorter [OF 1] show ?thesis by linarith
qed

function parse_parts :: "string \<Rightarrow> int \<Rightarrow> int option" where
  "parse_parts s d = (if s = [] then Some d
     else case parse_part s of
       None \<Rightarrow> None
     | Some (v, r) \<Rightarrow> if d + v > 2 ^ 63 then None else parse_parts r (d + v))"
  by pat_completeness auto
termination by (relation "measure (\<lambda>(s, d). length s)") (auto dest: parse_part_shorter)

declare parse_parts.simps [simp del]

definition ParseDuration :: "string \<Rightarrow> Duration option" where
  "ParseDuration text0 =
     (let neg = (case text0 of c # _ \<Rightarrow> c = CHR ''-'' | [] \<Rightarrow> False);
          s = (case text0 of c # r \<Rightarrow> if c = CHR ''-'' \<or> c = CHR ''+'' then r else text0 | [] \<Rightarrow> [])
      in if s = ''0'' then Some 0 else if s = [] then None
         else case parse_parts s 0 of
           None \<Rightarrow> None
         | Some d \<Rightarrow> if neg then Some (- d) else if d > 2 ^ 63 - 1 then None else Some d)"

type_synonym Getenv = "string \<Rightarrow> string"

definition envOrDefault :: "Getenv \<Rightarrow> string \<Rightarrow> string \<Rightarrow> string" where
  "envOrDefault getenv key fallback = (let value = TrimSpace (getenv key) in if value \<noteq> [] then value else fallback)"

definition durationOrDefault :: "Getenv \<Rightarrow> string \<Rightarrow> Duration \<Rightarrow> Duration" where
  "durationOrDefault getenv key fallback = (let value = TrimSpace (getenv key) in
     if value = [] then fallback else case ParseDuration value of None \<Rightarrow> fallback | Some parsed \<Rightarrow> parsed)"

definition Load :: "Getenv \<Rightarrow> go_error + Config" where
  "Load getenv = (let cfg = \<lparr>
       cf_AppEnv = envOrDefault getenv ''APP_ENV'' ''development'',
       cf_HTTPAddr = envOrDefault getenv ''HTTP_ADDR'' '':8080'',
       cf_LogLevel = envOrDefault getenv ''LOG_LEVEL'' ''info'',
       cf_DatabaseURL = TrimSpace (getenv ''DATABASE_URL''),
       cf_DatabaseConnectTimeout = durationOrDefault getenv ''DATABASE_CONNECT_TIMEOUT'' (5 * second),
       cf_ShutdownTimeout = durationOrDefault getenv ''SHUTDOWN_TIMEOUT'' (10 * second),
       cf_WebhookSecretMasterKey = TrimSpace (getenv ''WEBHOOK_SECRET_MASTER_KEY''),
       cf_WebhookWorkerInterval = durationOrDefault getenv ''WEBHOOK_WORKER_INTERVAL'' second,
       cf_WebhookHTTPTimeout = durationOrDefault getenv ''WEBHOOK_HTTP_TIMEOUT'' (10 * second),
       cf_ProviderCredentialsMasterKey = TrimSpace (getenv ''PROVIDER_CREDENTIALS_MASTER_KEY''),
       cf_ProviderHTTPTimeout = durationOrDefault getenv ''PROVIDER_HTTP_TIMEOUT'' (10 * second)\<rparr> in
     if cf_AppEnv cfg = ''production'' \<and> cf_DatabaseURL cfg = []
     then Inl (Errorf ''DATABASE_URL is required when APP_ENV=production'')
     else if cf_AppEnv cfg = ''production'' \<and> cf_WebhookSecretMasterKey cfg = []
     then Inl (Errorf ''WEBHOOK_SECRET_MASTER_KEY is required when APP_ENV=production'')
     else if cf_AppEnv cfg = ''production'' \<and> cf_ProviderCredentialsMasterKey cfg = []
     then Inl (Errorf ''PROVIDER_CREDENTIALS_MASTER_KEY is required when APP_ENV=production'')
     else Inr cfg)"

section \<open>The wiring (main.go)\<close>

record MainEnv =
  mv_opens :: bool   \<comment> \<open>the database connection\<close>
  mv_clock :: "nat \<Rightarrow> Time"
  mv_random :: "nat \<Rightarrow> nat list"   \<comment> \<open>twelve bytes of an id\<close>
  mv_entropy :: "nat \<Rightarrow> nat \<Rightarrow> go_error + nat list"
  mv_credentials :: "nat \<Rightarrow> string \<Rightarrow> go_error + string"
  mv_lib :: PgLib
  mv_percentile :: percentile
  mv_urls :: UrlLib
  mv_woovi :: WooviEnv
  mv_providerClient :: "Duration \<Rightarrow> ProviderClient"
  mv_resolver :: Resolver
  mv_webhookClient :: "HTTPSender \<Rightarrow> HTTPClient"

definition main_registry :: "MainEnv \<Rightarrow> Config \<Rightarrow> Box \<Rightarrow> go_error + Factory" where
  "main_registry env cfg box = NewFactory (mv_providerClient env (10 * second))
     \<lparr>wo_Credentials = Some (mv_credentials env), wo_Cipher = Some (Decrypt box),
      wo_HTTPClient = Some (mv_providerClient env (cf_ProviderHTTPTimeout cfg)),
      wo_ProductionBaseURL = [], wo_SandboxBaseURL = [], wo_KeyCacheTTL = 0\<rparr>"

text \<open>The registry and the connections service: with the master key, Woovi; without it, none.\<close>

definition main_providers :: "MainEnv \<Rightarrow> Config \<Rightarrow> go_error + ConnectorRegistry \<times> PgDB ConnectionService option" where
  "main_providers env cfg =
     (if cf_ProviderCredentialsMasterKey cfg = [] then Inr ([], None)
      else case NewBase64 (cf_ProviderCredentialsMasterKey cfg) of
        Inl err \<Rightarrow> Inl err
      | Inr box \<Rightarrow> (case main_registry env cfg box of
          Inl err \<Rightarrow> Inl err
        | Inr f \<Rightarrow> (case NewConnections (mv_clock env) (mv_random env) (main_connections box (mv_entropy env) (mv_woovi env) f) of
            Inl err \<Rightarrow> Inl err
          | Inr service \<Rightarrow> Inr ([(Key, woovi_integration (mv_woovi env) f)], Some service))))"

definition main_orchestrator :: "MainEnv \<Rightarrow> ConnectorRegistry \<Rightarrow> PgDB Service" where
  "main_orchestrator env registry = NewService (mv_clock env) (mv_random env)
     \<lparr>op_Repository = pg_repository (mv_lib env), op_Providers = ConnectorRegistry_registry registry,
      op_RoutingTelemetry = Some (Refresh (NewTelemetry (pg_telemetry (mv_percentile env))
        \<lparr>to_Window = 0, to_CircuitCooldown = 0, to_MinimumSamples = 0\<rparr>)),
      op_Clock = None, op_IDs = None, op_MaxAttempts = 0\<rparr>"

definition allowLocal :: "Config \<Rightarrow> bool" where
  "allowLocal cfg \<longleftrightarrow> cf_AppEnv cfg = ''development'' \<or> cf_AppEnv cfg = ''test''"

definition main_sender :: "MainEnv \<Rightarrow> Config \<Rightarrow> Sender" where
  "main_sender env cfg = HTTPSender_Send (mv_webhookClient env (NewHTTPSender (mv_resolver env)
     \<lparr>ho_Timeout = cf_WebhookHTTPTimeout cfg, ho_AllowPrivateTargets = allowLocal cfg, ho_Resolver = None\<rparr>))"

definition main_delivery :: "MainEnv \<Rightarrow> Config \<Rightarrow> go_error + PgDB DeliveryService option" where
  "main_delivery env cfg =
     (if cf_WebhookSecretMasterKey cfg = [] then Inr None
      else case NewBase64 (cf_WebhookSecretMasterKey cfg) of
        Inl err \<Rightarrow> Inl err
      | Inr box \<Rightarrow> map_sum id Some (NewDelivery (mv_clock env) (mv_random env) 0
          \<lparr>do_Repository = Some pg_deliveries,
           do_Cipher = Some \<lparr>sc_Encrypt = (\<lambda>n. Encrypt box (mv_entropy env n)), sc_Decrypt = Decrypt box\<rparr>,
           do_Sender = Some (main_sender env cfg), do_Clock = None, do_IDs = None, do_WorkerID = [], do_BatchSize = 0,
           do_LeaseDuration = 0, do_MaxAttempts = 0, do_AllowInsecureLocalTargets = allowLocal cfg\<rparr>))"

text \<open>The services as the interfaces of the server.\<close>

definition result_of :: "('s, PaymentIntent \<times> go_error option) orch \<Rightarrow> ('s, PaymentIntent) orch" where
  "result_of m = bindE m (\<lambda>(intent, err). case err of None \<Rightarrow> returnE intent | Some e \<Rightarrow> throwE e)"

definition main_payments :: "'s Service \<Rightarrow> 's world PaymentService" where
  "main_payments sv = \<lparr>hp_CreatePayment = (\<lambda>req. result_of (CreatePayment sv req)), hp_GetPayment = queryPayment sv,
     hp_ListPaymentAttempts = ListPaymentAttempts sv\<rparr>"

definition run_delivery :: "('s, 'a) dprog \<Rightarrow> ('s, 'a) orch" where
  "run_delivery m w = (case m \<lparr>dw_store = w_store w, dw_tick = w_tick w, dw_sent = []\<rparr> of
     (r, W) \<Rightarrow> (r, w\<lparr>w_store := dw_store W, w_tick := dw_tick W\<rparr>))"

definition main_webhooks :: "UrlLib \<Rightarrow> 's DeliveryService \<Rightarrow> 's world MerchantWebhookService" where
  "main_webhooks lib sv = \<lparr>hm_SetEndpoint = (\<lambda>ws env url secret. run_delivery (SetEndpoint lib sv ws env url secret)),
     hm_GetEndpoint = (\<lambda>ws env. run_delivery (GetEndpoint sv ws env)),
     hm_DisableEndpoint = (\<lambda>ws env. run_delivery (DisableEndpoint sv ws env))\<rparr>"

definition main_connection_service :: "'s ConnectionService \<Rightarrow> 's world ProviderConnectionService" where
  "main_connection_service sv = \<lparr>hc_Connect = Connect sv, hc_List = ListConnections sv, hc_Disable = DisableConnection sv\<rparr>"

text \<open>\<open>database.DB.Ping\<close>; on the nil pointer that \<open>main\<close> passes without a database it panics.\<close>

definition pg_Ping :: "(PgDB world, go_error option) request_prog" where
  "pg_Ping = bindE (tryE (run_store (statement id (returnE ())))) (\<lambda>r. returnE (case r of Inl err \<Rightarrow> Some err | Inr _ \<Rightarrow> None))"

definition nil_Ping :: "('w, go_error option) request_prog" where
  "nil_Ping = throwE (Errorf ''invalid memory address or nil pointer dereference'')"

definition server_options ::
  "MainEnv \<Rightarrow> ConnectorRegistry \<Rightarrow> PgDB ConnectionService option \<Rightarrow> PgDB DeliveryService option \<Rightarrow> PgDB world HttpOptions" where
  "server_options env registry connections delivery = (let orchestrator = main_orchestrator env registry in
     \<lparr>so_Database = Some pg_Ping, so_Payments = Some (main_payments orchestrator),
      so_ProviderWebhooks = Some (ProcessProviderWebhook orchestrator),
      so_MerchantWebhooks = map_option (main_webhooks (mv_urls env)) delivery,
      so_ProviderConnections = map_option main_connection_service connections,
      so_APIKeys = Some (\<lambda>token. run_store (pg_ResolveAPIKey token))\<rparr>)"

definition Launch :: "MainEnv \<Rightarrow> Config \<Rightarrow> go_error + PgDB world HttpOptions \<times> PgDB DeliveryService option" where
  "Launch env cfg =
     (if cf_DatabaseURL cfg = []
      then Inr (\<lparr>so_Database = Some nil_Ping, so_Payments = None, so_ProviderWebhooks = None, so_MerchantWebhooks = None,
        so_ProviderConnections = None, so_APIKeys = None\<rparr>, None)
      else if \<not> mv_opens env then Inl (Errorf ''database connection failed'')
      else case main_providers env cfg of
        Inl err \<Rightarrow> Inl err
      | Inr (registry, connections) \<Rightarrow> (case main_delivery env cfg of
          Inl err \<Rightarrow> Inl err
        | Inr delivery \<Rightarrow> Inr (server_options env registry connections delivery, delivery)))"

section \<open>The webhook worker (main.go)\<close>

text \<open>
  The loop runs until \<open>select\<close> finds the context done, which \<open>stopped i\<close> says of the i-th iteration; it gives the
  results of the iterations, which are logged, or does not return.
\<close>

definition log_iteration :: "go_error + int \<times> go_error option \<Rightarrow> string list" where
  "log_iteration r = (case r of
     Inr (processed, None) \<Rightarrow> if processed > 0 then [''webhook deliveries processed''] else []
   | _ \<Rightarrow> [''webhook worker iteration failed''])"

partial_function (option) runWebhookWorker ::
  "'s DeliveryService \<Rightarrow> (nat \<Rightarrow> bool) \<Rightarrow> nat \<Rightarrow> 's dworld \<Rightarrow> (string list \<times> 's dworld) option" where
  "runWebhookWorker worker stopped i w = (case RunOnce worker w of (r, w') \<Rightarrow>
     if stopped i then Some (log_iteration r, w')
     else Option.bind (runWebhookWorker worker stopped (Suc i) w') (\<lambda>(lines, w''). Some (log_iteration r @ lines, w'')))"

text \<open>What \<open>n\<close> iterations leave, and what they log.\<close>

definition iterate :: "'s DeliveryService \<Rightarrow> nat \<Rightarrow> 's dworld \<Rightarrow> 's dworld" where
  "iterate worker n w = ((\<lambda>w. snd (RunOnce worker w)) ^^ n) w"

definition iteration_log :: "'s DeliveryService \<Rightarrow> nat \<Rightarrow> 's dworld \<Rightarrow> string list" where
  "iteration_log worker n w = concat (map (\<lambda>k. log_iteration (fst (RunOnce worker (iterate worker k w)))) [0..<Suc n])"

lemma iterate_Suc: "iterate worker (Suc n) w = iterate worker n (snd (RunOnce worker w))"
  by (simp add: iterate_def funpow_Suc_right del: funpow.simps)

lemma iteration_log_Suc:
  "iteration_log worker (Suc n) w = log_iteration (fst (RunOnce worker w)) @ iteration_log worker n (snd (RunOnce worker w))"
proof -
  have "map (\<lambda>k. log_iteration (fst (RunOnce worker (iterate worker k w)))) [0..<Suc (Suc n)] =
      log_iteration (fst (RunOnce worker w)) # map (\<lambda>k. log_iteration (fst (RunOnce worker (iterate worker (Suc k) w)))) [0..<Suc n]"
    by (simp add: upt_conv_Cons map_Suc_upt [symmetric] iterate_def comp_def del: upt_Suc)
  then show ?thesis unfolding iteration_log_def by (simp add: iterate_Suc del: upt_Suc)
qed

lemma worker_runs:
  assumes "stopped (i + n)" and "list_all (\<lambda>m. \<not> stopped m) [i..<i + n]"
  shows "runWebhookWorker worker stopped i w = Some (iteration_log worker n w, iterate worker (Suc n) w)"
  using assms
proof (induction n arbitrary: i w)
  case 0
  then show ?case by (subst runWebhookWorker.simps) (simp add: iteration_log_def iterate_def split_def)
next
  case (Suc n)
  have now: "\<not> stopped i" and rest: "list_all (\<lambda>m. \<not> stopped m) [Suc i..<Suc i + n]"
    using Suc.prems(2) by (simp_all add: upt_conv_Cons del: upt_Suc)
  have "runWebhookWorker worker stopped (Suc i) (snd (RunOnce worker w)) =
      Some (iteration_log worker n (snd (RunOnce worker w)), iterate worker (Suc n) (snd (RunOnce worker w)))"
    using Suc.prems(1) by (intro Suc.IH rest) simp
  then show ?case
    using now by (subst runWebhookWorker.simps) (simp add: split_def iteration_log_Suc iterate_Suc [of _ "Suc n"])
qed

lemma worker_returns_stopped:
  assumes "runWebhookWorker worker stopped i w = Some r"
  shows "\<exists>n. stopped (i + n)"
proof -
  have "\<exists>n\<ge>i. stopped n"
    using _ assms
  proof (rule runWebhookWorker.raw_induct [where P = "\<lambda>_ stopped i _ _. \<exists>n\<ge>i. stopped n"])
    fix run :: "'a DeliveryService \<Rightarrow> (nat \<Rightarrow> bool) \<Rightarrow> nat \<Rightarrow> 'a dworld \<Rightarrow> (string list \<times> 'a dworld) option"
    fix worker :: "'a DeliveryService" and stopped :: "nat \<Rightarrow> bool" and i w r
    assume IH: "\<And>worker stopped i w r. run worker stopped i w = Some r \<Longrightarrow> \<exists>n\<ge>i. stopped n"
      and body: "(case RunOnce worker w of (r, w') \<Rightarrow>
        if stopped i then Some (log_iteration r, w')
        else Option.bind (run worker stopped (Suc i) w') (\<lambda>(lines, w''). Some (log_iteration r @ lines, w''))) = Some r"
    show "\<exists>n\<ge>i. stopped n"
    proof (cases "stopped i")
      case False
      then obtain q where "run worker stopped (Suc i) (snd (RunOnce worker w)) = Some q"
        using body by (auto simp: split_def bind_eq_Some_conv)
      from IH [OF this] show ?thesis using Suc_leD by blast
    qed auto
  qed
  then show ?thesis by (metis le_add_diff_inverse)
qed


end
