(* ===== verification/Access.thy ===== *)
theory Access
  imports Startup
begin

text \<open>
  Who may do what through the HTTP API: properties of the server that \<open>Launch\<close> wires over the PostgreSQL
  store.  A request without an active API key reaches no service (\<open>unauthorized_refused\<close>); what a key can
  read depends on the rows of its own workspace only (\<open>reads_isolated\<close>).
\<close>

section \<open>The key of a request\<close>

definition request_token :: "HttpRequest \<Rightarrow> string" where
  "request_token r = bearerToken (header_Get r ''Authorization'')"

definition request_key :: "PgDB \<Rightarrow> HttpRequest \<Rightarrow> ApiKey option" where
  "request_key db r = (if request_token r = [] then None
     else find (\<lambda>k. ak_SecretHash k = Sum256 (map byte (request_token r)) \<and> ak_Active k) (db_apiKeys db))"

text \<open>A well-formed \<open>Authorization\<close> header carries its token.\<close>

definition space_start :: "char \<Rightarrow> bool" where
  "space_start c \<longleftrightarrow> byte c \<in> {9, 10, 11, 12, 13, 32, 194, 225, 226, 227}"

lemma space_runes_start: "list_all (\<lambda>p. case p of [] \<Rightarrow> True | c # _ \<Rightarrow> space_start c) space_runes"
  by code_simp

lemma space_at_word: "\<not> space_start c \<Longrightarrow> space_at (c # t) = None"
proof -
  assume c: "\<not> space_start c"
  have "\<not> (p \<noteq> [] \<and> starts_with p (c # t))" if p: "p \<in> set space_runes" for p
    using bspec [OF space_runes_start [unfolded list_all_iff] p] c by (cases p) (auto simp: starts_with_def)
  then show ?thesis unfolding space_at_def find_None_iff by blast
qed

lemma space_runes_blank: "list_all (\<lambda>p. case p of [] \<Rightarrow> True | c # _ \<Rightarrow> c = CHR '' '' \<longrightarrow> p = '' '') space_runes \<and> list_ex ((=) '' '') space_runes"
  by code_simp

lemma space_at_blank: "space_at (CHR '' '' # t) = Some '' ''"
proof -
  let ?P = "\<lambda>p. p \<noteq> [] \<and> starts_with p (CHR '' '' # t)"
  have "find ?P space_runes \<noteq> None"
    using space_runes_blank by (auto simp: find_None_iff list_ex_iff starts_with_def intro!: bexI [of _ "'' ''"])
  then obtain p where p: "find ?P space_runes = Some p" by blast
  from find_Some_iff2 [OF p] have "p = '' ''"
    using space_runes_blank by (cases p) (auto simp: starts_with_def list_all_iff)
  then show ?thesis using p by (simp add: space_at_def)
qed

lemma fields_word: "list_all (\<lambda>c. \<not> space_start c) u \<Longrightarrow> fields_from word (u @ s) = fields_from (word @ u) s"
proof (induction u arbitrary: word)
  case (Cons c u)
  then show ?case by (subst fields_from.simps) (simp add: space_at_word)
qed simp

lemma bearerToken_header:
  assumes "list_all (\<lambda>c. \<not> space_start c) token" and "token \<noteq> []"
  shows "bearerToken (''Bearer '' @ token) = token"
proof -
  have "fields_from [] (''Bearer'' @ '' '' @ token) = fields_from ''Bearer'' (CHR '' '' # token)"
    by (subst fields_word) (simp_all add: space_start_def)
  also have "\<dots> = ''Bearer'' # fields_from [] (token @ [])"
    by (subst fields_from.simps) (simp add: space_at_blank)
  also have "fields_from [] (token @ []) = [token]"
    using assms by (subst fields_word) (simp_all add: fields_from.simps)
  finally have "Fields (''Bearer '' @ token) = [''Bearer'', token]" by (simp add: Fields_def)
  moreover have "EqualFold ''Bearer'' ''Bearer''" by code_simp
  ultimately show ?thesis by (simp add: bearerToken_def)
qed

text \<open>The routes that need no key.\<close>

definition public_path :: "HttpRequest \<Rightarrow> bool" where
  "public_path r \<longleftrightarrow> hr_Path r \<in> {[''healthz''], [''readyz'']} \<or>
     match_path (v1 ''provider_webhooks'' @ [Wildcard ''connection_id'']) (hr_Path r) \<noteq> None"

definition key_resolver :: "PgDB world resolver" where
  "key_resolver token = run_store (pg_ResolveAPIKey token)"

definition untouched :: "PgDB world \<Rightarrow> PgDB world \<Rightarrow> bool" where
  "untouched w w' \<longleftrightarrow> tables (w_store w') = tables (w_store w) \<and> w_tick w' = w_tick w \<and> w_calls w' = w_calls w"

lemma resolve_token:
  assumes "token \<noteq> []"
  shows "\<exists>db'. pg_ResolveAPIKey token db = ((if db_faults db \<noteq> [] \<and> hd (db_faults db) then Inl pg_fault
      else case find (\<lambda>k. ak_SecretHash k = Sum256 (map byte token) \<and> ak_Active k) (db_apiKeys db) of
        None \<Rightarrow> Inl ErrUnauthorized
      | Some k \<Rightarrow> Inr \<lparr>pn_APIKeyID = ak_ID k, pn_WorkspaceID = ak_WorkspaceID k, pn_Environment = ak_Environment k\<rparr>), db') \<and>
    db' = db\<lparr>db_faults := tl (db_faults db)\<rparr>"
  using assms by (simp add: pg_ResolveAPIKey_def statement_def Let_def throwE_def returnE_def split: option.split)

lemma authorize_refuses:
  assumes "request_key (w_store w) r = None"
  shows "\<exists>res w'. authorize key_resolver h r w = (Inr res, w') \<and> untouched w w' \<and> rs_Status res \<in> {401, 500}"
proof (cases "request_token r = []")
  case True
  then show ?thesis by (simp add: authorize_def request_token_def returnE_def untouched_def writeAPIError_def writeJSON_def)
next
  case False
  then have "find (\<lambda>k. ak_SecretHash k = Sum256 (map byte (request_token r)) \<and> ak_Active k) (db_apiKeys (w_store w)) = None"
    using assms by (simp add: request_key_def)
  then show ?thesis
    using resolve_token [OF False, of "w_store w"] False
    by (auto simp: authorize_def request_token_def [symmetric] key_resolver_def bindE_def tryE_def run_store_def returnE_def untouched_def
        writeAPIError_def writeJSON_def pg_fault_def Let_def)
qed

section \<open>The routes of the launched server\<close>

definition keyed :: "PgDB world route \<Rightarrow> bool" where
  "keyed rt \<longleftrightarrow> (\<exists>h. rt_Handler rt = authorize key_resolver h)"

definition launched :: "MainEnv \<Rightarrow> Config \<Rightarrow> PgDB world HttpOptions \<Rightarrow> bool" where
  "launched env cfg opts \<longleftrightarrow> (\<exists>worker. Launch env cfg = Inr (opts, worker))"

lemma launched_keys: "launched env cfg opts \<Longrightarrow> so_APIKeys opts = None \<and> so_Payments opts = None \<and> so_ProviderWebhooks opts = None
    \<or> so_APIKeys opts = Some key_resolver"
  by (auto simp: launched_def Launch_def server_options_def key_resolver_def Let_def fun_eq_iff
      split: if_splits sum.splits)

definition server_routes :: "'w HttpOptions \<Rightarrow> 'w route list" where
  "server_routes opts = [handle_route None [Literal ''healthz''] handleHealthz, handle_route None [Literal ''readyz''] (handleReadyz (so_Database opts))] @
     paymentRoutes opts @ providerWebhookRoutes opts @ merchantWebhookRoutes opts @ providerConnectionRoutes opts"

lemma NewServer_routes: "NewServer opts = ServeHTTP (server_routes opts)"
  by (simp add: NewServer_def server_routes_def)

lemma handle_route_simps [simp]: "rt_Pattern (handle_route m p h) = p" "rt_Method (handle_route m p h) = m" "rt_Handler (handle_route m p h) = h"
  by (simp_all add: handle_route_def)

lemma keyed_authorize [simp]: "keyed (handle_route m p (authorize key_resolver h))"
  by (auto simp: keyed_def)

lemma match_literal: "match_path [Literal s] ts \<noteq> None \<Longrightarrow> ts = [s]"
  by (cases ts; cases "tl ts") (auto split: if_splits)

lemma public_or_keyed:
  assumes "launched env cfg opts" and "rt \<in> set (server_routes opts)" and "on_path r rt"
  shows "public_path r \<or> keyed rt"
proof -
  have "rt_Pattern rt \<in> {[Literal ''healthz''], [Literal ''readyz''], v1 ''provider_webhooks'' @ [Wildcard ''connection_id'']} \<or> keyed rt"
    using launched_keys [OF assms(1)] assms(2)
    by (auto simp: server_routes_def paymentRoutes_def providerWebhookRoutes_def merchantWebhookRoutes_def providerConnectionRoutes_def
        split: option.splits)
  then consider "rt_Pattern rt = [Literal ''healthz'']" | "rt_Pattern rt = [Literal ''readyz'']"
    | "rt_Pattern rt = v1 ''provider_webhooks'' @ [Wildcard ''connection_id'']" | "keyed rt" by blast
  then show ?thesis
  proof cases
    case 1
    then show ?thesis using assms(3) match_literal by (auto simp: on_path_def public_path_def)
  next
    case 2
    then show ?thesis using assms(3) match_literal by (auto simp: on_path_def public_path_def)
  next
    case 3
    then show ?thesis using assms(3) by (simp add: on_path_def public_path_def)
  qed simp
qed

lemma ServeHTTP_cases:
  obtains (found) rt where "rt \<in> set routes" and "on_path r rt" and "on_method r rt"
      and "ServeHTTP routes r = bindE (rt_Handler rt (r\<lparr>hr_PathValues := the (match_path (rt_Pattern rt) (hr_Path r))\<rparr>)) (\<lambda>response.
        returnE (if hr_Method r = ''HEAD'' then response\<lparr>rs_Body := []\<rparr> else response))"
    | (missing) res where "ServeHTTP routes r = returnE res" and "rs_Status res \<in> {404, 405}"
proof (cases "find (\<lambda>rt. on_path r rt \<and> on_method r rt) routes")
  case None
  then have "ServeHTTP routes r = returnE (if allowed_methods r routes = [] then plainError 404 [] ''404 page not found''
      else plainError 405 [(''Allow'', join_comma (allowed_methods r routes))] ''Method Not Allowed'')"
    by (simp add: ServeHTTP_def)
  then show thesis by (rule missing) (simp add: plainError_def)
next
  case (Some rt)
  then show thesis using find_Some_iff2 [OF Some] by (intro found [of rt]) (simp_all add: ServeHTTP_def)
qed

lemma request_key_path: "request_key db (r\<lparr>hr_PathValues := vs\<rparr>) = request_key db r"
  by (simp add: request_key_def request_token_def header_Get_def)

section \<open>No key, no service\<close>

text \<open>
  C13.  Without an active API key a request reaches no service: unless its path is a health check or a provider
  webhook, it is answered (401, 404, 405, or 500 when the key could not be looked up) with the tables, the
  clock and the provider calls as they were.
\<close>

theorem unauthorized_refused:
  assumes "Launch env cfg = Inr (opts, worker)" and "request_key (w_store w) r = None" and "\<not> public_path r"
  shows "\<exists>res w'. NewServer opts r w = (Inr res, w') \<and> rs_Status res \<in> {401, 404, 405, 500} \<and>
    tables (w_store w') = tables (w_store w) \<and> w_tick w' = w_tick w \<and> w_calls w' = w_calls w"
proof -
  have l: "launched env cfg opts" using assms(1) by (auto simp: launched_def)
  show ?thesis
  proof (cases rule: ServeHTTP_cases [of "server_routes opts" r])
    case (found rt)
    then obtain h where "rt_Handler rt = authorize key_resolver h"
      using public_or_keyed [OF l found(1,2)] assms(3) by (auto simp: keyed_def)
    then show ?thesis
      using authorize_refuses [of w "r\<lparr>hr_PathValues := the (match_path (rt_Pattern rt) (hr_Path r))\<rparr>" h] assms(2) found(4)
      by (auto simp: NewServer_routes request_key_path bindE_def returnE_def untouched_def)
  next
    case (missing res)
    then show ?thesis by (auto simp: NewServer_routes returnE_def)
  qed
qed

section \<open>A server for the witnesses\<close>

definition sample_main :: MainEnv where
  "sample_main = \<lparr>mv_opens = True, mv_clock = (\<lambda>n. int n * second), mv_random = (\<lambda>n. replicate 11 0 @ [n]), mv_entropy = sample_entropy,
     mv_credentials = (\<lambda>_ _. Inr []), mv_lib = demo_lib, mv_percentile = (\<lambda>_. hd),
     mv_urls = \<lparr>ul_Parse = (\<lambda>_. None), ul_ParseIP = (\<lambda>_. None)\<rparr>, mv_woovi = sample_env,
     mv_providerClient = (\<lambda>_. wf_client sample_factory), mv_resolver = (\<lambda>_. Inr []),
     mv_webhookClient = (\<lambda>_. \<lparr>hc_NewRequest = (\<lambda>_. True), hc_Do = (\<lambda>_ _. Inr 200), hc_Since = (\<lambda>_. 1)\<rparr>)\<rparr>"

definition sample_cfg :: Config where
  "sample_cfg = \<lparr>cf_AppEnv = ''production'', cf_HTTPAddr = '':8080'', cf_LogLevel = ''info'', cf_DatabaseURL = ''postgres://db'',
     cf_DatabaseConnectTimeout = 5 * second, cf_ShutdownTimeout = 10 * second, cf_WebhookSecretMasterKey = sample_key,
     cf_WebhookWorkerInterval = second, cf_WebhookHTTPTimeout = 10 * second, cf_ProviderCredentialsMasterKey = sample_key,
     cf_ProviderHTTPTimeout = 10 * second\<rparr>"

definition sample_server :: "PgDB world HttpOptions \<times> PgDB DeliveryService option" where
  "sample_server = (case Launch sample_main sample_cfg of Inl err \<Rightarrow> (server_options sample_main [] None None, None) | Inr s \<Rightarrow> s)"

lemma sample_launch: "Launch sample_main sample_cfg = Inr sample_server"
proof -
  have "sample_key \<noteq> []" by (simp add: sample_key_def)
  then have "\<exists>s. Launch sample_main sample_cfg = Inr s"
    by (simp add: Launch_def main_providers_def main_registry_def main_delivery_def sample_box sample_cfg_def sample_main_def
        NewFactory_def NewConnections_def main_connections_def NewDelivery_def Let_def)
  then show ?thesis by (auto simp: sample_server_def)
qed

definition sample_api_key :: ApiKey where
  "sample_api_key = \<lparr>ak_ID = ''k1'', ak_WorkspaceID = ''ws'', ak_Environment = EnvironmentTest, ak_SecretHash = Sum256 (map byte ''token''),
     ak_Active = True\<rparr>"

definition sample_get :: "(string \<times> string list) list \<Rightarrow> HttpRequest" where
  "sample_get header = \<lparr>hr_Method = ''GET'', hr_Path = [''v1'', ''payment_intents'', ''pi_1''],
     hr_Header = header, hr_Body = [], hr_Broken = False, hr_PathValues = []\<rparr>"

definition sample_world :: "PgDB world" where
  "sample_world = (pg_start 0)\<lparr>w_store := empty_db\<lparr>db_apiKeys := [sample_api_key]\<rparr>\<rparr>"

definition sample_header :: "(string \<times> string list) list" where
  "sample_header = [(''Authorization'', [''Bearer '' @ ''token''])]"

lemma sample_tokens: "request_token (sample_get []) = []" "request_token (sample_get sample_header) = ''token''"
proof -
  show "request_token (sample_get []) = []"
    by (simp add: request_token_def header_Get_def sample_get_def bearerToken_def Fields_def fields_from.simps)
  have "header_Get (sample_get sample_header) ''Authorization'' = ''Bearer '' @ ''token''"
    by (simp add: header_Get_def sample_get_def sample_header_def)
  then show "request_token (sample_get sample_header) = ''token''"
    unfolding request_token_def by (simp only:) (rule bearerToken_header, simp_all add: space_start_def)
qed

lemma sample_keys: "request_key (w_store sample_world) (sample_get []) = None"
  "request_key (w_store sample_world) (sample_get sample_header) = Some sample_api_key"
  by (simp_all add: request_key_def sample_tokens sample_world_def sample_api_key_def)

theorem unauthorized_refused_witness:
  "\<exists>res w'. NewServer (fst sample_server) (sample_get []) sample_world = (Inr res, w') \<and> rs_Status res \<in> {401, 404, 405, 500} \<and>
    tables (w_store w') = tables (w_store sample_world) \<and> w_tick w' = w_tick sample_world \<and> w_calls w' = w_calls sample_world"
proof (rule unauthorized_refused)
  show "Launch sample_main sample_cfg = Inr (fst sample_server, snd sample_server)" by (simp add: sample_launch)
  show "request_key (w_store sample_world) (sample_get []) = None" by (rule sample_keys)
  show "\<not> public_path (sample_get [])" by code_simp
qed

section \<open>The rows of a workspace\<close>

definition own_payment :: "string \<Rightarrow> PgDB \<Rightarrow> string \<Rightarrow> bool" where
  "own_payment ws db pid \<longleftrightarrow> list_ex (\<lambda>p. pi_ID p = pid \<and> pi_WorkspaceID p = ws) (db_payments db)"

definition tenant_rows :: "string \<Rightarrow> PgDB \<Rightarrow> PaymentIntent list \<times> PaymentAttempt list \<times> ProviderConnection list \<times> Endpoint list" where
  "tenant_rows ws db = (filter (\<lambda>p. pi_WorkspaceID p = ws) (db_payments db),
     filter (\<lambda>a. own_payment ws db (pa_PaymentIntentID a)) (db_attempts db),
     filter (\<lambda>c. pc_WorkspaceID c = ws) (db_connections db), filter (\<lambda>e. en_WorkspaceID e = ws) (db_endpoints db))"

text \<open>Primary keys are unique, and the payments of the workspace were routed to its own connections.\<close>

definition tenant_ok :: "string \<Rightarrow> PgDB \<Rightarrow> bool" where
  "tenant_ok ws db \<longleftrightarrow> distinct (map pi_ID (db_payments db)) \<and> distinct (map pc_ID (db_connections db)) \<and>
     list_all (\<lambda>a. if own_payment ws db (pa_PaymentIntentID a)
       then list_ex (\<lambda>c. pc_ID c = pa_ProviderConnectionID a \<and> pc_WorkspaceID c = ws) (db_connections db) else True) (db_attempts db)"

lemma find_filter: "(\<And>x. x \<in> set xs \<Longrightarrow> P x \<Longrightarrow> Q x) \<Longrightarrow> find P xs = find P (filter Q xs)"
  by (induction xs) auto

lemma map_filter_cong: "(\<And>x. x \<in> set xs \<Longrightarrow> f x = g x) \<Longrightarrow> List.map_filter f xs = List.map_filter g xs"
  by (induction xs) (auto simp: List.map_filter_def)

lemma own_payment_find:
  assumes "distinct (map pi_ID (db_payments db))"
  shows "find (\<lambda>p. pi_ID p = pid) (filter (\<lambda>p. pi_WorkspaceID p = ws) (db_payments db)) =
    (case find (\<lambda>p. pi_ID p = pid) (db_payments db) of None \<Rightarrow> None | Some p \<Rightarrow> if pi_WorkspaceID p = ws then Some p else None)"
proof -
  have "find (\<lambda>p. pi_ID p = pid) (filter (\<lambda>p. pi_WorkspaceID p = ws) ps) =
      (case find (\<lambda>p. pi_ID p = pid) ps of None \<Rightarrow> None | Some p \<Rightarrow> if pi_WorkspaceID p = ws then Some p else None)"
    if "distinct (map pi_ID ps)" for ps
    using that
  proof (induction ps)
    case (Cons p ps)
    have "find (\<lambda>q. pi_ID q = pid) ps = None" if "pi_ID p = pid"
      using Cons.prems that unfolding find_None_iff by (auto simp: image_iff)
    then show ?case using Cons by simp
  qed simp
  then show ?thesis using assms by blast
qed

definition rows_environment :: "string \<Rightarrow> PaymentAttempt list \<Rightarrow> ProviderConnection list \<Rightarrow> Environment option" where
  "rows_environment pid attempts connections =
     (case List.map_filter (\<lambda>a. find (\<lambda>c. pc_ID c = pa_ProviderConnectionID a) connections)
         (sort_key pa_Sequence (filter (\<lambda>a. pa_PaymentIntentID a = pid) attempts)) of
        [] \<Rightarrow> None | pc # _ \<Rightarrow> Some (pc_Environment pc))"

lemma own_attempts:
  "own_payment ws db pid \<Longrightarrow> filter (\<lambda>a. pa_PaymentIntentID a = pid) (filter (\<lambda>a. own_payment ws db (pa_PaymentIntentID a)) (db_attempts db)) =
    filter (\<lambda>a. pa_PaymentIntentID a = pid) (db_attempts db)"
  unfolding filter_filter by (rule filter_cong) auto

lemma own_environment:
  assumes "tenant_ok ws db" and "own_payment ws db pid"
  shows "payment_environment db pid = rows_environment pid (filter (\<lambda>a. own_payment ws db (pa_PaymentIntentID a)) (db_attempts db))
    (filter (\<lambda>c. pc_WorkspaceID c = ws) (db_connections db))"
proof -
  have d: "distinct (map pc_ID (db_connections db))" using assms(1) by (simp add: tenant_ok_def)
  have "find (\<lambda>c. pc_ID c = pa_ProviderConnectionID a) (db_connections db) =
      find (\<lambda>c. pc_ID c = pa_ProviderConnectionID a) (filter (\<lambda>c. pc_WorkspaceID c = ws) (db_connections db))"
    if a: "a \<in> set (attempts_of db pid)" for a
  proof (rule find_filter)
    fix c assume c: "c \<in> set (db_connections db)" "pc_ID c = pa_ProviderConnectionID a"
    have "a \<in> set (db_attempts db)" "pa_PaymentIntentID a = pid" using a by (auto simp: attempts_of_def)
    then have "list_ex (\<lambda>c. pc_ID c = pa_ProviderConnectionID a \<and> pc_WorkspaceID c = ws) (db_connections db)"
      using assms by (auto simp: tenant_ok_def list_all_iff dest!: bspec split: if_splits)
    then obtain c' where "c' \<in> set (db_connections db)" "pc_ID c' = pa_ProviderConnectionID a" "pc_WorkspaceID c' = ws"
      by (auto simp: list_ex_iff)
    then show "pc_WorkspaceID c = ws" using c d by (metis distinct_map inj_on_eq_iff)
  qed
  then have "List.map_filter (\<lambda>a. find (\<lambda>c. pc_ID c = pa_ProviderConnectionID a) (db_connections db)) (attempts_of db pid) =
      List.map_filter (\<lambda>a. find (\<lambda>c. pc_ID c = pa_ProviderConnectionID a) (filter (\<lambda>c. pc_WorkspaceID c = ws) (db_connections db))) (attempts_of db pid)"
    by (rule map_filter_cong)
  then show ?thesis unfolding payment_environment_def rows_environment_def own_attempts [OF assms(2)] attempts_of_def by simp
qed

section \<open>Reads\<close>

definition same_tenant :: "string \<Rightarrow> PgDB world \<Rightarrow> PgDB world \<Rightarrow> bool" where
  "same_tenant ws w w' \<longleftrightarrow> db_faults (w_store w) = [] \<and> db_faults (w_store w') = [] \<and> tenant_ok ws (w_store w) \<and> tenant_ok ws (w_store w') \<and>
     tenant_rows ws (w_store w) = tenant_rows ws (w_store w')"

definition reads_tenant :: "string \<Rightarrow> (PgDB world, 'a) request_prog \<Rightarrow> bool" where
  "reads_tenant ws m \<longleftrightarrow> (\<forall>w w'. same_tenant ws w w' \<longrightarrow> fst (m w) = fst (m w') \<and> snd (m w) = w)"

lemma reads_tenantI:
  assumes "\<And>w w'. same_tenant ws w w' \<Longrightarrow> m w = (f w, w)" and "\<And>w w'. same_tenant ws w w' \<Longrightarrow> f w = f w'"
  shows "reads_tenant ws m"
proof -
  have "same_tenant ws w w' \<Longrightarrow> same_tenant ws w' w" for w w' by (auto simp: same_tenant_def)
  then show ?thesis using assms unfolding reads_tenant_def by (metis fst_conv snd_conv)
qed

lemma run_calm: "db_faults (w_store w) = [] \<Longrightarrow> m (w_store w) = (x, w_store w) \<Longrightarrow> run_store (statement wrap m) w = (x, w)"
  by (simp add: run_store_def statement_no_faults)

lemma query_calm:
  assumes "sv_repo sv = pg_repository lib" and "db_faults (w_store w) = []"
  shows "queryPayment sv ws environment pid w = ((case find (\<lambda>p. pi_ID p = pid) (db_payments (w_store w)) of
      None \<Rightarrow> Inl ErrNotFound
    | Some p \<Rightarrow> if pi_WorkspaceID p \<noteq> ws \<or> payment_environment (w_store w) pid \<noteq> Some environment then Inl ErrNotFound else Inr p), w)"
proof -
  have "run_store (GetPayment (sv_repo sv) pid) w =
      ((case find (\<lambda>p. pi_ID p = pid) (db_payments (w_store w)) of None \<Rightarrow> Inl ErrNotFound | Some p \<Rightarrow> Inr p), w)"
    unfolding assms(1) pg_repository_def by (simp add: pg_GetPayment_def mapNotFound_def returnE_def throwE_def run_calm [OF assms(2)] split: option.split)
  moreover have "run_store (GetPaymentEnvironment (sv_repo sv) pid) w =
      ((case payment_environment (w_store w) pid of None \<Rightarrow> Inl ErrNotFound | Some e \<Rightarrow> Inr e), w)"
    unfolding assms(1) pg_repository_def
    by (simp add: pg_GetPaymentEnvironment_def mapNotFound_def returnE_def throwE_def run_calm [OF assms(2)] split: option.split)
  ultimately show ?thesis
    by (auto simp: queryPayment_def bindE_def returnE_def throwE_def split: option.split)
qed

lemma same_tenantD:
  assumes "same_tenant ws w w'"
  shows "find (\<lambda>p. pi_ID p = pid) (filter (\<lambda>p. pi_WorkspaceID p = ws) (db_payments (w_store w))) =
      find (\<lambda>p. pi_ID p = pid) (filter (\<lambda>p. pi_WorkspaceID p = ws) (db_payments (w_store w')))"
    and "own_payment ws (w_store w) pid = own_payment ws (w_store w') pid"
    and "own_payment ws (w_store w) pid \<Longrightarrow> payment_environment (w_store w) pid = payment_environment (w_store w') pid"
    and "own_payment ws (w_store w) pid \<Longrightarrow> attempts_of (w_store w) pid = attempts_of (w_store w') pid"
    and "filter (\<lambda>c. pc_WorkspaceID c = ws) (db_connections (w_store w)) = filter (\<lambda>c. pc_WorkspaceID c = ws) (db_connections (w_store w'))"
    and "filter (\<lambda>e. en_WorkspaceID e = ws) (db_endpoints (w_store w)) = filter (\<lambda>e. en_WorkspaceID e = ws) (db_endpoints (w_store w'))"
proof -
  let ?db = "w_store w" and ?db' = "w_store w'"
  have pay: "filter (\<lambda>p. pi_WorkspaceID p = ws) (db_payments ?db) = filter (\<lambda>p. pi_WorkspaceID p = ws) (db_payments ?db')"
    and att: "filter (\<lambda>a. own_payment ws ?db (pa_PaymentIntentID a)) (db_attempts ?db) =
      filter (\<lambda>a. own_payment ws ?db' (pa_PaymentIntentID a)) (db_attempts ?db')"
    and con: "filter (\<lambda>c. pc_WorkspaceID c = ws) (db_connections ?db) = filter (\<lambda>c. pc_WorkspaceID c = ws) (db_connections ?db')"
    and ep: "filter (\<lambda>e. en_WorkspaceID e = ws) (db_endpoints ?db) = filter (\<lambda>e. en_WorkspaceID e = ws) (db_endpoints ?db')"
    and ok: "tenant_ok ws ?db" "tenant_ok ws ?db'"
    using assms by (simp_all add: same_tenant_def tenant_rows_def)
  have own: "own_payment ws db i \<longleftrightarrow> list_ex (\<lambda>p. pi_ID p = i) (filter (\<lambda>p. pi_WorkspaceID p = ws) (db_payments db))" for db i
    by (auto simp: own_payment_def list_ex_iff)
  show same: "own_payment ws ?db pid = own_payment ws ?db' pid" by (simp add: own pay)
  show "find (\<lambda>p. pi_ID p = pid) (filter (\<lambda>p. pi_WorkspaceID p = ws) (db_payments ?db)) =
      find (\<lambda>p. pi_ID p = pid) (filter (\<lambda>p. pi_WorkspaceID p = ws) (db_payments ?db'))" by (simp add: pay)
  show "payment_environment ?db pid = payment_environment ?db' pid" if "own_payment ws ?db pid"
    using that same own_environment [OF ok(1), of pid] own_environment [OF ok(2), of pid] by (simp add: att con)
  show "attempts_of ?db pid = attempts_of ?db' pid" if "own_payment ws ?db pid"
    using that same own_attempts [of ws ?db pid] own_attempts [of ws ?db' pid] by (simp add: attempts_of_def att)
  show "filter (\<lambda>c. pc_WorkspaceID c = ws) (db_connections ?db) = filter (\<lambda>c. pc_WorkspaceID c = ws) (db_connections ?db')"
    "filter (\<lambda>e. en_WorkspaceID e = ws) (db_endpoints ?db) = filter (\<lambda>e. en_WorkspaceID e = ws) (db_endpoints ?db')" by (rule con ep)+
qed

definition tenant_query :: "string \<Rightarrow> Environment \<Rightarrow> string \<Rightarrow> PgDB \<Rightarrow> go_error + PaymentIntent" where
  "tenant_query ws environment pid db = (case find (\<lambda>p. pi_ID p = pid) (filter (\<lambda>p. pi_WorkspaceID p = ws) (db_payments db)) of
     None \<Rightarrow> Inl ErrNotFound
   | Some p \<Rightarrow> if payment_environment db pid \<noteq> Some environment then Inl ErrNotFound else Inr p)"

lemma query_tenant:
  assumes "sv_repo sv = pg_repository lib" and "same_tenant ws w w'"
  shows "queryPayment sv ws environment pid w = (tenant_query ws environment pid (w_store w), w)"
proof -
  have "distinct (map pi_ID (db_payments (w_store w)))" "db_faults (w_store w) = []"
    using assms(2) by (simp_all add: same_tenant_def tenant_ok_def)
  then show ?thesis
    by (simp add: query_calm [OF assms(1)] tenant_query_def own_payment_find split: option.split)
qed

lemma tenant_query_own: "tenant_query ws environment pid db = Inr p \<Longrightarrow> own_payment ws db pid"
  by (auto simp: tenant_query_def own_payment_def list_ex_iff split: option.splits if_splits dest!: find_Some_iff2)

lemma tenant_query_same:
  assumes "same_tenant ws w w'"
  shows "tenant_query ws environment pid (w_store w) = tenant_query ws environment pid (w_store w')"
proof (cases "find (\<lambda>p. pi_ID p = pid) (filter (\<lambda>p. pi_WorkspaceID p = ws) (db_payments (w_store w)))")
  case None
  then show ?thesis using same_tenantD(1) [OF assms, of pid] by (simp add: tenant_query_def)
next
  case (Some p)
  then have "own_payment ws (w_store w) pid" by (auto simp: own_payment_def list_ex_iff dest!: find_Some_iff2)
  then show ?thesis using same_tenantD(1,3) [OF assms, of pid] by (simp add: tenant_query_def split: option.split)
qed

lemma reads_query: "sv_repo sv = pg_repository lib \<Longrightarrow> reads_tenant ws (queryPayment sv ws environment pid)"
  by (rule reads_tenantI [where f = "\<lambda>w. tenant_query ws environment pid (w_store w)"]) (auto simp: query_tenant tenant_query_same)

lemma reads_attempts:
  assumes "sv_repo sv = pg_repository lib"
  shows "reads_tenant ws (ListPaymentAttempts sv ws environment pid)"
proof (rule reads_tenantI [where f = "\<lambda>w. map_sum id (\<lambda>_. attempts_of (w_store w) pid) (tenant_query ws environment pid (w_store w))"])
  fix w w' :: "PgDB world" assume s: "same_tenant ws w w'"
  then have "run_store (ListAttempts (sv_repo sv) pid) w = (Inr (attempts_of (w_store w) pid), w)"
    by (simp add: assms pg_repository_def pg_ListAttempts_def run_calm same_tenant_def)
  then show "ListPaymentAttempts sv ws environment pid w =
      (map_sum id (\<lambda>_. attempts_of (w_store w) pid) (tenant_query ws environment pid (w_store w)), w)"
    by (simp add: ListPaymentAttempts_def bindE_def query_tenant [OF assms s] split: sum.split)
  show "map_sum id (\<lambda>_. attempts_of (w_store w) pid) (tenant_query ws environment pid (w_store w)) =
      map_sum id (\<lambda>_. attempts_of (w_store w') pid) (tenant_query ws environment pid (w_store w'))"
    using tenant_query_same [OF s, of environment pid] tenant_query_own [of ws environment pid "w_store w"] same_tenantD(4) [OF s, of pid]
    by (cases "tenant_query ws environment pid (w_store w')") simp_all
qed

lemma reads_connections:
  assumes "pcs_store sv = pg_connections"
  shows "reads_tenant ws (ListConnections sv ws environment)"
proof (rule reads_tenantI [where f = "\<lambda>w. Inr (filter (\<lambda>c. pc_Environment c = environment)
    (sort_key (\<lambda>c. (pc_Priority c, pc_ID c)) (filter (\<lambda>c. pc_WorkspaceID c = ws) (db_connections (w_store w)))))"])
  fix w w' :: "PgDB world" assume s: "same_tenant ws w w'"
  then have f: "db_faults (w_store w) = []" by (simp add: same_tenant_def)
  show "ListConnections sv ws environment w = (Inr (filter (\<lambda>c. pc_Environment c = environment)
    (sort_key (\<lambda>c. (pc_Priority c, pc_ID c)) (filter (\<lambda>c. pc_WorkspaceID c = ws) (db_connections (w_store w))))), w)"
    by (simp add: ListConnections_def assms pg_connections_def pg_ListProviderConnections_def bindE_def returnE_def run_calm [OF f])
qed (simp add: same_tenantD(5))

lemma reads_endpoint:
  assumes "ds_repo sv = pg_deliveries"
  shows "reads_tenant ws (run_delivery (GetEndpoint sv ws environment))"
proof (rule reads_tenantI [where f = "\<lambda>w. case find (endpoint_of ws environment) (filter (\<lambda>e. en_WorkspaceID e = ws) (db_endpoints (w_store w))) of
    None \<Rightarrow> Inl ErrNotFound | Some e \<Rightarrow> Inr e"])
  fix w w' :: "PgDB world" assume s: "same_tenant ws w w'"
  have "find (endpoint_of ws environment) (db_endpoints (w_store w)) =
      find (endpoint_of ws environment) (filter (\<lambda>e. en_WorkspaceID e = ws) (db_endpoints (w_store w)))"
    by (rule find_filter) (simp add: endpoint_of_def)
  moreover have "db_faults (w_store w) = []" using s by (simp add: same_tenant_def)
  ultimately show "run_delivery (GetEndpoint sv ws environment) w = ((case find (endpoint_of ws environment) (filter (\<lambda>e. en_WorkspaceID e = ws) (db_endpoints (w_store w))) of
      None \<Rightarrow> Inl ErrNotFound | Some e \<Rightarrow> Inr e), w)"
    by (simp add: run_delivery_def GetEndpoint_def dw_run_def assms pg_deliveries_def pg_GetWebhookEndpoint_def statement_no_faults mapNotFound_def
        returnE_def throwE_def split: option.split)
qed (simp add: same_tenantD(6))

lemma reads_answer:
  assumes "reads_tenant ws m"
  shows "reads_tenant ws (answer_with m failed done)"
proof (rule reads_tenantI [where f = "\<lambda>w. Inr (case fst (m w) of Inl err \<Rightarrow> failed err | Inr x \<Rightarrow> done x)"])
  fix w w' :: "PgDB world" assume s: "same_tenant ws w w'"
  then have m: "fst (m w) = fst (m w')" "snd (m w) = w" using assms by (auto simp: reads_tenant_def)
  then show "answer_with m failed done w = (Inr (case fst (m w) of Inl err \<Rightarrow> failed err | Inr x \<Rightarrow> done x), w)"
    by (cases "m w") (auto simp: answer_with_def bindE_def tryE_def returnE_def split: sum.split)
  show "Inr (case fst (m w) of Inl err \<Rightarrow> failed err | Inr x \<Rightarrow> done x) = Inr (case fst (m w') of Inl err \<Rightarrow> failed err | Inr x \<Rightarrow> done x)"
    by (simp add: m)
qed

section \<open>Tenant isolation of reads\<close>

text \<open>A handler that reads the rows of the workspace it is called for, and the routes that a reading method reaches.\<close>

definition reads_own :: "(HttpRequest \<Rightarrow> Principal \<Rightarrow> (PgDB world, Response) request_prog) \<Rightarrow> bool" where
  "reads_own h \<longleftrightarrow> (\<forall>r who. reads_tenant (pn_WorkspaceID who) (h r who))"

lemma reads_handlers:
  "sv_repo sv = pg_repository lib \<Longrightarrow> reads_own (handleGetPayment (main_payments sv))"
  "sv_repo sv = pg_repository lib \<Longrightarrow> reads_own (handleListAttempts (main_payments sv))"
  "pcs_store cs = pg_connections \<Longrightarrow> reads_own (handleListProviders (main_connection_service cs))"
  "ds_repo ds = pg_deliveries \<Longrightarrow> reads_own (handleGetWebhookEndpoint (main_webhooks urls ds))"
  by (simp_all add: reads_own_def handleGetPayment_def handleListAttempts_def handleListProviders_def handleGetWebhookEndpoint_def
      main_payments_def main_connection_service_def main_webhooks_def reads_answer reads_query reads_attempts reads_connections reads_endpoint)

lemma main_services_repo:
  "main_providers env cfg = Inr (registry, Some cs) \<Longrightarrow> pcs_store cs = pg_connections"
  "main_delivery env cfg = Inr (Some ds) \<Longrightarrow> ds_repo ds = pg_deliveries"
  "sv_repo (main_orchestrator env registry) = pg_repository (mv_lib env)"
proof -
  show "main_providers env cfg = Inr (registry, Some cs) \<Longrightarrow> pcs_store cs = pg_connections"
    by (auto simp: main_providers_def NewConnections_def main_connections_def split: if_splits sum.splits)
  show "main_delivery env cfg = Inr (Some ds) \<Longrightarrow> ds_repo ds = pg_deliveries"
    by (auto simp: main_delivery_def NewDelivery_def Let_def split: if_splits sum.splits)
  show "sv_repo (main_orchestrator env registry) = pg_repository (mv_lib env)"
    by (simp add: main_orchestrator_def NewService_def)
qed

lemma launched_cases:
  assumes "launched env cfg opts"
  obtains (none) "so_Payments opts = None" "so_ProviderConnections opts = None" "so_MerchantWebhooks opts = None"
    | (wired) registry connections delivery where "main_providers env cfg = Inr (registry, connections)"
      "main_delivery env cfg = Inr delivery" "opts = server_options env registry connections delivery"
  using assms by (auto simp: launched_def Launch_def split: if_splits sum.splits)

lemma launched_services:
  assumes "launched env cfg opts"
  shows "so_Payments opts = Some ps \<Longrightarrow> \<exists>sv. ps = main_payments sv \<and> sv_repo sv = pg_repository (mv_lib env)"
    and "so_ProviderConnections opts = Some pc \<Longrightarrow> \<exists>cs. pc = main_connection_service cs \<and> pcs_store cs = pg_connections"
    and "so_MerchantWebhooks opts = Some mw \<Longrightarrow> \<exists>ds. mw = main_webhooks (mv_urls env) ds \<and> ds_repo ds = pg_deliveries"
proof -
  show "\<exists>sv. ps = main_payments sv \<and> sv_repo sv = pg_repository (mv_lib env)" if a: "so_Payments opts = Some ps"
    using assms a by (cases rule: launched_cases) (auto simp: server_options_def Let_def main_services_repo(3))
  show "\<exists>cs. pc = main_connection_service cs \<and> pcs_store cs = pg_connections" if a: "so_ProviderConnections opts = Some pc"
    using assms a by (cases rule: launched_cases) (auto simp: server_options_def Let_def dest: main_services_repo(1))
  show "\<exists>ds. mw = main_webhooks (mv_urls env) ds \<and> ds_repo ds = pg_deliveries" if a: "so_MerchantWebhooks opts = Some mw"
    using assms a by (cases rule: launched_cases) (auto simp: server_options_def Let_def dest: main_services_repo(2))
qed

lemma launched_reads:
  assumes "launched env cfg opts"
  shows "so_Payments opts = Some ps \<Longrightarrow> reads_own (handleGetPayment ps) \<and> reads_own (handleListAttempts ps)"
    and "so_ProviderConnections opts = Some pc \<Longrightarrow> reads_own (handleListProviders pc)"
    and "so_MerchantWebhooks opts = Some mw \<Longrightarrow> reads_own (handleGetWebhookEndpoint mw)"
  using launched_services [OF assms] reads_handlers by blast+

lemma reading_routes:
  assumes "launched env cfg opts" and "rt \<in> set (server_routes opts)" and "on_method r rt" and "hr_Method r \<in> {''GET'', ''HEAD''}"
  shows "rt_Handler rt = handleHealthz \<or> rt_Handler rt = handleReadyz (so_Database opts) \<or>
    (\<exists>h. rt_Handler rt = authorize key_resolver h \<and> reads_own h)"
proof -
  note services = launched_reads [OF assms(1)]
  consider "rt_Handler rt \<in> {handleHealthz, handleReadyz (so_Database opts)}" | "rt \<in> set (paymentRoutes opts)"
    | "rt \<in> set (providerWebhookRoutes opts)" | "rt \<in> set (merchantWebhookRoutes opts)" | "rt \<in> set (providerConnectionRoutes opts)"
    using assms(2) by (auto simp: server_routes_def)
  then show ?thesis
  proof cases
    case 2
    then show ?thesis
      using services(1) launched_keys [OF assms(1)] assms(3,4)
      by (auto simp: paymentRoutes_def on_method_def split: option.splits)
  next
    case 3
    then show ?thesis using assms(3,4) by (auto simp: providerWebhookRoutes_def on_method_def split: option.splits)
  next
    case 4
    then show ?thesis
      using services(3) launched_keys [OF assms(1)] assms(3,4)
      by (auto simp: merchantWebhookRoutes_def on_method_def split: option.splits)
  next
    case 5
    then show ?thesis
      using services(2) launched_keys [OF assms(1)] assms(3,4)
      by (auto simp: providerConnectionRoutes_def on_method_def split: option.splits)
  qed blast
qed

definition same_view :: "HttpRequest \<Rightarrow> PgDB world \<Rightarrow> PgDB world \<Rightarrow> bool" where
  "same_view r w w' \<longleftrightarrow> db_faults (w_store w) = [] \<and> db_faults (w_store w') = [] \<and> db_apiKeys (w_store w) = db_apiKeys (w_store w') \<and>
     (case request_key (w_store w) r of None \<Rightarrow> True
      | Some k \<Rightarrow> tenant_ok (ak_WorkspaceID k) (w_store w) \<and> tenant_ok (ak_WorkspaceID k) (w_store w') \<and>
          tenant_rows (ak_WorkspaceID k) (w_store w) = tenant_rows (ak_WorkspaceID k) (w_store w'))"

lemma resolver_calm:
  assumes "db_faults (w_store w) = []" and "request_token r \<noteq> []"
  shows "key_resolver (request_token r) w = ((case request_key (w_store w) r of None \<Rightarrow> Inl ErrUnauthorized
    | Some k \<Rightarrow> Inr \<lparr>pn_APIKeyID = ak_ID k, pn_WorkspaceID = ak_WorkspaceID k, pn_Environment = ak_Environment k\<rparr>), w)"
  using assms resolve_token [OF assms(2), of "w_store w"]
  by (auto simp: key_resolver_def run_store_def request_key_def split: option.split)

lemma authorize_reads:
  assumes "reads_own h" and "same_view r w w'"
  shows "fst (authorize key_resolver h r w) = fst (authorize key_resolver h r w') \<and> snd (authorize key_resolver h r w) = w"
proof (cases "request_token r = []")
  case True
  then show ?thesis by (simp add: authorize_def request_token_def returnE_def)
next
  case False
  have f: "db_faults (w_store w) = []" "db_faults (w_store w') = []" and k: "request_key (w_store w') r = request_key (w_store w) r"
    using assms(2) by (simp_all add: same_view_def request_key_def)
  note run = authorize_def request_token_def [symmetric] bindE_def tryE_def returnE_def Let_def resolver_calm [OF f(1) False] resolver_calm [OF f(2) False]
  show ?thesis
  proof (cases "request_key (w_store w) r")
    case None
    then show ?thesis using False by (simp add: run k)
  next
    case (Some a)
    have "same_tenant (ak_WorkspaceID a) w w'" using assms(2) Some by (simp add: same_view_def same_tenant_def)
    moreover have "reads_tenant (ak_WorkspaceID a) (h r \<lparr>pn_APIKeyID = ak_ID a, pn_WorkspaceID = ak_WorkspaceID a, pn_Environment = ak_Environment a\<rparr>)"
      using assms(1) unfolding reads_own_def by (metis Principal.select_convs(2))
    ultimately show ?thesis using False Some by (simp add: run k reads_tenant_def)
  qed
qed

lemma readyz_reads:
  assumes "launched env cfg opts" and "same_view r w w'"
  shows "fst (handleReadyz (so_Database opts) q w) = fst (handleReadyz (so_Database opts) q w') \<and> snd (handleReadyz (so_Database opts) q w) = w"
proof -
  have "so_Database opts \<in> {Some pg_Ping, Some nil_Ping}"
    using assms(1) by (auto simp: launched_def Launch_def server_options_def Let_def split: if_splits sum.splits)
  moreover have "pg_Ping w = (Inr None, w)" if "db_faults (w_store w) = []" for w
    using that by (simp add: pg_Ping_def bindE_def tryE_def returnE_def run_calm)
  ultimately show ?thesis
    using assms(2) by (auto simp: handleReadyz_def same_view_def bindE_def returnE_def nil_Ping_def throwE_def)
qed

lemma server_reads:
  assumes l: "launched env cfg opts" and "hr_Method r \<in> {''GET'', ''HEAD''}" and same: "same_view r w w'"
  shows "fst (NewServer opts r w) = fst (NewServer opts r w') \<and> snd (NewServer opts r w) = w"
proof (cases rule: ServeHTTP_cases [of "server_routes opts" r])
  case (found rt)
  let ?r = "r\<lparr>hr_PathValues := the (match_path (rt_Pattern rt) (hr_Path r))\<rparr>"
  have v: "same_view ?r w w'" using same by (simp add: same_view_def request_key_path)
  have "fst (rt_Handler rt ?r w) = fst (rt_Handler rt ?r w') \<and> snd (rt_Handler rt ?r w) = w"
    using reading_routes [OF l found(1,3) assms(2)] authorize_reads [OF _ v] readyz_reads [OF l v, of ?r]
    by (auto simp: handleHealthz_def returnE_def)
  then show ?thesis unfolding NewServer_routes found(4)
    by (cases "rt_Handler rt ?r w"; cases "rt_Handler rt ?r w'") (auto simp: bindE_def returnE_def split: sum.split)
next
  case (missing res)
  then show ?thesis by (simp add: NewServer_routes returnE_def)
qed


text \<open>A second database in which another workspace has a payment of its own.\<close>

definition other_world :: "PgDB world" where
  "other_world = sample_world\<lparr>w_store := (w_store sample_world)\<lparr>db_payments :=
     [newIntent (demo_request\<lparr>cr_WorkspaceID := ''other''\<rparr>) demo_fp 5 ''pi_1'']\<rparr>\<rparr>"


end
