(* ===== verification/Program.thy ===== *)
theory Program
  imports Access
begin

text \<open>
  The program as a whole: instances of it over one database, each serving HTTP requests
  (\<open>httpapi\<close> over the services that \<open>cmd/api/main.go\<close> wires) and running its webhook worker, while
  operators write to tables of their own and statements fail at any point.

  \<open>program_step\<close> interleaves whole requests with the single statements of the workers.  Every request is
  a run of the orchestration service in the sense of theory Reachable (\<open>served\<close>) and leaves the tables of
  the workers alone but for new events, so a run of the program is at once a production run (theory Production),
  a run of Woovi charges (theory Charging) and a run of a fleet of workers (theory PgDelivery), and has
  the properties of all three.
\<close>

section \<open>Statements of the requests leave the deliveries alone\<close>

lemma other_writes_refl: "other_writes db db"
  by (simp add: other_writes_def)

lemma other_writes_trans: "other_writes db db1 \<Longrightarrow> other_writes db1 db2 \<Longrightarrow> other_writes db db2"
  by (auto simp: other_writes_def)

text \<open>A relation that the statements of the store respect, its operations and its telemetry do.\<close>

lemmas pg_statements = insertPayment_def getPaymentByIdempotency_def pg_GetPayment_def updatePayment_def pg_SavePayment_def
  pg_ListProviderConnections_def insertAttempt_def insertDecision_def pg_SaveAttempt_def pg_GetAttempt_def pg_ListAttempts_def
  insertRecovery_def pg_GetProviderConnection_def pg_GetAttemptByProviderPaymentID_def pg_RecordProviderEvent_def
  pg_MarkProviderEventProcessed_def insertMerchantEvent_def pg_GetPaymentEnvironment_def

lemmas pg_telemetry_statements = pg_telemetry_def pg_AggregateProviderHealth_def pg_SaveProviderHealthSnapshot_def
  pg_ListRecentProviderHealthSnapshots_def pg_LatestProviderAttemptSince_def pg_UpdateProviderCircuit_def

locale store_relation = sql_relation R for R :: "PgDB \<Rightarrow> PgDB \<Rightarrow> bool" +
  fixes lib :: PgLib and pc :: percentile
  assumes statements [along_intros]:
      "along R (insertPayment lib p)" "along R (getPaymentByIdempotency ws key)" "along R (pg_GetPayment i)"
      "along R (updatePayment wrap lib p)" "along R (pg_SavePayment lib p)" "along R (pg_ListProviderConnections ws)"
      "along R (insertAttempt a)" "along R (insertDecision d)" "along R (pg_SaveAttempt a)" "along R (pg_GetAttempt i)"
      "along R (pg_ListAttempts i)" "along R (insertRecovery wrap re)" "along R (pg_GetProviderConnection i)"
      "along R (pg_GetAttemptByProviderPaymentID ws i)" "along R (pg_RecordProviderEvent pe)"
      "along R (pg_MarkProviderEventProcessed ws i t)" "along R (insertMerchantEvent lib me)" "along R (pg_GetPaymentEnvironment i)"
    and telemetry_statements:
      "along R (AggregateProviderHealth (pg_telemetry pc) i t u)" "along R (SaveProviderHealthSnapshot (pg_telemetry pc) ph)"
      "along R (ListRecentProviderHealthSnapshots (pg_telemetry pc) i n)" "along R (LatestProviderAttemptSince (pg_telemetry pc) i t)"
      "along R (UpdateProviderCircuit (pg_telemetry pc) i st ot)"
begin

lemma along_events [along_intros]: "along R (insertMerchantEvents lib events)"
  by (induction events) (simp_all add: along_intros)

lemma along_repository:
  "along R (GetOrCreatePayment (pg_repository lib) p)" "along R (GetPayment (pg_repository lib) i)"
  "along R (GetPaymentEnvironment (pg_repository lib) i)" "along R (SavePayment (pg_repository lib) p)"
  "along R (ListProviderConnections (pg_repository lib) ws)" "along R (GetProviderConnection (pg_repository lib) i)"
  "along R (AddAttemptWithRoutingDecision (pg_repository lib) a d)" "along R (SaveAttempt (pg_repository lib) a)"
  "along R (GetAttempt (pg_repository lib) i)" "along R (GetAttemptByProviderPaymentID (pg_repository lib) ws i)"
  "along R (ListAttempts (pg_repository lib) i)" "along R (RecordProviderEvent (pg_repository lib) pe)"
  "along R (MarkProviderEventProcessed (pg_repository lib) ws i t)" "along R (MarkPaymentPaidWithEvents (pg_repository lib) p r events)"
  unfolding pg_repository_def pg_GetOrCreatePayment_def pg_AddAttemptWithRoutingDecision_def pg_MarkPaymentPaidWithEvents_def
  by (simp; intro along_intros)+

lemma along_refresh: "ts_repo sv = pg_telemetry pc \<Longrightarrow> along R (Refresh sv conns env now)"
  by (intro along_Refresh) (simp_all add: telemetry_statements)

end

interpretation spares: sql_relation other_writes
  by unfold_locales (auto simp: other_writes_def)

abbreviation spares :: "'a sql \<Rightarrow> bool" where
  "spares \<equiv> along other_writes"

interpretation spares: store_relation other_writes lib pc for lib pc
  by (unfold_locales; unfold pg_statements pg_telemetry_statements)
    (auto intro!: spares.along_statement spares.along_basic [unfolded prog_defs] along_intros simp: constraint_def throwE_def mapNotFound_def returnE_def other_writes_def Let_def
      split: option.split)

section \<open>Operations of the orchestration service spare them, too\<close>

text \<open>The service over PostgreSQL, with or without telemetry.\<close>

definition over_pg :: "PgLib \<Rightarrow> PgDB Service \<Rightarrow> bool" where
  "over_pg lib sv \<longleftrightarrow> sv_repo sv = pg_repository lib \<and>
     (\<forall>refresh. sv_telemetry sv = Some refresh \<longrightarrow> (\<forall>conns env now. spares (refresh conns env now)))"

lemma pg_service_over: "pg_service lib pc opts sv \<Longrightarrow> over_pg lib sv"
  using spares.along_refresh [of "NewTelemetry (pg_telemetry pc) opts" pc]
  by (auto simp: pg_service_def over_pg_def NewTelemetry_def)

lemma spares_run: "spares m \<Longrightarrow> along (\<lambda>w w'. other_writes (w_store w) (w_store w')) (run_store m)"
  by (simp add: along_def run_store_def split_def)

lemma over_pg_spares:
  assumes "over_pg lib sv"
  shows "service_relation (\<lambda>w w'. other_writes (w_store w) (w_store w')) sv"
proof -
  have repo: "sv_repo sv = pg_repository lib" using assms by (simp add: over_pg_def)
  have telemetry: "along (\<lambda>w w'. other_writes (w_store w) (w_store w')) (run_store (refresh cs env t))"
    if "sv_telemetry sv = Some refresh" for refresh cs env t
    using assms that by (simp add: over_pg_def spares_run)
  show ?thesis
    by (unfold_locales; (rule telemetry, assumption | simp add: repo spares_run spares.along_repository other_writes_refl
        | auto simp: along_def callCreatePix_def callReconcile_def step_tick_def Let_def other_writes_refl intro: other_writes_trans)?)
qed

section \<open>What a request does\<close>

text \<open>Writes to the tables of connections, endpoints, API keys, provider events and snapshots, and failures.\<close>

definition side_writes :: "PgDB \<Rightarrow> PgDB \<Rightarrow> bool" where
  "side_writes db db' \<longleftrightarrow> same_core db db' \<and> other_writes db db'"

interpretation sides: sql_relation side_writes
  by unfold_locales (auto simp: side_writes_def same_core_def intro: other_writes_trans other_writes_refl)

abbreviation sides :: "'a sql \<Rightarrow> bool" where
  "sides \<equiv> along side_writes"

lemmas side_statements = insertConnection_def insertCredentials_def pg_ListProviderConnections_def pg_DisableProviderConnection_def
  pg_UpsertWebhookEndpoint_def pg_GetWebhookEndpoint_def pg_DisableWebhookEndpoint_def

lemma sides_operations:
  "sides (insertConnection c)" "sides (insertCredentials i ct)" "sides (pg_ListProviderConnections ws)"
  "sides (pg_DisableProviderConnection ws i env t)" "sides (pg_UpsertWebhookEndpoint e)" "sides (pg_GetWebhookEndpoint ws env)"
  "sides (pg_DisableWebhookEndpoint ws env t)"
  unfolding side_statements
  by (rule sides.along_statement; simp add: constraint_def throwE_def mapNotFound_def returnE_def side_writes_def same_core_def other_writes_def Let_def
      split: option.split)+

lemma sides_connect: "sides (pg_CreateProviderConnectionWithCredentials c ct t)"
  unfolding pg_CreateProviderConnectionWithCredentials_def by (intro along_intros sides_operations)

lemma sides_resolve: "sides (pg_ResolveAPIKey token)"
proof (cases "token = []")
  case True
  then show ?thesis by (simp add: pg_ResolveAPIKey_def along_intros)
next
  case False
  then show ?thesis unfolding pg_ResolveAPIKey_def if_not_P [OF False]
    by (intro sides.along_statement) (simp add: throwE_def returnE_def side_writes_def same_core_def other_writes_def split: option.split)
qed

text \<open>A program whose effect is that of steps of the service, side writes and ticks.\<close>

lemma reachable_trans: "reachable sv admin w1 w2 \<Longrightarrow> reachable sv admin w0 w1 \<Longrightarrow> reachable sv admin w0 w2"
  by (induction rule: reachable.induct) (auto intro: reachable.step)

lemma reachable_one: "service_step sv admin w w' \<Longrightarrow> reachable sv admin w w'"
  by (rule reachable.step [OF reachable.start])

interpretation served: run_relation "reachable sv side_writes" for sv
  by unfold_locales (auto intro: reachable.start reachable_trans reachable_one service_step.clock)

abbreviation served :: "PgDB Service \<Rightarrow> (PgDB, 'a) orch \<Rightarrow> bool" where
  "served sv \<equiv> along (reachable sv side_writes)"

lemma served_operations [along_intros]:
  "served sv (CreatePayment sv req)" "served sv (ProcessProviderWebhook sv conn request)" "served sv (queryPayment sv ws env pid)"
  "served sv (ListPaymentAttempts sv ws env pid)"
  by (simp_all add: along_def reachable_one service_step.intros)

lemma served_store:
  assumes "sides m"
  shows "served sv (run_store m)"
proof (rule alongI)
  fix w :: "PgDB world"
  show "reachable sv side_writes w (snd (run_store m w))"
    using service_step.administer [of side_writes w "snd (m (w_store w))" sv] alongD [OF assms]
    by (simp add: run_store_def split_def reachable_one)
qed

lemma served_ticks [along_intros]:
  "served sv (pcs_validate cs key env cr)" "served sv (pcs_encrypt cs bs)" "served sv (pcs_now cs)" "served sv (pcs_newID cs p)"
  by (simp_all add: along_def pcs_validate_def pcs_encrypt_def pcs_now_def pcs_newID_def reachable_one service_step.clock)

text \<open>The endpoint operations of the delivery service run on its own world.\<close>

interpretation calm: state_preorder "\<lambda>W W'. side_writes (dw_store W) (dw_store W') \<and> dw_tick W \<le> dw_tick W'"
  by unfold_locales (auto intro: sides.refl sides.trans)

abbreviation calm :: "(PgDB, 'a) dprog \<Rightarrow> bool" where
  "calm \<equiv> along (\<lambda>W W'. side_writes (dw_store W) (dw_store W') \<and> dw_tick W \<le> dw_tick W')"

lemma calm_basic [along_intros]: "calm (ds_now ds)" "calm (ds_newID ds p)" "calm (ds_encrypt ds bs)"
  by (simp_all add: along_def prog_defs ds_now_def ds_newID_def ds_encrypt_def dw_step_def sides.refl)

lemma calm_store: "sides m \<Longrightarrow> calm (dw_run m)"
  by (simp add: along_def dw_run_def split_def)

lemma reachable_side:
  assumes "admin (w_store w) db" and "w_tick w \<le> t"
  shows "reachable sv admin w (w\<lparr>w_store := db, w_tick := t\<rparr>)"
proof -
  have "reachable sv admin w (w\<lparr>w_tick := w_tick w + k\<rparr>)" for k
  proof (induction k)
    case (Suc k)
    from reachable.step [OF Suc service_step.clock] show ?case by (simp add: step_tick_def)
  qed (simp add: reachable.start)
  then have "reachable sv admin w (w\<lparr>w_tick := w_tick w + (t - w_tick w)\<rparr>)" .
  then have "reachable sv admin w ((w\<lparr>w_tick := w_tick w + (t - w_tick w)\<rparr>)\<lparr>w_store := db\<rparr>)"
    by (rule reachable.step) (rule service_step.administer, simp add: assms(1))
  moreover have "(w\<lparr>w_tick := w_tick w + (t - w_tick w)\<rparr>)\<lparr>w_store := db\<rparr> = w\<lparr>w_store := db, w_tick := t\<rparr>"
    using assms(2) by (cases w) simp
  ultimately show ?thesis by simp
qed

lemma served_delivery:
  assumes "calm m"
  shows "served sv (run_delivery m)"
proof (rule alongI)
  fix w :: "PgDB world"
  let ?W = "\<lparr>dw_store = w_store w, dw_tick = w_tick w, dw_sent = []\<rparr>"
  have "side_writes (w_store w) (dw_store (snd (m ?W)))" "w_tick w \<le> dw_tick (snd (m ?W))"
    using alongD [OF assms, of ?W] by simp_all
  then have "reachable sv side_writes w (w\<lparr>w_store := dw_store (snd (m ?W)), w_tick := dw_tick (snd (m ?W))\<rparr>)"
    by (rule reachable_side)
  then show "reachable sv side_writes w (snd (run_delivery m w))" by (simp add: run_delivery_def split_def)
qed

lemma calm_endpoints:
  assumes "ds_repo ds = pg_deliveries"
  shows "calm (SetEndpoint lib ds ws env url secret)" and "calm (GetEndpoint ds ws env)" and "calm (DisableEndpoint ds ws env)"
proof -
  have store: "calm (dw_run (GetWebhookEndpoint (ds_repo ds) ws' env'))" "calm (dw_run (UpsertWebhookEndpoint (ds_repo ds) e))"
    "calm (dw_run (DisableWebhookEndpoint (ds_repo ds) ws' env' t))" for ws' env' e t
    by (simp_all add: assms pg_deliveries_def calm_store sides_operations)
  show "calm (SetEndpoint lib ds ws env url secret)" unfolding SetEndpoint_def Let_def by (intro along_intros store)
  show "calm (GetEndpoint ds ws env)" unfolding GetEndpoint_def by (rule store)
  show "calm (DisableEndpoint ds ws env)" unfolding DisableEndpoint_def by (intro along_intros store)
qed

section \<open>Every request is served by runs\<close>

lemma served_answer: "served sv m \<Longrightarrow> served sv (answer_with m f g)"
  unfolding answer_with_def by (intro along_intros)

lemma served_payments:
  assumes "hp = main_payments sv"
  shows "served sv (handleCreatePayment hp r who)" "served sv (handleGetPayment hp r who)" "served sv (handleListAttempts hp r who)"
  unfolding assms handleCreatePayment_def handleGetPayment_def handleListAttempts_def main_payments_def result_of_def Let_def
    PaymentService.select_convs
  by (intro along_intros served_answer)+

lemma served_provider_webhook: "served sv (handleProviderWebhook (ProcessProviderWebhook sv) r)"
  unfolding handleProviderWebhook_def Let_def by (intro along_intros served_answer)

lemma served_connections:
  assumes "pcs_store cs = pg_connections"
  shows "served sv (handleConnectProvider (main_connection_service cs) r who)" "served sv (handleListProviders (main_connection_service cs) r who)"
    "served sv (handleDisableProvider (main_connection_service cs) r who)"
proof -
  have store: "served sv (run_store (CreateProviderConnectionWithCredentials (pcs_store cs) c ct t))"
    "served sv (run_store (ct_ListProviderConnections (pcs_store cs) ws))"
    "served sv (run_store (DisableProviderConnection (pcs_store cs) ws i env t))" for c ct t ws i env
    by (simp_all add: assms pg_connections_def served_store sides_connect sides_operations)
  have ops: "served sv (Connect cs req)" "served sv (ListConnections cs ws env)" "served sv (DisableConnection cs ws i env)" for req ws i env
    unfolding Connect_def storeConnection_def ListConnections_def DisableConnection_def Let_def by (intro along_intros store)+
  show "served sv (handleConnectProvider (main_connection_service cs) r who)" "served sv (handleListProviders (main_connection_service cs) r who)"
    "served sv (handleDisableProvider (main_connection_service cs) r who)"
    unfolding handleConnectProvider_def handleListProviders_def handleDisableProvider_def main_connection_service_def Let_def
      ProviderConnectionService.select_convs
    by (intro along_intros served_answer ops)+
qed

lemma served_webhooks:
  assumes "ds_repo ds = pg_deliveries"
  shows "served sv (handlePutWebhookEndpoint (main_webhooks lib ds) r who)" "served sv (handleGetWebhookEndpoint (main_webhooks lib ds) r who)"
    "served sv (handleDeleteWebhookEndpoint (main_webhooks lib ds) r who)"
  unfolding handlePutWebhookEndpoint_def handleGetWebhookEndpoint_def handleDeleteWebhookEndpoint_def main_webhooks_def
    MerchantWebhookService.select_convs
  by (intro along_intros served_answer served_delivery calm_endpoints assms)+

lemma served_authorize: "(\<And>r who. served sv (h r who)) \<Longrightarrow> served sv (authorize key_resolver h r)"
  unfolding authorize_def Let_def key_resolver_def
  by (intro along_intros served_store sides_resolve)

lemma authorized_payments:
  "served sv (authorize key_resolver (handleCreatePayment (main_payments sv)) r)"
  "served sv (authorize key_resolver (handleGetPayment (main_payments sv)) r)"
  "served sv (authorize key_resolver (handleListAttempts (main_payments sv)) r)"
  by (rule served_authorize, rule served_payments, rule refl)+

lemma authorized_connections:
  assumes "pcs_store cs = pg_connections"
  shows "served sv (authorize key_resolver (handleConnectProvider (main_connection_service cs)) r)"
    "served sv (authorize key_resolver (handleListProviders (main_connection_service cs)) r)"
    "served sv (authorize key_resolver (handleDisableProvider (main_connection_service cs)) r)"
  by (rule served_authorize, rule served_connections, rule assms)+

lemma authorized_webhooks:
  assumes "ds_repo ds = pg_deliveries"
  shows "served sv (authorize key_resolver (handlePutWebhookEndpoint (main_webhooks lib ds)) r)"
    "served sv (authorize key_resolver (handleGetWebhookEndpoint (main_webhooks lib ds)) r)"
    "served sv (authorize key_resolver (handleDeleteWebhookEndpoint (main_webhooks lib ds)) r)"
  by (rule served_authorize, rule served_webhooks, rule assms)+

text \<open>The orchestration service that \<open>main\<close> builds.\<close>

definition launched_service :: "MainEnv \<Rightarrow> Config \<Rightarrow> PgDB Service" where
  "launched_service env cfg = main_orchestrator env (case main_providers env cfg of Inl err \<Rightarrow> [] | Inr (registry, _) \<Rightarrow> registry)"

lemma launched_wired:
  assumes "Launch env cfg = Inr (opts, worker)"
  obtains (none) "opts = \<lparr>so_Database = Some nil_Ping, so_Payments = None, so_ProviderWebhooks = None, so_MerchantWebhooks = None,
        so_ProviderConnections = None, so_APIKeys = None\<rparr>" "worker = None"
    | (wired) registry connections where "main_providers env cfg = Inr (registry, connections)" "main_delivery env cfg = Inr worker"
      "opts = server_options env registry connections worker" "launched_service env cfg = main_orchestrator env registry"
  using assms by (auto simp: Launch_def launched_service_def split: if_splits sum.splits)

lemma served_routes:
  assumes "Launch env cfg = Inr (opts, worker)" and "rt \<in> set (server_routes opts)"
  shows "served (launched_service env cfg) (rt_Handler rt r)"
  using assms(1)
proof (cases rule: launched_wired)
  case none
  have "served sv (handleReadyz (Some nil_Ping) r)" for sv
    unfolding handleReadyz_def nil_Ping_def option.case by (intro along_intros)
  moreover have "served sv (handleHealthz r)" for sv unfolding handleHealthz_def by (intro along_intros)
  ultimately show ?thesis
    using assms(2) by (auto simp: none server_routes_def paymentRoutes_def providerWebhookRoutes_def merchantWebhookRoutes_def
        providerConnectionRoutes_def)
next
  case (wired registry connections)
  let ?sv = "launched_service env cfg"
  have ping: "served ?sv pg_Ping"
    unfolding pg_Ping_def
    by (intro along_intros served_store sides.along_statement) (simp add: returnE_def sides.refl)
  have health: "served ?sv (handleHealthz r)" "served ?sv (handleReadyz (so_Database opts) r)"
    unfolding handleHealthz_def handleReadyz_def wired(3) server_options_def Let_def HttpOptions.select_convs option.case
    by (intro along_intros ping)+
  have opts: "so_APIKeys opts = Some key_resolver" "so_Payments opts = Some (main_payments ?sv)"
    "so_ProviderWebhooks opts = Some (ProcessProviderWebhook ?sv)" "so_MerchantWebhooks opts = map_option (main_webhooks (mv_urls env)) worker"
    "so_ProviderConnections opts = map_option main_connection_service connections"
    by (simp_all add: wired(3,4) server_options_def key_resolver_def Let_def fun_eq_iff)
  have pay: "served ?sv (rt_Handler rt r)" if "rt \<in> set (paymentRoutes opts)"
    using that authorized_payments by (auto simp: paymentRoutes_def opts)
  have webhook: "served ?sv (rt_Handler rt r)" if "rt \<in> set (providerWebhookRoutes opts)"
    using that by (simp add: providerWebhookRoutes_def opts served_provider_webhook)
  have endpoint: "served ?sv (rt_Handler rt r)" if "rt \<in> set (merchantWebhookRoutes opts)"
    using that authorized_webhooks [OF main_services_repo(2)] wired(2) by (cases worker) (auto simp: merchantWebhookRoutes_def opts)
  have connection: "served ?sv (rt_Handler rt r)" if "rt \<in> set (providerConnectionRoutes opts)"
    using that authorized_connections [OF main_services_repo(1)] wired(1) by (cases connections) (auto simp: providerConnectionRoutes_def opts)
  show ?thesis using assms(2) health pay webhook endpoint connection by (auto simp: server_routes_def)
qed

lemma server_served:
  assumes "Launch env cfg = Inr (opts, worker)"
  shows "served (launched_service env cfg) (NewServer opts r)"
proof (cases rule: ServeHTTP_cases [of "server_routes opts" r])
  case (found rt)
  show ?thesis unfolding NewServer_routes found(4)
    by (intro along_intros served_routes [OF assms] found(1))
next
  case (missing res)
  then show ?thesis by (simp add: NewServer_routes along_intros)
qed

section \<open>Runs of the program\<close>

record program =
  pr_world :: "PgDB world"
  pr_sent :: "(string \<times> SendRequest \<times> SendResult) list"
  pr_phases :: "string \<Rightarrow> phase"

definition pr_fleet :: "program \<Rightarrow> fleet" where
  "pr_fleet s = (\<lparr>dw_store = w_store (pr_world s), dw_tick = w_tick (pr_world s), dw_sent = pr_sent s\<rparr>, pr_phases s)"

definition with_fleet :: "program \<Rightarrow> fleet \<Rightarrow> program" where
  "with_fleet s F = \<lparr>pr_world = (pr_world s)\<lparr>w_store := dw_store (fst F), w_tick := dw_tick (fst F)\<rparr>,
     pr_sent = dw_sent (fst F), pr_phases = snd F\<rparr>"

lemma pr_fleet_with [simp]: "pr_fleet (with_fleet s F) = F"
  by (cases F; cases "fst F") (simp add: pr_fleet_def with_fleet_def)

text \<open>Each instance of the program runs the same delivery service under a worker id of its own.\<close>

definition instance_worker :: "PgDB DeliveryService \<Rightarrow> string \<Rightarrow> PgDB DeliveryService" where
  "instance_worker ds w = ds\<lparr>ds_workerID := w\<rparr>"

text \<open>
  \<open>work\<close> is a step of a worker (rule \<open>other\<close> of \<open>worker_step\<close> aside, each leaves the payments alone:
  \<open>worker_core\<close>); \<open>operate\<close> a write to the remaining tables, or the onset of failures.
\<close>

inductive program_step :: "PgDB world HttpOptions \<Rightarrow> PgDB DeliveryService option \<Rightarrow> program \<Rightarrow> program \<Rightarrow> bool"
  for opts :: "PgDB world HttpOptions" and worker :: "PgDB DeliveryService option" where
  request: "program_step opts worker s (s\<lparr>pr_world := snd (NewServer opts r (pr_world s))\<rparr>)"
| work: "worker = Some ds \<Longrightarrow> worker_step (instance_worker ds) (pr_fleet s) F \<Longrightarrow>
    same_core (w_store (pr_world s)) (dw_store (fst F)) \<Longrightarrow> program_step opts worker s (with_fleet s F)"
| operate: "side_writes (w_store (pr_world s)) db \<Longrightarrow>
    program_step opts worker s (s\<lparr>pr_world := (pr_world s)\<lparr>w_store := db\<rparr>\<rparr>)"

definition program_start :: "nat \<Rightarrow> program" where
  "program_start n = \<lparr>pr_world = pg_start n, pr_sent = [], pr_phases = (\<lambda>_. Idle)\<rparr>"

inductive program_run :: "PgDB world HttpOptions \<Rightarrow> PgDB DeliveryService option \<Rightarrow> nat \<Rightarrow> program \<Rightarrow> bool"
  for opts :: "PgDB world HttpOptions" and worker :: "PgDB DeliveryService option" and n :: nat where
  start: "program_run opts worker n (program_start n)"
| step: "program_run opts worker n s \<Longrightarrow> program_step opts worker s s' \<Longrightarrow> program_run opts worker n s'"

lemma materialize_core: "along same_core (pg_MaterializePendingDeliveries now limit)"
proof -
  have "same_core db (insertDeliveries now rows db)" for rows db
    by (induction now rows db rule: insertDeliveries.induct) (auto simp: same_core_def)
  then show ?thesis
    by (auto simp: along_def pg_MaterializePendingDeliveries_def statement_def returnE_def Let_def same_core_def)
qed

lemma claim_core: "along same_core (pg_ClaimDueDeliveries now until w limit)"
  by (auto simp: along_def pg_ClaimDueDeliveries_def statement_def returnE_def Let_def same_core_def)

lemma complete_core: "along same_core (pg_CompleteDelivery w c)"
  unfolding pg_CompleteDelivery_def insertDeliveryAttempt_def updateDelivery_def
  by (intro along_intros core.along_statement)
    (auto simp: same_core_def constraint_def throwE_def returnE_def Let_def)

lemma worker_core:
  assumes "worker_step sv (W, ph) (W', ph')"
  shows "same_core (dw_store W) (dw_store W') \<or> other_writes (dw_store W) (dw_store W')"
proof -
  have core: "same_core (dw_store W) (dw_store W')" if "dw_run m W = (r, W')" "along same_core m" for m :: "'x sql" and r
    using that by (auto simp: dw_run_def along_def split: prod.splits) (metis snd_conv)
  show ?thesis
    using assms
  proof (cases rule: worker_step.cases)
    case (send w job jobs c)
    then show ?thesis by (simp add: attemptJob_value(1) other_writes_refl)
  qed (auto simp: dw_step_def other_writes_refl
      dest: core [OF _ materialize_core] core [OF _ claim_core] core [OF _ complete_core])
qed

lemma attempt_tick: "attemptJob sv job W = (Inr c, W') \<Longrightarrow> dw_tick W \<le> dw_tick W'"
  by (auto simp: attemptJob_def sendJob_def ds_now_def ds_newID_def ds_send_def dw_step_def returnE_def Let_def
      elim!: bindE_InrE split: sum.splits option.splits)

lemma worker_tick: "worker_step sv (W, ph) (W', ph') \<Longrightarrow> dw_tick W \<le> dw_tick W'"
  by (erule worker_stepE) (auto simp: dw_step_def dest!: dw_run_Inr dw_run_Inl intro: attempt_tick)

section \<open>A run of the program is a production run and a run of its workers\<close>

lemma reachable_admin:
  assumes "reachable sv admin w0 w" and "\<And>s s'. admin s s' \<Longrightarrow> admin' s s'"
  shows "reachable sv admin' w0 w"
  using assms(1)
proof induction
  case (step w w')
  have "service_step sv admin' w w'"
    using step.hyps(2) assms(2) by (cases rule: service_step.cases) (auto intro: service_step.intros)
  then show ?case by (rule reachable.step [OF step.IH])
qed (rule reachable.start)

lemma reachable_writes:
  assumes "over_pg lib sv" and "reachable sv side_writes w0 w"
  shows "other_writes (w_store w0) (w_store w) \<and> w_tick w0 \<le> w_tick w"
  using service_relation.along_reachable [OF over_pg_spares [OF assms(1)] assms(2)] ticks.along_reachable [OF assms(2)]
  by (simp add: side_writes_def)

lemma launched_over: "pg_service (mv_lib env) (mv_percentile env) \<lparr>to_Window = 0, to_CircuitCooldown = 0, to_MinimumSamples = 0\<rparr> (launched_service env cfg)"
  by (simp add: pg_service_def launched_service_def main_orchestrator_def NewService_def)

lemma program_step_reachable:
  assumes "Launch env cfg = Inr (opts, worker)" and "program_step opts worker s s'"
  shows "reachable (launched_service env cfg) pg_admin (pr_world s) (pr_world s')"
  using assms(2)
proof (cases rule: program_step.cases)
  case (request r)
  have "reachable (launched_service env cfg) side_writes (pr_world s) (snd (NewServer opts r (pr_world s)))"
    using server_served [OF assms(1)] by (simp add: along_def)
  from reachable_admin [OF this, of pg_admin] show ?thesis by (simp add: request side_writes_def pg_admin_def)
next
  case (work ds F)
  have "w_tick (pr_world s) \<le> dw_tick (fst F)"
    using worker_tick [of "instance_worker ds" "fst (pr_fleet s)" "snd (pr_fleet s)" "fst F" "snd F"] work(3) by (simp add: pr_fleet_def)
  then show ?thesis
    using reachable_side [of pg_admin "pr_world s"] work(4) by (simp add: work(1) with_fleet_def pg_admin_def)
next
  case (operate db)
  then show ?thesis by (simp add: reachable_one service_step.administer pg_admin_def side_writes_def)
qed

lemma program_run_reachable:
  assumes "Launch env cfg = Inr (opts, worker)" and "program_run opts worker n s"
  shows "reachable (launched_service env cfg) pg_admin (pg_start n) (pr_world s)"
  using assms(2)
proof induction
  case (step s s')
  show ?case by (rule reachable_trans [OF program_step_reachable [OF assms(1) step.hyps(2)] step.IH])
qed (simp add: program_start_def reachable.start)

lemma program_run_pg:
  assumes "Launch env cfg = Inr (opts, worker)" and "program_run opts worker n s"
    and "distinct (map (mv_random env) [0..<w_tick (pr_world s)])"
    and "list_all (\<lambda>bs. length bs = 12 \<and> list_all (\<lambda>b. b < 256) bs) (map (mv_random env) [0..<w_tick (pr_world s)])"
  shows "pg_run (mv_lib env) (mv_percentile env) \<lparr>to_Window = 0, to_CircuitCooldown = 0, to_MinimumSamples = 0\<rparr>
    (launched_service env cfg) (pr_world s)"
proof -
  have "no_collision (launched_service env cfg) (pr_world s)"
    unfolding no_collision_def launched_service_def main_orchestrator_def
    by (rule random_ids_unique) (simp_all add: assms(3,4))
  then show ?thesis using program_run_reachable [OF assms(1,2)] launched_over unfolding pg_run_def by blast
qed

text \<open>The workers see requests and operators as other writers.\<close>

lemma fleet_other:
  assumes "other_writes (dw_store W) db" and "dw_tick W \<le> t"
  shows "fleet_run sv (W, ph) (W\<lparr>dw_store := db, dw_tick := t\<rparr>, ph)"
proof -
  have "fleet_run sv (W, ph) (W\<lparr>dw_tick := dw_tick W + k\<rparr>, ph)" for k
  proof (induction k)
    case (Suc k)
    from fleet_run.step [OF Suc worker_step.clock] show ?case by (simp add: dw_step_def)
  qed (simp add: fleet_run.start)
  then have "fleet_run sv (W, ph) (W\<lparr>dw_tick := dw_tick W + (t - dw_tick W)\<rparr>, ph)" .
  then have "fleet_run sv (W, ph) ((W\<lparr>dw_tick := dw_tick W + (t - dw_tick W)\<rparr>)\<lparr>dw_store := db\<rparr>, ph)"
    by (rule fleet_run.step) (rule worker_step.other, simp add: assms(1))
  moreover have "(W\<lparr>dw_tick := dw_tick W + (t - dw_tick W)\<rparr>)\<lparr>dw_store := db\<rparr> = W\<lparr>dw_store := db, dw_tick := t\<rparr>"
    using assms(2) by (cases W) simp
  ultimately show ?thesis by simp
qed

lemma program_step_fleet:
  assumes "Launch env cfg = Inr (opts, Some ds)" and "program_step opts (Some ds) s s'"
  shows "fleet_run (instance_worker ds) (pr_fleet s) (pr_fleet s')"
proof -
  have other: "fleet_run (instance_worker ds) (pr_fleet s) (pr_fleet (s\<lparr>pr_world := w\<rparr>))"
    if "other_writes (w_store (pr_world s)) (w_store w)" "w_tick (pr_world s) \<le> w_tick w" for w
    using fleet_other [of "fst (pr_fleet s)" "w_store w" "w_tick w"] that by (simp add: pr_fleet_def)
  show ?thesis
    using assms(2)
  proof (cases rule: program_step.cases)
    case (request r)
    have "reachable (launched_service env cfg) side_writes (pr_world s) (snd (NewServer opts r (pr_world s)))"
      using server_served [OF assms(1)] by (simp add: along_def)
    from reachable_writes [OF pg_service_over [OF launched_over] this] show ?thesis unfolding request by (intro other) simp_all
  next
    case (work ds' F)
    then show ?thesis by (simp add: fleet_run_one)
  next
    case (operate db)
    then show ?thesis using other [of "(pr_world s)\<lparr>w_store := db\<rparr>"] by (simp add: side_writes_def)
  qed
qed

lemma program_run_fleet:
  assumes "Launch env cfg = Inr (opts, Some ds)" and "program_run opts (Some ds) n s"
  shows "fleet_run (instance_worker ds) (fleet_start empty_db n) (pr_fleet s)"
  using assms(2)
proof induction
  case start
  have "pr_fleet (program_start n) = fleet_start empty_db n"
    by (simp add: pr_fleet_def program_start_def fleet_start_def pg_start_def empty_db_def)
  then show ?case by (simp add: fleet_run.start)
next
  case (step s s')
  show ?case by (rule fleet_run_trans [OF program_step_fleet [OF assms(1) step.hyps(2)] step.IH])
qed

lemma launched_worker:
  assumes "Launch env cfg = Inr (opts, Some ds)"
  shows "fleet_config 12 (instance_worker ds)"
  using assms
  by (auto simp: Launch_def main_delivery_def NewDelivery_def fleet_config_def instance_worker_def Let_def split: if_splits sum.splits)

lemma launched_never_clears:
  assumes "Launch env cfg = Inr (opts, worker)" and "from_registry (sv_providers (launched_service env cfg)) calls"
  shows "\<not> cleared calls aid"
proof -
  have sv: "sv_providers (main_orchestrator env r) = ConnectorRegistry_registry r" for r
    by (simp add: main_orchestrator_def NewService_def)
  have empty: "\<not> cleared calls aid" if "from_registry (ConnectorRegistry_registry []) calls"
  proof -
    have "calls = []"
      using that by (cases calls) (auto simp: from_registry_def ConnectorRegistry_registry_def ConnectorRegistry_Resolve_def split: ProviderCall.splits)
    then show ?thesis by (simp add: cleared_def)
  qed
  show ?thesis
  proof (cases "main_providers env cfg")
    case (Inl err)
    then show ?thesis using assms(2) empty by (simp add: launched_service_def sv)
  next
    case (Inr rc)
    then obtain registry connections where rc: "rc = (registry, connections)" by (cases rc)
    have "registry = [] \<or> (\<exists>f. registry = [(Key, woovi_integration (mv_woovi env) f)])"
      using Inr unfolding rc main_providers_def by (auto split: if_splits sum.splits)
    then show ?thesis
      using assms(2) empty woovi_never_clears by (auto simp: launched_service_def Inr rc sv woovi_registry_def)
  qed
qed

text \<open>An event that tells the truth: the payment is stored, in the event's workspace, and paid.\<close>

definition told_paid :: "PgDB \<Rightarrow> MerchantEvent \<Rightarrow> bool" where
  "told_paid db me \<longleftrightarrow> (case find (\<lambda>p. pi_ID p = me_PaymentIntentID me) (db_payments db) of
     None \<Rightarrow> False
   | Some p \<Rightarrow> pi_WorkspaceID p = me_WorkspaceID me \<and> pi_Status p = PaymentStatusPaid \<and>
       me_EventType me = ''payment.paid'' \<and> me_EventKey me = ''payment.paid:'' @ pi_ID p)"

lemma event_told_paid:
  assumes "pg_run lib pc opts sv w" and "\<And>aid. \<not> cleared (w_calls w) aid" and "me \<in> set (db_merchantEvents (w_store w))"
  shows "told_paid (w_store w) me"
proof -
  obtain p where p: "find (\<lambda>p. pi_ID p = me_PaymentIntentID me) (db_payments (w_store w)) = Some p" and ws: "pi_WorkspaceID p = me_WorkspaceID me"
    using pg_event_owner [OF assms(1,3)] by blast
  have "abs_evt me \<in> set (events_of (abs_pay pix_row p))"
    using assms(3) unfolding pg_events_of [OF assms(1) p, symmetric] by simp
  moreover have "\<not> pi_Recovered p" using uncleared_once [OF assms(1,2), of "me_PaymentIntentID me"] p by simp
  ultimately show ?thesis
    unfolding told_paid_def p option.case using ws by (auto simp: events_of_def paid_event_def abs_evt_def split: if_splits)
qed

lemma program_run_idle:
  assumes "Launch env cfg = Inr (opts, worker)" and "program_run opts worker n s" and "worker = None"
  shows "pr_sent s = [] \<and> db_deliveries (w_store (pr_world s)) = []"
  using assms(2)
proof induction
  case (step s s')
  show ?case
    using step.hyps(2)
  proof (cases rule: program_step.cases)
    case (request r)
    have "reachable (launched_service env cfg) side_writes (pr_world s) (snd (NewServer opts r (pr_world s)))"
      using server_served [OF assms(1)] by (simp add: along_def)
    from reachable_writes [OF pg_service_over [OF launched_over] this] show ?thesis using step.IH by (simp add: request other_writes_def)
  qed (use step.IH assms(3) in \<open>auto simp: side_writes_def other_writes_def\<close>)
qed (simp add: program_start_def pg_start_def empty_db_def)

section \<open>A run for the witnesses\<close>

text \<open>An operator creates an API key and a connection, a merchant asks for a payment, a worker reads its clock.\<close>

definition sample_seeded :: program where
  "sample_seeded = (program_start 0)\<lparr>pr_world := (pg_start 0)\<lparr>w_store := empty_db\<lparr>db_apiKeys := [sample_api_key],
     db_connections := [demo_connection ''a'' 1 CircuitClosed]\<rparr>\<rparr>\<rparr>"

definition sample_asked :: program where
  "sample_asked = sample_seeded\<lparr>pr_world := snd (NewServer (fst sample_server) (sample_get sample_header) (pr_world sample_seeded))\<rparr>"

definition sample_program :: program where
  "sample_program = with_fleet sample_asked (dw_step (fst (pr_fleet sample_asked)), snd (pr_fleet sample_asked))"

lemma sample_worker_runs: "\<exists>ds. snd sample_server = Some ds"
proof -
  have "sample_key \<noteq> []" by (simp add: sample_key_def)
  then have "\<exists>served ds. Launch sample_main sample_cfg = Inr (served, Some ds)"
    by (simp add: Launch_def main_providers_def main_registry_def main_delivery_def sample_box sample_cfg_def sample_main_def
        NewFactory_def NewConnections_def main_connections_def NewDelivery_def Let_def)
  then show ?thesis unfolding sample_launch by (metis Inr_inject snd_conv)
qed

lemma sample_program_run: "program_run (fst sample_server) (snd sample_server) 0 sample_program"
proof -
  obtain ds where ds: "snd sample_server = Some ds" using sample_worker_runs by blast
  have "program_run (fst sample_server) (snd sample_server) 0 sample_seeded"
    unfolding sample_seeded_def
    by (rule program_run.step [OF program_run.start])
      (use program_step.operate [of "program_start 0"] in \<open>simp add: program_start_def side_writes_def same_core_def other_writes_def pg_start_def empty_db_def\<close>)
  then have "program_run (fst sample_server) (snd sample_server) 0 sample_asked"
    unfolding sample_asked_def by (rule program_run.step) (rule program_step.request)
  then show ?thesis
    unfolding sample_program_def
    using worker_step.clock [of "instance_worker ds" "fst (pr_fleet sample_asked)" "snd (pr_fleet sample_asked)"]
    by (elim program_run.step) (rule program_step.work [OF ds], simp_all add: pr_fleet_def dw_step_def same_core_def)
qed

lemma sample_program_tick: "w_tick (pr_world sample_program) = 1"
proof -
  let ?w = "pr_world sample_seeded"
  have "same_view (sample_get sample_header) ?w ?w"
    by (simp add: same_view_def request_key_def sample_tokens sample_seeded_def sample_api_key_def tenant_ok_def empty_db_def)
  then have "snd (NewServer (fst sample_server) (sample_get sample_header) ?w) = ?w"
    using server_reads [of sample_main sample_cfg "fst sample_server" "sample_get sample_header" ?w ?w]
    by (simp add: launched_def sample_launch sample_get_def) (metis prod.collapse)
  then show ?thesis
    by (simp add: sample_program_def with_fleet_def sample_asked_def pr_fleet_def dw_step_def sample_seeded_def pg_start_def)
qed

lemma sample_entropy_ok:
  "distinct (map (mv_random sample_main) [0..<w_tick (pr_world sample_program)])"
  "list_all (\<lambda>bs. length bs = 12 \<and> list_all (\<lambda>b. b < 256) bs) (map (mv_random sample_main) [0..<w_tick (pr_world sample_program)])"
  by (simp_all add: sample_program_tick sample_main_def list_all_iff)

section \<open>Properties\<close>

text \<open>
  C9.  The program as deployed charges a payment at most once.  Whatever requests its instances serve in
  whatever order, whatever their workers and operators do in between and wherever the database fails:
  at most one Pix creation is ever requested for a payment, it has at most one attempt, and it is
  never counted as recovered.
\<close>

theorem program_charges_once:
  assumes "Launch env cfg = Inr (opts, worker)" and "program_run opts worker n s"
    and "distinct (map (mv_random env) [0..<w_tick (pr_world s)])"
    and "list_all (\<lambda>bs. length bs = 12 \<and> list_all (\<lambda>b. b < 256) bs) (map (mv_random env) [0..<w_tick (pr_world s)])"
  shows "length (creates_for pid (w_calls (pr_world s))) \<le> 1 \<and>
    length (filter (\<lambda>a. pa_PaymentIntentID a = pid) (db_attempts (w_store (pr_world s)))) \<le> 1 \<and>
    (case find (\<lambda>p. pi_ID p = pid) (db_payments (w_store (pr_world s))) of
      None \<Rightarrow> True | Some p \<Rightarrow> \<not> pi_Recovered p \<and> pi_RecoveredAmount p = 0)"
proof -
  note run = program_run_pg [OF assms]
  show ?thesis by (rule uncleared_once [OF run launched_never_clears [OF assms(1) pg_run_logs [OF run]]])
qed

theorem program_charges_once_witness:
  "length (creates_for ''pi'' (w_calls (pr_world sample_program))) \<le> 1 \<and>
    length (filter (\<lambda>a. pa_PaymentIntentID a = ''pi'') (db_attempts (w_store (pr_world sample_program)))) \<le> 1 \<and>
    (case find (\<lambda>p. pi_ID p = ''pi'') (db_payments (w_store (pr_world sample_program))) of
      None \<Rightarrow> True | Some p \<Rightarrow> \<not> pi_Recovered p \<and> pi_RecoveredAmount p = 0)"
  by (rule program_charges_once [where cfg = sample_cfg, OF _ sample_program_run sample_entropy_ok]) (simp add: sample_launch)



end
