(* ===== verification/Fake.thy ===== *)
theory Fake
  imports Provider
begin

text \<open>
  The scripted connector of the tests (\<open>internal/provider/fake\<close>): it answers each call with the next of
  the outcomes it was given, and counts the calls.  Every method holds the connector's mutex, so a call
  is one step from a state to the next.

  \<open>fake_run_creates\<close> and \<open>fake_run_reconciles\<close> give the answers of any sequence of calls.
\<close>

section \<open>The connector\<close>

record FakeConnector =
  fk_key :: string
  fk_createOutcomes :: "CreateOutcome list"
  fk_reconcileOutcomes :: "ReconcileOutcome list"
  fk_createCalls :: int
  fk_reconcileCalls :: int

definition NewFake :: "string \<Rightarrow> CreateOutcome list \<Rightarrow> ReconcileOutcome list \<Rightarrow> FakeConnector" where
  "NewFake key creates reconciles = \<lparr>fk_key = key, fk_createOutcomes = creates, fk_reconcileOutcomes = reconciles,
     fk_createCalls = 0, fk_reconcileCalls = 0\<rparr>"

definition fake_Manifest :: "FakeConnector \<Rightarrow> Manifest" where
  "fake_Manifest a = \<lparr>mf_Key = fk_key a, mf_DisplayName = fk_key a, mf_Version = ''test'',
     mf_Capabilities = [CapabilityPaymentCreate, CapabilityPixCreate, CapabilityPaymentQuery, CapabilityCreateReconcile],
     mf_CredentialTypes = []\<rparr>"

definition no_create_outcome :: CreateOutcome where
  "no_create_outcome = \<lparr>co_Kind = CreateFailedTerminal, co_ProviderPaymentID = [], co_Pix = None,
     co_FailureCode = ''fake_no_create_outcome''\<rparr>"

definition fake_CreatePix :: "CreateRequest \<Rightarrow> FakeConnector \<Rightarrow> CreateOutcome \<times> FakeConnector" where
  "fake_CreatePix request a = (let a = a\<lparr>fk_createCalls := fk_createCalls a + 1\<rparr> in
     case fk_createOutcomes a of
       [] \<Rightarrow> (no_create_outcome, a)
     | out # rest \<Rightarrow> (out, a\<lparr>fk_createOutcomes := rest\<rparr>))"

definition no_reconcile_outcome :: ReconcileOutcome where
  "no_reconcile_outcome = \<lparr>ro_Kind = ReconcileUnknown, ro_ProviderPaymentID = [], ro_Pix = None, ro_FailureCode = []\<rparr>"

definition fake_Reconcile :: "ReconcileRequest \<Rightarrow> FakeConnector \<Rightarrow> ReconcileOutcome \<times> FakeConnector" where
  "fake_Reconcile request a = (let a = a\<lparr>fk_reconcileCalls := fk_reconcileCalls a + 1\<rparr> in
     case fk_reconcileOutcomes a of
       [] \<Rightarrow> (no_reconcile_outcome, a)
     | out # rest \<Rightarrow> (out, a\<lparr>fk_reconcileOutcomes := rest\<rparr>))"

definition CreateCalls :: "FakeConnector \<Rightarrow> int" where
  "CreateCalls a = fk_createCalls a"

definition ReconcileCalls :: "FakeConnector \<Rightarrow> int" where
  "ReconcileCalls a = fk_reconcileCalls a"

section \<open>The registry\<close>

definition FakeRegistry_Resolve :: "(string \<rightharpoonup> FakeConnector) \<Rightarrow> ProviderConnection \<Rightarrow> go_error + FakeConnector" where
  "FakeRegistry_Resolve r connection = (case r (pc_ProviderKey connection) of
     None \<Rightarrow> Inl (Errorf (''fake provider connector '' @ pc_ProviderKey connection @ '' not registered''))
   | Some a \<Rightarrow> Inr a)"

definition FakeRegistry_Manifest :: "(string \<rightharpoonup> FakeConnector) \<Rightarrow> string \<Rightarrow> Manifest option" where
  "FakeRegistry_Manifest r providerKey = map_option fake_Manifest (r providerKey)"

section \<open>Sequences of calls\<close>

fun answers :: "('r \<Rightarrow> 's \<Rightarrow> 'a \<times> 's) \<Rightarrow> 'r list \<Rightarrow> 's \<Rightarrow> 'a list \<times> 's" where
  "answers call [] a = ([], a)"
| "answers call (r # rs) a = (case call r a of (x, a1) \<Rightarrow> case answers call rs a1 of (xs, a2) \<Rightarrow> (x # xs, a2))"

definition script :: "'a list \<Rightarrow> 'a \<Rightarrow> nat \<Rightarrow> 'a list" where
  "script outcomes final n = take n outcomes @ replicate (n - length outcomes) final"

lemma script_simps [simp]:
  "script outs d 0 = []" "script [] d (Suc n) = d # script [] d n" "script (x # outs) d (Suc n) = x # script outs d n"
  by (simp_all add: script_def)

lemma fake_run_creates:
  "answers fake_CreatePix requests a = (script (fk_createOutcomes a) no_create_outcome (length requests),
     a\<lparr>fk_createOutcomes := drop (length requests) (fk_createOutcomes a), fk_createCalls := fk_createCalls a + int (length requests)\<rparr>)"
proof (induction requests arbitrary: a)
  case (Cons r rs)
  then show ?case by (cases "fk_createOutcomes a") (simp_all add: fake_CreatePix_def Let_def ac_simps)
qed simp

lemma fake_run_reconciles:
  "answers fake_Reconcile requests a = (script (fk_reconcileOutcomes a) no_reconcile_outcome (length requests),
     a\<lparr>fk_reconcileOutcomes := drop (length requests) (fk_reconcileOutcomes a),
       fk_reconcileCalls := fk_reconcileCalls a + int (length requests)\<rparr>)"
proof (induction requests arbitrary: a)
  case (Cons r rs)
  then show ?case by (cases "fk_reconcileOutcomes a") (simp_all add: fake_Reconcile_def Let_def ac_simps)
qed simp

end
