(* ===== verification/Process.thy ===== *)
theory Process
  imports Startup
begin

text \<open>
  What surrounds the server: the log level (\<open>internal/logging\<close>), the request log (\<open>httpapi/server.go\<close>),
  the opening of the pool (\<open>internal/database\<close>), application errors (\<open>internal/apperror\<close>), and the
  end of the process (\<open>cmd/api/main.go\<close>).  Lines are written to a log that is a list of records; the
  pool library is a parameter.
\<close>

section \<open>The logger (logging.go)\<close>

datatype Level = LevelDebug | LevelInfo | LevelWarn | LevelError

definition NewLogger :: "string \<Rightarrow> Level" where
  "NewLogger level = (let l = ToLower (TrimSpace level) in
     if l = ''debug'' then LevelDebug
     else if l = ''warn'' \<or> l = ''warning'' then LevelWarn
     else if l = ''error'' then LevelError
     else LevelInfo)"

definition level_value :: "Level \<Rightarrow> int" where
  "level_value l = (case l of LevelDebug \<Rightarrow> -4 | LevelInfo \<Rightarrow> 0 | LevelWarn \<Rightarrow> 4 | LevelError \<Rightarrow> 8)"

text \<open>The lines of a level that the handler writes.\<close>

definition enabled :: "Level \<Rightarrow> Level \<Rightarrow> bool" where
  "enabled logger l \<longleftrightarrow> level_value logger \<le> level_value l"

section \<open>The request log (server.go)\<close>

record RequestLine =
  rl_Method :: string
  rl_Path :: "string list"
  rl_DurationMS :: int

definition requestLog :: "Time \<Rightarrow> Time \<Rightarrow> 'w handler \<Rightarrow> HttpRequest \<Rightarrow> 'w \<Rightarrow> (go_error + Response) \<times> 'w \<times> RequestLine list" where
  "requestLog started ended next r w = (case next r w of
     (Inl e, w') \<Rightarrow> (Inl e, w', [])
   | (Inr res, w') \<Rightarrow> (Inr res, w',
       [\<lparr>rl_Method = hr_Method r, rl_Path = hr_Path r, rl_DurationMS = time_Sub ended started sdiv 1000000\<rparr>]))"

text \<open>The log changes nothing of what is served, and has a line for a request exactly when its handler did not panic.\<close>

lemma requestLog_transparent:
  "fst (requestLog t0 t1 next r w) = fst (next r w) \<and> fst (snd (requestLog t0 t1 next r w)) = snd (next r w) \<and>
   length (snd (snd (requestLog t0 t1 next r w))) = (case fst (next r w) of Inl e \<Rightarrow> 0 | Inr res \<Rightarrow> 1)"
  by (cases "next r w"; cases "fst (next r w)") (auto simp: requestLog_def)

section \<open>The database pool (postgres.go)\<close>

record ('c, 'p) PoolLib =
  pp_ParseConfig :: "string \<Rightarrow> go_error + 'c"
  pp_NewWithConfig :: "'c \<Rightarrow> go_error + 'p"
  pp_Ping :: "'p \<Rightarrow> go_error option"

text \<open>The pool, or the error; and the pools that were closed on the way.\<close>

definition Open :: "('c, 'p) PoolLib \<Rightarrow> string \<Rightarrow> (go_error + 'p) \<times> 'p list" where
  "Open lib databaseURL = (case pp_ParseConfig lib databaseURL of
     Inl err \<Rightarrow> (Inl err, [])
   | Inr cfg \<Rightarrow> (case pp_NewWithConfig lib cfg of
       Inl err \<Rightarrow> (Inl err, [])
     | Inr pool \<Rightarrow> (case pp_Ping lib pool of
         Some err \<Rightarrow> (Inl err, [pool])
       | None \<Rightarrow> (Inr pool, []))))"

text \<open>No pool leaks: one that was made is returned or closed, and what is returned answered a ping.\<close>

lemma Open_no_leak:
  "case Open lib url of
     (Inr pool, shut) \<Rightarrow> shut = [] \<and> pp_Ping lib pool = None
   | (Inl err, shut) \<Rightarrow> (case pp_ParseConfig lib url of Inl e \<Rightarrow> shut = [] | Inr cfg \<Rightarrow>
       (case pp_NewWithConfig lib cfg of Inl e \<Rightarrow> shut = [] | Inr pool \<Rightarrow> shut = [pool]))"
  by (simp add: Open_def split: sum.split option.split)

section \<open>Application errors (errors.go)\<close>

datatype AppCode =
  CodeInvalidArgument | CodeConflict | CodeNotFound | CodeUnauthorized | CodeForbidden | CodeProviderFailure | CodeInternal | CodeOther string

definition app_code_text :: "AppCode \<Rightarrow> string" where
  "app_code_text c = (case c of CodeInvalidArgument \<Rightarrow> ''invalid_argument'' | CodeConflict \<Rightarrow> ''conflict'' | CodeNotFound \<Rightarrow> ''not_found''
   | CodeUnauthorized \<Rightarrow> ''unauthorized'' | CodeForbidden \<Rightarrow> ''forbidden'' | CodeProviderFailure \<Rightarrow> ''provider_failure''
   | CodeInternal \<Rightarrow> ''internal'' | CodeOther s \<Rightarrow> s)"

record 'e AppError =
  ax_Code :: AppCode
  ax_Message :: string
  ax_Cause :: "'e option"

definition AppError_Error :: "('e \<Rightarrow> string) \<Rightarrow> 'e AppError \<Rightarrow> string" where
  "AppError_Error error_text e = (case ax_Cause e of
     None \<Rightarrow> app_code_text (ax_Code e) @ '': '' @ ax_Message e
   | Some cause \<Rightarrow> app_code_text (ax_Code e) @ '': '' @ ax_Message e @ '': '' @ error_text cause)"

definition AppError_Unwrap :: "'e AppError \<Rightarrow> 'e option" where
  "AppError_Unwrap e = ax_Cause e"

section \<open>The end of the process (main.go)\<close>

datatype wakeup = ContextDone | ServerFailed go_error

text \<open>
  After the server was started \<open>main\<close> waits for a signal or for the server to fail, and shuts it down;
  \<open>shutdown\<close> is what \<open>server.Shutdown\<close> returns.  The exit status, and the lines logged.
\<close>

definition main_end :: "wakeup \<Rightarrow> go_error option \<Rightarrow> nat \<times> (Level \<times> string) list" where
  "main_end woken shutdown = (let line = (case woken of
       ContextDone \<Rightarrow> (LevelInfo, ''shutdown requested'')
     | ServerFailed err \<Rightarrow> (LevelError, ''http server failed'')) in
     case shutdown of
       Some err \<Rightarrow> (1, [line, (LevelError, ''graceful shutdown failed'')])
     | None \<Rightarrow> (0, [line, (LevelInfo, ''api stopped'')]))"

text \<open>
  The exit status tells only how the shutdown went: a server that could not listen (its address in use, say)
  ends the process with status 0.
\<close>

lemma main_end_status: "fst (main_end woken shutdown) = (case shutdown of None \<Rightarrow> 0 | Some err \<Rightarrow> 1)"
  by (simp add: main_end_def Let_def split: option.split)

lemma failed_server_exits_zero: "fst (main_end (ServerFailed err) None) = 0"
  by (simp add: main_end_status)

section \<open>The interval of the worker (main.go)\<close>

definition workerInterval :: "Duration \<Rightarrow> Duration" where
  "workerInterval interval = (if interval \<le> 0 then second else interval)"

text \<open>Whatever is configured, the ticker gets a positive period (\<open>time.NewTicker\<close> panics otherwise).\<close>

lemma workerInterval_positive: "0 < workerInterval (cf_WebhookWorkerInterval cfg)"
  by (simp add: workerInterval_def second_def nanosecond_def)

section \<open>The start of the process (main.go)\<close>

datatype start = Panicked go_error | Exited nat go_error | Started "PgDB world HttpOptions" "PgDB DeliveryService option" "string list"

definition start_warnings :: "Config \<Rightarrow> string list" where
  "start_warnings cfg =
     (if cf_DatabaseURL cfg = [] then [''DATABASE_URL is not configured; readiness will report unavailable'']
      else (if cf_ProviderCredentialsMasterKey cfg = []
          then [''PROVIDER_CREDENTIALS_MASTER_KEY is not configured; real provider integrations are disabled''] else []) @
        (if cf_WebhookSecretMasterKey cfg = []
          then [''WEBHOOK_SECRET_MASTER_KEY is not configured; merchant webhook delivery is disabled''] else []))"

text \<open>What \<open>main\<close> does up to the start of the server: it panics, exits with a status, or starts with these options, worker and warnings.\<close>

definition main_start :: "Getenv \<Rightarrow> MainEnv \<Rightarrow> start" where
  "main_start getenv env = (case Load getenv of
     Inl err \<Rightarrow> Panicked err
   | Inr cfg \<Rightarrow> (case Launch env cfg of
       Inl err \<Rightarrow> Exited 1 err
     | Inr (opts, worker) \<Rightarrow> Started opts worker (start_warnings cfg)))"

text \<open>The status of a process that did not start (a panic ends with status 2).\<close>

definition exit_status :: "start \<Rightarrow> nat option" where
  "exit_status s = (case s of Panicked err \<Rightarrow> Some 2 | Exited n err \<Rightarrow> Some n | Started opts worker lines \<Rightarrow> None)"

text \<open>A master key that is set, but is not the base64 text of 32 bytes.\<close>

definition refused_key :: "string \<Rightarrow> bool" where
  "refused_key k \<longleftrightarrow> k \<noteq> [] \<and> (case StdEncoding_DecodeString (TrimSpace k) of None \<Rightarrow> True | Some bytes \<Rightarrow> length bytes \<noteq> 32)"

lemma NewBase64_refuses: "k \<noteq> [] \<Longrightarrow> (case NewBase64 k of Inl err \<Rightarrow> True | Inr box \<Rightarrow> False) = refused_key k"
  by (simp add: NewBase64_def NewBox_def refused_key_def split: option.split)

lemma main_registry_total: "\<exists>f. main_registry env cfg box = Inr f"
  by (simp add: main_registry_def NewFactory_def Let_def)

lemma main_connections_total: "\<exists>sv. NewConnections c r (main_connections box e wv f) = Inr sv"
  by (simp add: NewConnections_def main_connections_def)

lemma main_providers_result:
  "case main_providers env cfg of
     Inl err \<Rightarrow> refused_key (cf_ProviderCredentialsMasterKey cfg)
   | Inr (registry, connections) \<Rightarrow> \<not> refused_key (cf_ProviderCredentialsMasterKey cfg) \<and>
       (connections \<noteq> None) = (cf_ProviderCredentialsMasterKey cfg \<noteq> [])"
proof (cases "cf_ProviderCredentialsMasterKey cfg = []")
  case True
  then show ?thesis by (simp add: main_providers_def refused_key_def)
next
  case False
  note key = NewBase64_refuses [OF False]
  show ?thesis
  proof (cases "NewBase64 (cf_ProviderCredentialsMasterKey cfg)")
    case (Inl err)
    then show ?thesis using False key by (simp add: main_providers_def)
  next
    case (Inr box)
    obtain f where f: "main_registry env cfg box = Inr f" using main_registry_total by blast
    obtain sv where "NewConnections (mv_clock env) (mv_random env) (main_connections box (mv_entropy env) (mv_woovi env) f) = Inr sv"
      using main_connections_total by blast
    then show ?thesis using False key Inr f by (simp add: main_providers_def)
  qed
qed

lemma main_delivery_result:
  "case main_delivery env cfg of
     Inl err \<Rightarrow> refused_key (cf_WebhookSecretMasterKey cfg)
   | Inr worker \<Rightarrow> \<not> refused_key (cf_WebhookSecretMasterKey cfg) \<and> (worker \<noteq> None) = (cf_WebhookSecretMasterKey cfg \<noteq> []) \<and>
       (case worker of None \<Rightarrow> True | Some sv \<Rightarrow> ds_allowInsecureLocalTargets sv = allowLocal cfg)"
proof (cases "cf_WebhookSecretMasterKey cfg = []")
  case True
  then show ?thesis by (simp add: main_delivery_def refused_key_def)
next
  case False
  then show ?thesis using NewBase64_refuses [OF False]
    by (cases "NewBase64 (cf_WebhookSecretMasterKey cfg)") (simp_all add: main_delivery_def NewDelivery_def Let_def)
qed

text \<open>What \<open>Launch\<close> gives for a configuration.\<close>

lemma Launch_result:
  "case Launch env cfg of
     Inl err \<Rightarrow> cf_DatabaseURL cfg \<noteq> [] \<and>
       (\<not> mv_opens env \<or> refused_key (cf_ProviderCredentialsMasterKey cfg) \<or> refused_key (cf_WebhookSecretMasterKey cfg))
   | Inr (opts, worker) \<Rightarrow>
       (cf_DatabaseURL cfg = [] \<or> mv_opens env \<and> \<not> refused_key (cf_ProviderCredentialsMasterKey cfg) \<and> \<not> refused_key (cf_WebhookSecretMasterKey cfg)) \<and>
       (so_Payments opts \<noteq> None) = (cf_DatabaseURL cfg \<noteq> []) \<and> (so_ProviderWebhooks opts \<noteq> None) = (cf_DatabaseURL cfg \<noteq> []) \<and>
       (so_APIKeys opts \<noteq> None) = (cf_DatabaseURL cfg \<noteq> []) \<and>
       (so_ProviderConnections opts \<noteq> None) = (cf_DatabaseURL cfg \<noteq> [] \<and> cf_ProviderCredentialsMasterKey cfg \<noteq> []) \<and>
       (so_MerchantWebhooks opts \<noteq> None) = (cf_DatabaseURL cfg \<noteq> [] \<and> cf_WebhookSecretMasterKey cfg \<noteq> []) \<and>
       (worker \<noteq> None) = (cf_DatabaseURL cfg \<noteq> [] \<and> cf_WebhookSecretMasterKey cfg \<noteq> []) \<and>
       (case worker of None \<Rightarrow> True | Some sv \<Rightarrow> ds_allowInsecureLocalTargets sv = allowLocal cfg)"
  using main_providers_result [where env = env and cfg = cfg] main_delivery_result [where env = env and cfg = cfg]
  by (auto simp: Launch_def server_options_def Let_def split: sum.splits prod.splits option.splits)

lemma Load_result:
  "case Load getenv of
     Inl err \<Rightarrow> envOrDefault getenv ''APP_ENV'' ''development'' = ''production'' \<and> (TrimSpace (getenv ''DATABASE_URL'') = [] \<or>
       TrimSpace (getenv ''WEBHOOK_SECRET_MASTER_KEY'') = [] \<or> TrimSpace (getenv ''PROVIDER_CREDENTIALS_MASTER_KEY'') = [])
   | Inr cfg \<Rightarrow> cf_AppEnv cfg = envOrDefault getenv ''APP_ENV'' ''development'' \<and> cf_DatabaseURL cfg = TrimSpace (getenv ''DATABASE_URL'') \<and>
       cf_WebhookSecretMasterKey cfg = TrimSpace (getenv ''WEBHOOK_SECRET_MASTER_KEY'') \<and>
       cf_ProviderCredentialsMasterKey cfg = TrimSpace (getenv ''PROVIDER_CREDENTIALS_MASTER_KEY'') \<and>
       (cf_AppEnv cfg = ''production'' \<longrightarrow> cf_DatabaseURL cfg \<noteq> [] \<and> cf_WebhookSecretMasterKey cfg \<noteq> [] \<and> cf_ProviderCredentialsMasterKey cfg \<noteq> [])"
  by (simp add: Load_def Let_def)

lemma start_cases:
  fixes getenv :: Getenv and env :: MainEnv
  defines "app \<equiv> envOrDefault getenv ''APP_ENV'' ''development''" and "url \<equiv> TrimSpace (getenv ''DATABASE_URL'')"
    and "hook \<equiv> TrimSpace (getenv ''WEBHOOK_SECRET_MASTER_KEY'')" and "prov \<equiv> TrimSpace (getenv ''PROVIDER_CREDENTIALS_MASTER_KEY'')"
  shows "exit_status (main_start getenv env) =
      (if app = ''production'' \<and> (url = [] \<or> hook = [] \<or> prov = []) then Some 2
       else if url = [] then None
       else if mv_opens env then (if refused_key prov \<or> refused_key hook then Some 1 else None)
       else Some 1) \<and>
    (case main_start getenv env of
       Started opts worker lines \<Rightarrow>
         (so_Payments opts \<noteq> None) = (url \<noteq> []) \<and> (so_ProviderWebhooks opts \<noteq> None) = (url \<noteq> []) \<and> (so_APIKeys opts \<noteq> None) = (url \<noteq> []) \<and>
         (so_ProviderConnections opts \<noteq> None) = (url \<noteq> [] \<and> prov \<noteq> []) \<and> (so_MerchantWebhooks opts \<noteq> None) = (url \<noteq> [] \<and> hook \<noteq> []) \<and>
         (worker \<noteq> None) = (url \<noteq> [] \<and> hook \<noteq> []) \<and> (lines = []) = (url \<noteq> [] \<and> prov \<noteq> [] \<and> hook \<noteq> []) \<and>
         (if app = ''production'' then lines = [] else True) \<and>
         (case worker of None \<Rightarrow> True | Some sv \<Rightarrow> ds_allowInsecureLocalTargets sv = (app = ''development'' \<or> app = ''test''))
     | _ \<Rightarrow> True)"
proof -
  note result = Load_result [of getenv, folded app_def url_def hook_def prov_def]
  show ?thesis
  proof (cases "Load getenv")
    case (Inl err)
    then show ?thesis using result by (simp add: main_start_def exit_status_def)
  next
    case (Inr cfg)
    then have cfg: "cf_AppEnv cfg = app" "cf_DatabaseURL cfg = url" "cf_WebhookSecretMasterKey cfg = hook" "cf_ProviderCredentialsMasterKey cfg = prov"
      and ready: "\<not> (app = ''production'' \<and> (url = [] \<or> hook = [] \<or> prov = []))" using result by auto
    note L = Launch_result [where env = env and cfg = cfg, unfolded cfg]
    show ?thesis
    proof (cases "Launch env cfg")
      case (Inl err)
      then show ?thesis using L ready \<open>Load getenv = Inr cfg\<close> by (auto simp: main_start_def exit_status_def)
    next
      case (Inr p)
      obtain opts worker where p: "p = (opts, worker)" by (cases p)
      have "main_start getenv env = Started opts worker (start_warnings cfg)" using Inr p \<open>Load getenv = Inr cfg\<close> by (simp add: main_start_def)
      then show ?thesis using L ready by (auto simp: Inr p exit_status_def start_warnings_def cfg allowLocal_def)
    qed
  qed
qed

text \<open>
  C19.  The start, for every environment: the process panics exactly when production lacks the database or one of
  the two master keys, exits with status 1 exactly when the database does not open or a key is not
  one of 32 bytes, and starts otherwise, with each service exactly when what it needs is configured;
  in production nothing is missing and there is no warning, and only in development and test may
  webhooks go to insecure local targets.
\<close>

theorem startup_exact:
  "(let app = envOrDefault getenv ''APP_ENV'' ''development''; url = TrimSpace (getenv ''DATABASE_URL'');
     hook = TrimSpace (getenv ''WEBHOOK_SECRET_MASTER_KEY''); prov = TrimSpace (getenv ''PROVIDER_CREDENTIALS_MASTER_KEY'') in
    exit_status (main_start getenv env) =
      (if app = ''production'' \<and> (url = [] \<or> hook = [] \<or> prov = []) then Some 2
       else if url = [] then None
       else if mv_opens env then (if refused_key prov \<or> refused_key hook then Some 1 else None)
       else Some 1) \<and>
    (case main_start getenv env of
       Started opts worker lines \<Rightarrow>
         (so_Payments opts \<noteq> None) = (url \<noteq> []) \<and> (so_ProviderWebhooks opts \<noteq> None) = (url \<noteq> []) \<and> (so_APIKeys opts \<noteq> None) = (url \<noteq> []) \<and>
         (so_ProviderConnections opts \<noteq> None) = (url \<noteq> [] \<and> prov \<noteq> []) \<and> (so_MerchantWebhooks opts \<noteq> None) = (url \<noteq> [] \<and> hook \<noteq> []) \<and>
         (worker \<noteq> None) = (url \<noteq> [] \<and> hook \<noteq> []) \<and> (lines = []) = (url \<noteq> [] \<and> prov \<noteq> [] \<and> hook \<noteq> []) \<and>
         (if app = ''production'' then lines = [] else True) \<and>
         (case worker of None \<Rightarrow> True | Some sv \<Rightarrow> ds_allowInsecureLocalTargets sv = (app = ''development'' \<or> app = ''test''))
     | _ \<Rightarrow> True))"
  unfolding Let_def by (rule start_cases)

end
