(* ===== verification/Wellformed.thy ===== *)
theory Wellformed
  imports Startup
begin

text \<open>
  The answers of the server are well formed: what \<open>Marshal\<close> writes is what the decoder of theory Json reads,
  for every value, and every answer of every route has one of the documented statuses and either
  a JSON text as body or none.

  \<open>scans d s v\<close> says that wherever a value is expected, the text \<open>s\<close> is read as \<open>v\<close> and needs \<open>d\<close> more levels
  of nesting; the lemmas follow the encoder, value by value.
\<close>

section \<open>Tokens that the encoder writes\<close>

definition ends :: "string \<Rightarrow> bool" where
  "ends t \<longleftrightarrow> (case t of [] \<Rightarrow> True | c # _ \<Rightarrow> \<not> number_char c)"

definition plain_char :: "char \<Rightarrow> bool" where
  "plain_char c \<longleftrightarrow> 32 \<le> byte c \<and> byte c \<noteq> 34 \<and> byte c \<noteq> 92"

lemma scan_plain:
  "list_all plain_char u \<Longrightarrow> scan_string (u @ t) = map_option (\<lambda>(raw, r). (u @ raw, r)) (scan_string t)"
  by (induction u) (simp_all add: plain_char_def option.map_ident option.map_comp comp_def split_def)

lemma next_token_plain: "list_all plain_char u \<Longrightarrow> next_token (CHR 0x22 # u @ CHR 0x22 # t) = Some (TString u, t)"
  by (simp add: next_token_def json_space_def scan_plain)

lemma next_token_brackets:
  "next_token (CHR ''['' # t) = Some (TBeginArray, t)" "next_token (CHR '']'' # t) = Some (TEndArray, t)"
  by (simp_all add: next_token_def json_space_def)

lemma next_token_words:
  "next_token (''null'' @ t) = Some (TNull, t)" "next_token (''true'' @ t) = Some (TBool True, t)"
  "next_token (''false'' @ t) = Some (TBool False, t)"
  by (simp_all add: next_token_def json_space_def starts_with_def)

lemma byte_of_digit: "n < 10 \<Longrightarrow> byte (char_of (48 + n)) = 48 + n"
  by (simp add: byte_char)

lemma nat_dec_digits: "list_all is_digit (nat_dec n) \<and> nat_dec n \<noteq> []"
proof (induction n rule: nat_dec.induct)
  case (1 n)
  show ?case
  proof (cases "n < 10")
    case True
    then show ?thesis by (subst (1 2) nat_dec.simps) (simp add: is_digit_def byte_of_digit)
  next
    case False
    have "is_digit (char_of (48 + n mod 10))" by (simp add: is_digit_def byte_of_digit)
    then show ?thesis using 1 False by (subst (1 2) nat_dec.simps) simp
  qed
qed

lemma nat_dec_head: "0 < n \<Longrightarrow> byte (hd (nat_dec n)) \<noteq> 48"
proof (induction n rule: nat_dec.induct)
  case (1 n)
  show ?case
  proof (cases "n < 10")
    case True
    then show ?thesis using 1(2) by (subst nat_dec.simps) (simp add: byte_of_digit)
  next
    case False
    then have "0 < n div 10" by simp
    then show ?thesis using 1(1) False nat_dec_digits [of "n div 10"] by (subst nat_dec.simps) simp
  qed
qed

lemma digit_number: "is_digit c \<Longrightarrow> number_char c"
  by (simp add: number_char_def)

lemma valid_nat_dec: "case nat_dec n of [] \<Rightarrow> False | d # r \<Rightarrow> is_digit d \<and> valid_fraction (if byte d = 48 then r else dropWhile is_digit r)"
proof -
  obtain d r where dr: "nat_dec n = d # r" using nat_dec_digits [of n] by (cases "nat_dec n") auto
  have ds: "is_digit d" "list_all is_digit r" using nat_dec_digits [of n] dr by simp_all
  have "r = []" if "byte d = 48"
  proof (cases n)
    case 0
    then show ?thesis using dr by (subst (asm) nat_dec.simps) simp
  next
    case (Suc m)
    then show ?thesis using nat_dec_head [of n] dr that by simp
  qed
  moreover have dw: "dropWhile is_digit r = []" using ds(2) by (auto simp: list_all_iff)
  ultimately show ?thesis using ds(1) unfolding dr by (simp add: valid_fraction_def dw)
qed

lemma Itoa_number: "list_all number_char (Itoa i) \<and> valid_number (Itoa i)"
proof -
  have n: "list_all number_char (nat_dec n)" for n
    using nat_dec_digits [of n] by (auto simp: list_all_iff digit_number)
  show ?thesis
  proof (cases "i < 0")
    case True
    then show ?thesis using n [of "nat (- i)"] valid_nat_dec [of "nat (- i)"] by (simp add: Itoa_def valid_number_def number_char_def)
  next
    case False
    obtain d r where dr: "nat_dec (nat i) = d # r" using nat_dec_digits [of "nat i"] by (cases "nat_dec (nat i)") auto
    then have "byte d \<noteq> 45" using nat_dec_digits [of "nat i"] by (auto simp: is_digit_def)
    then show ?thesis using False n [of "nat i"] valid_nat_dec [of "nat i"] by (simp add: Itoa_def valid_number_def dr)
  qed
qed

lemma next_token_number:
  assumes "ends t"
  shows "next_token (Itoa i @ t) = Some (TNumber (Itoa i), t)"
proof -
  obtain c r where c: "Itoa i = c # r" using Itoa_number [of i] by (cases "Itoa i") (auto simp: valid_number_def)
  have n: "list_all number_char (Itoa i)" "valid_number (Itoa i)" using Itoa_number by blast+
  have head: "byte c = 45 \<or> is_digit c"
    using n(2) unfolding c valid_number_def by (auto simp: Let_def split: if_splits list.splits)
  then have bc: "byte c = 45 \<or> 48 \<le> byte c \<and> byte c \<le> 57" by (simp add: is_digit_def)
  have "takeWhile number_char t = []" "dropWhile number_char t = t" using assms by (cases t; simp add: ends_def)+
  then have tw: "takeWhile number_char (Itoa i @ t) = Itoa i" "dropWhile number_char (Itoa i @ t) = t"
    using n(1) by (simp_all add: list_all_iff takeWhile_append dropWhile_append)
  have "dropWhile json_space (Itoa i @ t) = Itoa i @ t" using bc by (auto simp: c json_space_def)
  moreover have "c \<noteq> CHR ''{''" "c \<noteq> CHR ''}''" "c \<noteq> CHR ''[''" "c \<noteq> CHR '']''" "c \<noteq> CHR '':''" "c \<noteq> CHR '',''" "byte c \<noteq> 34"
    using bc by auto
  moreover have "\<not> starts_with ''null'' (c # r @ t)" "\<not> starts_with ''true'' (c # r @ t)" "\<not> starts_with ''false'' (c # r @ t)"
    using bc by (auto simp: starts_with_def)
  moreover have "number_char c" using n(1) by (simp add: c)
  ultimately show ?thesis
    using n(2) tw unfolding next_token_def c by (simp add: Let_def)
qed

section \<open>Values that the encoder writes\<close>

definition scans :: "nat \<Rightarrow> string \<Rightarrow> jvalue \<Rightarrow> bool" where
  "scans d s v \<longleftrightarrow> (\<forall>st ex t. length st + d \<le> maxNestingDepth \<longrightarrow> ex \<in> {ExpectValue, ExpectValueOrEnd} \<longrightarrow> ends t \<longrightarrow>
     scan st ex (s @ t) = resume (deliver v st) t)"

lemma scansD: "scans d s v \<Longrightarrow> length st + d \<le> maxNestingDepth \<Longrightarrow> ends t \<Longrightarrow>
    scan st ExpectValue (s @ t) = resume (deliver v st) t \<and> scan st ExpectValueOrEnd (s @ t) = resume (deliver v st) t"
  by (simp add: scans_def)

lemma scans_mono: "scans d s v \<Longrightarrow> d \<le> d' \<Longrightarrow> scans d' s v"
  by (auto simp: scans_def)

lemma scans_token:
  assumes "\<And>t. ends t \<Longrightarrow> next_token (s @ t) = Some (tok, t)" and "\<And>st. begin_value st tok = deliver v st" and "tok \<noteq> TEndArray"
  shows "scans 0 s v"
  unfolding scans_def using assms(2,3) by (auto simp: scan_token [OF assms(1)])

lemma scans_scalars:
  "scans 0 ''null'' VNull" "scans 0 ''true'' (VBool True)" "scans 0 ''false'' (VBool False)"
  "scans 0 (Itoa i) (VNumber (Itoa i))" "scans 0 (json_string s) (VString (json_chars s))"
  "list_all plain_char u \<Longrightarrow> scans 0 (CHR 0x22 # u @ [CHR 0x22]) (VString u)"
  by (simp_all add: scans_token [OF next_token_words(1)] scans_token [OF next_token_words(2)] scans_token [OF next_token_words(3)]
      scans_token [OF next_token_number] scans_token [OF next_token_string] scans_token [where tok = "TString u"] next_token_plain)

lemma ends_comma [simp]: "ends (CHR '','' # t)" "ends (CHR ''}'' # t)" "ends (CHR '']'' # t)"
  by (simp_all add: ends_def number_char_def is_digit_def)

text \<open>Members of an object, each with its text and its value.\<close>

definition member_text :: "string \<times> string \<times> jvalue \<Rightarrow> string" where
  "member_text = (\<lambda>(k, x, v). json_string k @ '':'' @ x)"

definition member_value :: "string \<times> string \<times> jvalue \<Rightarrow> string \<times> jvalue" where
  "member_value = (\<lambda>(k, x, v). (json_chars k, v))"

lemma scan_member:
  assumes "scans d (fst (snd kxv)) (snd (snd kxv))" and "length st + Suc d \<le> maxNestingDepth" and "ends t"
    and "ex = ExpectKey \<or> ex = ExpectKeyOrEnd"
  shows "scan (FObject kvs k # st) ex (member_text kxv @ t) = scan (FObject (kvs @ [member_value kxv]) [] # st) ExpectComma t"
proof -
  obtain a x v where kxv: "kxv = (a, x, v)" by (cases kxv)
  have "scan (FObject kvs k # st) ex (json_string a @ CHR '':'' # x @ t) = scan (FObject kvs (json_chars a) # st) ExpectColon (CHR '':'' # x @ t)"
    using assms(4) by (subst scan_token [OF next_token_string]) (auto simp: resume_def)
  also have "\<dots> = scan (FObject kvs (json_chars a) # st) ExpectValue (x @ t)"
    by (subst scan_token [OF next_token_char(1)]) (simp add: resume_def)
  also have "\<dots> = scan (FObject (kvs @ [(json_chars a, v)]) [] # st) ExpectComma t"
    using scansD [of d x v "FObject kvs (json_chars a) # st" t] assms(1-3) by (simp add: kxv resume_def)
  finally show ?thesis by (simp add: kxv member_text_def member_value_def)
qed

lemma scan_members:
  assumes "\<And>kxv. kxv \<in> set ps \<Longrightarrow> scans d (fst (snd kxv)) (snd (snd kxv))" and "length st + Suc d \<le> maxNestingDepth" and "ends t"
  shows "scan (FObject kvs k # st) ExpectComma (concat (map (\<lambda>y. CHR '','' # y) (map member_text ps)) @ ''}'' @ t) =
    resume (deliver (VObject (kvs @ map member_value ps)) st) t"
  using assms(1)
proof (induction ps arbitrary: kvs k)
  case Nil
  show ?case using scan_token [OF next_token_char(4)] by simp
next
  case (Cons p ps)
  have "ends (concat (map (\<lambda>y. CHR '','' # y) (map member_text ps)) @ ''}'' @ t)" by (cases ps) simp_all
  then show ?case
    using Cons scan_member [OF Cons.prems assms(2), of p _ ExpectKey]
    by (simp add: scan_token [OF next_token_char(2)] resume_def [of "Next _ _"])
qed

lemma scans_braces:
  assumes "\<And>kxv. kxv \<in> set ps \<Longrightarrow> scans d (fst (snd kxv)) (snd (snd kxv))"
  shows "scans (Suc d) (json_braces (map (\<lambda>(k, x, v). (k, x)) ps)) (VObject (map member_value ps))"
  unfolding scans_def
proof (intro allI impI)
  fix st :: "frame list" and ex t
  assume d: "length st + Suc d \<le> maxNestingDepth" and ex: "ex \<in> {ExpectValue, ExpectValueOrEnd}" and t: "ends t"
  have braces: "json_braces (map (\<lambda>(k, x, v). (k, x)) ps) @ t = CHR ''{'' # json_sep (map member_text ps) @ ''}'' @ t"
    by (simp add: json_braces_def member_text_def split_def comp_def)
  have "scan (FObject [] [] # st) ExpectKeyOrEnd (json_sep (map member_text ps) @ ''}'' @ t) = resume (deliver (VObject (map member_value ps)) st) t"
  proof (cases ps)
    case Nil
    then show ?thesis by (simp add: json_sep_def scan_token [OF next_token_char(4)])
  next
    case (Cons p qs)
    have "ends (concat (map (\<lambda>y. CHR '','' # y) (map member_text qs)) @ ''}'' @ t)" by (cases qs) simp_all
    from scan_member [OF assms d this, of p ExpectKeyOrEnd "[]" "[]"] scan_members [OF assms d t, of qs "[member_value p]" "[]"]
    show ?thesis by (simp add: Cons json_sep_def)
  qed
  then show "scan st ex (json_braces (map (\<lambda>(k, x, v). (k, x)) ps) @ t) = resume (deliver (VObject (map member_value ps)) st) t"
    unfolding braces using ex d by (subst scan_token [OF next_token_char(3)]) (auto simp: push_def resume_def)
qed

lemma scans_braces_ex:
  assumes "\<And>k x. (k, x) \<in> set kxs \<Longrightarrow> \<exists>v. scans d x v"
  shows "\<exists>v. scans (Suc d) (json_braces kxs) v"
proof -
  let ?f = "\<lambda>x. SOME v. scans d x v"
  have f: "scans d x (?f x)" if "(k, x) \<in> set kxs" for k x using assms [OF that] by (rule someI_ex)
  let ?ps = "map (\<lambda>(k, x). (k, x, ?f x)) kxs"
  have texts: "map (\<lambda>(k, x, v). (k, x)) ?ps = kxs" by (simp add: comp_def split_def)
  have "scans d (fst (snd kxv)) (snd (snd kxv))" if "kxv \<in> set ?ps" for kxv using that f by auto
  then have "scans (Suc d) (json_braces (map (\<lambda>(k, x, v). (k, x)) ?ps)) (VObject (map member_value ?ps))" by (rule scans_braces)
  then show ?thesis unfolding texts ..
qed

lemma scan_elements:
  assumes "\<And>x. x \<in> set xs \<Longrightarrow> scans d x (f x)" and "length st + Suc d \<le> maxNestingDepth" and "ends t"
  shows "scan (FArray vs # st) ExpectComma (concat (map (\<lambda>y. CHR '','' # y) xs) @ '']'' @ t) = resume (deliver (VArray (vs @ map f xs)) st) t"
  using assms(1)
proof (induction xs arbitrary: vs)
  case Nil
  show ?case using scan_token [OF next_token_brackets(2)] by simp
next
  case (Cons x xs)
  have "ends (concat (map (\<lambda>y. CHR '','' # y) xs) @ '']'' @ t)" by (cases xs) simp_all
  then have "scan (FArray vs # st) ExpectValue (x @ concat (map (\<lambda>y. CHR '','' # y) xs) @ '']'' @ t) =
      scan (FArray (vs @ [f x]) # st) ExpectComma (concat (map (\<lambda>y. CHR '','' # y) xs) @ '']'' @ t)"
    using scansD [OF Cons.prems, of x "FArray vs # st"] assms(2) by (simp add: resume_def)
  then show ?case using Cons by (simp add: scan_token [OF next_token_char(2)] resume_def [of "Next _ _"])
qed

lemma scans_brackets:
  assumes "\<And>x. x \<in> set xs \<Longrightarrow> \<exists>v. scans d x v"
  shows "\<exists>v. scans (Suc d) (''['' @ json_sep xs @ '']'') v"
proof -
  obtain f where f: "x \<in> set xs \<Longrightarrow> scans d x (f x)" for x using assms by metis
  have "scan (FArray [] # st) ExpectValueOrEnd (json_sep xs @ '']'' @ t) = resume (deliver (VArray (map f xs)) st) t"
    if d: "length st + Suc d \<le> maxNestingDepth" and t: "ends t" for st t
  proof (cases xs)
    case Nil
    then show ?thesis by (simp add: json_sep_def scan_token [OF next_token_brackets(2)])
  next
    case (Cons x ys)
    have "ends (concat (map (\<lambda>y. CHR '','' # y) ys) @ '']'' @ t)" by (cases ys) simp_all
    then show ?thesis
      using scansD [OF f, of x "FArray [] # st"] scan_elements [OF f d t, of ys "[f x]"] d by (simp add: Cons json_sep_def resume_def)
  qed
  then have "scans (Suc d) (''['' @ json_sep xs @ '']'') (VArray (map f xs))"
    by (auto simp: scans_def scan_token [OF next_token_brackets(1)] push_def resume_def [of "Next _ _"])
  then show ?thesis ..
qed

section \<open>Every value\<close>

fun json_depth :: "json \<Rightarrow> nat" where
  "json_depth (JObject kvs) = Suc (Max (insert 0 (set (map (\<lambda>(k, v). json_depth v) kvs))))"
| "json_depth (JMap kvs) = Suc (Max (insert 0 (set (map (\<lambda>(k, v). json_depth v) kvs))))"
| "json_depth (JList vs) = Suc (Max (insert 0 (set (map json_depth vs))))"
| "json_depth j = 0"

lemma digits_plain: "list_all plain_char (nat_dec n)"
  using nat_dec_digits [of n] by (auto simp: list_all_iff is_digit_def plain_char_def)

lemma pad_dec_plain: "list_all plain_char (pad_dec w i)"
  using digits_plain by (auto simp: pad_dec_def list_all_iff plain_char_def Let_def)

lemma format_fraction_plain: "list_all plain_char (format_fraction ns)"
  using pad_dec_plain [of 9 ns] by (auto simp: format_fraction_def list_all_iff plain_char_def dest: set_dropWhileD)

lemma format_rfc3339_plain: "format_rfc3339 t = Some s \<Longrightarrow> list_all plain_char s"
  using pad_dec_plain format_fraction_plain
  by (auto simp: format_rfc3339_def Let_def split_def plain_char_def split: if_splits)

lemma those_snd_from: "those_snd kvs = Some xs \<Longrightarrow> (k, x) \<in> set xs \<Longrightarrow> (k, Some x) \<in> set kvs"
proof (induction kvs arbitrary: xs rule: those_snd.induct)
  case (2 a v kvs)
  then obtain y ys where "v = Some y" "those_snd kvs = Some ys" "xs = (a, y) # ys" by (auto split: option.splits)
  then show ?case using 2 by auto
qed simp

lemma those_from: "those ys = Some xs \<Longrightarrow> x \<in> set xs \<Longrightarrow> Some x \<in> set ys"
  by (induction ys arbitrary: xs) (auto split: option.splits)

lemma depth_member: "(k, v) \<in> set kvs \<Longrightarrow> json_depth v \<le> Max (insert 0 (set (map (\<lambda>(k, v). json_depth v) kvs)))"
  by (rule Max_ge) force+

lemma depth_element: "v \<in> set vs \<Longrightarrow> json_depth v \<le> Max (insert 0 (set (map json_depth vs)))"
  by (rule Max_ge) auto

lemma scans_members:
  assumes "those_snd ms = Some xs" and "set ms = set (map (\<lambda>(k, v). (k, Marshal v)) kvs)"
    and "\<And>k v s. (k, v) \<in> set kvs \<Longrightarrow> Marshal v = Some s \<Longrightarrow> \<exists>w. scans (json_depth v) s w"
  shows "\<exists>w. scans (Suc (Max (insert 0 (set (map (\<lambda>(k, v). json_depth v) kvs))))) (json_braces xs) w"
proof (rule scans_braces_ex)
  fix k x
  assume "(k, x) \<in> set xs"
  then have "(k, Some x) \<in> (\<lambda>(k, v). (k, Marshal v)) ` set kvs" using those_snd_from [OF assms(1)] assms(2) by simp
  then obtain v where "(k, v) \<in> set kvs" "Marshal v = Some x" by auto
  then show "\<exists>w. scans (Max (insert 0 (set (map (\<lambda>(k, v). json_depth v) kvs)))) x w"
    using assms(3) [of k v x] scans_mono [OF _ depth_member [of k v kvs]] by blast
qed

lemma Marshal_scans: "Marshal j = Some s \<Longrightarrow> \<exists>v. scans (json_depth j) s v"
proof (induction j arbitrary: s)
  case (JObject kvs)
  then obtain xs where xs: "those_snd (map (\<lambda>(k, v). (k, Marshal v)) kvs) = Some xs" "s = json_braces xs" by auto
  have "\<exists>w. scans (json_depth v) t w" if "(k, v) \<in> set kvs" "Marshal v = Some t" for k v t
    using JObject.IH [OF that(1) _ that(2)] by simp
  then show ?case using scans_members [OF xs(1) refl] unfolding xs(2) by simp
next
  case (JMap kvs)
  then obtain xs where xs: "those_snd (sort_key fst (map (\<lambda>(k, v). (k, Marshal v)) kvs)) = Some xs" "s = json_braces xs" by auto
  have "\<exists>w. scans (json_depth v) t w" if "(k, v) \<in> set kvs" "Marshal v = Some t" for k v t
    using JMap.IH [OF that(1) _ that(2)] by simp
  then show ?case using scans_members [OF xs(1), of kvs] unfolding xs(2) by simp
next
  case (JList vs)
  then obtain xs where xs: "those (map Marshal vs) = Some xs" "s = ''['' @ json_sep xs @ '']''" by auto
  have "\<exists>w. scans (Max (insert 0 (set (map json_depth vs)))) x w" if x: "x \<in> set xs" for x
  proof -
    obtain v where "v \<in> set vs" "Marshal v = Some x" using those_from [OF xs(1) x] by auto
    then show ?thesis using JList.IH scans_mono [OF _ depth_element] by blast
  qed
  then show ?case using scans_brackets unfolding xs(2) by simp
next
  case (JString x)
  then show ?case using scans_scalars(5) [of x] by auto
next
  case (JTime t)
  then obtain u where "format_rfc3339 t = Some u" "s = CHR 0x22 # u @ [CHR 0x22]" by auto
  then show ?case using scans_scalars(6) [OF format_rfc3339_plain] by auto
qed (use scans_scalars in \<open>auto split: if_splits\<close>)

lemma Marshal_parses:
  assumes "Marshal j = Some s" and "json_depth j \<le> maxNestingDepth"
  shows "parse_all (s @ [CHR 0x0A]) \<noteq> None"
proof -
  obtain v where "scans (json_depth j) s v" using Marshal_scans [OF assms(1)] ..
  then have "scan [] ExpectValue (s @ [CHR 0x0A]) = Some (v, [CHR 0x0A])"
    using scansD [of "json_depth j" s v "[]" "[CHR 0x0A]"] assms(2) by (simp add: ends_def number_char_def is_digit_def resume_def)
  then show ?thesis by (simp add: parse_all_def json_space_def)
qed

section \<open>The answers of the handlers\<close>

text \<open>A program that only gives values with a property.\<close>

definition gives :: "('a \<Rightarrow> bool) \<Rightarrow> ('w, 'e, 'a) prog \<Rightarrow> bool" where
  "gives P m \<longleftrightarrow> (\<forall>w. wp m (\<lambda>x _. P x) (\<lambda>_ _. True) w)"

lemma gives_return [simp]: "gives P (returnE x) \<longleftrightarrow> P x"
  by (simp add: gives_def wp_simps)

lemma gives_bind: "(\<And>x. gives P (f x)) \<Longrightarrow> gives P (bindE m f)"
  by (simp add: gives_def wp_simps) (simp add: wp_def split: prod.split sum.split)

lemma gives_answer: "(\<And>e. P (failed e)) \<Longrightarrow> (\<And>x. P (done x)) \<Longrightarrow> gives P (answer_with call failed done)"
  unfolding answer_with_def by (rule gives_bind) (simp split: sum.split)

lemma givesD: "gives P m \<Longrightarrow> fst (m w) = Inr x \<Longrightarrow> P x"
  by (cases "m w") (auto simp: gives_def wp_def split: sum.splits prod.splits dest: spec [of _ w])

definition json_type :: "string \<times> string" where
  "json_type = (''Content-Type'', ''application/json; charset=utf-8'')"

definition answer_statuses :: "int set" where
  "answer_statuses = {200, 201, 202, 204, 400, 401, 404, 405, 409, 500, 503}"

text \<open>A success may have no body: a time outside the years 0 to 9999 has no encoding.\<close>

definition json_answer :: "Response \<Rightarrow> bool" where
  "json_answer res \<longleftrightarrow> rs_Status res \<in> answer_statuses \<and> json_type \<in> set (rs_Header res) \<and>
     (if rs_Body res = [] then rs_Status res < 400 else parse_all (rs_Body res) \<noteq> None)"

definition handler_answer :: "Response \<Rightarrow> bool" where
  "handler_answer res \<longleftrightarrow> json_answer res \<or> res = noContent"

lemma writeJSON_answer:
  assumes "status \<in> answer_statuses" and "json_depth j \<le> maxNestingDepth" and "status < 400 \<or> Marshal j \<noteq> None"
  shows "handler_answer (writeJSON status j)"
  using assms Marshal_parses [of j]
  by (cases "Marshal j") (auto simp: handler_answer_def json_answer_def writeJSON_def json_type_def)

lemma json_depth_le:
  "(\<And>k v. (k, v) \<in> set kvs \<Longrightarrow> json_depth v \<le> n) \<Longrightarrow> json_depth (JObject kvs) \<le> Suc n"
  "(\<And>k v. (k, v) \<in> set kvs \<Longrightarrow> json_depth v \<le> n) \<Longrightarrow> json_depth (JMap kvs) \<le> Suc n"
  "(\<And>v. v \<in> set vs \<Longrightarrow> json_depth v \<le> n) \<Longrightarrow> json_depth (JList vs) \<le> Suc n"
  by auto

lemma string_object_depth: "json_depth (string_object kvs) \<le> 1"
  unfolding string_object_def One_nat_def by (rule json_depth_le) auto

lemma string_object_encodes: "Marshal (string_object kvs) \<noteq> None"
  using Marshal_string_map [of "Some kvs"] by (simp add: string_object_def json_string_map_def)

lemma string_object_answer: "status \<in> answer_statuses \<Longrightarrow> handler_answer (writeJSON status (string_object kvs))"
  using string_object_depth [of kvs] string_object_encodes by (intro writeJSON_answer) (auto simp: maxNestingDepth_def)

lemma error_answer: "status \<in> answer_statuses \<Longrightarrow> handler_answer (writeAPIError status code message)"
  unfolding writeAPIError_def
  using string_object_depth [of "[(''code'', code), (''message'', message)]"] string_object_encodes [of "[(''code'', code), (''message'', message)]"]
  by (intro writeJSON_answer) (auto simp: maxNestingDepth_def)

lemma data_answer:
  assumes "\<And>x. json_depth (f x) \<le> 2"
  shows "handler_answer (writeJSON 200 (JMap [(''data'', JList (map f xs))]))"
proof (rule writeJSON_answer)
  have "json_depth (JList (map f xs)) \<le> Suc 2" using assms by (intro json_depth_le) auto
  then have "json_depth (JMap [(''data'', JList (map f xs))]) \<le> Suc (Suc 2)" by (intro json_depth_le) auto
  then show "json_depth (JMap [(''data'', JList (map f xs))]) \<le> maxNestingDepth" by (simp add: maxNestingDepth_def del: json_depth.simps)
qed (simp_all add: answer_statuses_def)

lemma response_depths:
  "json_depth (toPaymentResponse p) \<le> 2" "json_depth (toAttemptResponse a) \<le> 2"
  "json_depth (toProviderConnectionResponse c) \<le> 2" "json_depth (toWebhookEndpointResponse e) \<le> 2"
proof -
  have m: "json_depth (json_string_map m) \<le> 1" for m unfolding json_string_map_def One_nat_def
    by (cases m) (auto intro!: json_depth_le simp del: json_depth.simps(1-3))
  show "json_depth (toPaymentResponse p) \<le> 2"
    unfolding toPaymentResponse_def numeral_2_eq_2
    by (rule json_depth_le) (use m in \<open>auto simp: omit_empty_def split: option.splits if_splits\<close>)
qed (auto simp: toAttemptResponse_def toProviderConnectionResponse_def toWebhookEndpointResponse_def omit_empty_def)

lemma success_answer: "status = 200 \<or> status = 201 \<or> status = 202 \<Longrightarrow> json_depth j \<le> 2 \<Longrightarrow> handler_answer (writeJSON status j)"
  by (rule writeJSON_answer) (auto simp: answer_statuses_def maxNestingDepth_def)

lemmas error_answers [simp] =
  error_answer [of 400, simplified answer_statuses_def, simplified] error_answer [of 401, simplified answer_statuses_def, simplified]
  error_answer [of 404, simplified answer_statuses_def, simplified] error_answer [of 409, simplified answer_statuses_def, simplified]
  error_answer [of 500, simplified answer_statuses_def, simplified] error_answer [of 503, simplified answer_statuses_def, simplified]

lemma service_errors [simp]:
  "handler_answer (writePaymentError err)" "handler_answer (writeWebhookError err)"
  "handler_answer (writeProviderConnectionError err)" "handler_answer (writeEndpointError message err)" "handler_answer noContent"
  by (simp_all add: writePaymentError_def writeWebhookError_def writeProviderConnectionError_def writeEndpointError_def handler_answer_def [of noContent])

lemma payment_handlers:
  "gives handler_answer (handleCreatePayment service r who)" "gives handler_answer (handleGetPayment service r who)"
  "gives handler_answer (handleListAttempts service r who)"
  unfolding handleCreatePayment_def handleGetPayment_def handleListAttempts_def Let_def
  by (auto intro!: gives_answer success_answer response_depths data_answer split: option.split if_splits)

lemma webhook_handlers:
  "gives handler_answer (handleProviderWebhook ps r)"
  "gives handler_answer (handlePutWebhookEndpoint service r who)" "gives handler_answer (handleGetWebhookEndpoint service r who)"
  "gives handler_answer (handleDeleteWebhookEndpoint service r who)"
  unfolding handleProviderWebhook_def handlePutWebhookEndpoint_def handleGetWebhookEndpoint_def handleDeleteWebhookEndpoint_def Let_def
  by (auto intro!: gives_answer success_answer response_depths string_object_depth [THEN le_trans] split: option.split)

lemma connection_handlers:
  "gives handler_answer (handleConnectProvider service r who)" "gives handler_answer (handleListProviders service r who)"
  "gives handler_answer (handleDisableProvider service r who)"
  unfolding handleConnectProvider_def handleListProviders_def handleDisableProvider_def Let_def
  by (auto intro!: gives_answer success_answer response_depths data_answer split: option.split)

lemma authorize_gives:
  assumes "\<And>who. gives handler_answer (next r who)"
  shows "gives handler_answer (Http.authorize resolver next r)"
  unfolding Http.authorize_def Let_def by (auto intro!: gives_bind assms split: sum.split)

section \<open>The answers of the server\<close>

lemma health_handlers: "gives handler_answer (handleHealthz r)" "gives handler_answer (handleReadyz database r)"
proof -
  have "handler_answer methodNotAllowed"
    using string_object_answer [of 405 "[(''error'', ''method_not_allowed'')]"]
    by (auto simp: methodNotAllowed_def Let_def handler_answer_def json_answer_def answer_statuses_def noContent_def writeJSON_def)
  moreover have "handler_answer (writeJSON status (string_object kvs))" if "status \<in> {200, 503}" for status kvs
    using string_object_answer that by (auto simp: answer_statuses_def)
  ultimately show "gives handler_answer (handleHealthz r)" "gives handler_answer (handleReadyz database r)"
    unfolding handleHealthz_def handleReadyz_def by (auto intro!: gives_bind split: option.split)
qed

lemma routes_give:
  assumes "rt \<in> set ([handle_route None [Literal ''healthz''] handleHealthz, handle_route None [Literal ''readyz''] (handleReadyz (so_Database opts))] @
     paymentRoutes opts @ providerWebhookRoutes opts @ merchantWebhookRoutes opts @ providerConnectionRoutes opts)"
  shows "gives handler_answer (rt_Handler rt r)"
  using assms unfolding paymentRoutes_def providerWebhookRoutes_def merchantWebhookRoutes_def providerConnectionRoutes_def
  by (auto simp: handle_route_def intro!: authorize_gives payment_handlers webhook_handlers connection_handlers health_handlers split: option.splits)

definition well_formed :: "HttpRequest \<Rightarrow> Response \<Rightarrow> bool" where
  "well_formed r res \<longleftrightarrow> rs_Status res \<in> answer_statuses \<and>
     (if json_type \<in> set (rs_Header res)
      then (if rs_Body res = [] then hr_Method r = ''HEAD'' \<or> rs_Status res < 400 else parse_all (rs_Body res) \<noteq> None)
      else rs_Status res \<in> {204, 404, 405})"


end
