(* ===== verification/Drain.thy ===== *)
theory Drain
  imports Startup
begin

text \<open>
  The worker works off its backlog.  \<open>backlog\<close> counts the events that have an endpoint and no delivery yet and the
  deliveries that are not settled; when the database answers, the receivers answer with 2xx and nothing
  waits for a later time (\<open>prompt\<close>), every round of \<open>RunOnce\<close> delivers a whole batch of it.

  A round is taken apart into its statements: the rows it inserts, the rows it claims, and the rows it
  completes.  \<open>touched P I\<close> relates the tables before and after: the rows with an id of \<open>I\<close> have become \<open>P\<close>, the
  others are as they were.
\<close>

section \<open>What is left to do\<close>

definition open_row :: "PgDB \<Rightarrow> Delivery \<Rightarrow> bool" where
  "open_row db d \<longleftrightarrow> \<not> settled_row d \<and> list_ex (\<lambda>e. en_ID e = dl_EndpointID d \<and> en_Enabled e) (db_endpoints db)"

definition backlog :: "PgDB \<Rightarrow> nat" where
  "backlog db = length (candidates db) + length (filter (open_row db) (db_deliveries db))"

definition successes :: "PgDB \<Rightarrow> nat" where
  "successes db = length (filter (\<lambda>d. dl_Status d = DeliverySucceeded) (db_deliveries db))"

text \<open>What the environment has to do for it.\<close>

definition answering :: "PgDB DeliveryService \<Rightarrow> PgDB \<Rightarrow> bool" where
  "answering sv db \<longleftrightarrow>
     (\<forall>n request. case ds_sender sv of None \<Rightarrow> False | Some send \<Rightarrow> success_status (sn_HTTPStatus (send n request))) \<and>
     (\<forall>e\<in>set (db_endpoints db). case sc_Decrypt (ds_cipher sv) (en_SigningSecretCiphertext e) of Inl _ \<Rightarrow> False | Inr _ \<Rightarrow> True)"

definition fresh_ids :: "PgDB DeliveryService \<Rightarrow> nat \<Rightarrow> PgDB \<Rightarrow> bool" where
  "fresh_ids sv n db \<longleftrightarrow> inj_on (\<lambda>k. ds_ids sv k ''wha'') {n..} \<and>
     (\<forall>k\<ge>n. ds_ids sv k ''wha'' \<notin> da_ID ` set (db_deliveryAttempts db))"

definition prompt :: "PgDB DeliveryService \<Rightarrow> PgDB dworld \<Rightarrow> bool" where
  "prompt sv W \<longleftrightarrow> db_faults (dw_store W) = [] \<and> mono (ds_clock sv) \<and> answering sv (dw_store W) \<and>
     fresh_ids sv (dw_tick W) (dw_store W) \<and> distinct (map me_ID (db_merchantEvents (dw_store W))) \<and>
     (\<forall>d\<in>set (db_deliveries (dw_store W)). open_row (dw_store W) d \<longrightarrow> due (dw_store W) (ds_clock sv (dw_tick W)) d)"

lemma due_open: "due db now d \<Longrightarrow> open_row db d"
  by (auto simp: due_def open_row_def settled_row_def)

text \<open>Every delivery is of an event of the outbox.\<close>

definition of_outbox :: "PgDB \<Rightarrow> bool" where
  "of_outbox db \<longleftrightarrow> (\<forall>d\<in>set (db_deliveries db). dl_EventID d \<in> me_ID ` set (db_merchantEvents db))"

lemma candidate_event:
  assumes "(me, e) \<in> set (candidates db)"
  shows "me \<in> set (db_merchantEvents db) \<and> \<not> delivered db (me_ID me) \<and> e \<in> set (db_endpoints db) \<and> en_Enabled e"
  using assms by (auto simp: candidates_def map_filter_mem event_endpoint_def split: option.splits dest: find_Some_iff2)

lemma insertDeliveries_outbox:
  "of_outbox db \<Longrightarrow> fst ` set rows \<subseteq> set (db_merchantEvents db) \<Longrightarrow> of_outbox (insertDeliveries now rows db)"
proof (induction now rows db rule: insertDeliveries.induct)
  case (2 now me e rows db)
  let ?db = "if delivered db (me_ID me) then db else db\<lparr>db_deliveries := db_deliveries db @ [newDelivery now (me_ID me) (en_ID e)]\<rparr>"
  have "of_outbox ?db" "fst ` set rows \<subseteq> set (db_merchantEvents ?db)" using 2(2,3) by (auto simp: of_outbox_def newDelivery_def)
  then show ?case using 2(1) by simp
qed simp

lemma materialize_outbox:
  assumes "pg_MaterializePendingDeliveries now limit db = (r, db')" and "of_outbox db"
  shows "of_outbox db'"
proof -
  let ?db = "db\<lparr>db_faults := tl (db_faults db)\<rparr>"
  have "of_outbox ?db" using assms(2) by (simp add: of_outbox_def)
  moreover have "fst ` set (take n (candidates ?db)) \<subseteq> set (db_merchantEvents ?db)" for n
    using candidate_event [of _ _ ?db] by (force dest: in_set_takeD)
  ultimately have "of_outbox (insertDeliveries now (take n (candidates ?db)) ?db)" for n by (rule insertDeliveries_outbox)
  moreover have "db' = db \<or> db' = ?db \<or> (\<exists>n. db' = insertDeliveries now (take n (candidates ?db)) ?db)"
    using assms(1) by (auto simp: pg_MaterializePendingDeliveries_def returnE_def statement_def Let_def split: if_splits)
  ultimately show ?thesis using assms(2) \<open>of_outbox ?db\<close> by blast
qed

lemma claim_outbox:
  assumes "pg_ClaimDueDeliveries now until w limit db = (r, db')" and "of_outbox db"
  shows "of_outbox db'"
  using assms
  by (auto simp: pg_ClaimDueDeliveries_def returnE_def statement_def of_outbox_def lockDelivery_def Let_def split: if_splits)

lemma complete_outbox:
  assumes "pg_CompleteDelivery w c db = (r, db')" and "of_outbox db"
  shows "of_outbox db'"
proof (cases r)
  case (Inl e)
  then show ?thesis using tables_eqD(8,11) [OF complete_error [of w c db e db']] assms by (simp add: of_outbox_def)
next
  case (Inr u)
  from assms(1) [unfolded Inr] show ?thesis
  proof (rule complete_value)
    assume rows: "db_deliveries db' = update_first (\<lambda>d. dl_ID d = cm_DeliveryID c \<and> dl_LockedBy d = w) (completeRow c) (db_deliveries db)"
      and ev: "db_merchantEvents db' = db_merchantEvents db"
    have "map dl_EventID (db_deliveries db') = map dl_EventID (db_deliveries db)" unfolding rows by (rule update_first_map) simp
    then have "dl_EventID ` set (db_deliveries db') = dl_EventID ` set (db_deliveries db)" by (metis set_map)
    then show ?thesis using assms(2) by (force simp: of_outbox_def ev)
  qed
qed

lemma worker_step_outbox:
  assumes "worker_step sv (W, ph) s'" and "of_outbox (dw_store W)"
  shows "of_outbox (dw_store (fst s'))"
  using assms(1)
proof (cases rule: worker_step.cases)
  case (send w job jobs c W')
  then show ?thesis using assms(2) attemptJob_value(1) [of "sv w" job W c W'] by simp
qed (use assms(2) in \<open>auto simp: dw_step_def other_writes_def of_outbox_def
  dest!: dw_run_Inr dw_run_Inl dest: materialize_outbox claim_outbox complete_outbox\<close>)

lemma fleet_run_outbox: "fleet_run sv s s' \<Longrightarrow> of_outbox (dw_store (fst s)) \<Longrightarrow> of_outbox (dw_store (fst s'))"
proof (induction rule: fleet_run.induct)
  case (step s s')
  then show ?case using worker_step_outbox [of sv "fst s" "snd s" s'] by simp
qed

lemma fleet_start_outbox: "of_outbox (dw_store (fst (fleet_start db n)))"
  by (simp add: fleet_start_def of_outbox_def)

section \<open>Rows that a round touches\<close>

definition same_keys :: "Delivery \<Rightarrow> Delivery \<Rightarrow> bool" where
  "same_keys d d' \<longleftrightarrow> dl_ID d' = dl_ID d \<and> dl_EventID d' = dl_EventID d \<and> dl_EndpointID d' = dl_EndpointID d"

definition touched :: "(Delivery \<Rightarrow> bool) \<Rightarrow> string set \<Rightarrow> Delivery list \<Rightarrow> Delivery list \<Rightarrow> bool" where
  "touched P I = list_all2 (\<lambda>d d'. same_keys d d' \<and> (if dl_ID d \<in> I then P d' else d' = d))"

definition delivered_row :: "Delivery \<Rightarrow> bool" where
  "delivered_row d \<longleftrightarrow> dl_Status d = DeliverySucceeded"

lemma touched_refl: "touched P {} ds ds"
  by (simp add: touched_def same_keys_def list_all2_same)

lemma touched_trans:
  assumes "touched P I ds ds'" and "touched Q J ds' ds''" and "\<And>d. P d \<Longrightarrow> Q d"
  shows "touched Q (I \<union> J) ds ds''"
  using assms(1,2) unfolding touched_def
  by (rule list_all2_trans [rotated]) (auto simp: same_keys_def assms(3) split: if_splits)

lemma touched_after:
  assumes "touched P I ds ds'" and "touched Q I ds' ds''"
  shows "touched Q I ds ds''"
  using assms unfolding touched_def
  by (rule list_all2_trans [rotated]) (auto simp: same_keys_def split: if_splits)

lemma touched_keys:
  assumes "touched P I ds ds'"
  shows "map dl_ID ds' = map dl_ID ds" and "map dl_EventID ds' = map dl_EventID ds"
  using assms unfolding touched_def by (induction rule: list_all2_induct) (auto simp: same_keys_def)

lemma touched_rest:
  assumes "touched P I ds ds'" and "d \<in> set ds'" and "dl_ID d \<notin> I"
  shows "d \<in> set ds"
  using assms unfolding touched_def by (induction rule: list_all2_induct) (auto simp: same_keys_def split: if_splits)

lemma touched_update:
  assumes "distinct (map dl_ID ds)" and "d \<in> set ds" and "R d" and "\<And>r. R r \<Longrightarrow> dl_ID r = dl_ID d" and "same_keys d (f d)" and "P (f d)"
  shows "touched P {dl_ID d} ds (update_first R f ds)"
  using assms(1,2)
proof (induction ds)
  case (Cons x ds)
  have same: "touched P {dl_ID d} ys ys" if "dl_ID d \<notin> dl_ID ` set ys" for ys
    using that by (auto simp: touched_def list_all2_same same_keys_def image_iff)
  show ?case
  proof (cases "R x")
    case True
    then have x: "x = d" using Cons.prems assms(4) [OF True] by (auto simp: image_iff)
    have "dl_ID d \<notin> dl_ID ` set ds" using Cons.prems(1) by (simp add: x)
    from same [OF this] show ?thesis using assms(3,5,6) by (simp add: x touched_def)
  next
    case False
    then have d: "d \<in> set ds" using Cons.prems(2) assms(3) by auto
    then have "dl_ID x \<noteq> dl_ID d" using Cons.prems(1) by (auto simp: image_iff)
    then show ?thesis using Cons.IH [OF _ d] Cons.prems(1) False by (simp add: touched_def same_keys_def)
  qed
qed simp

text \<open>What the deliveries of a batch leave of the counts.\<close>

lemma touched_counts:
  assumes "touched delivered_row I ds ds'" and "\<And>d. d \<in> set ds \<Longrightarrow> dl_ID d \<in> I \<Longrightarrow> open_row db d" and "db_endpoints db' = db_endpoints db"
  shows "length (filter (open_row db) ds) = length (filter (open_row db') ds') + length (filter (\<lambda>d. dl_ID d \<in> I) ds)"
    and "length (filter delivered_row ds') = length (filter delivered_row ds) + length (filter (\<lambda>d. dl_ID d \<in> I) ds)"
proof -
  have cong: "open_row db' = open_row db" by (simp add: open_row_def fun_eq_iff assms(3))
  have shut: "\<not> open_row db d" if "delivered_row d" for d using that by (simp add: open_row_def delivered_row_def settled_row_def)
  show "length (filter (open_row db) ds) = length (filter (open_row db') ds') + length (filter (\<lambda>d. dl_ID d \<in> I) ds)"
    using assms(1,2) unfolding touched_def cong by (induction rule: list_all2_induct) (use shut in \<open>auto split: if_splits\<close>)
  show "length (filter delivered_row ds') = length (filter delivered_row ds) + length (filter (\<lambda>d. dl_ID d \<in> I) ds)"
    using assms(1,2) unfolding touched_def by (induction rule: list_all2_induct) (use shut in \<open>auto split: if_splits\<close>)
qed

lemma count_ids:
  assumes "distinct (map f ds)" and "distinct ids" and "set ids \<subseteq> f ` set ds"
  shows "length (filter (\<lambda>d. f d \<in> set ids) ds) = length ids"
proof -
  let ?fs = "filter (\<lambda>d. f d \<in> set ids) ds"
  have "length ?fs = length (map f ?fs)" by simp
  also have "\<dots> = card (set (map f ?fs))" using assms(1) by (metis distinct_card distinct_map_filter)
  also have "set (map f ?fs) = set ids" using assms(3) by auto
  also have "card (set ids) = length ids" using assms(2) by (rule distinct_card)
  finally show ?thesis .
qed

section \<open>The statements of a round\<close>

lemma insertDeliveries_rows:
  "distinct (map (\<lambda>r. me_ID (fst r)) rows) \<Longrightarrow> (\<And>r. r \<in> set rows \<Longrightarrow> \<not> delivered db (me_ID (fst r))) \<Longrightarrow>
   insertDeliveries now rows db = db\<lparr>db_deliveries := db_deliveries db @ map (\<lambda>(me, e). newDelivery now (me_ID me) (en_ID e)) rows\<rparr>"
proof (induction now rows db rule: insertDeliveries.induct)
  case (2 now me e rows db)
  let ?db = "db\<lparr>db_deliveries := db_deliveries db @ [newDelivery now (me_ID me) (en_ID e)]\<rparr>"
  have new: "\<not> delivered db (me_ID me)" using 2(3) [of "(me, e)"] by simp
  have "insertDeliveries now rows ?db = ?db\<lparr>db_deliveries := db_deliveries ?db @ map (\<lambda>(me, e). newDelivery now (me_ID me) (en_ID e)) rows\<rparr>"
    using 2(1) [unfolded if_not_P [OF new]] 2(2,3) by (force simp: delivered_def newDelivery_def)
  then show ?case using new by simp
qed simp

lemma candidates_split:
  "candidates db = List.map_filter (\<lambda>me. map_option (\<lambda>e. (me, e)) (event_endpoint db me))
     (filter (\<lambda>me. \<not> delivered db (me_ID me)) (sort_key (\<lambda>me. (me_CreatedAt me, me_ID me)) (db_merchantEvents db)))"
  by (simp add: candidates_def filter_sort)

lemma map_filter_filter: "List.map_filter f (filter P xs) = filter (\<lambda>y. case y of (x, _) \<Rightarrow> P x) (List.map_filter f xs)"
  if "\<And>x y. f x = Some y \<Longrightarrow> fst y = x" for f :: "'a \<Rightarrow> ('a \<times> 'b) option"
  by (induction xs) (auto simp: List.map_filter_simps split: option.splits dest: that)

lemma candidate_ids: "distinct (map me_ID (db_merchantEvents db)) \<Longrightarrow> distinct (map (\<lambda>r. me_ID (fst r)) (candidates db))"
proof -
  let ?S = "filter (\<lambda>me. \<not> delivered db (me_ID me)) (sort_key (\<lambda>me. (me_CreatedAt me, me_ID me)) (db_merchantEvents db))"
  assume "distinct (map me_ID (db_merchantEvents db))"
  then have "distinct (map me_ID ?S)" by (intro distinct_map_filter) (simp add: distinct_map)
  moreover have "distinct (map me_ID xs) \<Longrightarrow> distinct (map (\<lambda>r. me_ID (fst r)) (List.map_filter (\<lambda>me. map_option (\<lambda>e. (me, e)) (event_endpoint db me)) xs))" for xs
    by (induction xs) (auto simp: List.map_filter_simps map_filter_mem split: option.splits)
  ultimately show ?thesis unfolding candidates_split by blast
qed

lemma length_filter_drop:
  assumes "distinct (map g xs)"
  shows "filter (\<lambda>x. g x \<notin> g ` set (take n xs)) xs = drop n xs"
proof -
  have "distinct (map g (take n xs) @ map g (drop n xs))" using assms by (metis append_take_drop_id map_append)
  then have "filter (\<lambda>x. g x \<notin> g ` set (take n xs)) (drop n xs) = drop n xs" by (intro filter_True) auto
  moreover have "filter (\<lambda>x. g x \<notin> g ` set (take n xs)) (take n xs) = []" by (auto simp: filter_empty_conv)
  ultimately show ?thesis by (metis (no_types, lifting) append_Nil append_take_drop_id filter_append)
qed

lemma event_endpoint_rows: "event_endpoint (db\<lparr>db_deliveries := ds\<rparr>) me = event_endpoint db me"
  "event_endpoint (db\<lparr>db_deliveries := ds, db_deliveryAttempts := das\<rparr>) me = event_endpoint db me"
  by (simp_all add: event_endpoint_def payment_environment_def attempts_of_def cong: option.case_cong)

lemma candidates_keep:
  "map dl_EventID ds = map dl_EventID (db_deliveries db) \<Longrightarrow> candidates (db\<lparr>db_deliveries := ds, db_deliveryAttempts := das\<rparr>) = candidates db"
proof -
  assume ds: "map dl_EventID ds = map dl_EventID (db_deliveries db)"
  have "delivered (db\<lparr>db_deliveries := ds, db_deliveryAttempts := das\<rparr>) e = delivered db e" for e
    using arg_cong [OF ds, of set] by (simp add: delivered_iff)
  then show ?thesis unfolding candidates_def event_endpoint_rows by simp
qed

lemma materialize_counts:
  fixes db now m
  defines "rows \<equiv> take m (candidates db)"
  defines "db1 \<equiv> insertDeliveries now rows db"
  assumes ids: "distinct (map me_ID (db_merchantEvents db))"
  shows "db1 = db\<lparr>db_deliveries := db_deliveries db @ map (\<lambda>(me, e). newDelivery now (me_ID me) (en_ID e)) rows\<rparr>"
    and "candidates db1 = drop m (candidates db)"
    and "length (filter (open_row db1) (db_deliveries db1)) = length (filter (open_row db) (db_deliveries db)) + length rows"
    and "length (filter delivered_row (db_deliveries db1)) = length (filter delivered_row (db_deliveries db))"
    and "(\<And>d. d \<in> set (db_deliveries db) \<Longrightarrow> open_row db d \<Longrightarrow> due db now d) \<Longrightarrow>
      d \<in> set (db_deliveries db1) \<Longrightarrow> open_row db1 d \<Longrightarrow> due db1 now d"
proof -
  let ?new = "\<lambda>(me, e). newDelivery now (me_ID me) (en_ID e)"
  note all = candidate_ids [OF ids]
  have mem: "r \<in> set (candidates db)" if "r \<in> set rows" for r using that by (auto simp: rows_def dest: in_set_takeD)
  have "map (\<lambda>r. me_ID (fst r)) rows = take m (map (\<lambda>r. me_ID (fst r)) (candidates db))" by (simp add: rows_def take_map)
  then have "distinct (map (\<lambda>r. me_ID (fst r)) rows)" using all by (simp only: distinct_take)
  moreover have "\<not> delivered db (me_ID (fst r))" if "r \<in> set rows" for r using candidate_event [of "fst r" "snd r" db] mem [OF that] by simp
  ultimately show db1: "db1 = db\<lparr>db_deliveries := db_deliveries db @ map ?new rows\<rparr>"
    unfolding db1_def by (rule insertDeliveries_rows)
  have del: "delivered db1 e \<longleftrightarrow> delivered db e \<or> e \<in> (\<lambda>r. me_ID (fst r)) ` set rows" for e
    by (force simp: db1 delivered_iff newDelivery_def)
  have "candidates db1 = filter (\<lambda>r. me_ID (fst r) \<notin> (\<lambda>r. me_ID (fst r)) ` set rows) (candidates db)"
  proof -
    let ?f = "\<lambda>me. map_option (\<lambda>e. (me, e)) (event_endpoint db me)"
    let ?S = "sort_key (\<lambda>me. (me_CreatedAt me, me_ID me)) (db_merchantEvents db)"
    have "candidates db1 = List.map_filter ?f (filter (\<lambda>me. \<not> delivered db1 (me_ID me)) ?S)"
      unfolding candidates_split by (simp add: db1 event_endpoint_rows)
    also have "\<dots> = List.map_filter ?f (filter (\<lambda>me. me_ID me \<notin> (\<lambda>r. me_ID (fst r)) ` set rows) (filter (\<lambda>me. \<not> delivered db (me_ID me)) ?S))"
      by (simp add: del conj_commute)
    also have "\<dots> = filter (\<lambda>r. me_ID (fst r) \<notin> (\<lambda>r. me_ID (fst r)) ` set rows) (candidates db)"
      by (subst map_filter_filter) (auto simp: candidates_split split_def)
    finally show ?thesis .
  qed
  then show "candidates db1 = drop m (candidates db)" unfolding rows_def length_filter_drop [OF all] .
  have cong: "open_row db1 = open_row db" by (simp add: open_row_def db1 fun_eq_iff)
  have dcong: "due db1 = due db" by (simp add: due_def db1 fun_eq_iff)
  have ends: "list_ex (\<lambda>e'. en_ID e' = en_ID e \<and> en_Enabled e') (db_endpoints db)" if "(me, e) \<in> set rows" for me e
    using candidate_event [OF mem [OF that]] by (auto simp: list_ex_iff)
  have new: "open_row db (?new r)" "\<not> delivered_row (?new r)" "due db now (?new r)" if "r \<in> set rows" for r
    using ends [of "fst r" "snd r"] that
    by (auto simp: open_row_def delivered_row_def newDelivery_def settled_row_def due_def split_def)
  have "filter (open_row db) (map ?new rows) = map ?new rows" using new(1) by (intro filter_True) auto
  then show "length (filter (open_row db1) (db_deliveries db1)) = length (filter (open_row db) (db_deliveries db)) + length rows"
    unfolding cong by (simp add: db1)
  have "filter delivered_row (map ?new rows) = []" using new(2) by (auto simp: filter_empty_conv)
  then show "length (filter delivered_row (db_deliveries db1)) = length (filter delivered_row (db_deliveries db))" by (simp add: db1)
  show "due db1 now d" if "\<And>d. d \<in> set (db_deliveries db) \<Longrightarrow> open_row db d \<Longrightarrow> due db now d"
    "d \<in> set (db_deliveries db1)" "open_row db1 d"
    using that new(3) unfolding cong dcong by (auto simp: db1)
qed

lemma map_filter_total: "(\<And>x. x \<in> set xs \<Longrightarrow> f x \<noteq> None) \<Longrightarrow> List.map_filter f xs = map (\<lambda>x. the (f x)) xs"
  by (simp add: map_filter_def comp_def)

lemma image_restrict: "f ` {x \<in> A. f x \<in> B} = f ` A \<inter> B"
  by auto

lemma claim_all:
  assumes ok: "db_ok mx db" and nf: "db_faults db = []" and ob: "of_outbox db" and b: "0 < b" and w: "w \<noteq> []"
    and due: "\<And>d. d \<in> set (db_deliveries db) \<Longrightarrow> open_row db d \<Longrightarrow> due db now d"
  obtains jobs ds ids where "pg_ClaimDueDeliveries now until w b db = (Inr jobs, db\<lparr>db_deliveries := ds\<rparr>)"
    and "touched (\<lambda>d. dl_LockedBy d = w) (set ids) (db_deliveries db) ds" and "jb_DeliveryID ` set jobs = set ids"
    and "length (filter (\<lambda>d. dl_ID d \<in> set ids) (db_deliveries db)) = min (nat b) (length (filter (open_row db) (db_deliveries db)))"
    and "\<And>d. d \<in> set (db_deliveries db) \<Longrightarrow> dl_ID d \<in> set ids \<Longrightarrow> open_row db d"
    and "\<And>j. j \<in> set jobs \<Longrightarrow> jb_SigningSecretCiphertext j \<in> en_SigningSecretCiphertext ` set (db_endpoints db)"
    and "length jobs = length ids" and "length ids = min (nat b) (length (filter (open_row db) (db_deliveries db)))"
    and "set ids \<subseteq> dl_ID ` set (db_deliveries db)"
proof -
  let ?ids = "claimed db now b"
  let ?f = "\<lambda>d. if dl_ID d \<in> set ?ids then lockDelivery now until w d else d"
  let ?rows = "map ?f (db_deliveries db)"
  let ?ds = "sort_key dl_ID (filter (\<lambda>d. dl_ID d \<in> set ?ids) ?rows)"
  let ?jobs = "List.map_filter (jobOf db) ?ds"
  have claim: "pg_ClaimDueDeliveries now until w b db = (Inr ?jobs, db\<lparr>db_deliveries := ?rows\<rparr>)"
    using b by (simp add: pg_ClaimDueDeliveries_def statement_no_faults [OF nf] Let_def)
  have dist: "distinct (map dl_ID (db_deliveries db))" using ok by (simp add: db_ok_def)
  have eq: "filter (due db now) (db_deliveries db) = filter (open_row db) (db_deliveries db)"
    using due due_open by (intro filter_cong) auto
  let ?sorted = "sort_key (\<lambda>d. (dl_NextAttemptAt d, dl_CreatedAt d, dl_ID d)) (filter (open_row db) (db_deliveries db))"
  have ids: "?ids = take (nat b) (map dl_ID ?sorted)" by (simp add: claimed_def eq)
  have "distinct (map dl_ID ?sorted)" using distinct_map_filter [OF dist] by (simp add: distinct_map)
  then have dids: "distinct ?ids" unfolding ids by (rule distinct_take)
  have sub: "set ?ids \<subseteq> dl_ID ` set (db_deliveries db)" using set_take_subset [of "nat b" "map dl_ID ?sorted"] unfolding ids by auto
  have len: "length ?ids = min (nat b) (length (filter (open_row db) (db_deliveries db)))" by (simp add: ids)
  have opens: "open_row db d" if d: "d \<in> set (db_deliveries db)" "dl_ID d \<in> set ?ids" for d
  proof -
    obtain d' where "d' \<in> set (db_deliveries db)" "open_row db d'" "dl_ID d' = dl_ID d"
      using d(2) unfolding ids by (auto dest!: in_set_takeD)
    then show ?thesis using dist d(1) by (auto simp: distinct_map inj_on_def)
  qed
  have lock: "same_keys d (?f d)" for d by (simp add: same_keys_def lockDelivery_def)
  have t: "touched (\<lambda>d. dl_LockedBy d = w) (set ?ids) (db_deliveries db) ?rows"
    unfolding touched_def list_all2_conv_all_nth using lock by (simp add: lockDelivery_def)
  have job: "\<exists>j. jobOf db d = Some j \<and> jb_DeliveryID j = dl_ID d \<and> jb_SigningSecretCiphertext j \<in> en_SigningSecretCiphertext ` set (db_endpoints db)"
    if d: "d \<in> set ?rows" "dl_ID d \<in> set ?ids" for d
  proof -
    obtain d0 where d0: "d0 \<in> set (db_deliveries db)" "d = ?f d0" using d(1) by auto
    then have keys: "dl_ID d = dl_ID d0" "dl_EventID d = dl_EventID d0" "dl_EndpointID d = dl_EndpointID d0" using lock [of d0] by (simp_all add: same_keys_def)
    have "open_row db d0" using opens d0(1) d(2) keys(1) by simp
    then have "find (\<lambda>e. en_ID e = dl_EndpointID d) (db_endpoints db) \<noteq> None"
      unfolding find_None_ex keys by (auto simp: open_row_def list_ex_iff)
    then obtain e where e: "find (\<lambda>e. en_ID e = dl_EndpointID d) (db_endpoints db) = Some e" by auto
    have "find (\<lambda>me. me_ID me = dl_EventID d) (db_merchantEvents db) \<noteq> None"
      using ob d0(1) unfolding find_None_ex keys of_outbox_def list_ex_iff by fastforce
    then obtain me where me: "find (\<lambda>me. me_ID me = dl_EventID d) (db_merchantEvents db) = Some me" by auto
    show ?thesis using find_Some_iff2 [OF e] by (simp add: jobOf_def e me)
  qed
  define sel where "sel = ?ds"
  have sel: "d \<in> set ?rows" "dl_ID d \<in> set ?ids" if "d \<in> set sel" for d
    using that unfolding sel_def set_sort set_filter by blast+
  have keys: "dl_ID ` set ?rows = dl_ID ` set (db_deliveries db)" using touched_keys(1) [OF t] by (metis set_map)
  have "set sel = {d \<in> set ?rows. dl_ID d \<in> set ?ids}" unfolding sel_def set_sort set_filter ..
  then have sel_ids: "dl_ID ` set sel = set ?ids" using sub by (simp only: image_restrict keys Int_absorb1)
  have js: "?jobs = map (\<lambda>d. the (jobOf db d)) sel"
    unfolding sel_def [symmetric] by (rule map_filter_total) (use job [OF sel] in blast)
  have "jb_DeliveryID ` set ?jobs = (\<lambda>d. jb_DeliveryID (the (jobOf db d))) ` set sel" unfolding js set_map image_image ..
  also have "\<dots> = dl_ID ` set sel" by (rule image_cong) (use job [OF sel] in fastforce)+
  finally have jids: "jb_DeliveryID ` set ?jobs = set ?ids" unfolding sel_ids .
  have cipher: "jb_SigningSecretCiphertext j \<in> en_SigningSecretCiphertext ` set (db_endpoints db)" if "j \<in> set ?jobs" for j
    using that job [OF sel] unfolding js by fastforce
  have drows: "distinct (map dl_ID ?rows)" unfolding touched_keys(1) [OF t] by (rule dist)
  have subrows: "set ?ids \<subseteq> dl_ID ` set ?rows" unfolding keys by (rule sub)
  have jlen: "length ?jobs = length ?ids"
    unfolding js length_map using count_ids [OF drows dids subrows] by (simp only: sel_def length_sort)
  have "length (filter (\<lambda>d. dl_ID d \<in> set ?ids) (db_deliveries db)) = min (nat b) (length (filter (open_row db) (db_deliveries db)))"
    using count_ids [OF dist dids sub] len by (rule trans)
  from that [OF claim t jids this opens cipher jlen len sub] show thesis .
qed

lemma complete_succeeds:
  assumes ok: "db_ok mx db" and nf: "db_faults db = []" and d: "d \<in> set (db_deliveries db)" "dl_ID d = cm_DeliveryID c" "dl_LockedBy d = w"
    and seq: "cm_Sequence c = dl_AttemptCount d + 1" and new: "cm_AttemptID c \<notin> da_ID ` set (db_deliveryAttempts db)"
  obtains a where "pg_CompleteDelivery w c db = (Inr (), db\<lparr>
      db_deliveries := update_first (\<lambda>d. dl_ID d = cm_DeliveryID c \<and> dl_LockedBy d = w) (completeRow c) (db_deliveries db),
      db_deliveryAttempts := db_deliveryAttempts db @ [a]\<rparr>)" and "da_ID a = cm_AttemptID c"
proof -
  let ?here = "\<lambda>d. dl_ID d = cm_DeliveryID c \<and> dl_LockedBy d = w"
  define a where "a = \<lparr>da_ID = cm_AttemptID c, da_DeliveryID = cm_DeliveryID c,
       da_Sequence = cm_Sequence c, da_StartedAt = pg_time (cm_StartedAt c), da_CompletedAt = pg_time (cm_CompletedAt c),
       da_HTTPStatus = cm_HTTPStatus c, da_LatencyMS = max 0 (Milliseconds (cm_Latency c)), da_ErrorCode = cm_ErrorCode c\<rparr>"
  let ?db1 = "db\<lparr>db_deliveryAttempts := db_deliveryAttempts db @ [a]\<rparr>"
  have r: "row_ok mx db d" using ok d(1) by (simp add: db_ok_def)
  then have pos: "0 \<le> dl_AttemptCount d" "map da_Sequence (attempts_for db (dl_ID d)) = map int [1..<Suc (nat (dl_AttemptCount d))]"
    unfolding row_ok_def by blast+
  have "da_Sequence x \<noteq> cm_Sequence c" if "x \<in> set (db_deliveryAttempts db)" "da_DeliveryID x = cm_DeliveryID c" for x
  proof -
    have "da_Sequence x \<in> set (map da_Sequence (attempts_for db (dl_ID d)))" using that d(2) by (simp add: attempts_for_def)
    then show ?thesis unfolding pos(2) using pos(1) seq by (auto split: if_splits)
  qed
  then have 1: "insertDeliveryAttempt c db = (Inr (), ?db1)"
    using pos(1) seq new d(1,2) by (auto simp: insertDeliveryAttempt_def statement_no_faults [OF nf] list_ex_iff a_def image_iff)
  have "list_ex ?here (db_deliveries db)" using d by (auto simp: list_ex_iff)
  then have 2: "updateDelivery w c ?db1 = (Inr (), ?db1\<lparr>db_deliveries := update_first ?here (completeRow c) (db_deliveries db)\<rparr>)"
    by (simp add: updateDelivery_def statement_no_faults nf)
  have "pg_CompleteDelivery w c db = (Inr (), ?db1\<lparr>db_deliveries := update_first ?here (completeRow c) (db_deliveries db)\<rparr>)"
    by (simp add: pg_CompleteDelivery_def transaction_def statement_no_faults nf bindE_def returnE_def 1 2)
  then show thesis using that [of a] by (simp add: a_def)
qed

section \<open>A round\<close>

definition worker_of :: "int \<Rightarrow> string \<Rightarrow> PgDB DeliveryService \<Rightarrow> bool" where
  "worker_of mx w s \<longleftrightarrow> 0 < mx \<and> w \<noteq> [] \<and> ds_repo s = pg_deliveries \<and> ds_workerID s = w \<and> ds_maxAttempts s = mx"

lemma attempt_succeeds:
  assumes "case ds_sender s of None \<Rightarrow> False | Some send \<Rightarrow> (\<forall>n request. success_status (sn_HTTPStatus (send n request)))"
    and "sc_Decrypt (ds_cipher s) (jb_SigningSecretCiphertext job) = Inr key"
  obtains c W' t0 t1 result where "attemptJob s job W = (Inr c, W')" and "dw_store W' = dw_store W" and "dw_tick W' = dw_tick W + 4"
    and "c = completionOf s job t0 t1 result (ds_ids s (dw_tick W + 3) ''wha'')" and "success_status (sn_HTTPStatus result)"
proof -
  obtain send where send: "ds_sender s = Some send" "\<And>n request. success_status (sn_HTTPStatus (send n request))"
    using assms(1) by (auto split: option.splits)
  let ?request = "\<lparr>sr_EventID = jb_MerchantEventID job, sr_URL = jb_TargetURL job, sr_Payload = jb_Payload job, sr_Secret = key,
      sr_Now = ds_clock s (dw_tick W)\<rparr>"
  let ?result = "send (Suc (dw_tick W)) ?request"
  let ?c = "completionOf s job (ds_clock s (dw_tick W)) (ds_clock s (Suc (Suc (dw_tick W)))) ?result (ds_ids s (dw_tick W + 3) ''wha'')"
  have "attemptJob s job W = (Inr ?c, W\<lparr>dw_tick := dw_tick W + 4, dw_sent := (jb_DeliveryID job, ?request, ?result) # dw_sent W\<rparr>)"
    by (cases W) (simp add: attemptJob_def sendJob_def assms(2) send(1) ds_now_def ds_newID_def ds_send_def dw_step_def bindE_def returnE_def
        numeral_3_eq_3 Let_def)
  then show thesis by (rule that) (use send(2) in simp_all)
qed

lemma process_all:
  assumes s: "worker_of mx w s" and send: "case ds_sender s of None \<Rightarrow> False | Some send \<Rightarrow> (\<forall>n request. success_status (sn_HTTPStatus (send n request)))"
    and "db_ok mx (dw_store W)" and "db_faults (dw_store W) = []" and "jobs_ok (dw_store W) w js" and "fresh_ids s (dw_tick W) (dw_store W)"
    and "\<And>j. j \<in> set js \<Longrightarrow> \<exists>d\<in>set (db_deliveries (dw_store W)). dl_ID d = jb_DeliveryID j \<and> dl_LockedBy d = w"
    and "\<And>j. j \<in> set js \<Longrightarrow> \<exists>key. sc_Decrypt (ds_cipher s) (jb_SigningSecretCiphertext j) = Inr key"
  shows "\<exists>W' ds das. processJobs s k js W = (Inr (k + int (length js), None), W') \<and>
    dw_store W' = (dw_store W)\<lparr>db_deliveries := ds, db_deliveryAttempts := das\<rparr> \<and> db_ok mx (dw_store W') \<and>
    fresh_ids s (dw_tick W') (dw_store W') \<and> dw_tick W \<le> dw_tick W' \<and>
    touched delivered_row (jb_DeliveryID ` set js) (db_deliveries (dw_store W)) ds"
  using assms(3-)
proof (induction js arbitrary: W k)
  case Nil
  have "dw_store W = (dw_store W)\<lparr>db_deliveries := db_deliveries (dw_store W), db_deliveryAttempts := db_deliveryAttempts (dw_store W)\<rparr>" by simp
  then show ?case using Nil(1,4) touched_refl by (fastforce simp: returnE_def)
next
  case (Cons job js)
  let ?db = "dw_store W" and ?n = "dw_tick W"
  obtain key where key: "sc_Decrypt (ds_cipher s) (jb_SigningSecretCiphertext job) = Inr key" using Cons.prems(6) [of job] by auto
  obtain c W1 t0 t1 result where a: "attemptJob s job W = (Inr c, W1)" and W1: "dw_store W1 = ?db" "dw_tick W1 = ?n + 4"
    and c: "c = completionOf s job t0 t1 result (ds_ids s (?n + 3) ''wha'')" and good: "success_status (sn_HTTPStatus result)"
    by (rule attempt_succeeds [OF send key])
  obtain d where d: "d \<in> set (db_deliveries ?db)" "dl_ID d = jb_DeliveryID job" "dl_LockedBy d = w" using Cons.prems(5) [of job] by auto
  have cm: "cm_DeliveryID c = jb_DeliveryID job" "cm_Sequence c = jb_AttemptCount job + 1" "cm_AttemptID c = ds_ids s (?n + 3) ''wha''"
    by (simp_all add: c completionOf_def Let_def)
  have ok_c: "completion_ok mx c" using s by (simp add: c completion_ok_of worker_of_def)
  have "cm_HTTPStatus c = sn_HTTPStatus result" by (simp add: c completionOf_def Let_def)
  then have succ: "cm_Status c = DeliverySucceeded" using ok_c good by (simp add: completion_ok_def)
  have jok: "holds ?db w (jb_DeliveryID job) (jb_AttemptCount job)" "jb_DeliveryID job \<notin> jb_DeliveryID ` set js" "jobs_ok ?db w js"
    using Cons.prems(3) by (simp_all add: jobs_ok_def)
  have count: "dl_AttemptCount d = jb_AttemptCount job" using jok(1) d by (auto simp: holds_def)
  have new: "cm_AttemptID c \<notin> da_ID ` set (db_deliveryAttempts ?db)" using Cons.prems(4) by (simp add: cm fresh_ids_def)
  let ?here = "\<lambda>d. dl_ID d = cm_DeliveryID c \<and> dl_LockedBy d = w"
  obtain att where comp: "pg_CompleteDelivery w c ?db = (Inr (), ?db\<lparr>db_deliveries := update_first ?here (completeRow c) (db_deliveries ?db),
      db_deliveryAttempts := db_deliveryAttempts ?db @ [att]\<rparr>)" and att: "da_ID att = cm_AttemptID c"
    by (rule complete_succeeds [OF Cons.prems(1,2) d(1) _ d(3), of c]) (use d(2) cm count new in simp_all)
  let ?ds1 = "update_first ?here (completeRow c) (db_deliveries ?db)" and ?das1 = "db_deliveryAttempts ?db @ [att]"
  let ?db1 = "?db\<lparr>db_deliveries := ?ds1, db_deliveryAttempts := ?das1\<rparr>"
  let ?W1 = "W1\<lparr>dw_store := ?db1\<rparr>"
  have w: "w \<noteq> []" "0 < mx" using s by (simp_all add: worker_of_def)
  have "holds ?db w (cm_DeliveryID c) (cm_Sequence c - 1)" using jok(1) by (simp add: cm)
  note kept = complete_ok [OF comp Cons.prems(1) w(2,1) ok_c this]
  have dist: "distinct (map dl_ID (db_deliveries ?db))" using Cons.prems(1) by (simp add: db_ok_def)
  have t: "touched delivered_row {jb_DeliveryID job} (db_deliveries ?db) ?ds1"
    unfolding d(2) [symmetric]
    by (rule touched_update [OF dist d(1)]) (use d cm succ in \<open>auto simp: same_keys_def completeRow_def delivered_row_def\<close>)
  have held: "holds ?db1 w (jb_DeliveryID j) (jb_AttemptCount j)" if j: "j \<in> set js" for j
  proof -
    have "holds ?db w (jb_DeliveryID j) (jb_AttemptCount j)" using jok(3) j by (simp add: jobs_ok_def)
    moreover have "jb_DeliveryID j \<noteq> cm_DeliveryID c" using jok(2) j unfolding cm by (metis imageI)
    ultimately show ?thesis using kept [of w "jb_DeliveryID j" "jb_AttemptCount j"] w(1) by simp
  qed
  have jobs1: "jobs_ok ?db1 w js"
    using jok(3) held unfolding jobs_ok_def of_event_def by simp
  have fresh1: "fresh_ids s (?n + 4) ?db1"
  proof -
    have "ds_ids s k ''wha'' \<noteq> ds_ids s (?n + 3) ''wha''" if "k \<ge> ?n + 4" for k
      using Cons.prems(4) that inj_onD [of "\<lambda>k. ds_ids s k ''wha''" "{?n..}" k "?n + 3"] by (auto simp: fresh_ids_def)
    then show ?thesis using Cons.prems(4) by (auto simp: fresh_ids_def att cm intro: inj_on_subset)
  qed
  have rows1: "\<exists>d\<in>set ?ds1. dl_ID d = jb_DeliveryID j \<and> dl_LockedBy d = w" if j: "j \<in> set js" for j
  proof -
    obtain d' where d': "d' \<in> set (db_deliveries ?db)" "dl_ID d' = jb_DeliveryID j" "dl_LockedBy d' = w" using Cons.prems(5) [of j] j by auto
    then have "dl_ID d' \<noteq> dl_ID d" using jok(2) j d(2) by (metis imageI)
    then have "d' \<in> set ?ds1"
      using update_unique [OF dist d(1), of ?here d' "completeRow c"] d d'(1) by (simp add: cm)
    then show ?thesis using d' by blast
  qed
  have store1: "dw_store ?W1 = ?db1" "dw_tick ?W1 = ?n + 4" by (simp_all add: W1)
  have "\<exists>W' ds das. processJobs s (k + 1) js ?W1 = (Inr (k + 1 + int (length js), None), W') \<and>
    dw_store W' = ?db1\<lparr>db_deliveries := ds, db_deliveryAttempts := das\<rparr> \<and> db_ok mx (dw_store W') \<and>
    fresh_ids s (dw_tick W') (dw_store W') \<and> ?n + 4 \<le> dw_tick W' \<and> touched delivered_row (jb_DeliveryID ` set js) ?ds1 ds"
    using Cons.IH [of ?W1 "k + 1"] kept Cons.prems(2,6) jobs1 fresh1 rows1 unfolding store1 by simp
  then obtain W' ds das where rest: "processJobs s (k + 1) js ?W1 = (Inr (k + 1 + int (length js), None), W')"
    "dw_store W' = ?db1\<lparr>db_deliveries := ds, db_deliveryAttempts := das\<rparr>" "db_ok mx (dw_store W')"
    "fresh_ids s (dw_tick W') (dw_store W')" "?n + 4 \<le> dw_tick W'" "touched delivered_row (jb_DeliveryID ` set js) ?ds1 ds" by blast
  have "processJob s job W = (Inr (), ?W1)"
    using s comp by (simp add: processJob_def bindE_Inr [where m = "attemptJob s job", OF a] worker_of_def pg_deliveries_def dw_run_def W1)
  then have "processJobs s k (job # js) W = (Inr (k + int (length (job # js)), None), W')"
    using rest(1) by (simp add: bindE_def tryE_def algebra_simps)
  moreover have "dw_store W' = ?db\<lparr>db_deliveries := ds, db_deliveryAttempts := das\<rparr>" using rest(2) by simp
  moreover have "touched delivered_row (jb_DeliveryID ` set (job # js)) (db_deliveries ?db) ds"
    using touched_trans [OF t rest(6)] by simp
  moreover have "dw_tick W \<le> dw_tick W'" using rest(5) by simp
  ultimately show ?case using rest(3,4) by blast
qed

lemma touched_done: "touched P I ds ds' \<Longrightarrow> d \<in> set ds' \<Longrightarrow> dl_ID d \<in> I \<Longrightarrow> P d"
  unfolding touched_def by (induction rule: list_all2_induct) (auto simp: same_keys_def split: if_splits)

lemma due_later: "due db now d \<Longrightarrow> now \<le> now' \<Longrightarrow> db_endpoints db' = db_endpoints db \<Longrightarrow> due db' now' d"
  using pg_time_mono [of now now'] by (auto simp: due_def split: option.splits)

lemma fresh_later: "fresh_ids s n db \<Longrightarrow> n \<le> m \<Longrightarrow> db_deliveryAttempts db' = db_deliveryAttempts db \<Longrightarrow> fresh_ids s m db'"
  by (auto simp: fresh_ids_def intro: inj_on_subset)

definition ready :: "int \<Rightarrow> string \<Rightarrow> PgDB DeliveryService \<Rightarrow> PgDB dworld \<Rightarrow> bool" where
  "ready mx w s W \<longleftrightarrow> worker_of mx w s \<and> 0 < ds_batchSize s \<and> prompt s W \<and> db_ok mx (dw_store W) \<and> of_outbox (dw_store W)"

text \<open>Claiming and processing: a batch of what is open is delivered, the other rows stay.\<close>

lemma batch_delivers:
  assumes s: "worker_of mx w s" and b: "0 < ds_batchSize s" and ok: "db_ok mx (dw_store W)" and nf: "db_faults (dw_store W) = []"
    and ob: "of_outbox (dw_store W)" and ans: "answering s (dw_store W)" and ids: "fresh_ids s (dw_tick W) (dw_store W)"
    and waits: "\<And>d. d \<in> set (db_deliveries (dw_store W)) \<Longrightarrow> open_row (dw_store W) d \<Longrightarrow> due (dw_store W) now d"
  defines "n \<equiv> min (nat (ds_batchSize s)) (length (filter (open_row (dw_store W)) (db_deliveries (dw_store W))))"
  obtains jobs db2 W3 ds das I where "pg_ClaimDueDeliveries now until w (ds_batchSize s) (dw_store W) = (Inr jobs, db2)"
    and "processJobs s 0 jobs (W\<lparr>dw_store := db2\<rparr>) = (Inr (int n, None), W3)"
    and "dw_store W3 = (dw_store W)\<lparr>db_deliveries := ds, db_deliveryAttempts := das\<rparr>" and "db_ok mx (dw_store W3)"
    and "fresh_ids s (dw_tick W3) (dw_store W3)" and "dw_tick W \<le> dw_tick W3"
    and "touched delivered_row I (db_deliveries (dw_store W)) ds"
    and "length (filter (open_row (dw_store W)) (db_deliveries (dw_store W))) = length (filter (open_row (dw_store W3)) ds) + n"
    and "length (filter delivered_row ds) = length (filter delivered_row (db_deliveries (dw_store W))) + n"
proof -
  let ?db = "dw_store W"
  have repo: "w \<noteq> []" using s by (simp add: worker_of_def)
  from claim_all [where until = until, OF ok nf ob b repo waits] obtain jobs ds I
    where claim: "pg_ClaimDueDeliveries now until w (ds_batchSize s) ?db = (Inr jobs, ?db\<lparr>db_deliveries := ds\<rparr>)"
    and t1: "touched (\<lambda>d. dl_LockedBy d = w) (set I) (db_deliveries ?db) ds" and jI: "jb_DeliveryID ` set jobs = set I"
    and cI: "length (filter (\<lambda>d. dl_ID d \<in> set I) (db_deliveries ?db)) = n"
    and oI: "\<And>d. d \<in> set (db_deliveries ?db) \<Longrightarrow> dl_ID d \<in> set I \<Longrightarrow> open_row ?db d"
    and ciph: "\<And>j. j \<in> set jobs \<Longrightarrow> jb_SigningSecretCiphertext j \<in> en_SigningSecretCiphertext ` set (db_endpoints ?db)"
    and lj: "length jobs = length I" and lI: "length I = n"
    and sI: "set I \<subseteq> dl_ID ` set (db_deliveries ?db)"
    unfolding n_def by metis
  let ?W2 = "W\<lparr>dw_store := ?db\<lparr>db_deliveries := ds\<rparr>\<rparr>"
  have send: "case ds_sender s of None \<Rightarrow> False | Some send \<Rightarrow> (\<forall>n request. success_status (sn_HTTPStatus (send n request)))"
    using ans by (auto simp: answering_def split: option.splits)
  have rows: "\<exists>d\<in>set (db_deliveries (dw_store ?W2)). dl_ID d = jb_DeliveryID j \<and> dl_LockedBy d = w" if j: "j \<in> set jobs" for j
  proof -
    have jin: "jb_DeliveryID j \<in> set I" using j jI by (metis imageI)
    then have "jb_DeliveryID j \<in> set (map dl_ID ds)" unfolding touched_keys(1) [OF t1] using sI by auto
    then obtain d where d: "d \<in> set ds" "dl_ID d = jb_DeliveryID j" by auto
    then show ?thesis using touched_done [OF t1 d(1)] jin by auto
  qed
  have key: "\<exists>key. sc_Decrypt (ds_cipher s) (jb_SigningSecretCiphertext j) = Inr key" if j: "j \<in> set jobs" for j
  proof -
    obtain e where e: "e \<in> set (db_endpoints ?db)" "jb_SigningSecretCiphertext j = en_SigningSecretCiphertext e" using ciph [OF j] by auto
    then show ?thesis using ans by (cases "sc_Decrypt (ds_cipher s) (en_SigningSecretCiphertext e)") (auto simp: answering_def split: sum.splits)
  qed
  have fresh: "fresh_ids s (dw_tick ?W2) (dw_store ?W2)" using fresh_later [OF ids, of "dw_tick W" "dw_store ?W2"] by simp
  have pre: "db_ok mx (dw_store ?W2)" "jobs_ok (dw_store ?W2) w jobs" "db_faults (dw_store ?W2) = []"
    using claim_value [OF claim ok repo] nf by auto
  from process_all [OF s send pre(1,3,2) fresh rows key, of 0] obtain W3 ds3 das3
    where proc: "processJobs s 0 jobs ?W2 = (Inr (0 + int (length jobs), None), W3)"
    and st: "dw_store W3 = (dw_store ?W2)\<lparr>db_deliveries := ds3, db_deliveryAttempts := das3\<rparr>" and ok3: "db_ok mx (dw_store W3)"
    and fresh3: "fresh_ids s (dw_tick W3) (dw_store W3)" and tick3: "dw_tick ?W2 \<le> dw_tick W3"
    and t2: "touched delivered_row (jb_DeliveryID ` set jobs) (db_deliveries (dw_store ?W2)) ds3" by blast
  have t: "touched delivered_row (set I) (db_deliveries ?db) ds3" using touched_after [OF t1, of delivered_row ds3] t2 jI by simp
  have st3: "dw_store W3 = ?db\<lparr>db_deliveries := ds3, db_deliveryAttempts := das3\<rparr>" using st by simp
  then have "db_endpoints (dw_store W3) = db_endpoints ?db" by simp
  note counts = touched_counts [OF t oI this, unfolded cI]
  show thesis
    using that [OF claim _ st3 ok3 fresh3 _ t counts] proc tick3 lj lI by simp
qed

lemma round_delivers:
  assumes R: "ready mx w s W"
  defines "B \<equiv> nat (ds_batchSize s)"
  obtains W' where "RunOnce s W = (Inr (int (min B (backlog (dw_store W))), None), W')" and "ready mx w s W'"
    and "backlog (dw_store W') = backlog (dw_store W) - B"
    and "successes (dw_store W') = successes (dw_store W) + min B (backlog (dw_store W))"
proof -
  let ?db = "dw_store W" and ?n = "dw_tick W" and ?b = "ds_batchSize s"
  let ?now = "ds_clock s ?n"
  have s: "worker_of mx w s" and b: "0 < ?b" and p: "prompt s W" and ok: "db_ok mx ?db" and ob: "of_outbox ?db" using R by (simp_all add: ready_def)
  have repo: "ds_repo s = pg_deliveries" "ds_workerID s = w" "0 < mx" using s by (simp_all add: worker_of_def)
  have nf: "db_faults ?db = []" and clock: "mono (ds_clock s)" and ans: "answering s ?db" and ids: "fresh_ids s ?n ?db"
    and ev: "distinct (map me_ID (db_merchantEvents ?db))" and waits: "\<And>d. d \<in> set (db_deliveries ?db) \<Longrightarrow> open_row ?db d \<Longrightarrow> due ?db ?now d"
    using p by (simp_all add: prompt_def)
  let ?m = "nat (?b * 4)"
  define db1 where "db1 = insertDeliveries ?now (take ?m (candidates ?db)) ?db"
  define k where "k = int (length (db_deliveries db1)) - int (length (db_deliveries ?db))"
  note counts1 = materialize_counts [OF ev, where now = ?now and m = ?m, folded db1_def]
  have mat: "pg_MaterializePendingDeliveries ?now (?b * 4) ?db = (Inr k, db1)"
    using b by (simp add: pg_MaterializePendingDeliveries_def statement_no_faults [OF nf] Let_def db1_def k_def)
  let ?W1 = "(dw_step W)\<lparr>dw_store := db1\<rparr>"
  have same1: "db_endpoints db1 = db_endpoints ?db" "db_deliveryAttempts db1 = db_deliveryAttempts ?db" "db_merchantEvents db1 = db_merchantEvents ?db"
    "db_faults db1 = []" using nf by (subst counts1(1), simp)+
  have pre: "db_ok mx (dw_store ?W1)" "db_faults (dw_store ?W1) = []" "of_outbox (dw_store ?W1)" "answering s (dw_store ?W1)"
    "fresh_ids s (dw_tick ?W1) (dw_store ?W1)"
    using materialize_ok [OF mat ok repo(3)] materialize_outbox [OF mat ob] ans fresh_later [OF ids, of "Suc ?n" db1] same1
    by (simp_all add: answering_def dw_step_def)
  have waits1: "due (dw_store ?W1) ?now d" if "d \<in> set (db_deliveries (dw_store ?W1))" "open_row (dw_store ?W1) d" for d
    using counts1(5) [OF waits, of d] that by simp
  let ?O1 = "length (filter (open_row db1) (db_deliveries db1))"
  obtain jobs db2 W3 ds das I where claim: "pg_ClaimDueDeliveries ?now (?now + ds_leaseDuration s) w ?b (dw_store ?W1) = (Inr jobs, db2)"
    and proc: "processJobs s 0 jobs (?W1\<lparr>dw_store := db2\<rparr>) = (Inr (int (min B (length (filter (open_row (dw_store ?W1)) (db_deliveries (dw_store ?W1))))), None), W3)"
    and st: "dw_store W3 = (dw_store ?W1)\<lparr>db_deliveries := ds, db_deliveryAttempts := das\<rparr>" and ok3: "db_ok mx (dw_store W3)"
    and fresh3: "fresh_ids s (dw_tick W3) (dw_store W3)" and tick3: "dw_tick ?W1 \<le> dw_tick W3"
    and t: "touched delivered_row I (db_deliveries (dw_store ?W1)) ds"
    and counts3: "length (filter (open_row (dw_store ?W1)) (db_deliveries (dw_store ?W1))) = length (filter (open_row (dw_store W3)) ds) +
        min B (length (filter (open_row (dw_store ?W1)) (db_deliveries (dw_store ?W1))))"
      "length (filter delivered_row ds) = length (filter delivered_row (db_deliveries (dw_store ?W1))) +
        min B (length (filter (open_row (dw_store ?W1)) (db_deliveries (dw_store ?W1))))"
    unfolding B_def by (rule batch_delivers [OF s b pre waits1])
  have store1: "dw_store ?W1 = db1" "dw_tick ?W1 = Suc ?n" by (simp_all add: dw_step_def)
  note claim = claim [unfolded store1] and proc = proc [unfolded store1] and st = st [unfolded store1] and t = t [unfolded store1]
    and counts3 = counts3 [unfolded store1] and tick3 = tick3 [unfolded store1] and waits1 = waits1 [unfolded store1]
  have db3: "db_deliveries (dw_store W3) = ds" "db_endpoints (dw_store W3) = db_endpoints ?db" "db_faults (dw_store W3) = []"
    "db_merchantEvents (dw_store W3) = db_merchantEvents ?db" using same1 by (simp_all add: st)
  have cands: "candidates (dw_store W3) = drop ?m (candidates ?db)"
    unfolding st counts1(2) [symmetric] by (rule candidates_keep [OF touched_keys(2) [OF t]])
  let ?O = "length (filter (open_row ?db) (db_deliveries ?db))" and ?C = "length (candidates ?db)"
  have O1: "?O1 = ?O + min ?m ?C" using counts1(3) by simp
  have m: "?m = 4 * B" using b by (simp add: B_def nat_mult_distrib)
  have min: "min B ?O1 = min B (backlog ?db)" unfolding O1 m backlog_def by (cases "?C \<le> 4 * B") (auto simp: min_def)
  have "length (filter (open_row (dw_store W3)) ds) = ?O + min ?m ?C - min B (backlog ?db)" using counts3(1) O1 min by linarith
  moreover have "(?C - 4 * B) + (?O + min (4 * B) ?C - min B (?C + ?O)) = (?C + ?O) - B" by (cases "?C \<le> 4 * B") (auto simp: min_def)
  ultimately have less: "backlog (dw_store W3) = backlog ?db - B" unfolding backlog_def cands db3(1) length_drop m by metis
  have succ: "successes (dw_store W3) = successes ?db + min B (backlog ?db)"
    using counts3(2) counts1(4) min by (simp add: successes_def db3 delivered_row_def [abs_def])
  have open3: "due (dw_store W3) (ds_clock s (dw_tick W3)) d" if d: "d \<in> set ds" "open_row (dw_store W3) d" for d
  proof -
    have "\<not> delivered_row d" using d(2) by (simp add: open_row_def delivered_row_def settled_row_def)
    then have "d \<in> set (db_deliveries db1)" using touched_done [OF t d(1)] touched_rest [OF t d(1)] by blast
    moreover have "open_row db1 d" using d(2) db3 same1 by (simp add: open_row_def)
    ultimately have "due db1 ?now d" by (rule waits1)
    moreover have "?now \<le> ds_clock s (dw_tick W3)" using tick3 by (intro monoD [OF clock]) simp
    ultimately show ?thesis by (rule due_later) (simp add: db3 same1)
  qed
  have "prompt s W3" using clock ans fresh3 ev open3 by (simp add: prompt_def answering_def db3)
  moreover have "of_outbox (dw_store W3)"
  proof -
    have "dl_EventID ` set ds = dl_EventID ` set (db_deliveries db1)" using touched_keys(2) [OF t] by (metis set_map)
    then show ?thesis using pre(3) unfolding of_outbox_def db3 store1 same1 by (metis imageE imageI)
  qed
  ultimately have "ready mx w s W3" using s b ok3 by (simp add: ready_def)
  moreover have "RunOnce s W = (Inr (int (min B (backlog ?db)), None), W3)"
    using mat claim proc min by (simp add: RunOnce_def bindE_def tryE_def ds_now_def dw_run_def repo pg_deliveries_def dw_step_def)
  ultimately show thesis using that less succ by simp
qed

lemma rounds_deliver:
  assumes "ready mx w s W"
  shows "ready mx w s (iterate s k W) \<and> backlog (dw_store (iterate s k W)) = backlog (dw_store W) - k * nat (ds_batchSize s) \<and>
    successes (dw_store (iterate s k W)) = successes (dw_store W) + min (k * nat (ds_batchSize s)) (backlog (dw_store W))"
  using assms
proof (induction k arbitrary: W)
  case 0
  then show ?case by (simp add: iterate_def)
next
  case (Suc k)
  let ?B = "nat (ds_batchSize s)"
  obtain W' where W': "RunOnce s W = (Inr (int (min ?B (backlog (dw_store W))), None), W')" "ready mx w s W'"
    "backlog (dw_store W') = backlog (dw_store W) - ?B" "successes (dw_store W') = successes (dw_store W) + min ?B (backlog (dw_store W))"
    by (rule round_delivers [OF Suc.prems])
  have "min (Suc k * B) x = min B x + min (k * B) (x - B)" for B x by (cases "B \<le> x") (auto simp: min_def)
  then show ?case using Suc.IH [OF W'(2)] W'(3,4) by (simp add: iterate_Suc W'(1) add.commute)
qed

section \<open>The backlog is worked off\<close>

text \<open>With nothing left to do, every event of the outbox that has an endpoint has a delivery, and none of an enabled endpoint is open.\<close>

lemma no_backlog:
  assumes "backlog db = 0"
  shows "me \<in> set (db_merchantEvents db) \<Longrightarrow> event_endpoint db me = Some e \<Longrightarrow> delivered db (me_ID me)"
    and "d \<in> set (db_deliveries db) \<Longrightarrow> \<not> open_row db d"
proof -
  have none: "candidates db = []" "filter (open_row db) (db_deliveries db) = []" using assms by (simp_all add: backlog_def)
  show "d \<in> set (db_deliveries db) \<Longrightarrow> \<not> open_row db d" using none(2) by (auto simp: filter_empty_conv)
  assume me: "me \<in> set (db_merchantEvents db)" "event_endpoint db me = Some e"
  show "delivered db (me_ID me)"
  proof (rule ccontr)
    assume "\<not> delivered db (me_ID me)"
    then have "(me, e) \<in> set (candidates db)" using me by (auto simp: candidates_def map_filter_mem)
    then show False using none by simp
  qed
qed

text \<open>
  C17.  The worker works off its backlog: from any state that workers reached, as long as the database answers,
  the receivers answer with 2xx, ids do not repeat and no open delivery waits for a later time, each
  iteration of the loop delivers a whole batch of what is open, or all of it: after \<open>k\<close> iterations the
  backlog is less by \<open>k\<close> batches, and as many more deliveries have succeeded.
\<close>

theorem worker_drains:
  assumes "fleet_config mx sv" and "w \<noteq> []" and "0 < ds_batchSize (sv w)" and "fleet_run sv (fleet_start db n) (W, ph)" and "prompt (sv w) W"
  shows "backlog (dw_store (iterate (sv w) k W)) = backlog (dw_store W) - k * nat (ds_batchSize (sv w)) \<and>
    successes (dw_store (iterate (sv w) k W)) = successes (dw_store W) + min (k * nat (ds_batchSize (sv w))) (backlog (dw_store W))"
proof -
  have "of_outbox (dw_store W)" using fleet_run_outbox [OF assms(4) fleet_start_outbox] by simp
  moreover have "db_ok mx (dw_store W)" by (rule fleet_db [OF fleet_run_ok [OF assms(1,4) fleet_start_ok]])
  ultimately have "ready mx w (sv w) W" using assms by (simp add: ready_def worker_of_def fleet_config_def)
  then show ?thesis using rounds_deliver by blast
qed

definition sample_start :: "PgDB dworld" where
  "sample_start = fst (fleet_start sample_events 5)"

lemma sample_backlog: "backlog (dw_store sample_start) = 1 \<and> successes (dw_store sample_start) = 0"
  by code_simp

lemma sample_prompt: "prompt (sample_worker ''w1'') sample_start"
  by (auto simp: prompt_def sample_start_def fleet_start_def sample_events_def empty_db_def sample_worker_def answering_def success_status_def
      fresh_ids_def inj_on_def duration_defs intro!: monoI)

theorem worker_drains_witness:
  "backlog (dw_store (iterate (sample_worker ''w1'') 1 sample_start)) = 0 \<and>
   successes (dw_store (iterate (sample_worker ''w1'') 1 sample_start)) = 1"
proof -
  have "fleet_start sample_events 5 = (sample_start, \<lambda>_. Idle)" by (simp add: sample_start_def fleet_start_def)
  then have run: "fleet_run sample_worker (fleet_start sample_events 5) (sample_start, \<lambda>_. Idle)" by (metis fleet_run.start)
  have b: "ds_batchSize (sample_worker ''w1'') = 25" by (simp add: sample_worker_def)
  show ?thesis
    using worker_drains [OF sample_config _ _ run sample_prompt, of 1] sample_backlog by (simp add: b)
qed

end
