(* ===== verification/Concurrent.thy ===== *)
theory Concurrent
  imports Program
begin

text \<open>
  Requests that run at the same time.

  The service keeps no lock: between two statements of one call any other call, of this process or
  another, may change the database.  A call therefore runs here over a \<open>script\<close>: the databases that its
  repository operations find, one each, with a record of what each of them found and left (\<open>scripted\<close>); where
  the script ends, the call has lost the database.  The service itself is the one of theory Orchestration,
  over \<open>scripted_repository (pg_repository lib)\<close>.  A \<open>history\<close> puts the operations of all calls into one
  sequence in which each finds what the one before has left, but for what workers, operators and
  telemetry do in between, who leave the payments alone (\<open>same_core\<close>).

  An operation of the repository is one step: a statement, or a transaction.  \<open>GetOrCreatePayment\<close> has two
  statements; rows of payments are never deleted and their keys never change (\<open>grows\<close>), so what its second
  one reads does not depend on what happens between them.
\<close>

section \<open>Calls over scripts\<close>

record script =
  sc_seen :: "PgDB list"
  sc_done :: "(PgDB \<times> PgDB) list"

definition scripted :: "'a sql \<Rightarrow> (script, go_error, 'a) prog" where
  "scripted m s = (case sc_seen s of
     [] \<Rightarrow> (Inl pg_fault, s)
   | db # rest \<Rightarrow> (case m db of (r, db') \<Rightarrow> (r, s\<lparr>sc_seen := rest, sc_done := sc_done s @ [(db, db')]\<rparr>)))"

definition scripted_repository :: "PgDB Repository \<Rightarrow> script Repository" where
  "scripted_repository repo = \<lparr>
     GetOrCreatePayment = (\<lambda>p. scripted (GetOrCreatePayment repo p)),
     GetPayment = (\<lambda>i. scripted (GetPayment repo i)),
     GetPaymentEnvironment = (\<lambda>i. scripted (GetPaymentEnvironment repo i)),
     SavePayment = (\<lambda>p. scripted (SavePayment repo p)),
     ListProviderConnections = (\<lambda>ws. scripted (ListProviderConnections repo ws)),
     GetProviderConnection = (\<lambda>i. scripted (GetProviderConnection repo i)),
     AddAttemptWithRoutingDecision = (\<lambda>a d. scripted (AddAttemptWithRoutingDecision repo a d)),
     SaveAttempt = (\<lambda>a. scripted (SaveAttempt repo a)),
     GetAttempt = (\<lambda>i. scripted (GetAttempt repo i)),
     GetAttemptByProviderPaymentID = (\<lambda>c i. scripted (GetAttemptByProviderPaymentID repo c i)),
     ListAttempts = (\<lambda>i. scripted (ListAttempts repo i)),
     ListRoutingDecisions = (\<lambda>i. scripted (ListRoutingDecisions repo i)),
     CreateRecoveryIfAbsent = (\<lambda>e. scripted (CreateRecoveryIfAbsent repo e)),
     ListRecoveryEvents = (\<lambda>i. scripted (ListRecoveryEvents repo i)),
     RecordProviderEvent = (\<lambda>e. scripted (RecordProviderEvent repo e)),
     MarkProviderEventProcessed = (\<lambda>c i t. scripted (MarkProviderEventProcessed repo c i t)),
     MarkPaymentPaidWithEvents = (\<lambda>p r es. scripted (MarkPaymentPaidWithEvents repo p r es)),
     ListMerchantEvents = (\<lambda>ws. scripted (ListMerchantEvents repo ws))\<rparr>"

definition scripted_telemetry :: "PgDB TelemetryRepository \<Rightarrow> script TelemetryRepository" where
  "scripted_telemetry repo = \<lparr>
     AggregateProviderHealth = (\<lambda>i t u. scripted (AggregateProviderHealth repo i t u)),
     SaveProviderHealthSnapshot = (\<lambda>s. scripted (SaveProviderHealthSnapshot repo s)),
     ListRecentProviderHealthSnapshots = (\<lambda>i n. scripted (ListRecentProviderHealthSnapshots repo i n)),
     LatestProviderAttemptSince = (\<lambda>i t. scripted (LatestProviderAttemptSince repo i t)),
     UpdateProviderCircuit = (\<lambda>i st t. scripted (UpdateProviderCircuit repo i st t))\<rparr>"

text \<open>The wiring of \<open>pg_service\<close>, over scripts.\<close>

definition scripted_service :: "PgLib \<Rightarrow> percentile \<Rightarrow> TelemetryOptions \<Rightarrow> script Service \<Rightarrow> bool" where
  "scripted_service lib pc opts sv \<longleftrightarrow> sv_repo sv = scripted_repository (pg_repository lib) \<and>
     (case sv_telemetry sv of None \<Rightarrow> True | Some refresh \<Rightarrow> refresh = Refresh (NewTelemetry (scripted_telemetry (pg_telemetry pc)) opts))"

datatype request =
    Create CreatePaymentRequest
  | Notify string WebhookRequest
  | Fetch string Environment string
  | Attempts string Environment string

text \<open>A call has a service of its own: its clock, its ids, its providers' answers.\<close>

record call =
  cl_service :: "script Service"
  cl_request :: request
  cl_tick :: nat
  cl_seen :: "PgDB list"

definition serve :: "script Service \<Rightarrow> request \<Rightarrow> script world \<Rightarrow> script world" where
  "serve sv r w = (case r of
     Create cr \<Rightarrow> snd (CreatePayment sv cr w)
   | Notify conn wr \<Rightarrow> snd (ProcessProviderWebhook sv conn wr w)
   | Fetch ws env pid \<Rightarrow> snd (queryPayment sv ws env pid w)
   | Attempts ws env pid \<Rightarrow> snd (ListPaymentAttempts sv ws env pid w))"

definition call_start :: "call \<Rightarrow> script world" where
  "call_start c = \<lparr>w_store = \<lparr>sc_seen = cl_seen c, sc_done = []\<rparr>, w_tick = cl_tick c, w_calls = []\<rparr>"

definition served_call :: "call \<Rightarrow> script world" where
  "served_call c = serve (cl_service c) (cl_request c) (call_start c)"

definition call_steps :: "call \<Rightarrow> (PgDB \<times> PgDB) list" where
  "call_steps c = sc_done (w_store (served_call c))"

definition call_log :: "call \<Rightarrow> ProviderCall list" where
  "call_log c = w_calls (served_call c)"

section \<open>Histories\<close>

text \<open>\<open>(k, db, db')\<close>: an operation of the \<open>k\<close>-th call found \<open>db\<close> and left \<open>db'\<close>.\<close>

type_synonym event = "nat \<times> PgDB \<times> PgDB"

fun linked :: "PgDB \<Rightarrow> event list \<Rightarrow> bool" where
  "linked db [] \<longleftrightarrow> True"
| "linked db ((k, found, left) # es) \<longleftrightarrow> same_core db found \<and> linked left es"

definition history :: "call list \<Rightarrow> PgDB \<Rightarrow> event list \<Rightarrow> bool" where
  "history calls db es \<longleftrightarrow> linked db es \<and> list_all (\<lambda>(k, _). k < length calls) es \<and>
     list_all (\<lambda>k. map snd (filter (\<lambda>e. fst e = k) es) = call_steps (calls ! k)) [0..<length calls]"

section \<open>Every operation keeps the payments and their keys\<close>

definition payment_key :: "PaymentIntent \<Rightarrow> string \<times> string \<times> string" where
  "payment_key p = (pi_ID p, pi_WorkspaceID p, pi_IdempotencyKey p)"

definition grows :: "PgDB \<Rightarrow> PgDB \<Rightarrow> bool" where
  "grows db db' \<longleftrightarrow> (\<exists>rows. map payment_key (db_payments db') = map payment_key (db_payments db) @ rows)"

lemma grows_same: "db_payments db' = db_payments db \<Longrightarrow> grows db db'"
  by (simp add: grows_def)

interpretation grows: sql_relation grows
  by unfold_locales (auto simp: grows_def)

lemma grows_updated: "grows db (db\<lparr>db_payments := update_first (\<lambda>r. pi_ID r = i) (payment_columns lib p) (db_payments db)\<rparr>)"
proof -
  have "map payment_key (update_first (\<lambda>r. pi_ID r = i) (payment_columns lib p) (db_payments db)) = map payment_key (db_payments db)"
    by (rule update_first_map) (simp add: payment_key_def payment_columns_def Let_def)
  then show ?thesis by (simp add: grows_def)
qed

lemma grows_inserted: "grows db (db\<lparr>db_payments := db_payments db @ rows\<rparr>)"
  by (simp add: grows_def)

interpretation grows: store_relation grows lib pc for lib pc
  by (unfold_locales; unfold pg_statements pg_telemetry_statements)
    (auto intro!: grows.along_statement grows.along_basic [unfolded prog_defs] along_intros grows_updated grows_inserted
      simp: constraint_def throwE_def mapNotFound_def returnE_def grows_same grows.refl Let_def split: option.split)

text \<open>A call appends its steps to its record; a relation of databases that every operation respects, they all do.\<close>

definition extends :: "(PgDB \<Rightarrow> PgDB \<Rightarrow> bool) \<Rightarrow> script \<Rightarrow> script \<Rightarrow> bool" where
  "extends S s s' \<longleftrightarrow> (\<exists>steps. sc_done s' = sc_done s @ steps \<and> list_all (\<lambda>(db, db'). S db db') steps)"

interpretation extends: state_preorder "extends S" for S
proof unfold_locales
  fix s1 s2 s3 assume "extends S s1 s2" "extends S s2 s3"
  then obtain ds ds' where "sc_done s2 = sc_done s1 @ ds" "sc_done s3 = sc_done s2 @ ds'" "list_all (\<lambda>(db, db'). S db db') (ds @ ds')"
    unfolding extends_def by auto
  then show "extends S s1 s3" unfolding extends_def by (intro exI [of _ "ds @ ds'"]) simp
qed (simp add: extends_def)

abbreviation wextends :: "(PgDB \<Rightarrow> PgDB \<Rightarrow> bool) \<Rightarrow> script world \<Rightarrow> script world \<Rightarrow> bool" where
  "wextends S w w' \<equiv> extends S (w_store w) (w_store w')"

interpretation wextends: run_relation "wextends S" for S
  by unfold_locales (auto simp: step_tick_def intro: extends.refl extends.trans)

lemma wextends_calls [along_intros]: "along (wextends S) (callCreatePix c k cq)" "along (wextends S) (callReconcile c k rq)"
  by (simp_all add: along_def callCreatePix_def callReconcile_def step_tick_def Let_def extends.refl)

lemma extends_scripted: "along S m \<Longrightarrow> along (extends S) (scripted m)"
  by (auto simp: along_def extends_def scripted_def split: list.split prod.split) (metis snd_conv)

lemma wextends_run: "along (extends S) m \<Longrightarrow> along (wextends S) (run_store m)"
  by (simp add: along_def run_store_def split_def)

lemmas wextends_scripted = wextends_run [OF extends_scripted]

context store_relation
begin

lemma extends_refresh: "along (extends R) (Refresh (NewTelemetry (scripted_telemetry (pg_telemetry pc)) opts) cs env t)"
  by (rule extends.along_Refresh) (simp_all add: NewTelemetry_def scripted_telemetry_def extends_scripted telemetry_statements)

lemma scripted_along:
  assumes "scripted_service lib pc opts sv"
  shows "service_relation (wextends R) sv"
proof -
  have ops: "sv_repo sv = scripted_repository (pg_repository lib)" using assms by (simp add: scripted_service_def)
  have telemetry: "along (wextends R) (run_store (refresh cs env t))" if "sv_telemetry sv = Some refresh" for refresh cs env t
    using assms that by (simp add: scripted_service_def wextends_run extends_refresh)
  show ?thesis
    by (unfold_locales; (rule telemetry, assumption
        | simp add: ops scripted_repository_def wextends_scripted along_repository wextends_calls)?)
qed

end

text \<open>So every step of a call grows the database.\<close>

lemma call_grows:
  assumes "scripted_service lib pc opts (cl_service c)"
  shows "list_all (\<lambda>(db, db'). grows db db') (call_steps c)"
proof -
  note ops = service_relation.along_operations [OF grows.scripted_along [OF assms], THEN alongD]
  have "wextends grows (call_start c) (served_call c)"
    unfolding served_call_def serve_def by (auto intro: ops split: request.split)
  then show ?thesis by (simp add: call_steps_def extends_def call_start_def)
qed

section \<open>A payment is born once\<close>

definition born :: "(PgDB \<Rightarrow> bool) \<Rightarrow> PgDB \<times> PgDB \<Rightarrow> bool" where
  "born P step \<longleftrightarrow> \<not> P (fst step) \<and> P (snd step)"

definition has_key :: "string \<Rightarrow> string \<Rightarrow> PgDB \<Rightarrow> bool" where
  "has_key ws key db \<longleftrightarrow> list_ex (same_key ws key) (db_payments db)"

lemma exists_payment_keys: "exists_payment db i \<longleftrightarrow> i \<in> fst ` set (map payment_key (db_payments db))"
  by (force simp: exists_payment_def list_ex_iff payment_key_def)

lemma has_key_keys: "has_key ws key db \<longleftrightarrow> (ws, key) \<in> snd ` set (map payment_key (db_payments db))"
  by (force simp: has_key_def list_ex_iff payment_key_def same_key_def)

lemma grows_keys: "grows db db' \<Longrightarrow> set (map payment_key (db_payments db)) \<subseteq> set (map payment_key (db_payments db'))"
  unfolding grows_def by (elim exE, erule ssubst) simp

lemma grows_exists: "grows db db' \<Longrightarrow> exists_payment db i \<Longrightarrow> exists_payment db' i"
  unfolding exists_payment_keys by (drule grows_keys) blast

lemma grows_has_key: "grows db db' \<Longrightarrow> has_key ws key db \<Longrightarrow> has_key ws key db'"
  unfolding has_key_keys by (drule grows_keys) blast

lemma linked_holds:
  assumes "linked db es" and "list_all (\<lambda>(k, db, db'). grows db db') es" and "P db"
    and mono: "\<And>db db'. grows db db' \<Longrightarrow> P db \<Longrightarrow> P db'"
  shows "filter (\<lambda>e. born P (snd e)) es = []"
  using assms(1-3)
proof (induction db es rule: linked.induct)
  case (2 db k found left es)
  have "P found" using 2 mono [OF grows_same] by (auto simp: same_core_def)
  then have "P left" using 2 mono by auto
  then show ?case using 2 \<open>P found\<close> by (simp add: born_def)
qed simp

lemma born_once:
  assumes "linked db es" and "list_all (\<lambda>(k, db, db'). grows db db') es"
    and mono: "\<And>db db'. grows db db' \<Longrightarrow> P db \<Longrightarrow> P db'"
  shows "length (filter (\<lambda>e. born P (snd e)) es) \<le> 1"
  using assms(1,2)
proof (induction db es rule: linked.induct)
  case (2 db k found left es)
  show ?case
  proof (cases "born P (found, left)")
    case True
    then have "filter (\<lambda>e. born P (snd e)) es = []"
      using 2 by (intro linked_holds [OF _ _ _ mono, of left]) (auto simp: born_def)
    then show ?thesis by simp
  qed (use 2 in simp)
qed simp

lemma filter_index_once:
  assumes "\<And>i j. i < length xs \<Longrightarrow> j < length xs \<Longrightarrow> P (xs ! i) \<Longrightarrow> P (xs ! j) \<Longrightarrow> i = j"
  shows "length (filter P xs) \<le> 1"
proof -
  have "card {i. i < length xs \<and> P (xs ! i)} \<le> Suc 0"
    by (subst card_le_Suc0_iff_eq) (use assms in auto)
  then show ?thesis by (simp add: length_filter_conv_card)
qed

lemma history_steps:
  assumes "history calls db es" and "(k, a, b) \<in> set es"
  shows "k < length calls" and "(a, b) \<in> set (call_steps (calls ! k))" and "map snd (filter (\<lambda>e. fst e = k) es) = call_steps (calls ! k)"
proof -
  show k: "k < length calls" using assms by (auto simp: history_def list_all_iff)
  then show *: "map snd (filter (\<lambda>e. fst e = k) es) = call_steps (calls ! k)" using assms(1) by (auto simp: history_def list_all_iff)
  show "(a, b) \<in> set (call_steps (calls ! k))" unfolding * [symmetric] using assms(2) by force
qed

text \<open>\<open>P\<close> comes to hold in one call only.\<close>

lemma one_birth:
  assumes "history calls db es" and sv: "list_all (\<lambda>c. scripted_service lib pc opts (cl_service c)) calls"
    and mono: "\<And>db db'. grows db db' \<Longrightarrow> P db \<Longrightarrow> P db'"
    and i: "i < length calls" "list_ex (born P) (call_steps (calls ! i))" and j: "j < length calls" "list_ex (born P) (call_steps (calls ! j))"
  shows "i = j"
proof -
  have "grows a b" if "(k, a, b) \<in> set es" for k a b
    using call_grows [of lib pc opts "calls ! k"] sv history_steps(1,2) [OF assms(1) that] by (auto simp: list_all_iff)
  then have grows: "list_all (\<lambda>(k, a, b). grows a b) es" unfolding list_all_iff by blast
  let ?births = "filter (\<lambda>e. born P (snd e)) es"
  have once: "length ?births \<le> 1"
    using assms(1) by (intro born_once [OF _ grows mono, of db]) (auto simp: history_def)
  have mine: "\<exists>e\<in>set ?births. fst e = k" if k: "k < length calls" and T: "list_ex (born P) (call_steps (calls ! k))" for k
  proof -
    have "map snd (filter (\<lambda>e. fst e = k) es) = call_steps (calls ! k)" using assms(1) k by (auto simp: history_def list_all_iff)
    then obtain st where "st \<in> set (map snd (filter (\<lambda>e. fst e = k) es))" "born P st" using T by (auto simp: list_ex_iff)
    then show ?thesis by force
  qed
  obtain e f where "e \<in> set ?births" "fst e = i" "f \<in> set ?births" "fst f = j" using mine [OF i] mine [OF j] by blast
  then show "i = j" using once by (cases ?births) auto
qed

lemma one_call:
  assumes "history calls db es" and "list_all (\<lambda>c. scripted_service lib pc opts (cl_service c)) calls"
    and "\<And>db db'. grows db db' \<Longrightarrow> P db \<Longrightarrow> P db'" and "\<And>c. c \<in> set calls \<Longrightarrow> T c \<Longrightarrow> list_ex (born P) (call_steps c)"
  shows "length (filter T calls) \<le> 1"
  by (rule filter_index_once, rule one_birth [OF assms(1-3)]) (auto intro: assms(4) nth_mem)

section \<open>What a call asks of providers\<close>

text \<open>The creations of a payment in a log, newest first: the connection and the kind of outcome.\<close>

fun charges :: "string \<Rightarrow> ProviderCall list \<Rightarrow> (string \<times> CreateOutcomeKind) list" where
  "charges pid [] = []"
| "charges pid (CallCreate conn req out # calls) =
     (if cq_PaymentIntentID req = pid then [(pc_ID conn, co_Kind out)] else []) @ charges pid calls"
| "charges pid (CallReconcile conn req out # calls) = charges pid calls"

text \<open>A log with creations of one payment only, each but the newest known to have failed safely.\<close>

definition creates_only :: "string \<Rightarrow> ProviderCall list \<Rightarrow> bool" where
  "creates_only pid calls \<longleftrightarrow> list_all (\<lambda>call. case call of CallCreate conn req out \<Rightarrow> cq_PaymentIntentID req = pid | _ \<Rightarrow> False) calls"

definition one_by_one :: "int \<Rightarrow> (string \<times> CreateOutcomeKind) list \<Rightarrow> bool" where
  "one_by_one budget cs \<longleftrightarrow> distinct (map fst cs) \<and> list_all (\<lambda>(_, kind). kind = CreateFailedSafe) (tl cs) \<and>
     (cs \<noteq> [] \<longrightarrow> int (length cs) \<le> budget)"

definition head_of_loop :: "string \<Rightarrow> nat \<Rightarrow> (string \<Rightarrow> bool) \<Rightarrow> ProviderCall list \<Rightarrow> bool" where
  "head_of_loop pid n excluded calls \<longleftrightarrow> creates_only pid calls \<and> distinct (map fst (charges pid calls)) \<and>
     list_all (\<lambda>(conn, kind). excluded conn \<and> kind = CreateFailedSafe) (charges pid calls) \<and> length calls \<le> n"

definition orderly :: "string \<Rightarrow> int \<Rightarrow> ProviderCall list \<Rightarrow> bool" where
  "orderly pid budget calls \<longleftrightarrow> creates_only pid calls \<and> one_by_one budget (charges pid calls)"

lemma length_charges: "length (charges pid calls) \<le> length calls"
  by (induction pid calls rule: charges.induct) auto

lemma head_orderly: "head_of_loop pid n excluded calls \<Longrightarrow> int n \<le> budget \<Longrightarrow> orderly pid budget calls"
  using length_charges [of pid calls]
  by (cases "charges pid calls") (auto simp: head_of_loop_def orderly_def one_by_one_def list_all_iff)

text \<open>Everything but a call of a provider leaves the log alone.\<close>

abbreviation quiet :: "('s, 'a) orch \<Rightarrow> bool" where
  "quiet \<equiv> along (\<lambda>w w'. w_calls w' = w_calls w)"

interpretation quiet: run_relation "\<lambda>w w'. w_calls w' = w_calls w"
  by unfold_locales (auto simp: step_tick_def)

lemma quiet_store [along_intros]: "quiet (run_store m)" "quiet (savePayment sv p)" "quiet (saveAttempt sv a)"
  by (simp_all add: along_def run_store_def savePayment_def saveAttempt_def split_def)

lemma wp_quiet:
  assumes "quiet m" and "\<And>x w'. w_calls w' = w_calls w \<Longrightarrow> Q x w'" and "\<And>e w'. w_calls w' = w_calls w \<Longrightarrow> R e w'"
  shows "wp m Q R w"
  using assms by (intro wpI) (auto dest: along_result)

lemmas wp_silent = wp_quiet [OF quiet_store(1)] wp_quiet [OF quiet_store(2)] wp_quiet [OF quiet_store(3)]

lemma quiet_operations:
  "quiet (ProcessProviderWebhook sv conn wr)" "quiet (queryPayment sv ws env pid)" "quiet (ListPaymentAttempts sv ws env pid)"
  unfolding ProcessProviderWebhook_def settleWebhook_def MarkPaidWithOutbox_def paymentMerchantEvents_def newMerchantEvent_def
    ListPaymentAttempts_def queryPayment_def Let_def
  by (intro along_intros)+

lemma quiet_steps [along_intros]:
  "quiet (resolveFailed sv i a e)" "quiet (noEligibleProvider sv i)" "quiet (budgetExhausted sv i)"
  unfolding resolveFailed_def noEligibleProvider_def budgetExhausted_def Let_def by (intro along_intros)+

lemma quiet_refreshHealth [along_intros]: "quiet (refreshHealth sv i env cs)"
  unfolding refreshHealth_def by (intro along_intros)

lemma quiet_applyCreate: "quiet (applyCreateOutcome sv i a out t s ex)"
  by (cases "co_Kind out") (simp_all add: applyCreateOutcome_def Let_def along_intros)

text \<open>One round, over any store.\<close>

definition round_log :: "string \<Rightarrow> nat \<Rightarrow> round_result \<Rightarrow> ProviderCall list \<Rightarrow> bool" where
  "round_log pid n r calls \<longleftrightarrow> (case r of
     RoundReturn q err \<Rightarrow> orderly pid (int n) calls
   | RoundContinue q a excluded \<Rightarrow> pi_ID q = pid \<and> head_of_loop pid n excluded calls)"

lemma wp_applyCreate_log:
  assumes ord: "orderly (pi_ID i) (int n) (w_calls w)"
    and go: "co_Kind out = CreateFailedSafe \<Longrightarrow> head_of_loop (pi_ID i) n (ex(s := True)) (w_calls w)"
  shows "wp (applyCreateOutcome sv i a out t s ex) (\<lambda>r w'. round_log (pi_ID i) n r (w_calls w'))
    (\<lambda>_ w'. orderly (pi_ID i) (int n) (w_calls w')) w"
  by (cases "co_Kind out")
    (auto simp: applyCreateOutcome_def Let_def wp_simps round_log_def ord go intro!: wp_silent)

lemma dispatch_orderly:
  assumes "head_of_loop pid n ex calls" and "\<not> ex (pc_ID c)" and "cq_PaymentIntentID cq = pid"
  shows "orderly pid (int (Suc n)) (CallCreate c cq out # calls)"
    and "co_Kind out = CreateFailedSafe \<Longrightarrow> head_of_loop pid (Suc n) (ex(pc_ID c := True)) (CallCreate c cq out # calls)"
proof -
  have new: "pc_ID c \<notin> fst ` set (charges pid calls)" using assms(1,2) by (auto simp: head_of_loop_def list_all_iff)
  show "orderly pid (int (Suc n)) (CallCreate c cq out # calls)"
    using assms new length_charges [of pid calls]
    by (auto simp: head_of_loop_def orderly_def one_by_one_def creates_only_def list_all_iff)
  show "head_of_loop pid (Suc n) (ex(pc_ID c := True)) (CallCreate c cq out # calls)" if "co_Kind out = CreateFailedSafe"
    using assms new that by (auto simp: head_of_loop_def creates_only_def list_all_iff)
qed

lemma wp_routeStep_log:
  assumes head: "head_of_loop (pi_ID i) n ex (w_calls w)"
  shows "wp (routeStep sv env cs h i n' ex) (\<lambda>r w'. round_log (pi_ID i) (Suc n) r (w_calls w'))
    (\<lambda>_ w'. orderly (pi_ID i) (int (Suc n)) (w_calls w')) w"
proof -
  have ord: "orderly (pi_ID i) (int (Suc n)) (w_calls w)" by (rule head_orderly [OF head]) simp
  show ?thesis
  proof (cases "rr_Selected (Select (Some (rg_Manifest (sv_providers sv))) cs env ex CapabilityPixCreate h)")
    case None
    show ?thesis unfolding routeStep_def Let_def None option.case noEligibleProvider_def
      by (auto simp: wp_simps wp_env round_log_def ord simp del: of_nat_Suc intro!: wp_silent)
  next
    case (Some c)
    have free: "\<not> ex (pc_ID c)" using Select_Some(2) [OF Some] by (simp add: exclusionReason_None)
    show ?thesis
      unfolding routeStep_def Let_def Some option.case resolveFailed_def dispatchAttempt_def
      using dispatch_orderly [OF head free]
      by (auto simp: wp_simps wp_env ord round_log_def resolveFailed_def dispatchAttempt_def Let_def newAttempt_def split: sum.split
          simp del: of_nat_Suc intro!: wp_silent wp_weaken [OF wp_applyCreate_log]) (simp_all del: of_nat_Suc)
  qed
qed

lemma wp_routeLoop_log:
  assumes "head_of_loop (pi_ID i) (length as) ex (w_calls w)" and "int (length as) \<le> budget" and "sv_maxAttempts sv \<le> budget"
  shows "orderly (pi_ID i) budget (w_calls (snd (routeLoop sv env cs h i as ex w)))"
  using assms
proof (induction sv env cs h i as ex w rule: routeLoop.induct)
  case (1 sv env cs h i as ex w)
  show ?case
  proof (cases "int (length as) < sv_maxAttempts sv")
    case False
    have "w_calls (snd (budgetExhausted sv i w)) = w_calls w" using quiet_steps(3) by (rule alongD)
    then show ?thesis using head_orderly [OF 1(2,3)] False by (simp add: routeLoop.simps)
  next
    case True
    have up: "orderly pid budget calls" if "orderly pid (int (Suc (length as))) calls" for pid calls
      using that True 1(4) by (auto simp: orderly_def one_by_one_def)
    obtain r w' where s: "routeStep sv env cs h i (length as) ex w = (r, w')" by (cases "routeStep sv env cs h i (length as) ex w")
    note post = wp_routeStep_log [OF 1(2), of sv env cs h "length as", unfolded wp_def s prod.case]
    show ?thesis
    proof (cases r)
      case (Inl e)
      then show ?thesis using post up True s by (simp add: routeLoop.simps)
    next
      case (Inr rr)
      show ?thesis
      proof (cases rr)
        case (RoundReturn q err)
        then show ?thesis using post up True s Inr by (simp add: routeLoop.simps round_log_def)
      next
        case (RoundContinue q a excluded')
        have "pi_ID q = pi_ID i" "head_of_loop (pi_ID i) (Suc (length as)) excluded' (w_calls w')"
          using post Inr RoundContinue by (simp_all add: round_log_def)
        then have "orderly (pi_ID q) budget (w_calls (snd (routeLoop sv env cs h q (as @ [a]) excluded' w')))"
          using 1(4) True s Inr RoundContinue by (intro 1(1)) auto
        then show ?thesis using \<open>pi_ID q = pi_ID i\<close> True s Inr RoundContinue by (simp add: routeLoop.simps)
      qed
    qed
  qed
qed

lemma head_start [simp]: "head_of_loop pid n ex []"
  by (simp add: head_of_loop_def creates_only_def)

lemma orderly_start [simp]: "orderly pid budget []"
  by (simp add: orderly_def creates_only_def one_by_one_def)

lemma routeLoop_fresh:
  assumes "w_calls w = []"
  shows "orderly (pi_ID i) (sv_maxAttempts sv) (w_calls (snd (routeLoop sv env cs h i as ex w)))"
proof (cases "int (length as) \<le> sv_maxAttempts sv")
  case True
  then show ?thesis using assms by (intro wp_routeLoop_log) simp_all
next
  case False
  have "w_calls (snd (budgetExhausted sv i w)) = w_calls w" using quiet_steps(3) by (rule alongD)
  then show ?thesis using False assms by (simp add: routeLoop.simps)
qed

lemma wp_snd: "wp m (\<lambda>_. I) (\<lambda>_. I) w \<longleftrightarrow> I (snd (m w))"
  by (cases "m w") (auto simp: wp_def split: sum.split)

lemma wp_routeLoop_fresh:
  assumes "w_calls w = []" and "pi_ID i = pid"
  shows "wp (routeLoop sv env cs h i as ex) (\<lambda>_ w'. orderly pid (sv_maxAttempts sv) (w_calls w'))
    (\<lambda>_ w'. orderly pid (sv_maxAttempts sv) (w_calls w')) w"
  unfolding wp_snd using routeLoop_fresh [OF assms(1), of i] assms(2) by simp

lemma routeNew_log:
  assumes "w_calls w = []"
  shows "orderly (pi_ID p) (sv_maxAttempts sv) (w_calls (snd (routeNew sv env p w)))"
proof -
  have "wp (routeNew sv env p) (\<lambda>_ w'. orderly (pi_ID p) (sv_maxAttempts sv) (w_calls w'))
      (\<lambda>_ w'. orderly (pi_ID p) (sv_maxAttempts sv) (w_calls w')) w"
    unfolding routeNew_def executeRouting_def Let_def
    using assms by (auto simp: wp_simps wp_env intro!: wp_silent wp_quiet [OF quiet_refreshHealth] wp_routeLoop_fresh)
  then show ?thesis by (rule wp_state)
qed

section \<open>Who creates a payment\<close>

lemma insertPayment_born:
  assumes "insertPayment lib p db = (Inr (Some q), db')"
  shows "pi_ID q = pi_ID p \<and> born (\<lambda>db. exists_payment db (pi_ID p)) (db, db') \<and> born (has_key (pi_WorkspaceID p) (pi_IdempotencyKey p)) (db, db')"
  using statement_Inr [OF assms [unfolded insertPayment_def]]
  by (auto simp: born_def has_key_def exists_payment_def same_key_def scanPayment_def constraint_def throwE_def split: if_splits)

lemma pg_created_born:
  assumes "pg_GetOrCreatePayment lib p db = (Inr (q, True), db')"
  shows "pi_ID q = pi_ID p \<and> born (\<lambda>db. exists_payment db (pi_ID p)) (db, db') \<and> born (has_key (pi_WorkspaceID p) (pi_IdempotencyKey p)) (db, db')"
  using assms insertPayment_born [of lib p]
  by (auto simp: pg_GetOrCreatePayment_def returnE_def throwE_def elim!: bindE_InrE split: option.splits if_splits)

text \<open>A call that asked a provider for a charge has created the payment itself, under its own key.\<close>

lemma create_log:
  fixes sv :: "script Service" and cr :: CreatePaymentRequest and w :: "script world"
  assumes sv: "scripted_service lib pc opts sv" and start: "w_calls w = []"
  defines "w' \<equiv> snd (CreatePayment sv cr w)"
  shows "w_calls w' = [] \<or> (\<exists>pid. list_ex (born (\<lambda>db. exists_payment db pid)) (sc_done (w_store w')) \<and>
    list_ex (born (has_key (cr_WorkspaceID cr) (cr_IdempotencyKey cr))) (sc_done (w_store w')) \<and>
    orderly pid (sv_maxAttempts sv) (w_calls w'))" (is "?claim w'")
proof -
  have repo: "GetOrCreatePayment (sv_repo sv) = (\<lambda>p. scripted (pg_GetOrCreatePayment lib p))"
    using sv by (simp add: scripted_service_def scripted_repository_def pg_repository_def)
  have steps: "along (wextends grows) (routeNew sv env p)" for env p
    using service_relation.along_routeNew [OF grows.scripted_along [OF sv]] .
  have route: "?claim (snd (routeNew sv env q v))"
    if "list_ex (born (\<lambda>db. exists_payment db (pi_ID q))) (sc_done (w_store v))"
      and "list_ex (born (has_key (cr_WorkspaceID cr) (cr_IdempotencyKey cr))) (sc_done (w_store v))" and "w_calls v = []" for env q v
  proof -
    obtain ds where "sc_done (w_store (snd (routeNew sv env q v))) = sc_done (w_store v) @ ds"
      using alongD [OF steps] unfolding extends_def by blast
    then show ?thesis using that(1,2) routeNew_log [OF that(3)] by (intro disjI2 exI [of _ "pi_ID q"]) simp
  qed
  have "wp (createOrReplay sv env p) (\<lambda>_. ?claim) (\<lambda>_. ?claim) v"
    if v: "w_calls v = []" and p: "pi_WorkspaceID p = cr_WorkspaceID cr" "pi_IdempotencyKey p = cr_IdempotencyKey cr" for env p v
    unfolding createOrReplay_def wp_bind repo
  proof (rule wp_run_store)
    fix x s' assume s: "scripted (pg_GetOrCreatePayment lib p) (w_store v) = (Inr x, s')"
    obtain q created where x: "x = (q, created)" by (cases x)
    show "wp (case x of (stored, created) \<Rightarrow> if \<not> created then returnE (stored, None) else routeNew sv env stored)
        (\<lambda>_. ?claim) (\<lambda>_. ?claim) (v\<lparr>w_store := s'\<rparr>)"
    proof (cases created)
      case False
      then show ?thesis using v by (simp add: x wp_return)
    next
      case True
      obtain db rest db' where "pg_GetOrCreatePayment lib p db = (Inr (q, True), db')" "sc_done s' = sc_done (w_store v) @ [(db, db')]"
        using s True unfolding x scripted_def by (auto split: list.splits prod.splits)
      then have "?claim (snd (routeNew sv env q (v\<lparr>w_store := s'\<rparr>)))"
        using pg_created_born [of lib p db q db'] p v by (intro route) simp_all
      then show ?thesis unfolding wp_snd using True by (simp add: x)
    qed
  qed (use v in simp)
  then have "wp (CreatePayment sv cr) (\<lambda>_. ?claim) (\<lambda>_. ?claim) w"
    using start by (simp add: CreatePayment_def wp_simps wp_env newIntent_def split: sum.split)
  from wp_state [OF this] show ?thesis by (simp add: w'_def)
qed

lemma charges_call: "charges pid calls \<noteq> [] \<Longrightarrow> \<exists>conn req out. CallCreate conn req out \<in> set calls \<and> cq_PaymentIntentID req = pid"
  by (induction pid calls rule: charges.induct) (auto split: if_splits)

lemma charges_only: "creates_only p calls \<Longrightarrow> charges pid calls \<noteq> [] \<Longrightarrow> p = pid"
  by (drule charges_call) (fastforce simp: creates_only_def list_all_iff)

lemma orderly_charges: "orderly p budget calls \<Longrightarrow> charges pid calls \<noteq> [] \<Longrightarrow> p = pid \<and> one_by_one budget (charges pid calls)"
  using charges_only [of p calls pid] by (cases "p = pid") (simp_all add: orderly_def)

lemma quiet_results:
  "w_calls (snd (ProcessProviderWebhook sv conn wr w)) = w_calls w" "w_calls (snd (queryPayment sv ws env pid w)) = w_calls w"
  "w_calls (snd (ListPaymentAttempts sv ws env pid w)) = w_calls w"
  by (rule alongD, rule quiet_operations)+

lemma call_log_created:
  assumes "scripted_service lib pc opts (cl_service c)"
  shows "call_log c = [] \<or> (\<exists>cr p. cl_request c = Create cr \<and> list_ex (born (\<lambda>db. exists_payment db p)) (call_steps c) \<and>
      list_ex (born (has_key (cr_WorkspaceID cr) (cr_IdempotencyKey cr))) (call_steps c) \<and>
      orderly p (sv_maxAttempts (cl_service c)) (call_log c))"
proof (cases "cl_request c")
  case (Create cr)
  then show ?thesis using create_log [OF assms, of "call_start c" cr]
    by (auto simp: call_log_def call_steps_def served_call_def serve_def call_start_def)
qed (simp_all add: call_log_def served_call_def serve_def call_start_def quiet_results)

lemma charged_call:
  assumes sv: "scripted_service lib pc opts (cl_service c)" and charged: "charges pid (call_log c) \<noteq> []"
  shows "list_ex (born (\<lambda>db. exists_payment db pid)) (call_steps c)"
    and "one_by_one (sv_maxAttempts (cl_service c)) (charges pid (call_log c))"
proof -
  have "call_log c \<noteq> []" using charged by (cases "call_log c") simp_all
  then obtain p where p: "list_ex (born (\<lambda>db. exists_payment db p)) (call_steps c)"
    and o: "orderly p (sv_maxAttempts (cl_service c)) (call_log c)"
    using call_log_created [OF sv] by blast
  show "list_ex (born (\<lambda>db. exists_payment db pid)) (call_steps c)"
    and "one_by_one (sv_maxAttempts (cl_service c)) (charges pid (call_log c))"
    using p orderly_charges [OF o charged] by simp_all
qed

section \<open>Two requests for the witness\<close>

text \<open>Two requests with one idempotency key; the second comes while the first is at work.\<close>

definition script_registry :: Registry where
  "script_registry = \<lparr>rg_Resolve = (\<lambda>n conn. Inr (demo_connector CreateSucceeded)),
     rg_Manifest = (\<lambda>key. Some (cn_Manifest (demo_connector CreateSucceeded)))\<rparr>"

definition script_service :: "script Service" where
  "script_service = \<lparr>sv_repo = scripted_repository (pg_repository demo_lib), sv_providers = script_registry, sv_telemetry = None,
     sv_clock = (\<lambda>_. 5000), sv_ids = demo_ids, sv_maxAttempts = 3\<rparr>"

definition script_conn :: ProviderConnection where
  "script_conn = demo_connection ''b'' 2 CircuitClosed"

definition script_pay :: PaymentIntent where
  "script_pay = newIntent demo_request demo_fp 5000 (demo_ids 11 ''pi'')"

definition script_route :: RouteResult where
  "script_route = Select (Some (rg_Manifest script_registry)) [script_conn] EnvironmentTest (\<lambda>_. False) CapabilityPixCreate []"

definition script_att :: PaymentAttempt where
  "script_att = newAttempt (demo_ids 14 ''pa'') (demo_ids 11 ''pi'') ''b'' 1 5000"

definition script_requesting :: PaymentAttempt where
  "script_requesting = script_att\<lparr>pa_Status := AttemptStatusRequesting, pa_RequestStartedAt := 5000\<rparr>"

definition script_dec :: RoutingDecision where
  "script_dec = newDecision (demo_ids 15 ''rd'') (demo_ids 11 ''pi'') (demo_ids 14 ''pa'') script_conn script_route 5000"

definition script_paid_att :: PaymentAttempt where
  "script_paid_att = script_att\<lparr>pa_Status := AttemptStatusSucceeded, pa_RequestStartedAt := 5000, pa_ResponseReceivedAt := Some 5000,
    pa_ProviderPaymentID := ''pp'' @ demo_ids 14 ''pa'', pa_FailureCode := ''timeout'', pa_Pix := Some (demo_pix\<lparr>px_ExpiresAt := 0\<rparr>)\<rparr>"

definition script_db :: "PaymentIntent list \<Rightarrow> PaymentAttempt list \<Rightarrow> RoutingDecision list \<Rightarrow> PgDB" where
  "script_db ps as ds = empty_db\<lparr>db_connections := [script_conn], db_payments := ps, db_attempts := as, db_decisions := ds\<rparr>"

definition script_routed :: PaymentIntent where
  "script_routed = script_pay\<lparr>pi_Status := PaymentStatusRouting\<rparr>"

definition script_active :: PaymentIntent where
  "script_active = script_routed\<lparr>pi_ActiveAttemptID := demo_ids 14 ''pa''\<rparr>"

definition script_awaiting :: PaymentIntent where
  "script_awaiting = script_active\<lparr>pi_Status := PaymentStatusAwaitingPayment, pi_PresentedAttemptID := demo_ids 14 ''pa'', pi_Pix := Some (demo_pix\<lparr>px_ExpiresAt := 0\<rparr>)\<rparr>"

text \<open>The steps of the first request, and of a second one that comes when the charge is being requested.\<close>

definition script_steps :: "(PgDB \<times> PgDB) list" where
  "script_steps = (let d0 = script_db [] [] []; d1 = script_db [script_pay] [] []; d2 = script_db [script_routed] [] [];
      d3 = script_db [script_routed] [script_att] [script_dec]; d4 = script_db [script_active] [script_att] [script_dec];
      d5 = script_db [script_active] [script_requesting] [script_dec];
      d6 = script_db [script_active] [script_paid_att] [script_dec]; d7 = script_db [script_awaiting] [script_paid_att] [script_dec] in
     [(d0, d1), (d1, d2), (d2, d2), (d2, d2), (d2, d3), (d3, d4), (d4, d5), (d5, d6), (d6, d7)])"

definition script_first :: call where
  "script_first = \<lparr>cl_service = script_service, cl_request = Create demo_request, cl_tick = 10, cl_seen = map fst script_steps\<rparr>"

definition script_second :: call where
  "script_second = \<lparr>cl_service = script_service, cl_request = Create demo_request, cl_tick = 30,
     cl_seen = [script_db [script_active] [script_requesting] [script_dec]]\<rparr>"

definition script_events :: "event list" where
  "script_events = map (Pair 0) (take 7 script_steps) @
     [(1, script_db [script_active] [script_requesting] [script_dec], script_db [script_active] [script_requesting] [script_dec])] @
     map (Pair 0) (drop 7 script_steps)"

lemma run_scripted: "m db = (r, db') \<Longrightarrow>
   run_store (scripted m) \<lparr>w_store = \<lparr>sc_seen = db # rest, sc_done = ds\<rparr>, w_tick = n, w_calls = cs\<rparr> =
     (r, \<lparr>w_store = \<lparr>sc_seen = rest, sc_done = ds @ [(db, db')]\<rparr>, w_tick = n, w_calls = cs\<rparr>)"
  by (simp add: run_store_def scripted_def)

lemmas script_ops = pg_repository_def pg_GetOrCreatePayment_def insertPayment_def statement_def script_db_def empty_db_def prog_defs
  payment_checks_def exists_payment_def exists_attempt_def exists_connection_def mapNotFound_def getPaymentByIdempotency_def
  pg_SavePayment_def updatePayment_def pg_ListProviderConnections_def pg_ListAttempts_def pg_AddAttemptWithRoutingDecision_def
  transaction_def insertAttempt_def insertDecision_def pg_SaveAttempt_def attempts_of_def attempt_columns_def payment_columns_def
  scanPayment_def scanAttempt_def pix_row_def pixValues_def scanPix_def pg_time_def nullableTime_def demo_lib_def newIntent_def
  newAttempt_def newDecision_def script_conn_def demo_connection_def demo_request_def same_key_def cont_byte_def

lemmas script_rows = script_pay_def script_routed_def script_active_def script_awaiting_def script_att_def script_requesting_def
  script_paid_att_def script_dec_def demo_pix_def

lemma script_statements:
  "pg_GetOrCreatePayment demo_lib script_pay (script_db [] [] []) = (Inr (script_pay, True), script_db [script_pay] [] [])"
  "pg_SavePayment demo_lib script_routed (script_db [script_pay] [] []) = (Inr (), script_db [script_routed] [] [])"
  "pg_ListProviderConnections ''ws'' (script_db ps as ds) = (Inr [script_conn], script_db ps as ds)"
  "pg_ListAttempts i (script_db ps [] ds) = (Inr [], script_db ps [] ds)"
  "pg_AddAttemptWithRoutingDecision script_att script_dec (script_db [script_routed] [] []) =
     (Inr (), script_db [script_routed] [script_att] [script_dec])"
  "pg_SavePayment demo_lib script_active (script_db [script_routed] as ds) = (Inr (), script_db [script_active] as ds)"
  "pg_SaveAttempt script_requesting (script_db ps [script_att] ds) = (Inr (), script_db ps [script_requesting] ds)"
  "pg_SaveAttempt (script_requesting\<lparr>pa_ResponseReceivedAt := Some 5000, pa_UpdatedAt := 5000,
      pa_ProviderPaymentID := CHR ''p'' # CHR ''p'' # demo_ids 14 ''pa'', pa_FailureCode := ''timeout'',
      pa_Status := AttemptStatusSucceeded, pa_Pix := Some demo_pix\<rparr>) (script_db ps [script_requesting] ds) =
     (Inr (), script_db ps [script_paid_att] ds)"
  "pg_SavePayment demo_lib (script_active\<lparr>pi_Status := PaymentStatusAwaitingPayment, pi_PresentedAttemptID := demo_ids 14 ''pa'',
      pi_Pix := Some demo_pix, pi_FailureCode := [], pi_UpdatedAt := 5000\<rparr>) (script_db [script_active] as ds) =
     (Inr (), script_db [script_awaiting] as ds)"
  "pg_GetOrCreatePayment demo_lib (newIntent demo_request demo_fp 5000 (demo_ids 31 ''pi'')) (script_db [script_active] as ds) =
     (Inr (script_active, False), script_db [script_active] as ds)"
  by (simp_all add: script_ops script_rows)

lemma script_values:
  "script_pay\<lparr>pi_Status := PaymentStatusRouting, pi_UpdatedAt := 5000\<rparr> = script_routed"
  "script_routed\<lparr>pi_ActiveAttemptID := demo_ids 14 ''pa'', pi_UpdatedAt := 5000\<rparr> = script_active"
  "script_att\<lparr>pa_Status := AttemptStatusRequesting, pa_RequestStartedAt := 5000, pa_UpdatedAt := 5000\<rparr> = script_requesting"
  "newIntent demo_request demo_fp 5000 (demo_ids 11 ''pi'') = script_pay"
  "newAttempt (demo_ids 14 ''pa'') (pi_ID script_routed) ''b'' 1 5000 = script_att"
  "newDecision (demo_ids 15 ''rd'') (pi_ID script_routed) (demo_ids 14 ''pa'') script_conn script_route 5000 = script_dec"
  "pi_WorkspaceID script_pay = ''ws''" "pi_WorkspaceID script_routed = ''ws''" "pc_ID script_conn = ''b''"
  "pa_ID script_att = demo_ids 14 ''pa''" "pa_ID script_requesting = demo_ids 14 ''pa''" "cr_Environment demo_request = EnvironmentTest"
  by (simp_all add: script_ops script_rows)

lemma script_service_parts:
  "GetOrCreatePayment (sv_repo script_service) p = scripted (pg_GetOrCreatePayment demo_lib p)"
  "SavePayment (sv_repo script_service) p = scripted (pg_SavePayment demo_lib p)"
  "ListProviderConnections (sv_repo script_service) ws = scripted (pg_ListProviderConnections ws)"
  "ListAttempts (sv_repo script_service) i = scripted (pg_ListAttempts i)"
  "AddAttemptWithRoutingDecision (sv_repo script_service) a d = scripted (pg_AddAttemptWithRoutingDecision a d)"
  "SaveAttempt (sv_repo script_service) a = scripted (pg_SaveAttempt a)"
  "sv_telemetry script_service = None" "sv_clock script_service n = 5000" "sv_ids script_service = demo_ids"
  "sv_maxAttempts script_service = 3" "sv_providers script_service = script_registry"
  "rg_Resolve script_registry n c = Inr (demo_connector CreateSucceeded)"
  by (simp_all add: script_service_def script_registry_def scripted_repository_def pg_repository_def)

lemma script_selected: "rr_Selected script_route = Some script_conn"
  by code_simp

lemmas script_run = call_steps_def call_log_def served_call_def serve_def call_start_def CreatePayment_def createOrReplay_def routeNew_def
  executeRouting_def refreshHealth_def attempted_def routeLoop.simps routeStep_def dispatchAttempt_def callCreatePix_def
  applyCreateOutcome_def savePayment_def saveAttempt_def Now_def NewID_def Resolve_def step_tick_def bindE_def liftE_def returnE_def tryE_def
  Let_def demo_fp run_scripted demo_connector_def script_service_parts script_route_def [symmetric] script_selected
  script_values script_statements

lemma script_first_run: "call_steps script_first = script_steps" "length (call_log script_first) = 1"
  by (simp_all add: script_first_def script_steps_def script_run)

lemma script_second_run: "call_steps script_second =
    [(script_db [script_active] [script_requesting] [script_dec], script_db [script_active] [script_requesting] [script_dec])]"
  by (simp add: script_second_def script_run)

lemma script_history: "history [script_first, script_second] empty_db script_events"
  by (simp add: history_def script_events_def script_first_run script_second_run script_steps_def Let_def)
    (simp add: same_core_def script_db_def empty_db_def upt_rec)

lemma script_services: "list_all (\<lambda>c. scripted_service demo_lib (\<lambda>_. hd) demo_telemetry (cl_service c)) [script_first, script_second]"
  by (simp add: scripted_service_def script_first_def script_second_def script_service_def)

section \<open>Properties\<close>

text \<open>
  C11.  Concurrent requests charge once.  However the statements of any number of calls interleave, with
  those of workers and operators, wherever a call loses the database and whatever the providers
  answer: a payment is charged by at most one call; of the calls that ask for a payment under one
  idempotency key at most one talks to a provider; and that call asks for a charge at a new
  connection only after every earlier connection has failed safely, never more than \<open>MaxAttempts\<close> times.
\<close>

theorem concurrent_charges:
  assumes "list_all (\<lambda>c. scripted_service lib pc opts (cl_service c)) calls" and "history calls db es"
  shows "length (filter (\<lambda>c. charges pid (call_log c) \<noteq> []) calls) \<le> 1 \<and>
    length (filter (\<lambda>c. (case cl_request c of Create cr \<Rightarrow> cr_WorkspaceID cr = ws \<and> cr_IdempotencyKey cr = key | _ \<Rightarrow> False) \<and>
      call_log c \<noteq> []) calls) \<le> 1 \<and>
    list_all (\<lambda>c. one_by_one (sv_maxAttempts (cl_service c)) (charges pid (call_log c))) calls"
proof -
  have sv: "scripted_service lib pc opts (cl_service c)" if "c \<in> set calls" for c
    using that assms(1) by (simp add: list_all_iff)
  have one: "length (filter (\<lambda>c. charges pid (call_log c) \<noteq> []) calls) \<le> 1"
    by (rule one_call [OF assms(2,1), of "\<lambda>db. exists_payment db pid"]) (rule grows_exists, assumption, assumption, rule charged_call [OF sv])
  let ?key = "\<lambda>c. (case cl_request c of Create cr \<Rightarrow> cr_WorkspaceID cr = ws \<and> cr_IdempotencyKey cr = key | _ \<Rightarrow> False) \<and> call_log c \<noteq> []"
  have "list_ex (born (has_key ws key)) (call_steps c)" if "c \<in> set calls" "?key c" for c
    using call_log_created [OF sv [OF that(1)]] that(2) by (cases "cl_request c") auto
  then have key: "length (filter ?key calls) \<le> 1"
    by (intro one_call [OF assms(2,1), of "has_key ws key"]) (rule grows_has_key)
  have "one_by_one (sv_maxAttempts (cl_service c)) (charges pid (call_log c))" if "c \<in> set calls" for c
    using charged_call(2) [OF sv [OF that], of pid] by (cases "charges pid (call_log c) = []") (simp_all add: one_by_one_def)
  then show ?thesis using one key by (simp add: list_all_iff)
qed

theorem concurrent_charges_witness:
  "call_log script_first \<noteq> [] \<and>
    length (filter (\<lambda>c. charges (demo_ids 11 ''pi'') (call_log c) \<noteq> []) [script_first, script_second]) \<le> 1 \<and>
    length (filter (\<lambda>c. (case cl_request c of Create cr \<Rightarrow> cr_WorkspaceID cr = ''ws'' \<and> cr_IdempotencyKey cr = ''k'' | _ \<Rightarrow> False) \<and>
      call_log c \<noteq> []) [script_first, script_second]) \<le> 1 \<and>
    list_all (\<lambda>c. one_by_one (sv_maxAttempts (cl_service c)) (charges (demo_ids 11 ''pi'') (call_log c))) [script_first, script_second]"
  by (rule conjI [OF _ concurrent_charges [OF script_services script_history]]) (use script_first_run(2) in auto)

end
