(* ===== verification/Finality.thy ===== *)
theory Finality
  imports Concurrent
begin

text \<open>
  Concurrent calls settle a payment once and for all (over the histories of theory Concurrent).

  Two calls write to one payment: the one that has created it, until it presents a Pix (its last step,
  \<open>created_trace\<close>), and webhooks, which write \<open>paid\<close> and only after they have found the payment awaiting payment
  (\<open>notified_trace\<close>).  Nothing else is locked or compared, yet no interleaving takes a paid payment back, and
  no merchant hears of a payment that is not paid (\<open>paid_is_final\<close>).
\<close>

section \<open>What a step does to the status of payments\<close>

definition status_of :: "string \<Rightarrow> PgDB \<Rightarrow> PaymentStatus option" where
  "status_of pid db = map_option pi_Status (find (\<lambda>p. pi_ID p = pid) (db_payments db))"

definition paid :: "string \<Rightarrow> PgDB \<Rightarrow> bool" where
  "paid pid db \<longleftrightarrow> status_of pid db = Some PaymentStatusPaid"

definition settled_in :: "string \<Rightarrow> PgDB \<Rightarrow> bool" where
  "settled_in pid db \<longleftrightarrow> status_of pid db = Some PaymentStatusPaid \<or> status_of pid db = Some PaymentStatusAwaitingPayment"

definition announced :: "string \<Rightarrow> PgDB \<Rightarrow> bool" where
  "announced pid db \<longleftrightarrow> list_ex (\<lambda>me. me_PaymentIntentID me = pid) (db_merchantEvents db)"

text \<open>Nothing of it changes.\<close>

definition inert :: "PgDB \<Rightarrow> PgDB \<Rightarrow> bool" where
  "inert db db' \<longleftrightarrow> (\<forall>pid. status_of pid db' = status_of pid db) \<and> db_merchantEvents db' = db_merchantEvents db"

text \<open>One payment may change to a status; if that is paid, events about it may appear.\<close>

definition sets :: "string \<Rightarrow> PaymentStatus \<Rightarrow> PgDB \<Rightarrow> PgDB \<Rightarrow> bool" where
  "sets i st db db' \<longleftrightarrow> (\<forall>pid. status_of pid db' = status_of pid db \<or> pid = i \<and> status_of pid db' = Some st) \<and>
     (\<forall>pid. announced pid db' \<longrightarrow> announced pid db \<or> (pid = i \<and> st = PaymentStatusPaid \<and> paid pid db'))"

lemma status_faults [simp]: "status_of pid (db\<lparr>db_faults := fs\<rparr>) = status_of pid db" "announced pid (db\<lparr>db_faults := fs\<rparr>) = announced pid db"
  "paid pid (db\<lparr>db_faults := fs\<rparr>) = paid pid db"
  by (simp_all add: status_of_def announced_def paid_def)

interpretation inert: sql_relation inert
  by unfold_locales (auto simp: inert_def)

lemma inert_same: "db_payments db' = db_payments db \<Longrightarrow> db_merchantEvents db' = db_merchantEvents db \<Longrightarrow> inert db db'"
  by (simp add: inert_def status_of_def)

lemma inert_sets: "inert db db' \<Longrightarrow> sets i st db db'"
  by (simp add: inert_def sets_def announced_def)

lemma inert_statements:
  "along inert (getPaymentByIdempotency ws key)" "along inert (pg_GetPayment i)" "along inert (pg_ListProviderConnections ws)"
  "along inert (insertAttempt a)" "along inert (insertDecision d)" "along inert (pg_SaveAttempt a)" "along inert (pg_GetAttempt i)"
  "along inert (pg_ListAttempts i)" "along inert (insertRecovery wrap re)" "along inert (pg_GetProviderConnection i)"
  "along inert (pg_GetAttemptByProviderPaymentID ws i)" "along inert (pg_RecordProviderEvent pe)"
  "along inert (pg_MarkProviderEventProcessed ws i t)" "along inert (pg_GetPaymentEnvironment i)"
  unfolding pg_statements
  by (rule inert.along_statement; simp add: constraint_def throwE_def mapNotFound_def returnE_def inert_same split: option.split)+

lemma inert_telemetry:
  "along inert (AggregateProviderHealth (pg_telemetry pc) i t u)" "along inert (SaveProviderHealthSnapshot (pg_telemetry pc) ph)"
  "along inert (ListRecentProviderHealthSnapshots (pg_telemetry pc) i n)" "along inert (LatestProviderAttemptSince (pg_telemetry pc) i t)"
  "along inert (UpdateProviderCircuit (pg_telemetry pc) i st ot)"
  unfolding pg_telemetry_statements
  by (auto intro!: inert.along_statement inert.along_basic [unfolded prog_defs] along_intros simp: inert_same returnE_def throwE_def Let_def
      split: option.split)

lemma status_updated:
  "status_of pid (db\<lparr>db_payments := update_first (\<lambda>r. pi_ID r = pi_ID p) (payment_columns lib p) (db_payments db)\<rparr>) =
     (if pid = pi_ID p \<and> status_of pid db \<noteq> None then Some (pi_Status p) else status_of pid db)"
proof -
  have key: "pi_ID (payment_columns lib p r) = pi_ID r" "pi_Status (payment_columns lib p r) = pi_Status p" for r
    by (simp_all add: payment_columns_def scanPayment_def Let_def)
  show ?thesis
    using find_update_key [of pi_ID "payment_columns lib p", OF key(1), of pid "pi_ID p" "db_payments db"]
    by (cases "find (\<lambda>r. pi_ID r = pid) (db_payments db)") (auto simp: status_of_def key)
qed

lemma exists_status: "exists_payment db i \<longleftrightarrow> status_of i db \<noteq> None"
  by (induction "db_payments db" arbitrary: db) (auto simp: exists_payment_def status_of_def list_ex_iff find_None_iff)

lemma sets_update: "sets (pi_ID p) (pi_Status p) db (snd (updatePayment wrap lib p db))"
proof -
  have "sets (pi_ID p) (pi_Status p) db (db\<lparr>db_faults := fs, db_payments := update_first (\<lambda>r. pi_ID r = pi_ID p) (payment_columns lib p) (db_payments db)\<rparr>)" for fs
    using status_updated [where db = "db\<lparr>db_faults := fs\<rparr>" and p = p and lib = lib] by (simp add: sets_def announced_def)
  moreover have "sets (pi_ID p) (pi_Status p) db (db\<lparr>db_faults := fs\<rparr>)" for fs by (simp add: inert_sets inert_same)
  ultimately show ?thesis
    by (simp add: updatePayment_def statement_def Let_def throwE_def constraint_def)
qed

text \<open>The paid transaction: the payment becomes paid together with its events, or nothing changes.\<close>

lemma status_event: "along (\<lambda>db db'. \<forall>pid. status_of pid db' = status_of pid db) (insertMerchantEvents lib events)"
proof (rule alongI)
  fix db
  have "db_payments (snd (insertMerchantEvents lib events db)) = db_payments db"
  proof (induction events arbitrary: db)
    case (Cons e es)
    have one: "db_payments (snd (insertMerchantEvent lib e db)) = db_payments db"
      by (simp add: insertMerchantEvent_def statement_def Let_def constraint_def throwE_def)
    obtain r db1 where "insertMerchantEvent lib e db = (r, db1)" by (cases "insertMerchantEvent lib e db")
    then show ?case using one Cons [of db1] by (cases r) (simp_all add: bindE_def)
  qed (simp add: returnE_def)
  then show "\<forall>pid. status_of pid (snd (insertMerchantEvents lib events db)) = status_of pid db" by (simp add: status_of_def)
qed

lemma announced_events:
  assumes "list_all (\<lambda>e. me_PaymentIntentID e = i) events" and "announced pid (snd (insertMerchantEvents lib events db))"
  shows "announced pid db \<or> pid = i"
  using assms
proof (induction events arbitrary: db)
  case (Cons e es)
  obtain r db1 where e: "insertMerchantEvent lib e db = (r, db1)" by (cases "insertMerchantEvent lib e db")
  have "announced pid db1 \<Longrightarrow> announced pid db \<or> pid = me_PaymentIntentID e"
    using e by (auto simp: insertMerchantEvent_def statement_def Let_def constraint_def throwE_def announced_def split: if_splits)
  then show ?case using Cons e by (cases r) (auto simp: bindE_def)
qed (simp add: returnE_def)

lemma sets_paid:
  assumes p: "pi_Status p = PaymentStatusPaid" and events: "list_all (\<lambda>e. me_PaymentIntentID e = pi_ID p) es"
  shows "sets (pi_ID p) PaymentStatusPaid db (snd (pg_MarkPaymentPaidWithEvents lib p rec es db))"
proof (cases "pg_MarkPaymentPaidWithEvents lib p rec es db")
  case (Pair r db')
  show ?thesis
  proof (cases r)
    case (Inl e)
    then have "inert db db'" using Pair by (auto simp: pg_MarkPaymentPaidWithEvents_def transaction_def inert_same split: prod.splits sum.splits)
    then show ?thesis by (simp add: Pair inert_sets)
  next
    case (Inr x)
    have "pg_MarkPaymentPaidWithEvents lib p rec es db = (Inr x, db')" using Pair Inr by simp
    then obtain fs db1 fs' where run: "bindE (updatePayment (Wrapf ''update paid payment'') lib p) (\<lambda>_.
        bindE (case rec of None \<Rightarrow> returnE False | Some event \<Rightarrow> insertRecovery (Wrapf ''insert paid recovery event'') event) (\<lambda>_.
        insertMerchantEvents lib es)) (db\<lparr>db_faults := fs\<rparr>) = (Inr x, db1)" and db': "db' = db1\<lparr>db_faults := fs'\<rparr>"
      unfolding pg_MarkPaymentPaidWithEvents_def by (rule transaction_Inr)
    obtain db2 db3 y z where up: "updatePayment (Wrapf ''update paid payment'') lib p (db\<lparr>db_faults := fs\<rparr>) = (Inr y, db2)"
      and re: "(case rec of None \<Rightarrow> returnE False | Some event \<Rightarrow> insertRecovery (Wrapf ''insert paid recovery event'') event) db2 = (Inr z, db3)"
      and ev: "insertMerchantEvents lib es db3 = (Inr x, db1)"
      using run by (elim bindE_InrE)
    have rec: "along inert (case rec of None \<Rightarrow> returnE False | Some event \<Rightarrow> insertRecovery (Wrapf ''insert paid recovery event'') event)"
      by (intro along_intros inert_statements)
    have re: "inert db2 db3" by (rule along_result [OF rec re])
    have st: "status_of pid db' = status_of pid db2" for pid
      using along_result [OF status_event ev] re by (simp add: db' inert_def)
    have "sets (pi_ID p) PaymentStatusPaid (db\<lparr>db_faults := fs\<rparr>) db2" using sets_update [of p "db\<lparr>db_faults := fs\<rparr>" "Wrapf ''update paid payment''" lib] up p by simp
    moreover have "paid (pi_ID p) db2" 
      using statement_Inr [OF up [unfolded updatePayment_def]] p status_updated [where db = "db\<lparr>db_faults := tl fs\<rparr>" and p = p and lib = lib]
      by (auto simp: paid_def exists_status constraint_def throwE_def split: if_splits)
    moreover have "announced pid db' \<Longrightarrow> announced pid db2 \<or> pid = pi_ID p" for pid
      using announced_events [OF events, of pid lib db3] ev re by (simp add: db' announced_def inert_def)
    ultimately show ?thesis using st by (auto simp: Pair sets_def paid_def)
  qed
qed

text \<open>A payment begins, or nothing changes.\<close>

definition begins :: "string \<Rightarrow> PgDB \<Rightarrow> PgDB \<Rightarrow> bool" where
  "begins i db db' \<longleftrightarrow> status_of i db = None \<and> status_of i db' = Some PaymentStatusCreated \<and>
     (\<forall>pid. pid \<noteq> i \<longrightarrow> status_of pid db' = status_of pid db) \<and> db_merchantEvents db' = db_merchantEvents db"

lemma insertPayment_begins:
  assumes "insertPayment lib p db = (Inr (Some q), db')" and "pi_Status p = PaymentStatusCreated"
  shows "pi_ID q = pi_ID p \<and> begins (pi_ID p) db db'"
  using statement_Inr [OF assms(1) [unfolded insertPayment_def]] assms(2)
  by (auto simp: begins_def status_of_def scanPayment_def constraint_def throwE_def find_append exists_payment_def find_None_ex [symmetric]
      split: if_splits option.splits)

lemma insertPayment_inert: "insertPayment lib p db = (r, db') \<Longrightarrow> (\<And>q. r \<noteq> Inr (Some q)) \<Longrightarrow> inert db db'"
  by (auto simp: insertPayment_def statement_def Let_def constraint_def throwE_def inert_same split: if_splits)

lemma GetOrCreate_begins:
  assumes "pg_GetOrCreatePayment lib p db = (Inr (q, True), db')" and "pi_Status p = PaymentStatusCreated"
  shows "pi_ID q = pi_ID p \<and> pi_Status q = PaymentStatusCreated \<and> begins (pi_ID p) db db'"
proof -
  from assms(1) obtain ins db1 where ins: "insertPayment lib p db = (Inr ins, db1)"
    and rest: "(case ins of Some p \<Rightarrow> returnE (p, True)
     | None \<Rightarrow> bindE (getPaymentByIdempotency (pi_WorkspaceID p) (pi_IdempotencyKey p)) (\<lambda>existing.
         if pi_RequestFingerprint existing \<noteq> pi_RequestFingerprint p then throwE ErrIdempotencyConflict
         else returnE (existing, False))) db1 = (Inr (q, True), db')"
    unfolding pg_GetOrCreatePayment_def by (rule bindE_InrE)
  then have "ins = Some q" "db1 = db'"
    by (auto simp: returnE_def throwE_def elim!: bindE_InrE split: option.splits if_splits)
  then show ?thesis using insertPayment_begins [of lib p db q db'] ins assms(2)
      statement_Inr [OF ins [unfolded insertPayment_def]]
    by (auto simp: scanPayment_def constraint_def throwE_def split: if_splits)
qed

lemma GetOrCreate_inert:
  assumes "pg_GetOrCreatePayment lib p db = (r, db')" and "\<And>q. r \<noteq> Inr (q, True)"
  shows "inert db db'"
proof -
  let ?replay = "bindE (getPaymentByIdempotency (pi_WorkspaceID p) (pi_IdempotencyKey p)) (\<lambda>existing.
         if pi_RequestFingerprint existing \<noteq> pi_RequestFingerprint p then throwE ErrIdempotencyConflict
         else returnE (existing, False))"
  obtain i db1 where ins: "insertPayment lib p db = (i, db1)" by (cases "insertPayment lib p db")
  have replay: "along inert ?replay" by (intro along_intros inert_statements)
  show ?thesis
  proof (cases "\<exists>q. i = Inr (Some q)")
    case True
    then have "\<exists>q. r = Inr (q, True)" using assms(1) ins by (auto simp: pg_GetOrCreatePayment_def bindE_def returnE_def)
    then show ?thesis using assms(2) by blast
  next
    case False
    then have one: "inert db db1" using insertPayment_inert [OF ins] by blast
    show ?thesis
    proof (cases i)
      case (Inl e)
      then show ?thesis using assms(1) ins one by (simp add: pg_GetOrCreatePayment_def bindE_def)
    next
      case (Inr o')
      then have "?replay db1 = (r, db')" using assms(1) ins False by (cases o') (simp_all add: pg_GetOrCreatePayment_def bindE_Inr)
      then show ?thesis using one along_result [OF replay] inert.trans by blast
    qed
  qed
qed

section \<open>The trace of the call that creates a payment\<close>

definition works :: "string \<Rightarrow> PgDB \<Rightarrow> PgDB \<Rightarrow> bool" where
  "works i db db' \<longleftrightarrow> (\<exists>st. st \<noteq> PaymentStatusPaid \<and> st \<noteq> PaymentStatusAwaitingPayment \<and> sets i st db db')"

definition closing :: "string \<Rightarrow> script world \<Rightarrow> script world \<Rightarrow> bool" where
  "closing i w w' \<longleftrightarrow> wextends (works i) w w' \<or> (\<exists>w1 db db'. wextends (works i) w w1 \<and>
     sc_done (w_store w') = sc_done (w_store w1) @ [(db, db')] \<and> sets i PaymentStatusAwaitingPayment db db')"

lemma inert_works: "along inert m \<Longrightarrow> along (works i) m"
  unfolding along_def works_def by (metis inert_sets PaymentStatus.distinct(1) PaymentStatus.simps)

lemma wp_extends:
  assumes "along (wextends S) m" and "wextends S v w"
    and "\<And>x w'. wextends S v w' \<Longrightarrow> Q x w'" and "\<And>e w'. wextends S v w' \<Longrightarrow> R e w'"
  shows "wp m Q R w"
proof (rule wpI)
  note along = extends.trans [OF assms(2) along_result [OF assms(1)]]
  show "m w = (Inr x, w') \<Longrightarrow> Q x w'" for x w' by (rule assms(3) [OF along])
  show "m w = (Inl e, w') \<Longrightarrow> R e w'" for e w' by (rule assms(4) [OF along])
qed

text \<open>Operations that leave the payments alone.\<close>

lemma inert_repository:
  assumes "scripted_service lib pc opts sv" and S: "\<And>db db'. inert db db' \<Longrightarrow> S db db'"
  shows "along (wextends S) (run_store (GetPayment (sv_repo sv) i))" "along (wextends S) (run_store (ListProviderConnections (sv_repo sv) ws))"
    "along (wextends S) (run_store (GetProviderConnection (sv_repo sv) i))" "along (wextends S) (run_store (AddAttemptWithRoutingDecision (sv_repo sv) a d))"
    "along (wextends S) (saveAttempt sv a)" "along (wextends S) (run_store (GetAttempt (sv_repo sv) i))"
    "along (wextends S) (run_store (GetAttemptByProviderPaymentID (sv_repo sv) ws i))" "along (wextends S) (run_store (ListAttempts (sv_repo sv) i))"
    "along (wextends S) (run_store (RecordProviderEvent (sv_repo sv) pe))" "along (wextends S) (run_store (MarkProviderEventProcessed (sv_repo sv) ws i t))"
    "along (wextends S) (run_store (GetPaymentEnvironment (sv_repo sv) i))" "along (wextends S) (refreshHealth sv p env cs)"
proof -
  have weaken: "along S m" if "along inert m" for m :: "'x sql" using that S by (simp add: along_def)
  have ops: "sv_repo sv = scripted_repository (pg_repository lib)" using assms by (simp add: scripted_service_def)
  note run = wextends_scripted [OF weaken]
  note repo = ops scripted_repository_def pg_repository_def
  show "along (wextends S) (run_store (GetPayment (sv_repo sv) i))" "along (wextends S) (run_store (GetProviderConnection (sv_repo sv) i))"
    "along (wextends S) (saveAttempt sv a)" "along (wextends S) (run_store (GetAttempt (sv_repo sv) i))"
    "along (wextends S) (run_store (GetAttemptByProviderPaymentID (sv_repo sv) ws i))" "along (wextends S) (run_store (ListAttempts (sv_repo sv) i))"
    "along (wextends S) (run_store (RecordProviderEvent (sv_repo sv) pe))" "along (wextends S) (run_store (MarkProviderEventProcessed (sv_repo sv) ws i t))"
    "along (wextends S) (run_store (GetPaymentEnvironment (sv_repo sv) i))"
    by (simp_all add: repo saveAttempt_def run inert_statements)
  show list: "along (wextends S) (run_store (ListProviderConnections (sv_repo sv) ws))" for ws
    by (simp add: repo run inert_statements)
  have "along inert (pg_AddAttemptWithRoutingDecision a d)"
    unfolding pg_AddAttemptWithRoutingDecision_def by (intro along_intros inert_statements)
  then show "along (wextends S) (run_store (AddAttemptWithRoutingDecision (sv_repo sv) a d))" by (simp add: repo run)
  have refresh: "along (extends S) (Refresh (NewTelemetry (scripted_telemetry (pg_telemetry pc)) opts) cs env t)" for t
    by (rule extends.along_Refresh) (simp_all add: NewTelemetry_def scripted_telemetry_def extends_scripted weaken inert_telemetry)
  show "along (wextends S) (refreshHealth sv p env cs)"
  proof (cases "sv_telemetry sv")
    case None
    then show ?thesis by (simp add: refreshHealth_def along_intros)
  next
    case (Some f)
    then have f: "f = Refresh (NewTelemetry (scripted_telemetry (pg_telemetry pc)) opts)" using assms(1) by (simp add: scripted_service_def)
    show ?thesis unfolding refreshHealth_def Some f option.case by (intro along_intros list wextends_run refresh)
  qed
qed

text \<open>Saves of the payment at work, below awaiting payment, and the last one.\<close>

definition unsettled :: "PaymentIntent \<Rightarrow> bool" where
  "unsettled p \<longleftrightarrow> pi_Status p \<noteq> PaymentStatusPaid \<and> pi_Status p \<noteq> PaymentStatusAwaitingPayment"

lemma inert_works_step: "inert db db' \<Longrightarrow> works i db db'"
  unfolding works_def by (rule exI [of _ PaymentStatusFailed]) (simp add: inert_sets)

lemma saved_repo: "scripted_service lib pc opts sv \<Longrightarrow> savePayment sv p = run_store (scripted (pg_SavePayment lib p))"
  by (simp add: savePayment_def scripted_service_def scripted_repository_def pg_repository_def)

lemma works_save:
  assumes "scripted_service lib pc opts sv" and "unsettled p" and "pi_ID p = i"
  shows "along (wextends (works i)) (savePayment sv p)"
proof -
  have "works i db (snd (pg_SavePayment lib p db))" for db
    using sets_update [of p db _ lib] assms(2,3) unfolding works_def unsettled_def pg_SavePayment_def by blast
  then show ?thesis by (simp add: saved_repo [OF assms(1)] wextends_scripted alongI)
qed

lemma wp_present:
  assumes "scripted_service lib pc opts sv" and "pi_Status p = PaymentStatusAwaitingPayment" and "pi_ID p = i"
    and at: "wextends (works i) w0 w"
    and Q: "\<And>x w'. closing i w0 w' \<Longrightarrow> Q x w'" and R: "\<And>e w'. closing i w0 w' \<Longrightarrow> R e w'"
  shows "wp (savePayment sv p) Q R w"
proof -
  have "closing i w0 (w\<lparr>w_store := s'\<rparr>)" if s: "scripted (pg_SavePayment lib p) (w_store w) = (r, s')" for r s'
  proof (cases "sc_seen (w_store w)")
    case Nil
    then show ?thesis using s at by (simp add: scripted_def closing_def)
  next
    case (Cons db rest)
    then obtain db' where "pg_SavePayment lib p db = (r, db')" "sc_done s' = sc_done (w_store w) @ [(db, db')]"
      using s by (auto simp: scripted_def split: prod.splits)
    moreover have "sets i PaymentStatusAwaitingPayment db (snd (pg_SavePayment lib p db))"
      using sets_update [of p db _ lib] assms(2,3) by (simp add: pg_SavePayment_def)
    ultimately show ?thesis using at unfolding closing_def by auto
  qed
  then show ?thesis unfolding saved_repo [OF assms(1)] by (intro wp_run_store) (auto intro: Q R)
qed

lemma closing_at: "wextends (works i) w0 w \<Longrightarrow> closing i w0 w"
  by (simp add: closing_def)

definition round_trace :: "string \<Rightarrow> script world \<Rightarrow> round_result \<Rightarrow> script world \<Rightarrow> bool" where
  "round_trace i w0 r w \<longleftrightarrow> (case r of
     RoundReturn q err \<Rightarrow> closing i w0 w
   | RoundContinue q a ex \<Rightarrow> pi_ID q = i \<and> unsettled q \<and> wextends (works i) w0 w)"

lemmas works_steps = inert_repository [where S = "works i" for i, OF _ inert_works_step]

lemma unsettled_simps [simp]:
  "unsettled (p\<lparr>pi_Status := PaymentStatusFailed, pi_FailureCode := fc, pi_UpdatedAt := t\<rparr>)"
  "unsettled (p\<lparr>pi_Status := PaymentStatusReconciling, pi_FailureCode := fc, pi_UpdatedAt := t\<rparr>)"
  "unsettled (p\<lparr>pi_Status := PaymentStatusRouting, pi_UpdatedAt := t\<rparr>)"
  "unsettled (p\<lparr>pi_ActiveAttemptID := aid, pi_UpdatedAt := t\<rparr>) = unsettled p"
  by (simp_all add: unsettled_def)

lemma works_ends:
  assumes "scripted_service lib pc opts sv" and "pi_ID p = i"
  shows "along (wextends (works i)) (resolveFailed sv p a e)" "along (wextends (works i)) (noEligibleProvider sv p)"
    "along (wextends (works i)) (budgetExhausted sv p)"
proof -
  have save: "along (wextends (works i)) (savePayment sv (p\<lparr>pi_Status := PaymentStatusFailed, pi_FailureCode := fc, pi_UpdatedAt := t\<rparr>))" for fc t
    by (rule works_save [OF assms(1)]) (simp_all add: assms(2))
  show "along (wextends (works i)) (resolveFailed sv p a e)"
    unfolding resolveFailed_def Let_def by (intro along_intros save works_steps(5) [OF assms(1)])
  show "along (wextends (works i)) (noEligibleProvider sv p)" "along (wextends (works i)) (budgetExhausted sv p)"
    unfolding noEligibleProvider_def budgetExhausted_def Let_def by (intro along_intros save)+
qed

lemma wp_applyCreate_trace:
  assumes sv: "scripted_service lib pc opts sv" and p: "pi_ID p = i" "unsettled p" and at: "wextends (works i) w0 w"
  shows "wp (applyCreateOutcome sv p a out t s ex) (round_trace i w0) (\<lambda>_. closing i w0) w"
proof -
  have "along (wextends (works i)) (saveAttempt sv b)" for b by (rule works_steps(5) [OF sv])
  note attempt = wp_extends [OF this]
  show ?thesis
  proof (cases "co_Kind out = CreateSucceeded")
    case True
    show ?thesis unfolding applyCreateOutcome_def True Let_def CreateOutcomeKind.case wp_bind
      by (rule attempt [OF at], rule wp_present [OF sv])
        (simp_all add: p wp_return round_trace_def closing_at)
  next
    case False
    then show ?thesis
      by (cases "co_Kind out")
        (auto simp: applyCreateOutcome_def Let_def wp_simps round_trace_def p closing_at intro!: attempt [OF at]
          wp_extends [OF works_save [OF sv _ p(1)]] wp_extends [OF works_save [OF sv]])
  qed
qed

lemma wp_routeStep_trace:
  assumes sv: "scripted_service lib pc opts sv" and p: "pi_ID p = i" "unsettled p" and at: "wextends (works i) w0 w"
  shows "wp (routeStep sv env cs h p n ex) (round_trace i w0) (\<lambda>_. closing i w0) w"
proof -
  have attempt: "along (wextends (works i)) (saveAttempt sv b)" for b
    by (rule works_steps(5) [OF sv])
  have add: "along (wextends (works i)) (run_store (AddAttemptWithRoutingDecision (sv_repo sv) b d))" for b d
    by (rule works_steps(4) [OF sv])
  note save = wp_extends [where v = w0, OF attempt] wp_extends [where v = w0, OF add] wp_extends [where v = w0, OF works_save [OF sv]]
    wp_applyCreate_trace [OF sv]
  have "wp (noEligibleProvider sv p) (round_trace i w0) (\<lambda>_. closing i w0) w"
    unfolding noEligibleProvider_def by (auto simp: wp_simps wp_env Let_def round_trace_def p at closing_at intro!: save)
  moreover have "wp (resolveFailed sv q b e) (round_trace i w0) (\<lambda>_. closing i w0) v"
    if "wextends (works i) w0 v" "pi_ID q = i" for q b e v
    unfolding resolveFailed_def using that by (auto simp: wp_simps wp_env Let_def round_trace_def closing_at intro!: save)
  moreover have "wp (dispatchAttempt sv q b c k ex) (round_trace i w0) (\<lambda>_. closing i w0) v"
    if "wextends (works i) w0 v" "pi_ID q = i" "unsettled q" for q b c k v
    unfolding dispatchAttempt_def using that by (auto simp: wp_simps wp_env Let_def closing_at intro!: save)
  ultimately show ?thesis
    unfolding routeStep_def
    by (auto simp: wp_simps wp_env Let_def p at closing_at intro!: save split: option.split sum.split)
qed

lemma routeLoop_trace:
  assumes "scripted_service lib pc opts sv" and "pi_ID p = i" and "unsettled p" and "wextends (works i) w0 w"
  shows "closing i w0 (snd (routeLoop sv env cs h p as ex w))"
  using assms
proof (induction sv env cs h p as ex w rule: routeLoop.induct)
  case (1 sv env cs h p as ex w)
  show ?case
  proof (cases "int (length as) < sv_maxAttempts sv")
    case False
    have "wextends (works i) w (snd (budgetExhausted sv p w))" by (rule alongD [OF works_ends(3) [OF 1(2,3)]])
    then show ?thesis using extends.trans [OF 1(5)] False by (simp add: routeLoop.simps closing_at)
  next
    case True
    obtain r w' where s: "routeStep sv env cs h p (length as) ex w = (r, w')" by (cases "routeStep sv env cs h p (length as) ex w")
    note post = wp_routeStep_trace [OF 1(2-5), of env cs h "length as" ex, unfolded wp_def s prod.case]
    show ?thesis
    proof (cases r)
      case (Inl e)
      then show ?thesis using post True s by (simp add: routeLoop.simps)
    next
      case (Inr rr)
      show ?thesis
      proof (cases rr)
        case (RoundReturn q err)
        then show ?thesis using post True s Inr by (simp add: routeLoop.simps round_trace_def)
      next
        case (RoundContinue q a excluded')
        then have "pi_ID q = i" "unsettled q" "wextends (works i) w0 w'" using post Inr by (simp_all add: round_trace_def)
        then have "closing i w0 (snd (routeLoop sv env cs h q (as @ [a]) excluded' w'))"
          using 1(1) [OF True s [symmetric] Inr RoundContinue 1(2)] by blast
        then show ?thesis using True s Inr RoundContinue by (simp add: routeLoop.simps)
      qed
    qed
  qed
qed

lemma routeNew_trace:
  assumes sv: "scripted_service lib pc opts sv" and p: "pi_ID p = i"
  shows "closing i w (snd (routeNew sv env p w))"
proof -
  have list: "along (wextends (works i)) (run_store (ListProviderConnections (sv_repo sv) ws))" for ws by (rule works_steps(2) [OF sv])
  have atts: "along (wextends (works i)) (run_store (ListAttempts (sv_repo sv) pid))" for pid by (rule works_steps(8) [OF sv])
  have health: "along (wextends (works i)) (refreshHealth sv q env cs)" for q cs by (rule works_steps(12) [OF sv])
  note steps = wp_extends [where v = w, OF list] wp_extends [where v = w, OF atts] wp_extends [where v = w, OF health]
    wp_extends [where v = w, OF works_save [OF sv]]
  have loop: "wp (routeLoop sv env cs h q as ex) (\<lambda>_. closing i w) (\<lambda>_. closing i w) v"
    if "wextends (works i) w v" "pi_ID q = i" "unsettled q" for q cs h as ex v
    unfolding wp_snd by (rule routeLoop_trace [OF sv that(2,3,1)])
  have "wp (routeNew sv env p) (\<lambda>_. closing i w) (\<lambda>_. closing i w) w"
    unfolding routeNew_def executeRouting_def
    by (auto simp: wp_simps wp_env Let_def p closing_at extends.refl intro!: steps loop)
  then show ?thesis by (rule wp_state)
qed

definition created_trace :: "string \<Rightarrow> (PgDB \<times> PgDB) list \<Rightarrow> bool" where
  "created_trace i steps \<longleftrightarrow> (\<exists>db db' mid fin. steps = (db, db') # mid @ fin \<and> begins i db db' \<and> list_all (\<lambda>(a, b). works i a b) mid \<and>
     (fin = [] \<or> (\<exists>a b. fin = [(a, b)] \<and> sets i PaymentStatusAwaitingPayment a b)))"

definition idle_trace :: "(PgDB \<times> PgDB) list \<Rightarrow> bool" where
  "idle_trace steps \<longleftrightarrow> list_all (\<lambda>(a, b). inert a b) steps"

lemma closing_steps:
  assumes "closing i w w'"
  shows "\<exists>mid fin. sc_done (w_store w') = sc_done (w_store w) @ mid @ fin \<and> list_all (\<lambda>(a, b). works i a b) mid \<and>
    (fin = [] \<or> (\<exists>a b. fin = [(a, b)] \<and> sets i PaymentStatusAwaitingPayment a b))"
  using assms unfolding closing_def
proof
  assume "wextends (works i) w w'"
  then obtain mid where "sc_done (w_store w') = sc_done (w_store w) @ mid" "list_all (\<lambda>(a, b). works i a b) mid"
    unfolding extends_def by blast
  then show ?thesis by (intro exI [of _ mid] exI [of _ "[]"]) simp
next
  assume "\<exists>w1 a b. wextends (works i) w w1 \<and> sc_done (w_store w') = sc_done (w_store w1) @ [(a, b)] \<and> sets i PaymentStatusAwaitingPayment a b"
  then obtain w1 :: "script world" and mid a b where "sc_done (w_store w1) = sc_done (w_store w) @ mid" "list_all (\<lambda>(a, b). works i a b) mid"
    "sc_done (w_store w') = sc_done (w_store w1) @ [(a, b)]" "sets i PaymentStatusAwaitingPayment a b"
    unfolding extends_def by (elim exE conjE)
  then show ?thesis by (intro exI [of _ mid] exI [of _ "[(a, b)]"]) simp
qed

lemma CreatePayment_trace:
  fixes sv :: "script Service" and cr :: CreatePaymentRequest and w :: "script world"
  assumes sv: "scripted_service lib pc opts sv" and start: "sc_done (w_store w) = []"
  defines "steps \<equiv> sc_done (w_store (snd (CreatePayment sv cr w)))"
  shows "idle_trace steps \<or> (\<exists>i. created_trace i steps)" (is "?ok steps")
proof -
  let ?ok' = "\<lambda>w. idle_trace (sc_done (w_store w)) \<or> (\<exists>i. created_trace i (sc_done (w_store w)))"
  have repo: "GetOrCreatePayment (sv_repo sv) = (\<lambda>p. scripted (pg_GetOrCreatePayment lib p))"
    using sv by (simp add: scripted_service_def scripted_repository_def pg_repository_def)
  have "wp (createOrReplay sv env p) (\<lambda>_. ?ok') (\<lambda>_. ?ok') v"
    if v: "sc_done (w_store v) = []" and p: "pi_Status p = PaymentStatusCreated" for env p v
    unfolding createOrReplay_def wp_bind repo
  proof (rule wp_run_store)
    fix e s' assume "scripted (pg_GetOrCreatePayment lib p) (w_store v) = (Inl e, s')"
    then show "?ok' (v\<lparr>w_store := s'\<rparr>)" using v GetOrCreate_inert [of lib p]
      by (auto simp: scripted_def idle_trace_def split: list.splits prod.splits)
  next
    fix x s' assume s: "scripted (pg_GetOrCreatePayment lib p) (w_store v) = (Inr x, s')"
    obtain q created where x: "x = (q, created)" by (cases x)
    obtain db db' where run: "pg_GetOrCreatePayment lib p db = (Inr x, db')" and s': "sc_done s' = [(db, db')]"
      using s v by (auto simp: scripted_def split: list.splits prod.splits)
    show "wp (case x of (stored, created) \<Rightarrow> if \<not> created then returnE (stored, None) else routeNew sv env stored)
        (\<lambda>_. ?ok') (\<lambda>_. ?ok') (v\<lparr>w_store := s'\<rparr>)"
    proof (cases created)
      case False
      then have "inert db db'" using GetOrCreate_inert [OF run] x by simp
      then show ?thesis using False by (simp add: x wp_return s' idle_trace_def)
    next
      case True
      have b: "pi_ID q = pi_ID p" "begins (pi_ID p) db db'" using GetOrCreate_begins [of lib p db q db'] run p x True by simp_all
      have "closing (pi_ID p) (v\<lparr>w_store := s'\<rparr>) (snd (routeNew sv env q (v\<lparr>w_store := s'\<rparr>)))"
        by (rule routeNew_trace [OF sv b(1)])
      then have "created_trace (pi_ID p) (sc_done (w_store (snd (routeNew sv env q (v\<lparr>w_store := s'\<rparr>)))))"
        using b(2) closing_steps [of "pi_ID p" "v\<lparr>w_store := s'\<rparr>"] unfolding created_trace_def
        by (intro exI [of _ db] exI [of _ db']) (simp add: s')
      then show ?thesis unfolding wp_snd using True by (auto simp: x)
    qed
  qed
  then have "wp (CreatePayment sv cr) (\<lambda>_. ?ok') (\<lambda>_. ?ok') w"
    using start by (simp add: CreatePayment_def wp_simps wp_env newIntent_def idle_trace_def split: sum.split)
  from wp_state [OF this] show ?thesis by (simp add: steps_def)
qed

section \<open>The trace of a webhook\<close>

definition found_awaiting :: "string \<Rightarrow> (PgDB \<times> PgDB) list \<Rightarrow> bool" where
  "found_awaiting i steps \<longleftrightarrow> list_ex (\<lambda>(found, _). status_of i found = Some PaymentStatusAwaitingPayment) steps"

definition notified_trace :: "(PgDB \<times> PgDB) list \<Rightarrow> bool" where
  "notified_trace steps \<longleftrightarrow> (\<exists>i us a b vs. steps = us @ (a, b) # vs \<and> idle_trace us \<and> idle_trace vs \<and>
     sets i PaymentStatusPaid a b \<and> found_awaiting i us)"

definition settling :: "(PgDB \<times> PgDB) list \<Rightarrow> bool" where
  "settling steps \<longleftrightarrow> idle_trace steps \<or> notified_trace steps"

lemma idle_append [simp]: "idle_trace (us @ vs) \<longleftrightarrow> idle_trace us \<and> idle_trace vs"
  by (auto simp: idle_trace_def)

lemma settling_idle: "settling us \<Longrightarrow> idle_trace vs \<Longrightarrow> settling (us @ vs)"
  unfolding settling_def notified_trace_def by (metis append.assoc append_Cons idle_append)

text \<open>An inert operation keeps what is said of the steps so far.\<close>

lemma wp_idle:
  assumes "along (wextends inert) m" and P: "P (sc_done (w_store w))" and keep: "\<And>us vs. P us \<Longrightarrow> idle_trace vs \<Longrightarrow> P (us @ vs)"
    and "\<And>x w'. P (sc_done (w_store w')) \<Longrightarrow> Q x w'" and "\<And>e w'. P (sc_done (w_store w')) \<Longrightarrow> R e w'"
  shows "wp m Q R w"
proof -
  have "P (sc_done (w_store w'))" if "wextends inert w w'" for w'
    using that keep [OF P] unfolding extends_def idle_trace_def by (elim exE conjE) simp
  then show ?thesis by (intro wp_extends [OF assms(1) extends.refl]) (auto intro: assms(4,5))
qed

definition awaiting :: "string \<Rightarrow> (PgDB \<times> PgDB) list \<Rightarrow> bool" where
  "awaiting i steps \<longleftrightarrow> idle_trace steps \<and> found_awaiting i steps"

lemma awaiting_idle: "awaiting i us \<Longrightarrow> idle_trace vs \<Longrightarrow> awaiting i (us @ vs)"
  by (simp add: awaiting_def found_awaiting_def)

lemma awaiting_settling: "awaiting i us \<Longrightarrow> settling us"
  by (simp add: awaiting_def settling_def)

lemmas inert_steps = inert_repository [where S = inert]

lemma wp_merchantEvents:
  assumes "\<And>es w'. w_store w' = w_store w \<Longrightarrow> list_all (\<lambda>e. me_PaymentIntentID e = pi_ID p) es \<Longrightarrow> Q es w'"
    and "\<And>e w'. w_store w' = w_store w \<Longrightarrow> R e w'"
  shows "wp (paymentMerchantEvents sv p t) Q R w"
  unfolding paymentMerchantEvents_def newMerchantEvent_def
  by (auto simp: wp_simps wp_env assms split: option.split)

lemma wp_MarkPaid_trace:
  assumes sv: "scripted_service lib pc opts sv" and p: "pi_Status p = PaymentStatusPaid" "pi_ID p = i"
    and es: "list_all (\<lambda>e. me_PaymentIntentID e = pi_ID p) es" and at: "awaiting i (sc_done (w_store w))"
    and Q: "\<And>x w'. settling (sc_done (w_store w')) \<Longrightarrow> Q x w'" and R: "\<And>e w'. settling (sc_done (w_store w')) \<Longrightarrow> R e w'"
  shows "wp (run_store (MarkPaymentPaidWithEvents (sv_repo sv) p rec es)) Q R w"
proof -
  have repo: "MarkPaymentPaidWithEvents (sv_repo sv) p rec es = scripted (pg_MarkPaymentPaidWithEvents lib p rec es)"
    using sv by (simp add: scripted_service_def scripted_repository_def pg_repository_def)
  have "settling (sc_done s')" if s: "scripted (pg_MarkPaymentPaidWithEvents lib p rec es) (w_store w) = (r, s')" for r s'
  proof (cases "sc_seen (w_store w)")
    case Nil
    then show ?thesis using s at by (simp add: scripted_def awaiting_settling)
  next
    case (Cons db rest)
    then obtain db' where "pg_MarkPaymentPaidWithEvents lib p rec es db = (r, db')" "sc_done s' = sc_done (w_store w) @ [(db, db')]"
      using s by (auto simp: scripted_def split: prod.splits)
    then show ?thesis using sets_paid [OF p(1) es, of db lib rec] at p(2)
      unfolding settling_def notified_trace_def awaiting_def idle_trace_def by fastforce
  qed
  then show ?thesis unfolding repo by (intro wp_run_store) (auto intro: Q R)
qed

lemma wp_MarkPaidWithOutbox_trace:
  assumes sv: "scripted_service lib pc opts sv" and start: "idle_trace (sc_done (w_store w))"
    and Q: "\<And>x w'. settling (sc_done (w_store w')) \<Longrightarrow> Q x w'" and R: "\<And>e w'. settling (sc_done (w_store w')) \<Longrightarrow> R e w'"
  shows "wp (MarkPaidWithOutbox sv pid aid) Q R w"
proof -
  have repo: "GetPayment (sv_repo sv) = (\<lambda>i. scripted (pg_GetPayment i))"
    using sv by (simp add: scripted_service_def scripted_repository_def pg_repository_def)
  have gets: "inert db (snd (pg_GetPayment pid db))" for db by (rule alongD [OF inert_statements(2)])
  have attempt: "along (wextends inert) (run_store (GetAttempt (sv_repo sv) i))" for i by (rule inert_steps(6) [OF sv])
  have attempts: "along (wextends inert) (run_store (ListAttempts (sv_repo sv) i))" for i by (rule inert_steps(8) [OF sv])
  note steps = wp_idle [where P = "awaiting pid", OF attempt] wp_idle [where P = "awaiting pid", OF attempts] wp_merchantEvents
    wp_MarkPaid_trace [OF sv, where i = pid]
  show ?thesis
    unfolding MarkPaidWithOutbox_def wp_bind repo
  proof (rule wp_run_store, goal_cases)
    case s: (1 q s')
    obtain db db' where run: "pg_GetPayment pid db = (Inr q, db')" and s': "sc_done s' = sc_done (w_store w) @ [(db, db')]"
      using s by (auto simp: scripted_def split: list.splits prod.splits)
    have row: "find (\<lambda>p. pi_ID p = pid) (db_payments db) = Some q"
      using statement_Inr [OF run [unfolded pg_GetPayment_def]] by simp
    have id: "pi_ID q = pid" using find_Some_iff2 [OF row] by simp
    have idle: "idle_trace (sc_done s')" using start gets [of db] run by (simp add: s' idle_trace_def)
    have await: "awaiting pid (sc_done s')" if "pi_Status q = PaymentStatusAwaitingPayment"
      using idle that row by (simp add: awaiting_def found_awaiting_def s' status_of_def)
    have kept: "settling (sc_done s')" using idle by (simp add: settling_def)
    show ?case
      by (auto simp: wp_simps wp_env Let_def id await kept Q R awaiting_idle awaiting_settling split: option.split intro!: steps)
  next
    case (2 e s')
    then have "idle_trace (sc_done s')" using start gets
      by (auto simp: scripted_def idle_trace_def split: list.splits prod.splits) (metis snd_conv)
    then show ?case by (intro R) (simp add: settling_def)
  qed
qed

lemma ProcessProviderWebhook_trace:
  assumes sv: "scripted_service lib pc opts sv" and start: "sc_done (w_store w) = []"
  shows "settling (sc_done (w_store (snd (ProcessProviderWebhook sv conn wr w))))"
proof -
  let ?ok = "\<lambda>w. settling (sc_done (w_store w))"
  have connection: "along (wextends inert) (run_store (GetProviderConnection (sv_repo sv) i))" for i by (rule inert_steps(3) [OF sv])
  have event: "along (wextends inert) (run_store (RecordProviderEvent (sv_repo sv) e))" for e by (rule inert_steps(9) [OF sv])
  have find: "along (wextends inert) (run_store (GetAttemptByProviderPaymentID (sv_repo sv) c i))" for c i by (rule inert_steps(7) [OF sv])
  have mark: "along (wextends inert) (run_store (MarkProviderEventProcessed (sv_repo sv) c x t))" for c x t by (rule inert_steps(10) [OF sv])
  note steps = wp_idle [where P = idle_trace, OF connection] wp_idle [where P = idle_trace, OF event] wp_idle [where P = idle_trace, OF find]
    wp_idle [where P = settling, OF mark] wp_MarkPaidWithOutbox_trace [OF sv]
  have parse: "wp (callParseWebhook g wr) Q R v \<longleftrightarrow> (case g (w_tick v) wr of Inl e \<Rightarrow> R e (step_tick v) | Inr x \<Rightarrow> Q x (step_tick v))"
    for g Q R and v :: "script world"
    by (simp add: wp_def callParseWebhook_def)
  have none: "idle_trace []" by (simp add: idle_trace_def)
  have idle: "settling us" if "idle_trace us" for us using that by (simp add: settling_def)
  have "wp (ProcessProviderWebhook sv conn wr) (\<lambda>_. ?ok) (\<lambda>_. ?ok) w"
    unfolding ProcessProviderWebhook_def settleWebhook_def
    by (auto simp: wp_simps wp_env parse start none idle settling_idle split: sum.split option.split intro!: steps)
  then show ?thesis by (rule wp_state)
qed

lemma along_idle: "along (wextends inert) m \<Longrightarrow> sc_done (w_store w) = [] \<Longrightarrow> idle_trace (sc_done (w_store (snd (m w))))"
  using alongD [of "wextends inert" m w] by (auto simp: extends_def idle_trace_def)

lemma queries_trace:
  assumes "scripted_service lib pc opts sv"
  shows "along (wextends inert) (queryPayment sv ws env pid)" and "along (wextends inert) (ListPaymentAttempts sv ws env pid)"
proof -
  have get: "along (wextends inert) (run_store (GetPayment (sv_repo sv) i))" for i by (rule inert_steps(1) [OF assms])
  have env: "along (wextends inert) (run_store (GetPaymentEnvironment (sv_repo sv) i))" for i by (rule inert_steps(11) [OF assms])
  have attempts: "along (wextends inert) (run_store (ListAttempts (sv_repo sv) i))" for i by (rule inert_steps(8) [OF assms])
  show query: "along (wextends inert) (queryPayment sv ws env pid)" for ws env
    unfolding queryPayment_def by (intro along_intros get env)
  show "along (wextends inert) (ListPaymentAttempts sv ws env pid)"
    unfolding ListPaymentAttempts_def by (intro along_intros query attempts)
qed

lemma call_trace:
  assumes "scripted_service lib pc opts (cl_service c)"
  shows "settling (call_steps c) \<or> (\<exists>i. created_trace i (call_steps c))"
proof (cases "cl_request c")
  case (Create cr)
  then show ?thesis using CreatePayment_trace [OF assms, of "call_start c" cr]
    by (auto simp: call_steps_def served_call_def serve_def settling_def call_start_def)
next
  case (Notify conn wr)
  then show ?thesis using ProcessProviderWebhook_trace [OF assms, of "call_start c" conn wr]
    by (simp add: call_steps_def served_call_def serve_def call_start_def)
next
  case (Fetch ws env pid)
  then show ?thesis using along_idle [OF queries_trace(1) [OF assms], of "call_start c" ws env pid]
    by (simp add: call_steps_def served_call_def serve_def settling_def call_start_def)
next
  case (Attempts ws env pid)
  then show ?thesis using along_idle [OF queries_trace(2) [OF assms], of "call_start c" ws env pid]
    by (simp add: call_steps_def served_call_def serve_def settling_def call_start_def)
qed

section \<open>What the traces say of one payment\<close>

lemma split_at: "xs @ x # ys = us @ y # vs \<Longrightarrow> y \<notin> set xs \<Longrightarrow> y \<notin> set ys \<Longrightarrow> us = xs \<and> y = x \<and> vs = ys"
  by (induction xs arbitrary: us) (auto simp: Cons_eq_append_conv)

lemma settled_change: "\<not> settled_in pid a \<Longrightarrow> settled_in pid b \<Longrightarrow> status_of pid b \<noteq> status_of pid a"
  by (auto simp: settled_in_def)

lemma works_unsettled: "works i a b \<Longrightarrow> settled_in pid b \<Longrightarrow> settled_in pid a"
  unfolding works_def sets_def settled_in_def by (metis option.inject)

lemma begins_unsettled: "begins i a b \<Longrightarrow> settled_in pid b \<Longrightarrow> settled_in pid a"
  by (cases "pid = i") (simp_all add: begins_def settled_in_def)

text \<open>A call that has not created the payment only ever makes it paid.\<close>

definition same_or_paid :: "string \<Rightarrow> PgDB \<times> PgDB \<Rightarrow> bool" where
  "same_or_paid pid = (\<lambda>(a, b). status_of pid b = status_of pid a \<or> paid pid b)"

lemma trace_all:
  assumes "settling steps \<or> created_trace i steps"
    and inert: "\<And>a b. inert a b \<Longrightarrow> P (a, b)" and paid: "\<And>j a b. sets j PaymentStatusPaid a b \<Longrightarrow> P (a, b)"
    and creation: "\<And>a b st. (a, b) \<in> set steps \<Longrightarrow> created_trace i steps \<Longrightarrow> begins i a b \<or> (st \<noteq> PaymentStatusPaid \<and> sets i st a b) \<Longrightarrow> P (a, b)"
  shows "list_all P steps"
  using assms(1)
proof
  have idle: "list_all P us" if "idle_trace us" for us using that inert by (auto simp: idle_trace_def list_all_iff)
  assume "settling steps"
  then show ?thesis
  proof (unfold settling_def notified_trace_def, elim disjE exE conjE)
    fix j us a b vs assume t: "steps = us @ (a, b) # vs" "idle_trace us" "idle_trace vs" "sets j PaymentStatusPaid a b"
    show ?thesis using idle [OF t(2)] idle [OF t(3)] paid [OF t(4)] by (simp add: t(1))
  qed (rule idle)
next
  assume c: "created_trace i steps"
  then obtain db db' mid fin where t: "steps = (db, db') # mid @ fin" "begins i db db'" "list_all (\<lambda>(a, b). works i a b) mid"
    "fin = [] \<or> (\<exists>a b. fin = [(a, b)] \<and> sets i PaymentStatusAwaitingPayment a b)"
    unfolding created_trace_def by blast
  have "P (a, b)" if "(a, b) \<in> set mid" for a b
    using that t(3) creation [OF _ c, of a b] by (auto simp: t(1) list_all_iff works_def)
  moreover have "P (a, b)" if "(a, b) \<in> set fin" for a b
    using that t(4) creation [OF _ c, of a b PaymentStatusAwaitingPayment] by (auto simp: t(1))
  moreover have "P (db, db')" using t(2) creation [OF _ c, of db db'] by (simp add: t(1))
  ultimately show ?thesis by (auto simp: t(1) list_all_iff)
qed

lemma trace_other:
  assumes "settling steps \<or> created_trace i steps" and "\<not> list_ex (born (\<lambda>db. exists_payment db pid)) steps"
  shows "list_all (same_or_paid pid) steps"
proof (rule trace_all [OF assms(1)])
  fix a b st assume c: "created_trace i steps" and b: "begins i a b \<or> (st \<noteq> PaymentStatusPaid \<and> sets i st a b)"
  obtain db db' mid fin where "steps = (db, db') # mid @ fin" "begins i db db'" using c unfolding created_trace_def by blast
  then have "pid \<noteq> i" using assms(2) by (auto simp: list_ex_iff born_def exists_status begins_def)
  then show "same_or_paid pid (a, b)" using b by (auto simp: same_or_paid_def begins_def sets_def)
qed (auto simp: same_or_paid_def inert_def sets_def paid_def)

text \<open>A payment comes to be settled by the last step of a call, which presents it, or after the call has found it settled.\<close>

lemma trace_settles:
  assumes "settling steps \<or> created_trace i steps" and "steps = us @ (a, b) # vs" and "\<not> settled_in pid a" and "settled_in pid b"
  shows "vs = [] \<and> \<not> paid pid b \<or> list_ex (\<lambda>(found, _). settled_in pid found) us"
  using assms(1)
proof
  assume "settling steps"
  have change: "\<not> inert a b" using settled_change [OF assms(3,4)] by (auto simp: inert_def)
  have out: "(a, b) \<notin> set xs" if "idle_trace xs" for xs using that change by (auto simp: idle_trace_def list_all_iff)
  have "\<not> idle_trace steps" using out [of steps] assms(2) by auto
  then have "notified_trace steps" using \<open>settling steps\<close> by (simp add: settling_def)
  then obtain j us' a' b' vs' where t: "steps = us' @ (a', b') # vs'" "idle_trace us'" "idle_trace vs'" "sets j PaymentStatusPaid a' b'"
    "found_awaiting j us'" unfolding notified_trace_def by blast
  have "us' @ (a', b') # vs' = us @ (a, b) # vs" using t(1) assms(2) by simp
  then have at: "us = us' \<and> (a, b) = (a', b') \<and> vs = vs'" by (rule split_at [OF _ out [OF t(2)] out [OF t(3)]])
  then have "j = pid" using t(4) settled_change [OF assms(3,4)] by (auto simp: sets_def)
  then show ?thesis using t(5) at by (auto simp: found_awaiting_def settled_in_def list_ex_iff)
next
  assume "created_trace i steps"
  then obtain db db' mid fin where steps: "steps = (db, db') # mid @ fin" and b: "begins i db db'"
    and mid: "list_all (\<lambda>(a, b). works i a b) mid" and fin: "fin = [] \<or> (\<exists>a b. fin = [(a, b)] \<and> sets i PaymentStatusAwaitingPayment a b)"
    unfolding created_trace_def by blast
  have "works i a b" if "(a, b) \<in> set mid" using that mid by (auto simp: list_all_iff)
  then have early: "(a, b) \<notin> set ((db, db') # mid)" using assms(3,4) works_unsettled begins_unsettled [OF b] by auto
  have "(a, b) \<in> set steps" using assms(2) by simp
  then have last: "fin = [(a, b)]" "sets i PaymentStatusAwaitingPayment a b" using early fin by (auto simp: steps)
  have "((db, db') # mid) @ (a, b) # [] = us @ (a, b) # vs" using assms(2) last(1) by (simp add: steps)
  then have "vs = []" using split_at [OF _ early, of _ "[]"] by simp
  moreover have "\<not> paid pid b" using last(2) settled_change [OF assms(3,4)] by (auto simp: sets_def paid_def)
  ultimately show ?thesis by blast
qed

definition tells :: "string \<Rightarrow> PgDB \<times> PgDB \<Rightarrow> bool" where
  "tells pid = (\<lambda>(a, b). announced pid b \<longrightarrow> announced pid a \<or> paid pid b)"

lemma trace_tells:
  assumes "settling steps \<or> created_trace i steps"
  shows "list_all (tells pid) steps"
  by (rule trace_all [OF assms]) (auto simp: tells_def inert_def sets_def begins_def announced_def)

section \<open>Histories\<close>

fun stays :: "(PgDB \<Rightarrow> bool) \<Rightarrow> PgDB list \<Rightarrow> bool" where
  "stays P [] \<longleftrightarrow> True"
| "stays P (db # dbs) \<longleftrightarrow> (P db \<longrightarrow> list_all P dbs) \<and> stays P dbs"

definition lefts :: "event list \<Rightarrow> PgDB list" where
  "lefts es = map (\<lambda>(k, found, left). left) es"

lemma lefts_simps [simp]: "lefts [] = []" "lefts ((k, a, b) # es) = b # lefts es" "lefts (es @ es') = lefts es @ lefts es'"
  by (simp_all add: lefts_def)

lemma core_status: "same_core db db' \<Longrightarrow> status_of pid db' = status_of pid db"
  by (simp add: same_core_def status_of_def)

lemma core_settled: "same_core db db' \<Longrightarrow> settled_in pid db' = settled_in pid db"
  by (simp add: settled_in_def core_status)

lemma core_announced: "same_core db db' \<Longrightarrow> announced pid db' = announced pid db"
  by (simp add: same_core_def announced_def)

lemma stays_false: "list_all (\<lambda>db. \<not> P db) dbs \<Longrightarrow> stays P dbs"
  by (induction dbs) auto

lemma stays_append: "list_all (\<lambda>db. \<not> P db) dbs \<Longrightarrow> stays P dbs' \<Longrightarrow> stays P (dbs @ dbs')"
  by (induction dbs) auto

lemma linked_paid:
  assumes "linked db es" and "list_all (\<lambda>(k, step). same_or_paid pid step) es"
  shows "stays (paid pid) (db # lefts es)"
  using assms
proof (induction db es rule: linked.induct)
  case (2 db k found left es)
  have "paid pid db \<Longrightarrow> paid pid left" using 2(2,3) by (auto simp: same_or_paid_def paid_def core_status)
  then show ?case using 2 by auto
qed simp

lemma linked_unsettled:
  assumes "linked db (xs @ (k, a, b) # ys)" and "\<not> settled_in pid db" and "list_all (\<lambda>db. \<not> settled_in pid db) (lefts xs)"
  shows "\<not> settled_in pid a \<and> list_all (\<lambda>(k, found, left). \<not> settled_in pid found) xs \<and> linked b ys"
  using assms
proof (induction xs arbitrary: db)
  case (Cons e xs)
  obtain j found left where e: "e = (j, found, left)" by (cases e)
  have "\<not> settled_in pid found" using Cons(2,3) core_settled [of db found pid] by (auto simp: e)
  then show ?case using Cons(1) [of left] Cons(2-4) by (simp add: e)
qed (auto simp: core_settled)

lemma linked_tells:
  assumes "linked db es" and "list_all (\<lambda>(k, step). tells pid step) es" and "stays (paid pid) (db # lefts es)"
    and "announced pid db \<Longrightarrow> paid pid db"
  shows "list_all (\<lambda>db. announced pid db \<longrightarrow> paid pid db) (lefts es)"
  using assms
proof (induction db es rule: linked.induct)
  case (2 db k found left es)
  then have "announced pid left \<Longrightarrow> paid pid left" by (auto simp: tells_def core_announced)
  then show ?case using 2 by simp
qed simp

text \<open>
  The first step that settles the payment is the last one of the call that has created it; the calls
  that still run are others.
\<close>

lemma history_trace:
  assumes "list_all (\<lambda>c. scripted_service lib pc opts (cl_service c)) calls" and "k < length calls"
  obtains i where "settling (call_steps (calls ! k)) \<or> created_trace i (call_steps (calls ! k))"
  using call_trace [of lib pc opts "calls ! k"] assms by (auto simp: list_all_iff)

lemma first_settled:
  assumes sv: "list_all (\<lambda>c. scripted_service lib pc opts (cl_service c)) calls" and h: "history calls empty_db (xs @ (k, a, b) # ys)"
    and first: "settled_in pid b" "list_all (\<lambda>db. \<not> settled_in pid db) (lefts xs)"
  shows "filter (\<lambda>e. fst e = k) ys = []" and "\<not> paid pid b" and "linked b ys"
    and "list_ex (born (\<lambda>db. exists_payment db pid)) (call_steps (calls ! k))"
proof -
  note steps = history_steps [OF h, of k a b, simplified]
  have "linked empty_db (xs @ (k, a, b) # ys)" using h by (simp add: history_def)
  from linked_unsettled [OF this _ first(2)]
  have at: "\<not> settled_in pid a" "list_all (\<lambda>(k, found, left). \<not> settled_in pid found) xs" and ys: "linked b ys"
    by (auto simp: settled_in_def status_of_def empty_db_def)
  have split: "call_steps (calls ! k) = map snd (filter (\<lambda>e. fst e = k) xs) @ (a, b) # map snd (filter (\<lambda>e. fst e = k) ys)"
    using steps(3) by simp
  obtain i where i: "settling (call_steps (calls ! k)) \<or> created_trace i (call_steps (calls ! k))"
    by (rule history_trace [OF sv steps(1)])
  have "\<not> list_ex (\<lambda>(found, _). settled_in pid found) (map snd (filter (\<lambda>e. fst e = k) xs))"
    using at(2) by (auto simp: list_ex_iff list_all_iff)
  then have out: "filter (\<lambda>e. fst e = k) ys = []" "\<not> paid pid b"
    using trace_settles [OF i split at(1)] first(1) by auto
  have "\<not> same_or_paid pid (a, b)"
    using settled_change [OF at(1)] first(1) out(2) by (simp add: same_or_paid_def)
  then have "list_ex (born (\<lambda>db. exists_payment db pid)) (call_steps (calls ! k))"
    using trace_other [OF i] steps(2) by (auto simp: list_all_iff)
  then show "filter (\<lambda>e. fst e = k) ys = []" "\<not> paid pid b" "linked b ys"
    "list_ex (born (\<lambda>db. exists_payment db pid)) (call_steps (calls ! k))" using out ys by blast+
qed

lemma history_stays:
  assumes sv: "list_all (\<lambda>c. scripted_service lib pc opts (cl_service c)) calls" and h: "history calls empty_db es"
  shows "stays (paid pid) (lefts es)"
proof (cases "\<exists>e\<in>set es. settled_in pid (snd (snd e))")
  case False
  then have "list_all (\<lambda>db. \<not> paid pid db) (lefts es)" by (auto simp: lefts_def list_all_iff settled_in_def paid_def)
  then show ?thesis by (rule stays_false)
next
  case True
  then obtain xs e ys where "es = xs @ e # ys" and first: "settled_in pid (snd (snd e))" "\<forall>e\<in>set xs. \<not> settled_in pid (snd (snd e))"
    using split_list_first_prop [OF True] by blast
  moreover obtain k a b where e: "e = (k, a, b)" by (cases e)
  ultimately have es: "es = xs @ (k, a, b) # ys" by simp
  have pre: "list_all (\<lambda>db. \<not> settled_in pid db) (lefts xs)" using first(2) by (auto simp: lefts_def list_all_iff)
  note settled = first_settled [OF sv h [unfolded es] first(1) [unfolded e, simplified] pre]
  have "same_or_paid pid (a', b')" if ev: "(j, a', b') \<in> set ys" for j a' b'
  proof -
    have mem: "(j, a', b') \<in> set es" "(k, a, b) \<in> set es" using ev by (simp_all add: es)
    note j = history_steps(1) [OF h mem(1)] and k = history_steps(1) [OF h mem(2)]
    have "j \<noteq> k" using ev settled(1) by (auto simp: filter_empty_conv)
    then have born: "\<not> list_ex (born (\<lambda>db. exists_payment db pid)) (call_steps (calls ! j))"
      using one_birth [OF h sv _ k settled(4) j] grows_exists by blast
    obtain i where "settling (call_steps (calls ! j)) \<or> created_trace i (call_steps (calls ! j))"
      by (rule history_trace [OF sv j])
    from trace_other [OF this born] show ?thesis using history_steps(2) [OF h mem(1)] by (auto simp: list_all_iff)
  qed
  then have "stays (paid pid) (b # lefts ys)" by (intro linked_paid [OF settled(3)]) (auto simp: list_all_iff)
  moreover have "list_all (\<lambda>db. \<not> paid pid db) (lefts xs)" using pre by (simp add: list_all_iff settled_in_def paid_def)
  ultimately show ?thesis unfolding es using stays_append by simp
qed

section \<open>A webhook for the witness\<close>

text \<open>The provider's webhook about the payment of the first request.\<close>

definition script_webhook :: WebhookRequest where
  "script_webhook = \<lparr>wr_Headers = [], wr_Body = CHR ''p'' # CHR ''p'' # demo_ids 14 ''pa''\<rparr>"

definition script_presented :: PgDB where
  "script_presented = script_db [script_awaiting] [script_paid_att] [script_dec]"

definition script_pev :: ProviderEvent where
  "script_pev = \<lparr>pe_ID = demo_ids 53 ''pev'', pe_ProviderConnectionID = ''b'', pe_ExternalEventID = ''e1'', pe_EventType = ''payment.paid'',
     pe_ProviderPaymentID = CHR ''p'' # CHR ''p'' # demo_ids 14 ''pa'',
     pe_PayloadHash = EncodeToString (Sum256 (map byte (CHR ''p'' # CHR ''p'' # demo_ids 14 ''pa''))), pe_ReceivedAt = 5000, pe_ProcessedAt = None\<rparr>"

definition script_recorded :: PgDB where
  "script_recorded = script_presented\<lparr>db_providerEvents := [script_pev]\<rparr>"

definition script_settled :: PaymentIntent where
  "script_settled = script_awaiting\<lparr>pi_Status := PaymentStatusPaid, pi_PaidAt := Some 5000\<rparr>"

lemma Marshal_JMap: "list_all (\<lambda>(k, v). Marshal v \<noteq> None) kvs \<Longrightarrow> Marshal (JMap kvs) \<noteq> None"
  using those_snd_Some [of "sort_key fst (map (\<lambda>(k, v). (k, Marshal v)) kvs)"] by (fastforce simp: list_all_iff)

lemma newMerchantEvent_value:
  assumes "format_rfc3339 t \<noteq> None"
  shows "\<exists>e. newMerchantEvent sv p ty key t w = (Inr e, step_tick w) \<and> me_PaymentIntentID e = pi_ID p \<and> me_CreatedAt e = t"
proof -
  let ?data = "JMap
          [(''payment_id'', JString (pi_ID p)), (''merchant_order_id'', JString (pi_MerchantOrderID p)), (''amount'', JInt (pi_Amount p)),
           (''currency'', JString (pi_Currency p)), (''status'', JString (payment_status_text (pi_Status p))),
           (''recovered'', JBool (pi_Recovered p)), (''recovered_amount'', JInt (pi_RecoveredAmount p))]"
  let ?i = "sv_ids sv (w_tick w) ''evt''"
  have "Marshal ?data \<noteq> None" by (rule Marshal_JMap) simp
  then have "Marshal (JMap [(''id'', JString ?i), (''type'', JString ty), (''created_at'', JTime t), (''data'', ?data)]) \<noteq> None"
    using assms by (intro Marshal_JMap) (simp del: Marshal.simps(7))
  then obtain payload where "Marshal (JMap [(''id'', JString ?i), (''type'', JString ty), (''created_at'', JTime t), (''data'', ?data)]) = Some payload"
    by (metis not_None_eq)
  then show ?thesis
    by (simp add: newMerchantEvent_def bindE_def NewID_def returnE_def del: Marshal.simps(7))
qed

lemma rfc3339_start: "format_rfc3339 5000 \<noteq> None"
proof -
  have "civil (5000 div second div 86400) = (1, 1, 1)"
    unfolding civil_def second_def nanosecond_def Let_def by simp
  then show ?thesis unfolding format_rfc3339_def Let_def by (simp only: prod.case split: if_split) simp
qed

definition script_message :: MerchantEvent where
  "script_message = (case fst (newMerchantEvent script_service script_settled ''payment.paid'' (''payment.paid:'' @ demo_ids 11 ''pi'') 5000
     \<lparr>w_store = \<lparr>sc_seen = [], sc_done = []\<rparr>, w_tick = 55, w_calls = []\<rparr>) of Inr e \<Rightarrow> e | Inl _ \<Rightarrow> undefined)"

lemma newMerchantEvent_store: "newMerchantEvent sv p ty key t (w\<lparr>w_store := s, w_calls := cs\<rparr>) =
   (case newMerchantEvent sv p ty key t w of (r, w') \<Rightarrow> (r, w'\<lparr>w_store := s, w_calls := cs\<rparr>))"
  unfolding newMerchantEvent_def bindE_def NewID_def returnE_def throwE_def step_tick_def by (simp del: Marshal.simps split: option.split)

lemma script_message_made:
  "newMerchantEvent script_service script_settled ''payment.paid'' (''payment.paid:'' @ demo_ids 11 ''pi'') 5000
     \<lparr>w_store = s, w_tick = 55, w_calls = cs\<rparr> = (Inr script_message, \<lparr>w_store = s, w_tick = 56, w_calls = cs\<rparr>)"
  "me_PaymentIntentID script_message = demo_ids 11 ''pi''" "me_CreatedAt script_message = 5000"
proof -
  let ?w = "\<lparr>w_store = \<lparr>sc_seen = [], sc_done = []\<rparr>, w_tick = 55, w_calls = []\<rparr>"
  obtain e where e: "newMerchantEvent script_service script_settled ''payment.paid'' (''payment.paid:'' @ demo_ids 11 ''pi'') 5000 ?w =
     (Inr e, step_tick ?w)" "me_PaymentIntentID e = pi_ID script_settled" "me_CreatedAt e = 5000" using newMerchantEvent_value [OF rfc3339_start] by blast
  have w: "\<lparr>w_store = s, w_tick = 55, w_calls = cs\<rparr> = ?w\<lparr>w_store := s, w_calls := cs\<rparr>" by simp
  have m: "script_message = e" by (simp only: script_message_def e fst_conv sum.case)
  show "newMerchantEvent script_service script_settled ''payment.paid'' (''payment.paid:'' @ demo_ids 11 ''pi'') 5000
     \<lparr>w_store = s, w_tick = 55, w_calls = cs\<rparr> = (Inr script_message, \<lparr>w_store = s, w_tick = 56, w_calls = cs\<rparr>)"
    unfolding w newMerchantEvent_store e m prod.case by (simp add: step_tick_def)
  show "me_PaymentIntentID script_message = demo_ids 11 ''pi''" by (simp add: m e script_settled_def script_rows newIntent_def)
  show "me_CreatedAt script_message = 5000" by (simp add: m e)
qed

definition script_announced :: PgDB where
  "script_announced = script_recorded\<lparr>db_payments := [script_settled], db_merchantEvents := [script_message]\<rparr>"

definition script_notified :: PgDB where
  "script_notified = script_announced\<lparr>db_providerEvents := [script_pev\<lparr>pe_ProcessedAt := Some 5000\<rparr>]\<rparr>"

lemma notify_statements:
  "pg_GetProviderConnection ''b'' script_presented = (Inr script_conn, script_presented)"
  "pg_RecordProviderEvent script_pev script_presented = (Inr True, script_recorded)"
  "pg_GetAttemptByProviderPaymentID ''b'' (CHR ''p'' # CHR ''p'' # demo_ids 14 ''pa'') script_recorded = (Inr script_paid_att, script_recorded)"
  "pg_GetPayment (demo_ids 11 ''pi'') script_recorded = (Inr script_awaiting, script_recorded)"
  "pg_GetAttempt (demo_ids 14 ''pa'') script_recorded = (Inr script_paid_att, script_recorded)"
  "pg_ListAttempts (demo_ids 11 ''pi'') script_recorded = (Inr [script_paid_att], script_recorded)"
  by (simp_all add: script_ops script_rows script_pev_def script_recorded_def script_presented_def pg_GetProviderConnection_def
      pg_RecordProviderEvent_def pg_GetAttemptByProviderPaymentID_def pg_GetPayment_def pg_GetAttempt_def external_event_def)

lemma notify_statements2:
  "pg_MarkPaymentPaidWithEvents demo_lib script_settled None [script_message] script_recorded = (Inr (), script_announced)"
  "pg_MarkProviderEventProcessed ''b'' ''e1'' 5000 script_announced = (Inr (), script_notified)"
  using script_message_made(2,3)
  by (simp_all add: script_ops script_rows script_settled_def script_pev_def script_recorded_def script_presented_def script_announced_def
      script_notified_def pg_MarkPaymentPaidWithEvents_def insertMerchantEvent_def pg_MarkProviderEventProcessed_def external_event_def)

definition script_third :: call where
  "script_third = \<lparr>cl_service = script_service, cl_request = Notify ''b'' script_webhook, cl_tick = 50,
     cl_seen = [script_presented, script_presented, script_recorded, script_recorded, script_recorded, script_recorded, script_recorded,
       script_announced]\<rparr>"

definition script_notices :: "(PgDB \<times> PgDB) list" where
  "script_notices = [(script_presented, script_presented), (script_presented, script_recorded),
     (script_recorded, script_recorded), (script_recorded, script_recorded), (script_recorded, script_recorded),
     (script_recorded, script_recorded), (script_recorded, script_announced), (script_announced, script_notified)]"

lemma notify_values:
  "script_awaiting\<lparr>pi_Status := PaymentStatusPaid, pi_PaidAt := Some 5000, pi_UpdatedAt := 5000\<rparr> = script_settled"
  "pi_ID script_awaiting = demo_ids 11 ''pi''" "pi_Status script_awaiting = PaymentStatusAwaitingPayment" "pi_PresentedAttemptID script_awaiting = demo_ids 14 ''pa''"
  "pa_PaymentIntentID script_paid_att = demo_ids 11 ''pi''" "pa_ID script_paid_att = demo_ids 14 ''pa''"
  "pa_Status script_paid_att = AttemptStatusSucceeded" "pi_ID script_settled = demo_ids 11 ''pi''" "\<not> pi_Recovered script_settled"
  "failedBefore script_paid_att [script_paid_att] = None" "wr_Body script_webhook = CHR ''p'' # CHR ''p'' # demo_ids 14 ''pa''"
  by (simp_all add: script_rows script_settled_def newIntent_def newAttempt_def failedBefore_def script_webhook_def)

lemma script_pev_fold: "\<lparr>pe_ID = demo_ids 53 ''pev'', pe_ProviderConnectionID = ''b'', pe_ExternalEventID = ''e1'', pe_EventType = ''payment.paid'',
     pe_ProviderPaymentID = CHR ''p'' # CHR ''p'' # demo_ids 14 ''pa'',
     pe_PayloadHash = EncodeToString (Sum256 (112 # 112 # map byte (demo_ids 14 ''pa''))), pe_ReceivedAt = 5000, pe_ProcessedAt = None\<rparr> = script_pev"
  by (simp add: script_pev_def)

lemma notify_parts:
  "GetProviderConnection (sv_repo script_service) i = scripted (pg_GetProviderConnection i)"
  "RecordProviderEvent (sv_repo script_service) e = scripted (pg_RecordProviderEvent e)"
  "GetAttemptByProviderPaymentID (sv_repo script_service) c i = scripted (pg_GetAttemptByProviderPaymentID c i)"
  "GetPayment (sv_repo script_service) i = scripted (pg_GetPayment i)" "GetAttempt (sv_repo script_service) i = scripted (pg_GetAttempt i)"
  "MarkPaymentPaidWithEvents (sv_repo script_service) p r es = scripted (pg_MarkPaymentPaidWithEvents demo_lib p r es)"
  "MarkProviderEventProcessed (sv_repo script_service) c i t = scripted (pg_MarkProviderEventProcessed c i t)"
  by (simp_all add: script_service_def scripted_repository_def pg_repository_def)

lemmas notify_run = call_steps_def served_call_def serve_def call_start_def ProcessProviderWebhook_def settleWebhook_def
  MarkPaidWithOutbox_def paymentMerchantEvents_def callParseWebhook_def Now_def NewID_def Resolve_def step_tick_def bindE_def liftE_def
  returnE_def tryE_def Let_def run_scripted demo_connector_def script_service_parts notify_parts notify_values script_pev_fold
  notify_statements notify_statements2 script_message_made [simplified append_Cons append_Nil]

lemma script_third_run: "call_steps script_third = script_notices"
  by (simp add: script_third_def script_notices_def notify_run)

definition script_all :: "call list" where
  "script_all = [script_first, script_second, script_third]"

definition script_finale :: "event list" where
  "script_finale = script_events @ map (Pair 2) script_notices"

lemma finale_history: "history script_all empty_db script_finale"
  by (simp add: history_def script_all_def script_finale_def script_events_def script_first_run script_second_run script_third_run
      script_steps_def script_notices_def Let_def)
    (simp add: same_core_def script_presented_def script_recorded_def script_announced_def script_db_def empty_db_def upt_rec)

lemma finale_services: "list_all (\<lambda>c. scripted_service demo_lib (\<lambda>_. hd) demo_telemetry (cl_service c)) script_all"
  using script_services by (simp add: script_all_def scripted_service_def script_third_def script_service_def)

section \<open>Properties\<close>

text \<open>
  C12.  Settlement is final under concurrency.  However the statements of any number of calls interleave, from an
  empty database on, with creations, repeated creations, webhooks and queries of one payment at work
  at once and any of them losing the database: a payment that is paid once stays paid, and whenever the outbox
  holds an event about a payment, the payment is paid.
\<close>

theorem paid_is_final:
  assumes "list_all (\<lambda>c. scripted_service lib pc opts (cl_service c)) calls" and "history calls empty_db es"
  shows "stays (paid pid) (lefts es) \<and> list_all (\<lambda>db. announced pid db \<longrightarrow> paid pid db) (lefts es)"
proof -
  note stays = history_stays [OF assms]
  have "tells pid (a, b)" if ev: "(k, a, b) \<in> set es" for k a b
  proof -
    obtain i where "settling (call_steps (calls ! k)) \<or> created_trace i (call_steps (calls ! k))"
      using history_trace [OF assms(1) history_steps(1) [OF assms(2) ev]] .
    then show ?thesis using trace_tells history_steps(2) [OF assms(2) ev] by (fastforce simp: list_all_iff)
  qed
  then have "list_all (\<lambda>(k, step). tells pid step) es" by (auto simp: list_all_iff)
  then have "list_all (\<lambda>db. announced pid db \<longrightarrow> paid pid db) (lefts es)"
    using stays assms(2) by (intro linked_tells [of empty_db]) (simp_all add: history_def paid_def status_of_def announced_def empty_db_def)
  then show ?thesis using stays by blast
qed

theorem paid_is_final_witness: "announced (demo_ids 11 ''pi'') (last (lefts script_finale)) \<and> paid (demo_ids 11 ''pi'') (last (lefts script_finale))"
proof -
  have last: "last (lefts script_finale) = script_notified" by (simp add: lefts_def script_finale_def script_notices_def)
  then have told: "announced (demo_ids 11 ''pi'') (last (lefts script_finale))" using script_message_made(2)
    by (simp add: announced_def script_notified_def script_announced_def)
  have "lefts script_finale \<noteq> []" by (simp add: lefts_def script_finale_def script_notices_def)
  then show ?thesis using told paid_is_final [OF finale_services finale_history, of "demo_ids 11 ''pi''"] last_in_set
    by (auto simp: list_all_iff)
qed

end
